(* ===== verification/Prelude.thy ===== *)
theory Prelude
  imports Main "HOL-Library.Word" "HOL-Library.Multiset" "HOL-Library.List_Lexorder"
    "HOL-Library.Char_ord"
begin

text \<open>
  Shared vocabulary of the development: the types that every service uses (UUIDs,
  timestamps, Python values, exceptions and results), the base rows of the database
  tables, and the generic lemmas on lists that the component theories share.

  A UUID is a 128-bit word, a timestamp is the number of microseconds since the epoch
  (UTC), a Python string is a list of characters read as the code points below 256.
\<close>

section \<open>Basic types\<close>

type_synonym uuid = "128 word"
type_synonym timestamp = int

text \<open>
  The Python values that cross the services as JSON: the bodies of requests, the ARM
  properties of a resource, the parameters of an assessment, the rows Azure returns.
  A float is kept as the text that \<open>float.__repr__\<close> prints. A dictionary is an
  association list in insertion order. \<open>JUuid\<close> is a \<open>uuid.UUID\<close> object that sits
  inside a Python dictionary without having been turned into a string.
\<close>

datatype json =
    JNull
  | JBool bool
  | JInt int
  | JFloat string
  | JStr string
  | JList "json list"
  | JDict "(string \<times> json) list"
  | JUuid uuid

text \<open>
  Exceptions: \<open>HTTPException\<close> carries the status code and the detail that FastAPI
  turns into a response; \<open>Exn\<close> is any other Python exception, by class name and message.
\<close>

datatype exn =
    HTTPException nat json
  | Exn string string

type_synonym 'a result = "exn + 'a"

abbreviation http_error :: "nat \<Rightarrow> string \<Rightarrow> exn" where
  "http_error code detail \<equiv> HTTPException code (JStr detail)"

definition status_of :: "exn \<Rightarrow> nat" where
  "status_of e = (case e of HTTPException c _ \<Rightarrow> c | Exn _ _ \<Rightarrow> 500)"

fun exn_type_name :: "exn \<Rightarrow> string" where
  "exn_type_name (HTTPException _ _) = ''HTTPException''"
| "exn_type_name (Exn c _) = c"

section \<open>Results\<close>

definition bindr :: "'a result \<Rightarrow> ('a \<Rightarrow> 'b result) \<Rightarrow> 'b result" where
  "bindr m f = (case m of Inl e \<Rightarrow> Inl e | Inr x \<Rightarrow> f x)"

text \<open>\<open>guardr b e\<close> is the \<open>if not b: raise e\<close> of the handlers.\<close>

definition guardr :: "bool \<Rightarrow> exn \<Rightarrow> unit result" where
  "guardr b e = (if b then Inr () else Inl e)"

definition of_option :: "exn \<Rightarrow> 'a option \<Rightarrow> 'a result" where
  "of_option e m = (case m of None \<Rightarrow> Inl e | Some x \<Rightarrow> Inr x)"

text \<open>A list comprehension whose element raises.\<close>

fun each_result :: "('a \<Rightarrow> 'b result) \<Rightarrow> 'a list \<Rightarrow> 'b list result" where
  "each_result f [] = Inr []"
| "each_result f (x # xs) = bindr (f x) (\<lambda>y. bindr (each_result f xs) (\<lambda>ys. Inr (y # ys)))"

named_theorems result_iff "when a chain of results returns normally, and when it raises"

lemma bindr_simps [simp]:
  "bindr (Inl e) f = Inl e"
  "bindr (Inr x) f = f x"
  by (simp_all add: bindr_def)

lemma guardr_simps [simp]:
  "guardr True e = Inr ()"
  "guardr False e = Inl e"
  by (simp_all add: guardr_def)

lemma of_option_simps [simp]:
  "of_option e None = Inl e"
  "of_option e (Some x) = Inr x"
  by (simp_all add: of_option_def)

lemma bindr_Inr_iff [result_iff]:
  "bindr m f = Inr y \<longleftrightarrow> (\<exists>x. m = Inr x \<and> f x = Inr y)"
  by (cases m) auto

lemma bindr_Inl_iff [result_iff]:
  "bindr m f = Inl e \<longleftrightarrow> m = Inl e \<or> (\<exists>x. m = Inr x \<and> f x = Inl e)"
  by (cases m) auto

lemma guardr_Inr_iff [result_iff]: "guardr b e = Inr u \<longleftrightarrow> b"
  by (simp add: guardr_def)

lemma guardr_Inl_iff [result_iff]: "guardr b e = Inl e' \<longleftrightarrow> \<not> b \<and> e' = e"
  by (auto simp: guardr_def)

lemma of_option_Inr_iff [result_iff]: "of_option e m = Inr x \<longleftrightarrow> m = Some x"
  by (cases m) auto

lemma of_option_Inl_iff [result_iff]: "of_option e m = Inl e' \<longleftrightarrow> m = None \<and> e' = e"
  by (cases m) auto

section \<open>Rows of the database tables\<close>

text \<open>
  \<open>UUIDPrimaryKeyMixin\<close>, the \<open>tenant_id\<close> column that every tenant-owned table has, and
  \<open>TimestampMixin\<close> of \<open>sentinel_common/models.py\<close>. The tables of the services extend
  these records, so \<open>row_id\<close>, \<open>tenant_id\<close> and the two stamps read any of their rows.
\<close>

record pk_row =
  row_id :: uuid

record tenant_row = pk_row +
  tenant_id :: uuid

record stamped_row = tenant_row +
  created_at :: timestamp
  updated_at :: timestamp

text \<open>
  Two clocks: \<open>func.now()\<close> of PostgreSQL is the start of the transaction, and
  \<open>datetime.now(UTC)\<close> is the process's own clock at the moment of the call.
\<close>

record clock =
  tx_now :: timestamp
  py_now :: timestamp

definition instant :: "timestamp \<Rightarrow> clock" where
  "instant now = \<lparr>tx_now = now, py_now = now\<rparr>"

definition seconds :: "int \<Rightarrow> timestamp" where
  "seconds n = n * 1000000"

definition minutes :: "int \<Rightarrow> timestamp" where
  "minutes n = seconds (60 * n)"

section \<open>Lists\<close>

text \<open>
  \<open>upd_first P f rows\<close> is the effect of loading the first row that satisfies \<open>P\<close> and
  assigning to its attributes.
\<close>

fun upd_first :: "('r \<Rightarrow> bool) \<Rightarrow> ('r \<Rightarrow> 'r) \<Rightarrow> 'r list \<Rightarrow> 'r list" where
  "upd_first P f [] = []"
| "upd_first P f (r # rs) = (if P r then f r # rs else r # upd_first P f rs)"

named_theorems row_simps "lookup and update of table rows"

lemma length_upd_first [simp]: "length (upd_first P f rs) = length rs"
  by (induction rs) auto

lemma map_upd_first [row_simps]:
  "(\<And>r. P r \<Longrightarrow> g (f r) = g r) \<Longrightarrow> map g (upd_first P f rs) = map g rs"
  by (induction rs) auto

lemma find_upd_first_same [row_simps]:
  "(\<And>r. P r \<Longrightarrow> P (f r)) \<Longrightarrow> find P (upd_first P f rs) = map_option f (find P rs)"
  by (induction rs) auto

lemma find_upd_first_other [row_simps]:
  "(\<And>r. P r \<Longrightarrow> \<not> Q r \<and> \<not> Q (f r)) \<Longrightarrow> find Q (upd_first P f rs) = find Q rs"
  by (induction rs) auto

lemma filter_upd_first_other [row_simps]:
  "(\<And>r. P r \<Longrightarrow> \<not> Q r \<and> \<not> Q (f r)) \<Longrightarrow> filter Q (upd_first P f rs) = filter Q rs"
  by (induction rs) auto

lemma in_set_upd_first:
  "x \<in> set (upd_first P f rs) \<Longrightarrow> x \<in> set rs \<or> (\<exists>r \<in> set rs. P r \<and> x = f r)"
  by (induction rs) (auto split: if_splits)

lemma upd_first_absent: "find P rs = None \<Longrightarrow> upd_first P f rs = rs"
  by (induction rs) (auto split: if_splits)

lemma find_append [row_simps]:
  "find P (xs @ ys) = (case find P xs of None \<Rightarrow> find P ys | Some x \<Rightarrow> Some x)"
  by (induction xs) auto

lemma find_Some_in: "find P xs = Some x \<Longrightarrow> x \<in> set xs \<and> P x"
  by (induction xs) (auto split: if_splits)

lemma find_None_not: "find P xs = None \<Longrightarrow> x \<in> set xs \<Longrightarrow> \<not> P x"
  by (induction xs) (auto split: if_splits)

lemma find_None_key: "find (\<lambda>r. key r = k) rows = None \<Longrightarrow> k \<notin> key ` set rows"
  by (induction rows) (auto split: if_splits)

lemma find_unique:
  assumes "distinct (map key xs)" and "x \<in> set xs" and "key x = k"
  shows "find (\<lambda>r. key r = k) xs = Some x"
  using assms by (induction xs) (auto simp: rev_image_eqI)

lemma filter_key:
  assumes "distinct (map key xs)" and "x \<in> set xs"
  shows "filter (\<lambda>y. key y = key x) xs = [x]"
  using assms
proof (induction xs)
  case (Cons a xs)
  show ?case
  proof (cases "a = x")
    case True
    then have "filter (\<lambda>y. key y = key x) xs = []"
      using Cons.prems(1) by (auto simp: filter_empty_conv) (metis imageI)
    with True show ?thesis by simp
  next
    case False
    then have x: "x \<in> set xs" using Cons.prems(2) by simp
    then have "key a \<noteq> key x" using Cons.prems(1) by auto
    with x Cons show ?thesis by simp
  qed
qed simp

lemma find_cong_filter:
  "filter P xs = filter P ys \<Longrightarrow> (\<And>x. Q x \<Longrightarrow> P x) \<Longrightarrow> find Q xs = find Q ys"
proof -
  assume eq: "filter P xs = filter P ys" and QP: "\<And>x. Q x \<Longrightarrow> P x"
  have "find Q (filter P zs) = find Q zs" for zs
    using QP by (induction zs) auto
  then show "find Q xs = find Q ys" using eq by metis
qed

lemma filter_cong_filter:
  "filter P xs = filter P ys \<Longrightarrow> (\<And>x. Q x \<Longrightarrow> P x) \<Longrightarrow> filter Q xs = filter Q ys"
proof -
  assume eq: "filter P xs = filter P ys" and QP: "\<And>x. Q x \<Longrightarrow> P x"
  have "filter Q (filter P zs) = filter Q zs" for zs
    using QP by (induction zs) auto
  then show "filter Q xs = filter Q ys" using eq by metis
qed

text \<open>
  SQL leaves the order of a result without \<open>ORDER BY\<close>, or of rows that tie in it, to the
  query plan. A plan ranks the rows; every order of distinct rows is that of some plan.
\<close>

type_synonym 'r plan = "'r \<Rightarrow> nat"

definition scan_rows :: "'r plan \<Rightarrow> 'r list \<Rightarrow> 'r list" where
  "scan_rows plan rows = sort_key plan rows"

lemma scan_rows_simps [simp]:
  "set (scan_rows plan rows) = set rows"
  "mset (scan_rows plan rows) = mset rows"
  "length (scan_rows plan rows) = length rows"
  "distinct (scan_rows plan rows) = distinct rows"
  by (simp_all add: scan_rows_def)

end
