(* ===== verification/Tables.thy ===== *)
theory Tables
  imports Prelude
begin

text \<open>
  What the repositories share: selecting the first row of an ordered query, claiming a row
  of a queue under \<open>FOR UPDATE SKIP LOCKED\<close>, inserting or updating by a unique key, and
  the three contracts the services rely on, each as a locale that the components
  interpret on their own operations:
  \<^item> \<open>keyed_upsert\<close>: get-or-create and upsert operations keep a table's key unique;
  \<^item> \<open>job_queue\<close>: a claimed row is not claimed again while its lease runs;
  \<^item> \<open>tenant_query\<close>: a query returns only rows of its tenant and sees only those.
\<close>

section \<open>Ordered queries\<close>

text \<open>\<open>select \<dots> where P order by rank limit 1\<close>.\<close>

definition select_first :: "('r \<Rightarrow> bool) \<Rightarrow> ('r \<Rightarrow> 'k::linorder) \<Rightarrow> 'r list \<Rightarrow> 'r option" where
  "select_first P rank rows = (case sort_key rank (filter P rows) of [] \<Rightarrow> None | r # _ \<Rightarrow> Some r)"

lemma select_first_Some:
  assumes "select_first P rank rows = Some r"
  shows "r \<in> set rows" "P r" "\<And>x. x \<in> set rows \<Longrightarrow> P x \<Longrightarrow> rank r \<le> rank x"
proof -
  obtain rs where rs: "sort_key rank (filter P rows) = r # rs"
    using assms by (auto simp: select_first_def split: list.splits)
  then have mem: "set (r # rs) = {x \<in> set rows. P x}"
    by (metis set_filter set_sort)
  then show "r \<in> set rows" "P r" by auto
  have "sorted (map rank (r # rs))" using rs by (metis sorted_sort_key)
  then show "rank r \<le> rank x" if "x \<in> set rows" "P x" for x
    using that mem by auto
qed

lemma select_first_None: "select_first P rank rows = None \<longleftrightarrow> (\<forall>r \<in> set rows. \<not> P r)"
proof -
  have "sort_key rank (filter P rows) = [] \<longleftrightarrow> filter P rows = []"
    by (metis length_0_conv length_sort)
  then show ?thesis
    by (auto simp: select_first_def filter_empty_conv split: list.splits)
qed

lemma select_first_cong_filter:
  "filter Q rows = filter Q rows' \<Longrightarrow> (\<And>r. P r \<Longrightarrow> Q r) \<Longrightarrow>
     select_first P rank rows = select_first P rank rows'"
  unfolding select_first_def by (metis filter_cong_filter)

text \<open>A row that ranks no better than the first one, added at the end, changes nothing.\<close>

lemma select_first_append:
  assumes r: "select_first P f rows = Some r" and x: "f r \<le> f x"
  shows "select_first P f (rows @ [x]) = Some r"
proof (cases "P x")
  case True
  let ?ys = "filter P rows" and ?eq = "\<lambda>y. f y = f r"
  obtain rs where rs: "sort_key f ?ys = r # rs"
    using r by (auto simp: select_first_def split: list.splits)
  obtain z zs where zs: "sort_key f (?ys @ [x]) = z # zs"
    by (metis Nil_is_append_conv length_0_conv length_sort neq_Nil_conv not_Cons_self2)
  have mem: "set (z # zs) = set ?ys \<union> {x}" "set (r # rs) = set ?ys"
    by (metis zs set_sort set_append list.simps(15) list.set(1), metis rs set_sort)
  have "sorted (map f (z # zs))" "sorted (map f (r # rs))" by (metis zs sorted_sort_key, metis rs sorted_sort_key)
  then have "f z = f r" using mem x by (auto intro!: antisym simp: set_eq_iff)
  then have "filter ?eq (z # zs) = z # filter ?eq zs" by simp
  moreover have "filter ?eq (z # zs) = filter ?eq ?ys @ filter ?eq [x]"
    by (metis zs filter_append sort_key_stable)
  moreover have "filter ?eq ?ys = r # filter ?eq rs"
    using sort_key_stable [of f "f r" ?ys] rs by simp
  ultimately have "z = r" by simp
  with zs True show ?thesis by (simp add: select_first_def)
qed (use r in \<open>simp add: select_first_def\<close>)

section \<open>Insert or update by a unique key\<close>

text \<open>
  \<open>upsert P new upd rows\<close>: if a row satisfies \<open>P\<close>, the first such row is updated, else
  \<open>new\<close> is appended.
\<close>

definition upsert :: "('r \<Rightarrow> bool) \<Rightarrow> 'r \<Rightarrow> ('r \<Rightarrow> 'r) \<Rightarrow> 'r list \<Rightarrow> 'r list" where
  "upsert P new upd rows =
     (case find P rows of None \<Rightarrow> rows @ [new] | Some _ \<Rightarrow> upd_first P upd rows)"

text \<open>
  The same as the repositories do it: the row found, changed in place, or a new one, whether
  it was created, and the table.
\<close>

definition get_or_put :: "('r \<Rightarrow> bool) \<Rightarrow> 'r \<Rightarrow> ('r \<Rightarrow> 'r) \<Rightarrow> 'r list \<Rightarrow> 'r \<times> bool \<times> 'r list" where
  "get_or_put P new upd rows = (case find P rows of
       None \<Rightarrow> (new, True, rows @ [new])
     | Some r \<Rightarrow> (upd r, False, upd_first P upd rows))"

lemma get_or_put_upsert: "get_or_put P new upd rows = (r, c, rows') \<Longrightarrow> rows' = upsert P new upd rows"
  by (auto simp: get_or_put_def upsert_def split: option.splits)

lemma get_or_put_created: "get_or_put P new upd rows = (r, c, rows') \<Longrightarrow> c \<longleftrightarrow> find P rows = None"
  by (auto simp: get_or_put_def split: option.splits)

text \<open>Without a change to the row found, it is \<open>get or create\<close>.\<close>

lemma upd_first_id [simp]: "upd_first P (\<lambda>r. r) rows = rows"
  by (induction rows) auto

lemma in_set_upsert:
  "x \<in> set (upsert P new upd rows) \<Longrightarrow> x \<in> set rows \<or> x = new \<or> (\<exists>r \<in> set rows. P r \<and> x = upd r)"
  by (auto simp: upsert_def split: option.splits dest: in_set_upd_first)

text \<open>A fresh id keeps the primary key.\<close>

lemma get_or_put_ids:
  assumes "get_or_put P new upd rows = (r, c, rows')" "distinct (map row_id rows)"
    and "row_id new \<notin> row_id ` set rows" "\<And>x. row_id (upd x) = row_id x"
  shows "distinct (map row_id rows')"
  using assms by (auto simp: get_or_put_def map_upd_first split: option.splits)

locale keyed_upsert =
  fixes key :: "'r \<Rightarrow> 'k"
    and arg_key :: "'a \<Rightarrow> 'k"
    and make :: "'a \<Rightarrow> 'r"
    and change :: "'a \<Rightarrow> 'r \<Rightarrow> 'r"
  assumes key_make: "key (make a) = arg_key a"
    and key_change: "key r = arg_key a \<Longrightarrow> key (change a r) = key r"
begin

abbreviation put :: "'a \<Rightarrow> 'r list \<Rightarrow> 'r list" where
  "put a rows \<equiv> upsert (\<lambda>r. key r = arg_key a) (make a) (change a) rows"

lemma keys_put: "set (map key (put a rows)) = insert (arg_key a) (set (map key rows))"
proof (cases "find (\<lambda>r. key r = arg_key a) rows")
  case (Some r)
  then have "r \<in> set rows \<and> key r = arg_key a" using find_Some_in by force
  then have "arg_key a \<in> set (map key rows)" by (metis image_eqI list.set_map)
  with Some show ?thesis by (auto simp: upsert_def map_upd_first key_change simp del: set_map)
qed (simp add: upsert_def key_make)

lemma unique_put: "distinct (map key rows) \<Longrightarrow> distinct (map key (put a rows))"
proof (cases "find (\<lambda>r. key r = arg_key a) rows")
  case None
  assume "distinct (map key rows)"
  with None show ?thesis by (auto simp: upsert_def key_make dest: find_None_not)
qed (simp add: upsert_def map_upd_first key_change)

lemma find_put_same:
  "find (\<lambda>r. key r = arg_key a) (put a rows) =
     Some (case find (\<lambda>r. key r = arg_key a) rows of None \<Rightarrow> make a | Some r \<Rightarrow> change a r)"
  by (auto simp: upsert_def row_simps key_make key_change split: option.splits)

lemma find_put_other:
  "k \<noteq> arg_key a \<Longrightarrow> find (\<lambda>r. key r = k) (put a rows) = find (\<lambda>r. key r = k) rows"
proof -
  assume k: "k \<noteq> arg_key a"
  then have "find (\<lambda>r. key r = k) (upd_first (\<lambda>r. key r = arg_key a) (change a) rows)
      = find (\<lambda>r. key r = k) rows"
    by (intro find_upd_first_other) (auto simp: key_change)
  with k show ?thesis by (auto simp: upsert_def find_append key_make split: option.splits)
qed

lemma get_or_put_row:
  assumes "get_or_put (\<lambda>r. key r = arg_key a) (make a) (change a) rows = (r, c, rows')"
  shows "rows' = put a rows" "find (\<lambda>r. key r = arg_key a) rows' = Some r" "key r = arg_key a" "r \<in> set rows'"
proof -
  show put: "rows' = put a rows" using assms by (rule get_or_put_upsert)
  show found: "find (\<lambda>r. key r = arg_key a) rows' = Some r"
    unfolding put find_put_same using assms by (auto simp: get_or_put_def split: option.splits)
  then show "key r = arg_key a" "r \<in> set rows'" by (auto dest: find_Some_in)
qed

lemma length_put: "length rows \<le> length (put a rows)" "length (put a rows) \<le> Suc (length rows)"
  by (auto simp: upsert_def split: option.splits)

lemma put_twice: "length (put b (put a rows)) = length (put a rows)" if "arg_key b = arg_key a"
  using that find_put_same [of a rows] by (simp add: upsert_def split: option.splits)

lemma filter_put_other:
  assumes Q: "\<And>r. Q r \<Longrightarrow> key r \<noteq> arg_key a"
  shows "filter Q (put a rows) = filter Q rows"
proof -
  have "filter Q (upd_first (\<lambda>r. key r = arg_key a) (change a) rows) = filter Q rows"
    by (intro filter_upd_first_other) (auto dest: Q simp: key_change)
  moreover have "\<not> Q (make a)" using Q [of "make a"] by (auto simp: key_make)
  ultimately show ?thesis by (auto simp: upsert_def split: option.splits)
qed

end

text \<open>The answer of the database to a second row of one key.\<close>

definition unique_violation :: exn where
  "unique_violation = Exn ''IntegrityError'' ''duplicate key value violates unique constraint''"

section \<open>Queues\<close>

text \<open>
  \<open>SELECT \<dots> ORDER BY rank FOR UPDATE SKIP LOCKED LIMIT 1\<close> followed by the update of the
  selected row: rows locked by other transactions are passed over.
\<close>

definition claim_row ::
  "(timestamp \<Rightarrow> ('a pk_row_scheme) \<Rightarrow> bool) \<Rightarrow> ('a pk_row_scheme \<Rightarrow> timestamp)
     \<Rightarrow> (timestamp \<Rightarrow> 'a pk_row_scheme \<Rightarrow> 'a pk_row_scheme)
     \<Rightarrow> uuid set \<Rightarrow> timestamp \<Rightarrow> 'a pk_row_scheme list
     \<Rightarrow> 'a pk_row_scheme option \<times> 'a pk_row_scheme list" where
  "claim_row claimable rank mark locked now rows =
     (case select_first (\<lambda>r. claimable now r \<and> row_id r \<notin> locked) rank rows of
        None \<Rightarrow> (None, rows)
      | Some r \<Rightarrow> (Some (mark now r), upd_first (\<lambda>x. row_id x = row_id r) (mark now) rows))"

locale job_queue =
  fixes claimable :: "timestamp \<Rightarrow> 'a pk_row_scheme \<Rightarrow> bool"
    and rank :: "'a pk_row_scheme \<Rightarrow> timestamp"
    and mark :: "timestamp \<Rightarrow> 'a pk_row_scheme \<Rightarrow> 'a pk_row_scheme"
    and leased :: "timestamp \<Rightarrow> timestamp \<Rightarrow> bool"
  assumes mark_id [simp]: "row_id (mark now r) = row_id r"
    and mark_lease: "leased t0 t \<Longrightarrow> \<not> claimable t (mark t0 r)"
begin

abbreviation take_next ::
  "uuid set \<Rightarrow> timestamp \<Rightarrow> 'a pk_row_scheme list
     \<Rightarrow> 'a pk_row_scheme option \<times> 'a pk_row_scheme list" where
  "take_next \<equiv> claim_row claimable rank mark"

lemma claim_ids: "map row_id (snd (take_next locked now rows)) = map row_id rows"
  by (auto simp: claim_row_def map_upd_first split: option.splits)

lemma claim_Some:
  assumes "take_next locked now rows = (Some m, rows')"
  obtains r where "r \<in> set rows" "claimable now r" "row_id r \<notin> locked" "m = mark now r"
    "\<And>x. x \<in> set rows \<Longrightarrow> claimable now x \<Longrightarrow> row_id x \<notin> locked \<Longrightarrow> rank r \<le> rank x"
    "rows' = upd_first (\<lambda>x. row_id x = row_id r) (mark now) rows"
  using assms
  by (auto simp: claim_row_def split: option.splits dest: select_first_Some)

text \<open>A free claimable row is never passed over for nothing.\<close>

lemma claim_progress:
  "r \<in> set rows \<Longrightarrow> claimable now r \<Longrightarrow> row_id r \<notin> locked \<Longrightarrow>
     \<exists>m rows'. take_next locked now rows = (Some m, rows')"
  by (cases "select_first (\<lambda>r. claimable now r \<and> row_id r \<notin> locked) rank rows")
    (auto simp: claim_row_def select_first_None)

lemma claim_None: "take_next locked now rows = (None, rows') \<Longrightarrow>
    rows' = rows \<and> (\<forall>r \<in> set rows. claimable now r \<longrightarrow> row_id r \<in> locked)"
  by (auto simp: claim_row_def select_first_None split: option.splits)

text \<open>Two claims, the second while the lease of the first runs, take different rows.\<close>

lemma claims_distinct:
  assumes ids: "distinct (map row_id rows)"
    and first: "take_next locked t0 rows = (Some m0, rows1)"
    and second: "take_next locked' t1 rows1 = (Some m1, rows2)"
    and lease: "leased t0 t1"
  shows "row_id m0 \<noteq> row_id m1"
proof
  assume same: "row_id m0 = row_id m1"
  obtain r where r: "m0 = mark t0 r" "r \<in> set rows"
      "rows1 = upd_first (\<lambda>x. row_id x = row_id r) (mark t0) rows"
    using first by (rule claim_Some)
  obtain s where s: "s \<in> set rows1" "claimable t1 s" "m1 = mark t1 s"
    using second by (rule claim_Some)
  have "find (\<lambda>x. row_id x = row_id r) rows1 = Some (mark t0 r)"
    using r find_unique [OF ids r(2) refl] by (simp add: row_simps)
  moreover have "distinct (map row_id rows1)"
    using claim_ids [of locked t0 rows] first ids by simp
  then have "find (\<lambda>x. row_id x = row_id r) rows1 = Some s"
    using s(1,3) same r(1) by (intro find_unique) simp_all
  ultimately show False using s(2) mark_lease [OF lease] by simp
qed

end

section \<open>Queries of one tenant\<close>

locale tenant_query =
  fixes rows :: "'db \<Rightarrow> 'r list"
    and tenant_of :: "'r \<Rightarrow> uuid"
    and query :: "'q \<Rightarrow> uuid \<Rightarrow> 'db \<Rightarrow> 'r list"
  assumes query_sound: "r \<in> set (query q t db) \<Longrightarrow> r \<in> set (rows db) \<and> tenant_of r = t"
    and query_local: "filter (\<lambda>r. tenant_of r = t) (rows db) = filter (\<lambda>r. tenant_of r = t) (rows db') \<Longrightarrow>
      query q t db = query q t db'"
begin

lemma query_disjoint: "t \<noteq> t' \<Longrightarrow> set (query q t db) \<inter> set (query q' t' db) = {}"
  using query_sound by blast

lemma query_frame_append:
  "rows db' = rows db @ extra \<Longrightarrow> (\<And>r. r \<in> set extra \<Longrightarrow> tenant_of r \<noteq> t) \<Longrightarrow>
     query q t db' = query q t db"
  by (rule query_local) (simp add: filter_empty_conv)

lemma query_frame_update:
  "rows db' = upd_first P f (rows db) \<Longrightarrow>
     (\<And>r. P r \<Longrightarrow> tenant_of r \<noteq> t \<and> tenant_of (f r) \<noteq> t) \<Longrightarrow> query q t db' = query q t db"
  by (rule query_local) (simp add: filter_upd_first_other)

end

end
