(* ===== verification/PyStr.thy ===== *)
theory PyStr
  imports Prelude
begin

text \<open>
  The operations of Python's \<open>str\<close> and \<open>uuid.UUID\<close> that the services use, on the
  code points below 256: stripping, case, prefixes and suffixes, splitting, replacing,
  decimal and hexadecimal numbers, the text form of a UUID and its parser. The main
  result is that the text form of a UUID reads back as the UUID it came from.
\<close>

section \<open>Characters\<close>

abbreviation code :: "char \<Rightarrow> nat" where
  "code c \<equiv> of_char c"

text \<open>\<open>str.isspace\<close> of one code point, and the blanks that \<open>int\<close> skips.\<close>

definition is_space :: "char \<Rightarrow> bool" where
  "is_space c = (let n = code c in
     9 \<le> n \<and> n \<le> 13 \<or> 28 \<le> n \<and> n \<le> 32 \<or> n = 133 \<or> n = 160)"

definition int_space :: "char \<Rightarrow> bool" where
  "int_space c = (let n = code c in 9 \<le> n \<and> n \<le> 13 \<or> n = 32)"

definition lower_char :: "char \<Rightarrow> char" where
  "lower_char c = (let n = code c in
     if 65 \<le> n \<and> n \<le> 90 \<or> 192 \<le> n \<and> n \<le> 222 \<and> n \<noteq> 215 then char_of (n + 32) else c)"

definition lower :: "string \<Rightarrow> string" where
  "lower s = map lower_char s"

lemma code_char_of [simp]: "n < 256 \<Longrightarrow> code (char_of n) = n"
  by (simp add: of_char_of)

lemma lower_char_idem: "lower_char (lower_char c) = lower_char c"
  by (auto simp: lower_char_def Let_def)

lemma lower_idem [simp]: "lower (lower s) = lower s"
  by (simp add: lower_def lower_char_idem)

lemma length_lower [simp]: "length (lower s) = length s"
  by (simp add: lower_def)

section \<open>Stripping, prefixes, substrings\<close>

definition lstrip_by :: "(char \<Rightarrow> bool) \<Rightarrow> string \<Rightarrow> string" where
  "lstrip_by p s = dropWhile p s"

definition rstrip_by :: "(char \<Rightarrow> bool) \<Rightarrow> string \<Rightarrow> string" where
  "rstrip_by p s = rev (dropWhile p (rev s))"

definition strip_by :: "(char \<Rightarrow> bool) \<Rightarrow> string \<Rightarrow> string" where
  "strip_by p s = lstrip_by p (rstrip_by p s)"

definition strip :: "string \<Rightarrow> string" where
  "strip s = strip_by is_space s"

definition rstrip_slash :: "string \<Rightarrow> string" where
  "rstrip_slash s = rstrip_by (\<lambda>c. c = CHR ''/'') s"

definition starts_with :: "string \<Rightarrow> string \<Rightarrow> bool" where
  "starts_with p s = (take (length p) s = p)"

definition ends_with :: "string \<Rightarrow> string \<Rightarrow> bool" where
  "ends_with p s = starts_with (rev p) (rev s)"

fun contains :: "string \<Rightarrow> string \<Rightarrow> bool" where
  "contains p [] = (p = [])"
| "contains p (c # s) = (starts_with p (c # s) \<or> contains p s)"

lemma starts_with_append: "starts_with p (p @ s)"
  by (simp add: starts_with_def)

lemma starts_with_iff: "starts_with p s \<longleftrightarrow> (\<exists>t. s = p @ t)"
  by (metis append_eq_conv_conj append_take_drop_id starts_with_def)

lemma contains_iff: "contains p s \<longleftrightarrow> (\<exists>u v. s = u @ p @ v)"
proof (induction s)
  case Nil
  then show ?case by auto
next
  case (Cons c s)
  have "(\<exists>u v. c # s = u @ p @ v) \<longleftrightarrow> (\<exists>v. c # s = p @ v) \<or> (\<exists>u v. s = u @ p @ v)"
    by (metis append_Cons append_Nil neq_Nil_conv list.inject)
  with Cons show ?case by (simp add: starts_with_iff)
qed

lemma strip_by_id: "\<forall>c \<in> set s. \<not> p c \<Longrightarrow> strip_by p s = s"
proof -
  assume a: "\<forall>c \<in> set s. \<not> p c"
  then have "\<forall>c \<in> set (rev s). \<not> p c" by simp
  then have "dropWhile p (rev s) = rev s" by (cases "rev s") auto
  moreover have "dropWhile p s = s" using a by (cases s) auto
  ultimately show ?thesis by (simp add: strip_by_def lstrip_by_def rstrip_by_def)
qed

section \<open>Splitting, joining, replacing\<close>

fun split_on :: "char \<Rightarrow> string \<Rightarrow> string list" where
  "split_on d [] = [[]]"
| "split_on d (c # s) =
     (if c = d then [] # split_on d s
      else (case split_on d s of [] \<Rightarrow> [[c]] | w # ws \<Rightarrow> (c # w) # ws))"

text \<open>\<open>str.split()\<close> without an argument: maximal runs of non-blank characters.\<close>

fun words_acc :: "string \<Rightarrow> string \<Rightarrow> string list" where
  "words_acc [] w = (if w = [] then [] else [rev w])"
| "words_acc (c # s) w =
     (if is_space c then (if w = [] then words_acc s [] else rev w # words_acc s [])
      else words_acc s (c # w))"

definition split_ws :: "string \<Rightarrow> string list" where
  "split_ws s = words_acc s []"

fun join :: "string \<Rightarrow> string list \<Rightarrow> string" where
  "join d [] = []"
| "join d [x] = x"
| "join d (x # y # xs) = x @ d @ join d (y # xs)"

text \<open>\<open>s.replace(old, new)\<close> for a non-empty \<open>old\<close>: left to right, without overlaps.\<close>

function (sequential) py_replace :: "string \<Rightarrow> string \<Rightarrow> string \<Rightarrow> string" where
  "py_replace old new [] = []"
| "py_replace old new (c # s) =
     (if old \<noteq> [] \<and> starts_with old (c # s)
      then new @ py_replace old new (drop (length old) (c # s))
      else c # py_replace old new s)"
  by pat_completeness auto
termination
  by (relation "measure (\<lambda>(old, new, s). length s)") (auto simp: neq_Nil_conv)

lemma py_replace_absent:
  "old = d # ds \<Longrightarrow> d \<notin> set s \<Longrightarrow> py_replace old new s = s"
  by (induction s) (auto simp: starts_with_def)

lemma py_replace_remove_char: "py_replace [d] [] s = filter (\<lambda>c. c \<noteq> d) s"
  by (induction s) (auto simp: starts_with_def)

section \<open>Numbers\<close>

text \<open>Decimal text of integers, as \<open>str(int)\<close> prints it.\<close>

definition digit_char :: "nat \<Rightarrow> char" where
  "digit_char n = char_of (48 + n)"

fun nat_str :: "nat \<Rightarrow> string" where
  "nat_str n = (if n < 10 then [digit_char n] else nat_str (n div 10) @ [digit_char (n mod 10)])"

declare nat_str.simps [simp del]

definition int_str :: "int \<Rightarrow> string" where
  "int_str i = (if i < 0 then CHR ''-'' # nat_str (nat (- i)) else nat_str (nat i))"

text \<open>A number in decimal, padded with zeros on the left to a width (\<open>%02d\<close>).\<close>

definition pad_num :: "nat \<Rightarrow> nat \<Rightarrow> string" where
  "pad_num w n = (let s = nat_str n in replicate (w - length s) CHR ''0'' @ s)"

definition hex_char :: "nat \<Rightarrow> char" where
  "hex_char n = (if n < 10 then char_of (48 + n) else char_of (87 + n))"

definition hex_value :: "char \<Rightarrow> nat option" where
  "hex_value c = (let n = code c in
     if 48 \<le> n \<and> n \<le> 57 then Some (n - 48)
     else if 97 \<le> n \<and> n \<le> 102 then Some (n - 87)
     else if 65 \<le> n \<and> n \<le> 70 then Some (n - 55)
     else None)"

lemma hex_value_hex_char [simp]: "n < 16 \<Longrightarrow> hex_value (hex_char n) = Some n"
  by (auto simp: hex_value_def hex_char_def Let_def)

text \<open>
  The digits of \<open>int(s, 16)\<close>: single underscores may stand between digits (\<open>prev\<close> says
  whether the last character was an underscore), and a run of digits must not be empty.
\<close>

fun hex_digits :: "bool \<Rightarrow> nat \<Rightarrow> string \<Rightarrow> nat option" where
  "hex_digits prev acc [] = (if prev then None else Some acc)"
| "hex_digits prev acc (c # s) =
     (if c = CHR ''_'' then (if prev then None else hex_digits True acc s)
      else case hex_value c of None \<Rightarrow> None | Some d \<Rightarrow> hex_digits False (16 * acc + d) s)"

text \<open>
  \<open>int(s, 16)\<close>: blanks around the number, a sign, an optional \<open>0x\<close> prefix (after which
  one underscore is allowed), then the digits. \<open>None\<close> is the \<open>ValueError\<close>.
\<close>

definition int_base16 :: "string \<Rightarrow> int option" where
  "int_base16 s0 =
     (let s = strip_by int_space s0;
          (sgn, s) = (case s of c # t \<Rightarrow>
              if c = CHR ''-'' then (-1, t) else if c = CHR ''+'' then (1, t) else (1, s)
            | [] \<Rightarrow> (1, s));
          s = (if starts_with ''0x'' s \<or> starts_with ''0X'' s
               then (if starts_with ''_'' (drop 2 s) then drop 3 s else drop 2 s) else s)
      in if s = [] \<or> starts_with ''_'' s then None
         else map_option (\<lambda>n. sgn * int n) (hex_digits False 0 s))"

section \<open>UUIDs\<close>

definition uuid_hex :: "uuid \<Rightarrow> string" where
  "uuid_hex u = map (\<lambda>i. hex_char (unat u div 16 ^ (31 - i) mod 16)) [0..<32]"

text \<open>\<open>str(uuid)\<close>: the 32 hexadecimal digits in groups of 8, 4, 4, 4 and 12.\<close>

definition uuid_str :: "uuid \<Rightarrow> string" where
  "uuid_str u = (let h = uuid_hex u in
     take 8 h @ ''-'' @ take 4 (drop 8 h) @ ''-'' @ take 4 (drop 12 h) @ ''-''
       @ take 4 (drop 16 h) @ ''-'' @ drop 20 h)"

text \<open>
  \<open>UUID(s)\<close>: the prefixes \<open>urn:\<close> and \<open>uuid:\<close> are dropped, then the braces around and the
  dashes, and what is left must be 32 characters that \<open>int(\<dots>, 16)\<close> reads as a number
  of 128 bits.
\<close>

definition bad_uuid :: exn where
  "bad_uuid = Exn ''ValueError'' ''badly formed hexadecimal UUID string''"

definition uuid_parse :: "string \<Rightarrow> uuid result" where
  "uuid_parse s =
     (let h = py_replace ''uuid:'' '''' (py_replace ''urn:'' '''' s);
          h = py_replace ''-'' '''' (strip_by (\<lambda>c. c = CHR ''{'' \<or> c = CHR ''}'') h)
      in if length h \<noteq> 32 then Inl bad_uuid
         else case int_base16 h of
           None \<Rightarrow> Inl (Exn ''ValueError'' ''invalid literal for int() with base 16'')
         | Some n \<Rightarrow> if 0 \<le> n \<and> n < 2 ^ 128 then Inr (word_of_int n)
                    else Inl (Exn ''ValueError'' ''int is out of range (need a 128-bit value)''))"

lemma uuid_parse_Inl: "uuid_parse s = Inl e \<Longrightarrow> \<exists>m. e = Exn ''ValueError'' m"
  by (auto simp: uuid_parse_def bad_uuid_def Let_def split: if_splits option.splits)

lemma unat_uuid_less: "unat (u :: uuid) < 2 ^ 128"
proof -
  have "unat u < 2 ^ LENGTH(128)" by (rule unsigned_less)
  then show ?thesis by simp
qed

lemma uint_uuid_bounds: "0 \<le> uint (u :: uuid)" "uint u < 2 ^ 128"
proof -
  have "uint u < 2 ^ LENGTH(128)" by (rule unsigned_less)
  then show "uint u < 2 ^ 128" by simp
qed simp

lemma length_uuid_hex [simp]: "length (uuid_hex u) = 32"
  by (simp add: uuid_hex_def)

lemma uuid_hex_chars: "c \<in> set (uuid_hex u) \<Longrightarrow> \<exists>n < 16. c = hex_char n"
proof -
  assume "c \<in> set (uuid_hex u)"
  then obtain i where "c = hex_char (unat u div 16 ^ (31 - i) mod 16)"
    by (auto simp: uuid_hex_def)
  then show ?thesis by (intro exI [of _ "unat u div 16 ^ (31 - i) mod 16"]) simp
qed

lemma hex_char_code: "n < 16 \<Longrightarrow> code (hex_char n) \<in> {48..57} \<union> {97..102}"
  by (auto simp: hex_char_def)

lemma uuid_hex_code: "c \<in> set (uuid_hex u) \<Longrightarrow> code c \<in> {48..57} \<union> {97..102}"
  using uuid_hex_chars hex_char_code by blast

lemma char_code_neq: "code c \<noteq> code d \<Longrightarrow> c \<noteq> d"
  by auto

lemma uuid_str_chars: "c \<in> set (uuid_str u) \<Longrightarrow> c = CHR ''-'' \<or> c \<in> set (uuid_hex u)"
  by (auto simp: uuid_str_def Let_def dest!: in_set_takeD in_set_dropD)

lemma uuid_str_code: "c \<in> set (uuid_str u) \<Longrightarrow> code c \<in> {45} \<union> {48..57} \<union> {97..102}"
  using uuid_str_chars uuid_hex_code by fastforce

lemma length_uuid_str [simp]: "length (uuid_str u) = 36"
  by (simp add: uuid_str_def Let_def)

lemma uuid_str_no_dashes: "filter (\<lambda>c. c \<noteq> CHR ''-'') (uuid_str u) = uuid_hex u"
proof -
  let ?P = "\<lambda>c. c \<noteq> CHR ''-''" and ?h = "uuid_hex u"
  have nd: "c \<noteq> CHR ''-''" if "c \<in> set ?h" for c
    using uuid_hex_code [OF that] by auto
  have "filter ?P xs = xs" if "set xs \<subseteq> set ?h" for xs
    using that nd by (auto simp: filter_id_conv)
  then have part: "filter ?P (take n (drop m ?h)) = take n (drop m ?h)"
      "filter ?P (take n ?h) = take n ?h" "filter ?P (drop m ?h) = drop m ?h" for n m
    by (meson in_set_takeD in_set_dropD subsetI)+
  have join: "take n (drop m ?h) @ drop (m + n) ?h = drop m ?h" for n m
    by (metis add.commute append_take_drop_id drop_drop)
  have "filter ?P (uuid_str u) = take 8 ?h @ take 4 (drop 8 ?h) @ take 4 (drop 12 ?h)
      @ take 4 (drop 16 ?h) @ drop 20 ?h"
    by (simp add: uuid_str_def Let_def part)
  also have "\<dots> = ?h"
    using join [of 4 8] join [of 4 12] join [of 4 16] by (simp add: append_take_drop_id)
  finally show ?thesis .
qed

lemma hex_digits_run:
  "\<forall>d \<in> set ds. d < 16 \<Longrightarrow>
     hex_digits False acc (map hex_char ds) = Some (foldl (\<lambda>a d. 16 * a + d) acc ds)"
proof (induction ds arbitrary: acc)
  case Nil
  then show ?case by simp
next
  case (Cons d ds)
  then have "hex_char d \<noteq> CHR ''_''"
    using hex_char_code [of d] by auto
  with Cons show ?case by simp
qed

lemma foldl_base16:
  fixes n acc :: nat
  shows "foldl (\<lambda>a d. 16 * a + d) acc (map (\<lambda>i. n div 16 ^ (k - Suc i) mod 16) [0..<k])
     = acc * 16 ^ k + n mod 16 ^ k"
proof (induction k arbitrary: acc)
  case 0
  then show ?case by simp
next
  case (Suc k)
  have shift: "map (\<lambda>i. n div 16 ^ (Suc k - Suc i) mod 16) [0..<Suc k]
      = (n div 16 ^ k mod 16) # map (\<lambda>i. n div 16 ^ (k - Suc i) mod 16) [0..<k]"
    by (simp add: upt_conv_Cons map_Suc_upt [symmetric] del: upt_Suc)
  have split: "n mod 16 ^ Suc k = 16 ^ k * (n div 16 ^ k mod 16) + n mod 16 ^ k"
    by (metis mod_mult2_eq power_Suc2)
  show ?case
    unfolding shift split by (simp add: Suc) (simp add: algebra_simps)
qed

text \<open>The text of a UUID reads back as that UUID.\<close>

lemma int_base16_uuid_hex: "int_base16 (uuid_hex u) = Some (uint u)"
proof -
  let ?h = "uuid_hex u"
  have codes: "code c \<in> {48..57} \<union> {97..102}" if "c \<in> set ?h" for c
    using that by (rule uuid_hex_code)
  have strip: "strip_by int_space ?h = ?h"
    by (rule strip_by_id) (use codes in \<open>fastforce simp: int_space_def Let_def\<close>)
  obtain c t where h: "?h = c # t"
    by (metis length_uuid_hex list.exhaust list.size(3) zero_neq_numeral)
  obtain c2 t2 where t: "t = c2 # t2"
    using h length_uuid_hex [of u] by (cases t) auto
  have c: "code c \<in> {48..57} \<union> {97..102}" "code c2 \<in> {48..57} \<union> {97..102}"
    using codes h t by auto
  then have ne: "c \<noteq> CHR ''-''" "c \<noteq> CHR ''+''" "c \<noteq> CHR ''_''" "c2 \<noteq> CHR ''x''" "c2 \<noteq> CHR ''X''"
    by auto
  have "hex_digits False 0 ?h
      = Some (foldl (\<lambda>a d. 16 * a + d) 0 (map (\<lambda>i. unat u div 16 ^ (32 - Suc i) mod 16) [0..<32]))"
    using hex_digits_run [of "map (\<lambda>i. unat u div 16 ^ (32 - Suc i) mod 16) [0..<32]" 0]
    by (simp add: uuid_hex_def comp_def)
  also have "\<dots> = Some (unat u)"
    unfolding foldl_base16 using unat_uuid_less [of u] by simp
  finally have run: "hex_digits False 0 (c # c2 # t2) = Some (unat u)"
    using h t by simp
  show ?thesis
    unfolding int_base16_def strip h t using ne run strip [unfolded h t]
    by (simp add: starts_with_def Let_def del: hex_digits.simps)
qed

lemma uuid_parse_str [simp]: "uuid_parse (uuid_str u) = Inr u"
proof -
  let ?s = "uuid_str u"
  have codes: "code c \<in> {45} \<union> {48..57} \<union> {97..102}" if "c \<in> set ?s" for c
    using that by (rule uuid_str_code)
  have "CHR ''u'' \<notin> set ?s" using codes by fastforce
  then have rep: "py_replace ''uuid:'' '''' (py_replace ''urn:'' '''' ?s) = ?s"
    by (simp add: py_replace_absent)
  have strip: "strip_by (\<lambda>c. c = CHR ''{'' \<or> c = CHR ''}'') ?s = ?s"
    by (rule strip_by_id) (use codes in fastforce)
  show ?thesis
    using uint_uuid_bounds [of u] by (simp add: uuid_parse_def rep strip py_replace_remove_char uuid_str_no_dashes
        int_base16_uuid_hex)
qed

lemma uuid_str_inject [simp]: "uuid_str u = uuid_str v \<longleftrightarrow> u = v"
  by (metis sum.inject(2) uuid_parse_str)

end
