(* ===== verification/Json.thy ===== *)
theory Json
  imports PyStr
begin

text \<open>
  Python values as the services handle them: truth values, \<open>str\<close> and \<open>repr\<close>, access to
  dictionaries, and \<open>json.dumps(\<dots>, sort_keys=True, separators=(",", ":"))\<close>, the canonical
  text that the change-assessment digest, the audit hash chain and the login documents are
  computed from. The main result is that the canonical text determines the value up to the
  order of dictionary keys, and does not depend on that order.
\<close>

section \<open>Dictionaries and truth values\<close>

definition dict_get :: "(string \<times> json) list \<Rightarrow> string \<Rightarrow> json" where
  "dict_get d k = (case map_of d k of None \<Rightarrow> JNull | Some v \<Rightarrow> v)"

definition dict_item :: "(string \<times> json) list \<Rightarrow> string \<Rightarrow> json result" where
  "dict_item d k = of_option (Exn ''KeyError'' (CHR 0x27 # k @ [CHR 0x27])) (map_of d k)"

definition float_is_zero :: "string \<Rightarrow> bool" where
  "float_is_zero s \<longleftrightarrow> s = ''0.0'' \<or> s = ''-0.0''"

fun truthy :: "json \<Rightarrow> bool" where
  "truthy JNull = False"
| "truthy (JBool b) = b"
| "truthy (JInt i) = (i \<noteq> 0)"
| "truthy (JFloat s) = (\<not> float_is_zero s)"
| "truthy (JStr s) = (s \<noteq> [])"
| "truthy (JList xs) = (xs \<noteq> [])"
| "truthy (JDict d) = (d \<noteq> [])"
| "truthy (JUuid u) = True"

text \<open>Python's \<open>a or b\<close>.\<close>

definition py_or :: "json \<Rightarrow> json \<Rightarrow> json" where
  "py_or a b = (if truthy a then a else b)"

text \<open>Iterating over a value: the items of a list, the characters of a text, the keys of a dictionary.\<close>

fun py_iter :: "json \<Rightarrow> json list result" where
  "py_iter (JList xs) = Inr xs"
| "py_iter (JStr s) = Inr (map (\<lambda>c. JStr [c]) s)"
| "py_iter (JDict d) = Inr (map (\<lambda>p. JStr (fst p)) d)"
| "py_iter _ = Inl (Exn ''TypeError'' ''object is not iterable'')"

section \<open>str and repr\<close>

definition repr_char :: "char \<Rightarrow> char \<Rightarrow> string" where
  "repr_char q c = (let n = code c in
     if c = q \<or> n = 92 then [CHR 0x5C, c]
     else if n = 9 then [CHR 0x5C, CHR ''t'']
     else if n = 10 then [CHR 0x5C, CHR ''n'']
     else if n = 13 then [CHR 0x5C, CHR ''r'']
     else if n < 32 \<or> 127 \<le> n \<and> n \<le> 160 \<or> n = 173
       then [CHR 0x5C, CHR ''x'', hex_char (n div 16), hex_char (n mod 16)]
     else [c])"

definition repr_str :: "string \<Rightarrow> string" where
  "repr_str s = (let q = (if CHR 0x27 \<in> set s \<and> CHR 0x22 \<notin> set s then CHR 0x22 else CHR 0x27)
     in q # concat (map (repr_char q) s) @ [q])"

fun py_repr :: "json \<Rightarrow> string" where
  "py_repr JNull = ''None''"
| "py_repr (JBool b) = (if b then ''True'' else ''False'')"
| "py_repr (JInt i) = int_str i"
| "py_repr (JFloat s) = s"
| "py_repr (JStr s) = repr_str s"
| "py_repr (JList xs) = ''['' @ join '', '' (map py_repr xs) @ '']''"
| "py_repr (JDict d) =
     ''{'' @ join '', '' (map (\<lambda>(k, v). repr_str k @ '': '' @ py_repr v) d) @ ''}''"
| "py_repr (JUuid u) = ''UUID('' @ repr_str (uuid_str u) @ '')''"

fun py_str :: "json \<Rightarrow> string" where
  "py_str (JStr s) = s"
| "py_str (JUuid u) = uuid_str u"
| "py_str v = py_repr v"

section \<open>The canonical JSON text\<close>

text \<open>The escapes of \<open>json.dumps\<close> with \<open>ensure_ascii\<close>: named ones, else \<open>\u00XX\<close>.\<close>

definition esc_named :: "char \<Rightarrow> char option" where
  "esc_named c = map_of [(CHR 0x22, CHR 0x22), (CHR 0x5C, CHR 0x5C), (CHR 0x0A, CHR ''n''),
     (CHR 0x0D, CHR ''r''), (CHR 0x09, CHR ''t''), (CHR 0x0C, CHR ''f''), (CHR 0x08, CHR ''b'')] c"

definition esc :: "char \<Rightarrow> string" where
  "esc c = (case esc_named c of
       Some x \<Rightarrow> [CHR 0x5C, x]
     | None \<Rightarrow> if 32 \<le> code c \<and> code c \<le> 126 then [c]
         else [CHR 0x5C, CHR ''u'', CHR ''0'', CHR ''0'',
               hex_char (code c div 16), hex_char (code c mod 16)])"

definition jquote :: "string \<Rightarrow> string" where
  "jquote s = CHR 0x22 # concat (map esc s) @ [CHR 0x22]"

fun render :: "json \<Rightarrow> string" where
  "render JNull = ''null''"
| "render (JBool b) = (if b then ''true'' else ''false'')"
| "render (JInt i) = int_str i"
| "render (JFloat s) = s"
| "render (JStr s) = jquote s"
| "render (JList xs) = ''['' @ join '','' (map render xs) @ '']''"
| "render (JDict d) =
     ''{'' @ join '','' (map (\<lambda>(k, v). jquote k @ '':'' @ render v) d) @ ''}''"
| "render (JUuid u) = jquote (uuid_str u)"

text \<open>\<open>sort_keys=True\<close>: every dictionary is written in the order of its keys.\<close>

fun canon :: "json \<Rightarrow> json" where
  "canon (JList xs) = JList (map canon xs)"
| "canon (JDict d) = JDict (sort_key fst (map (\<lambda>(k, v). (k, canon v)) d))"
| "canon v = v"

fun has_uuid :: "json \<Rightarrow> bool" where
  "has_uuid (JUuid u) = True"
| "has_uuid (JList xs) = (\<exists>x \<in> set xs. has_uuid x)"
| "has_uuid (JDict d) = (\<exists>p \<in> set d. has_uuid (snd p))"
| "has_uuid v = False"

text \<open>
  \<open>json.dumps\<close>: a \<open>UUID\<close> object is written as \<open>str\<close> prints it with \<open>default=str\<close>
  and raises a \<open>TypeError\<close> without.
\<close>

definition json_text :: "json \<Rightarrow> string" where
  "json_text v = render (canon v)"

definition json_dumps :: "bool \<Rightarrow> json \<Rightarrow> string result" where
  "json_dumps default_str v =
     (if default_str \<or> \<not> has_uuid v then Inr (json_text v)
      else Inl (Exn ''TypeError'' ''Object of type UUID is not JSON serializable''))"

text \<open>
  Python's \<open>==\<close>: a dictionary has no order, \<open>True\<close> is 1, and an int equals the float that
  prints as the int followed by \<open>.0\<close> (floats from 10^16 on print with an exponent and are
  taken to differ from every int).
\<close>

fun eq_norm :: "json \<Rightarrow> json" where
  "eq_norm (JBool b) = JFloat (if b then ''1.0'' else ''0.0'')"
| "eq_norm (JInt i) = JFloat (int_str i @ ''.0'')"
| "eq_norm (JFloat s) = JFloat (if s = ''-0.0'' then ''0.0'' else s)"
| "eq_norm (JList xs) = JList (map eq_norm xs)"
| "eq_norm (JDict d) = JDict (sort_key fst (map (\<lambda>(k, v). (k, eq_norm v)) d))"
| "eq_norm v = v"

definition py_eq :: "json \<Rightarrow> json \<Rightarrow> bool" where
  "py_eq v w = (eq_norm v = eq_norm w)"

section \<open>Values that come from JSON text\<close>

text \<open>
  A value parsed from JSON text has no UUID objects, its dictionaries have distinct keys,
  and its floats print with a point or an exponent (so not as an integer does). The
  non-standard \<open>NaN\<close> and \<open>Infinity\<close> are left out.
\<close>

definition float_text :: "string \<Rightarrow> bool" where
  "float_text s \<longleftrightarrow> set s \<subseteq> set ''0123456789+-.e'' \<and> (CHR ''.'' \<in> set s \<or> CHR ''e'' \<in> set s)
     \<and> s \<noteq> [] \<and> hd s \<noteq> CHR ''e''"

fun wf_json :: "json \<Rightarrow> bool" where
  "wf_json (JFloat s) = float_text s"
| "wf_json (JList xs) = (\<forall>x \<in> set xs. wf_json x)"
| "wf_json (JDict d) = (distinct (map fst d) \<and> (\<forall>p \<in> set d. wf_json (snd p)))"
| "wf_json (JUuid u) = False"
| "wf_json v = True"

lemma wf_json_no_uuid: "wf_json v \<Longrightarrow> \<not> has_uuid v"
  by (induction v rule: has_uuid.induct) auto

lemma distinct_keys_sort [simp]:
  "distinct (map fst (sort_key fst xs)) \<longleftrightarrow> distinct (map fst xs)"
proof -
  have "mset (map fst (sort_key fst xs)) = mset (map fst xs)" by simp
  then show ?thesis by (rule mset_eq_imp_distinct_iff)
qed

lemma map_fst_canon [simp]: "map fst (map (\<lambda>(k, v). (k, f v)) d) = map fst d"
  by (simp add: case_prod_beta)

lemma wf_json_canon: "wf_json v \<Longrightarrow> wf_json (canon v)"
proof (induction v rule: canon.induct)
  case (2 d)
  then show ?case by (auto simp del: map_map)
qed auto

section \<open>The canonical text does not depend on the order of the keys\<close>

lemma distinct_filter_eq: "distinct zs \<Longrightarrow> k \<in> set zs \<Longrightarrow> filter (\<lambda>x. k = x) zs = [k]"
  by (induction zs) (auto simp: filter_empty_conv)

lemma sort_key_mset_unique:
  assumes "distinct (map f xs)" and "mset ys = mset xs"
  shows "sort_key f xs = sort_key f ys"
proof (rule properties_for_sort_key)
  show "mset (sort_key f ys) = mset xs" by (simp only: mset_sort assms(2))
  show "sorted (map f (sort_key f ys))" by simp
  fix k assume "k \<in> set (sort_key f ys)"
  then have k: "k \<in> set xs" using assms(2) by (metis mset_eq_setD set_sort)
  have one: "filter (\<lambda>x. f k = f x) zs = [k]"
    if "distinct (map f zs)" "k \<in> set zs" for zs
  proof -
    have "filter (\<lambda>x. f k = f x) zs = filter (\<lambda>x. k = x) zs"
      using that by (intro filter_cong) (auto simp: distinct_map inj_on_def)
    also have "\<dots> = [k]"
      using that by (simp add: distinct_map distinct_filter_eq)
    finally show ?thesis .
  qed
  have "distinct (map f (sort_key f ys))"
  proof -
    have "mset (map f (sort_key f ys)) = mset (map f xs)" by (simp only: mset_map mset_sort assms(2))
    from mset_eq_imp_distinct_iff [OF this] assms(1) show ?thesis by blast
  qed
  moreover have "k \<in> set (sort_key f ys)" using k assms(2) by (metis mset_eq_setD set_sort)
  ultimately show "filter (\<lambda>x. f k = f x) (sort_key f ys) = filter (\<lambda>x. f k = f x) xs"
    using one assms(1) k by simp
qed

lemma canon_perm:
  assumes "distinct (map fst d)" and "mset d' = mset d"
  shows "canon (JDict d') = canon (JDict d)"
proof -
  let ?g = "\<lambda>(k, v). (k, canon v)"
  have "sort_key fst (map ?g d) = sort_key fst (map ?g d')"
  proof (rule sort_key_mset_unique)
    show "distinct (map fst (map ?g d))" using assms(1) by (simp del: map_map)
    show "mset (map ?g d') = mset (map ?g d)" by (simp only: mset_map assms(2))
  qed
  then show ?thesis by simp
qed

lemma json_text_perm:
  "distinct (map fst d) \<Longrightarrow> mset d' = mset d \<Longrightarrow> json_text (JDict d') = json_text (JDict d)"
  unfolding json_text_def by (drule (1) canon_perm) (erule arg_cong)

section \<open>The canonical text determines the value\<close>

subsection \<open>Strings\<close>

lemma esc_named_inject: "esc_named c = Some x \<Longrightarrow> esc_named d = Some x \<Longrightarrow> c = d"
  by (auto simp: esc_named_def split: if_splits)

lemma esc_named_not_u: "esc_named c = Some x \<Longrightarrow> x \<noteq> CHR ''u''"
  by (auto simp: esc_named_def split: if_splits)

lemma esc_named_special [simp]:
  "esc_named CHR 0x22 = Some CHR 0x22" "esc_named CHR 0x5C = Some CHR 0x5C"
  by (simp_all add: esc_named_def)

lemma hex_char_inject: "m < 16 \<Longrightarrow> n < 16 \<Longrightarrow> hex_char m = hex_char n \<longleftrightarrow> m = n"
  by (metis hex_value_hex_char option.inject)

lemma code_less: "code c < 256"
  using nat_of_char_less_256 [of c] by simp

lemma esc_inject: "esc c @ r = esc d @ s \<Longrightarrow> c = d \<and> r = s"
proof -
  assume eq: "esc c @ r = esc d @ s"
  have hex: "c = d" if "hex_char (code c div 16) = hex_char (code d div 16)"
    "hex_char (code c mod 16) = hex_char (code d mod 16)"
  proof -
    have "code c div 16 = code d div 16" "code c mod 16 = code d mod 16"
      using that code_less [of c] code_less [of d] hex_char_inject by auto
    then have "code c = code d" by (metis mult_div_mod_eq)
    then show ?thesis by (simp add: of_char_eq_iff)
  qed
  show ?thesis
  proof (cases "esc_named c"; cases "esc_named d")
    fix x y assume "esc_named c = Some x" "esc_named d = Some y"
    with eq show ?thesis using esc_named_inject by (auto simp: esc_def)
  next
    fix x assume "esc_named c = Some x" "esc_named d = None"
    with eq show ?thesis using esc_named_not_u by (auto simp: esc_def split: if_splits)
  next
    fix y assume "esc_named c = None" "esc_named d = Some y"
    with eq show ?thesis using esc_named_not_u by (auto simp: esc_def split: if_splits)
  next
    assume "esc_named c = None" "esc_named d = None"
    with eq hex show ?thesis by (auto simp: esc_def split: if_splits)
  qed
qed

lemma esc_Cons: "\<exists>x xs. esc c = x # xs \<and> x \<noteq> CHR 0x22"
  by (auto simp: esc_def split: option.splits)

lemma jquote_inject: "jquote s @ r = jquote t @ u \<Longrightarrow> s = t \<and> r = u"
proof (induction s arbitrary: t)
  case Nil
  then show ?case
  proof (cases t)
    case (Cons a t')
    obtain x xs where "esc a = x # xs" "x \<noteq> CHR 0x22" using esc_Cons by blast
    with Nil Cons show ?thesis by (simp add: jquote_def)
  qed (simp add: jquote_def)
next
  case (Cons c s)
  show ?case
  proof (cases t)
    case Nil
    with Cons.prems show ?thesis using esc_Cons [of c] by (auto simp: jquote_def)
  next
    case (Cons d t')
    with Cons.prems have "esc c @ concat (map esc s) @ CHR 0x22 # r
        = esc d @ concat (map esc t') @ CHR 0x22 # u"
      by (simp add: jquote_def)
    from esc_inject [OF this] have "c = d" and "jquote s @ r = jquote t' @ u"
      by (simp_all add: jquote_def)
    with Cons.IH Cons show ?thesis by blast
  qed
qed

subsection \<open>Numbers and literals\<close>

text \<open>The text of a scalar contains no delimiter, so it ends where a delimiter stands.\<close>

definition delim_char :: "char \<Rightarrow> bool" where
  "delim_char c \<longleftrightarrow> c = CHR '','' \<or> c = CHR '']'' \<or> c = CHR ''}''"

definition delim :: "string \<Rightarrow> bool" where
  "delim r \<longleftrightarrow> r = [] \<or> delim_char (hd r)"

lemma delim_simps [simp]: "delim []" "delim (c # r) = delim_char c"
  by (simp_all add: delim_def)

lemma token_end:
  assumes "\<forall>c \<in> set t. \<not> delim_char c" "\<forall>c \<in> set t'. \<not> delim_char c" "delim r" "delim s"
    and "t @ r = t' @ s"
  shows "t = t' \<and> r = s"
proof -
  have "takeWhile (\<lambda>c. \<not> delim_char c) (t @ r) = t" if "\<forall>c \<in> set t. \<not> delim_char c" "delim r" for t r
    using that by (cases r) (simp_all add: takeWhile_append)
  with assms show ?thesis by (metis same_append_eq)
qed

lemma digit_char_code: "n < 10 \<Longrightarrow> code (digit_char n) = 48 + n"
  by (simp add: digit_char_def)

lemma digit_char_inject: "m < 10 \<Longrightarrow> n < 10 \<Longrightarrow> digit_char m = digit_char n \<longleftrightarrow> m = n"
  by (metis add_left_cancel digit_char_code)

lemma nat_str_code: "c \<in> set (nat_str n) \<Longrightarrow> code c \<in> {48..57}"
proof (induction n rule: nat_str.induct)
  case (1 n)
  then show ?case
    by (subst (asm) (2) nat_str.simps) (auto simp: digit_char_code split: if_splits)
qed

lemma nat_str_Cons: "\<exists>c cs. nat_str n = c # cs \<and> code c \<in> {48..57}"
  using nat_str_code [of "hd (nat_str n)" n]
  by (cases "nat_str n") (auto simp: nat_str.simps [of n] split: if_splits)

lemma nat_str_inject: "nat_str m = nat_str n \<Longrightarrow> m = n"
proof (induction m arbitrary: n rule: nat_str.induct)
  case (1 m)
  have two: "nat_str k = nat_str (k div 10) @ [digit_char (k mod 10)]" "nat_str (k div 10) \<noteq> []"
    if "\<not> k < 10" for k
    using that nat_str_Cons [of "k div 10"] by (auto simp: nat_str.simps [of k])
  have one: "nat_str k = [digit_char k]" if "k < 10" for k
    using that by (simp add: nat_str.simps)
  show ?case
  proof (cases "m < 10"; cases "n < 10")
    assume "m < 10" "n < 10"
    with "1.prems" one show ?thesis by (simp add: digit_char_inject)
  next
    assume "m < 10" "\<not> n < 10"
    with "1.prems" one two [of n] show ?thesis by (auto simp: append_eq_Cons_conv)
  next
    assume "\<not> m < 10" "n < 10"
    with "1.prems" one two [of m] show ?thesis by (auto simp: append_eq_Cons_conv)
  next
    assume m: "\<not> m < 10" and n: "\<not> n < 10"
    with "1.prems" two have eq: "nat_str (m div 10) = nat_str (n div 10)"
      "digit_char (m mod 10) = digit_char (n mod 10)" by auto
    with "1.IH" m have "m div 10 = n div 10" by blast
    moreover have "m mod 10 = n mod 10" using eq(2) by (simp add: digit_char_inject)
    ultimately show ?thesis by (metis div_mult_mod_eq)
  qed
qed

lemma int_str_code: "c \<in> set (int_str i) \<Longrightarrow> code c = 45 \<or> code c \<in> {48..57}"
  using nat_str_code by (auto simp: int_str_def split: if_splits)

lemma int_str_inject: "int_str i = int_str j \<Longrightarrow> i = j"
proof -
  assume eq: "int_str i = int_str j"
  have "nat_str n \<noteq> CHR ''-'' # s" for n s
    using nat_str_code [of "CHR ''-''" n] by auto
  moreover from this have "CHR ''-'' # s \<noteq> nat_str n" for n s by metis
  ultimately show ?thesis
    using eq by (auto simp: int_str_def split: if_splits dest!: nat_str_inject)
qed

lemma int_str_Cons: "\<exists>c cs. int_str i = c # cs \<and> (code c = 45 \<or> code c \<in> {48..57})"
proof -
  have "int_str i \<noteq> []"
    using nat_str_Cons [of "nat i"] by (auto simp: int_str_def)
  then show ?thesis
    using int_str_code [of "hd (int_str i)" i] by (cases "int_str i") auto
qed

subsection \<open>Lists and dictionaries\<close>

text \<open>
  \<open>reads f ok x\<close>: the text \<open>f x\<close>, followed by a delimiter, determines \<open>x\<close> among the
  values \<open>ok\<close> and the text that follows.
\<close>

definition reads :: "('a \<Rightarrow> string) \<Rightarrow> ('a \<Rightarrow> bool) \<Rightarrow> 'a \<Rightarrow> bool" where
  "reads f ok x \<longleftrightarrow> (\<forall>y r s. ok y \<longrightarrow> delim r \<longrightarrow> delim s \<longrightarrow> f x @ r = f y @ s \<longrightarrow> x = y \<and> r = s)"

lemma readsI:
  "(\<And>y r s. ok y \<Longrightarrow> delim r \<Longrightarrow> delim s \<Longrightarrow> f x @ r = f y @ s \<Longrightarrow> x = y \<and> r = s) \<Longrightarrow> reads f ok x"
  by (simp add: reads_def)

lemma readsD:
  "reads f ok x \<Longrightarrow> ok y \<Longrightarrow> delim r \<Longrightarrow> delim s \<Longrightarrow> f x @ r = f y @ s \<Longrightarrow> x = y \<and> r = s"
  by (simp add: reads_def)

lemma join_Cons: "join d (x # xs) = x @ concat (map (\<lambda>y. d @ y) xs)"
  by (induction xs arbitrary: x) auto

lemma tail_inject:
  assumes "\<forall>x \<in> set xs. reads f ok x" "\<forall>y \<in> set ys. ok y" "delim_char z" "z \<noteq> CHR '',''"
    and "concat (map (\<lambda>y. '','' @ f y) xs) @ z # r = concat (map (\<lambda>y. '','' @ f y) ys) @ z # s"
  shows "xs = ys \<and> r = s"
  using assms
proof (induction xs arbitrary: ys)
  case Nil
  then show ?case by (cases ys) auto
next
  case (Cons x xs)
  show ?case
  proof (cases ys)
    case Nil
    with Cons.prems show ?thesis by auto
  next
    case (Cons y ys')
    let ?tl = "\<lambda>zs t. concat (map (\<lambda>y. '','' @ f y) zs) @ z # t"
    have d: "delim (?tl zs t)" for zs t
      using Cons.prems(3) by (cases zs) (auto simp: delim_char_def)
    have "f x @ ?tl xs r = f y @ ?tl ys' s"
      using Cons.prems(5) Cons by simp
    then have "x = y \<and> ?tl xs r = ?tl ys' s"
      using Cons.prems(1,2) Cons d by (intro readsD [where f = f and ok = ok]) auto
    with Cons.IH [of ys'] Cons.prems Cons show ?thesis by auto
  qed
qed

lemma join_inject:
  assumes "\<forall>x \<in> set xs. reads f ok x" "\<forall>y \<in> set ys. ok y" "delim_char z" "z \<noteq> CHR '',''"
    and "\<forall>x \<in> set xs. ok x" and start: "\<And>x. ok x \<Longrightarrow> \<exists>c cs. f x = c # cs \<and> c \<noteq> z"
    and eq: "join '','' (map f xs) @ z # r = join '','' (map f ys) @ z # s"
  shows "xs = ys \<and> r = s"
proof (cases xs; cases ys)
  assume "xs = []" "ys = []" with eq show ?thesis by simp
next
  fix y ys' assume "xs = []" "ys = y # ys'"
  with eq start [of y] assms(2) show ?thesis by (auto simp: join_Cons)
next
  fix x xs' assume "xs = x # xs'" "ys = []"
  with eq start [of x] assms(5) show ?thesis by (auto simp: join_Cons)
next
  fix x xs' y ys' assume xs: "xs = x # xs'" and ys: "ys = y # ys'"
  let ?tl = "\<lambda>zs t. concat (map (\<lambda>y. '','' @ f y) zs) @ z # t"
  have d: "delim (?tl zs t)" for zs t
    using assms(3) by (cases zs) (auto simp: delim_char_def)
  have "f x @ ?tl xs' r = f y @ ?tl ys' s"
    using eq xs ys by (simp add: join_Cons comp_def)
  then have "x = y \<and> ?tl xs' r = ?tl ys' s"
    using assms(1,2) xs ys d by (intro readsD [where f = f and ok = ok]) auto
  moreover from this have "xs' = ys' \<and> r = s"
    using assms xs ys by (intro tail_inject [where f = f and ok = ok and z = z]) auto
  ultimately show ?thesis using xs ys by simp
qed

definition render_entry :: "string \<times> json \<Rightarrow> string" where
  "render_entry p = jquote (fst p) @ '':'' @ render (snd p)"

lemma render_dict:
  "render (JDict d) = ''{'' @ join '','' (map render_entry d) @ ''}''"
  by (simp add: render_entry_def [abs_def] case_prod_beta')

lemma render_entry_Cons: "\<exists>c cs. render_entry p = c # cs \<and> c \<noteq> z"
  if "z \<noteq> CHR 0x22"
  using that by (auto simp: render_entry_def jquote_def)

subsection \<open>Values\<close>

text \<open>How the text of a value begins, by kind of value.\<close>

fun kind :: "json \<Rightarrow> nat" where
  "kind JNull = 0"
| "kind (JBool b) = (if b then 1 else 2)"
| "kind (JInt i) = 3"
| "kind (JFloat s) = 3"
| "kind (JStr s) = 4"
| "kind (JUuid u) = 4"
| "kind (JList xs) = 5"
| "kind (JDict d) = 6"

definition kind_char :: "char \<Rightarrow> nat" where
  "kind_char c = (if c = CHR ''n'' then 0 else if c = CHR ''t'' then 1
     else if c = CHR ''f'' then 2 else if c = CHR 0x22 then 4
     else if c = CHR ''['' then 5 else if c = CHR ''{'' then 6 else 3)"

lemma kind_char_number: "code c = 45 \<or> code c \<in> {48..57} \<Longrightarrow> kind_char c = 3"
proof -
  assume "code c = 45 \<or> code c \<in> {48..57}"
  then have "code c \<noteq> 110" "code c \<noteq> 116" "code c \<noteq> 102" "code c \<noteq> 34" "code c \<noteq> 91" "code c \<noteq> 123"
    by auto
  then have "c \<noteq> CHR ''n''" "c \<noteq> CHR ''t''" "c \<noteq> CHR ''f''" "c \<noteq> CHR 0x22" "c \<noteq> CHR ''[''" "c \<noteq> CHR ''{''"
    by auto
  then show ?thesis by (simp add: kind_char_def)
qed

lemma kind_char_float: "c \<in> set ''0123456789+-.e'' \<Longrightarrow> c \<noteq> CHR ''e'' \<Longrightarrow> kind_char c = 3"
  by (simp add: kind_char_def) (elim disjE; simp)

lemma float_text_Cons:
  assumes "float_text s" shows "\<exists>c cs. s = c # cs \<and> kind_char c = 3 \<and> c \<noteq> CHR '']''"
proof (cases s)
  case (Cons c cs)
  with assms have c: "c \<in> set ''0123456789+-.e''" "c \<noteq> CHR ''e''"
    unfolding float_text_def by auto
  from c(1) have "c \<noteq> CHR '']''" by auto
  with Cons kind_char_float [OF c] show ?thesis by blast
qed (use assms in \<open>simp add: float_text_def\<close>)

lemma render_kind: "wf_json v \<Longrightarrow> \<exists>c cs. render v = c # cs \<and> kind_char c = kind v"
proof (cases v)
  case (JInt i)
  obtain c cs where c: "int_str i = c # cs" "code c = 45 \<or> code c \<in> {48..57}"
    using int_str_Cons by blast
  from c(1) kind_char_number [OF c(2)] JInt show ?thesis by simp
next
  case (JFloat s)
  assume "wf_json v"
  with JFloat float_text_Cons [of s] show ?thesis by auto
qed (auto simp: kind_char_def jquote_def)

lemma render_not_close: "wf_json v \<Longrightarrow> \<exists>c cs. render v = c # cs \<and> c \<noteq> CHR '']''"
proof -
  assume wf: "wf_json v"
  then obtain c cs where c: "render v = c # cs" "kind_char c = kind v"
    using render_kind by blast
  moreover have "c \<noteq> CHR '']''"
  proof
    assume c': "c = CHR '']''"
    with c(2) have "kind v = 3" by (simp add: kind_char_def)
    then show False
    proof (cases v)
      case (JInt i)
      with c(1) c' int_str_Cons [of i] show False by auto
    next
      case (JFloat s)
      with c(1) c' wf float_text_Cons [of s] show False by auto
    qed (simp_all split: if_splits)
  qed
  ultimately show ?thesis by blast
qed

lemma scalar_no_delim:
  assumes "wf_json v" "kind v \<le> 3" "c \<in> set (render v)" shows "\<not> delim_char c"
proof (cases v)
  case (JInt i)
  with assms int_str_code [of c i] show ?thesis by (auto simp: delim_char_def)
next
  case (JFloat s)
  with assms show ?thesis by (auto simp: float_text_def delim_char_def)
qed (use assms in \<open>auto simp: delim_char_def split: if_splits\<close>)

lemma scalar_render_inject:
  assumes "wf_json v" "wf_json w" "kind v \<le> 3" "kind w \<le> 3" "render v = render w"
  shows "v = w"
proof -
  have "kind v = kind w"
    using render_kind [OF assms(1)] render_kind [OF assms(2)] assms(5) by auto
  moreover have "int_str i \<noteq> t" if "float_text t" for i t
  proof
    assume "int_str i = t"
    with that int_str_code [of "CHR ''.''" i] int_str_code [of "CHR ''e''" i]
    show False by (auto simp: float_text_def)
  qed
  moreover from this have "t \<noteq> int_str i" if "float_text t" for i t using that by metis
  ultimately show ?thesis
    using assms by (cases v; cases w) (auto split: if_splits dest: int_str_inject)
qed

lemma scalar_reads:
  assumes "wf_json v" "kind v \<le> 3"
  shows "reads render wf_json v"
proof (rule readsI)
  fix w r s assume w: "wf_json w" "delim r" "delim s" and eq: "render v @ r = render w @ s"
  have "kind w = kind v"
    using render_kind [OF assms(1)] render_kind [OF w(1)] eq by auto
  then have "render v = render w \<and> r = s"
    using w eq scalar_no_delim assms by (intro token_end) auto
  with scalar_render_inject [OF assms(1) w(1)] \<open>kind w = kind v\<close> assms(2)
  show "v = w \<and> r = s" by simp
qed

lemma entry_reads:
  assumes "reads render wf_json (snd p)"
  shows "reads render_entry (\<lambda>p. wf_json (snd p)) p"
proof (rule readsI)
  fix q r s
  assume q: "wf_json (snd q)" "delim r" "delim s" and eq: "render_entry p @ r = render_entry q @ s"
  then have "jquote (fst p) @ '':'' @ render (snd p) @ r = jquote (fst q) @ '':'' @ render (snd q) @ s"
    by (simp add: render_entry_def)
  from jquote_inject [OF this]
  have k: "fst p = fst q" and "render (snd p) @ r = render (snd q) @ s"
    by simp_all
  then have "snd p = snd q \<and> r = s" using assms q by (intro readsD [where f = render and ok = wf_json]) auto
  with k show "p = q \<and> r = s" by (simp add: prod_eq_iff)
qed

lemma render_reads: "wf_json v \<Longrightarrow> reads render wf_json v"
proof (induction v)
  case (JStr x)
  show ?case
  proof (rule readsI)
    fix w r s assume w: "wf_json w" and eq: "render (JStr x) @ r = render w @ s"
    then have "kind w = 4" using render_kind [OF w] by (auto simp: kind_char_def jquote_def)
    with w obtain y where "w = JStr y" by (cases w) (auto split: if_splits)
    with eq have "jquote x @ r = jquote y @ s" by simp
    from jquote_inject [OF this] \<open>w = JStr y\<close> show "JStr x = w \<and> r = s" by simp
  qed
next
  case (JList xs)
  show ?case
  proof (rule readsI)
    fix w r s assume w: "wf_json w" and eq: "render (JList xs) @ r = render w @ s"
    then have "kind w = 5" using render_kind [OF w] by (auto simp: kind_char_def)
    with w obtain ys where ys: "w = JList ys" by (cases w) (auto split: if_splits)
    have "xs = ys \<and> r = s"
    proof (rule join_inject [where f = render and ok = wf_json and z = "CHR '']''"])
      show "\<forall>x \<in> set xs. reads render wf_json x" "\<forall>x \<in> set xs. wf_json x"
        using JList by auto
      show "\<forall>y \<in> set ys. wf_json y" using w ys by simp
      show "\<exists>c cs. render x = c # cs \<and> c \<noteq> CHR '']''" if "wf_json x" for x
        using that by (rule render_not_close)
      show "join '','' (map render xs) @ CHR '']'' # r = join '','' (map render ys) @ CHR '']'' # s"
        using eq ys by simp
    qed (simp_all add: delim_char_def)
    with ys show "JList xs = w \<and> r = s" by simp
  qed
next
  case (JDict d)
  show ?case
  proof (rule readsI)
    fix w r s assume w: "wf_json w" and eq: "render (JDict d) @ r = render w @ s"
    then have "kind w = 6" using render_kind [OF w] by (auto simp: kind_char_def)
    with w obtain e where e: "w = JDict e" by (cases w) (auto split: if_splits)
    have "d = e \<and> r = s"
    proof (rule join_inject [where f = render_entry and ok = "\<lambda>p. wf_json (snd p)" and z = "CHR ''}''"])
      show "\<forall>p \<in> set d. reads render_entry (\<lambda>p. wf_json (snd p)) p"
        using JDict by (auto intro!: entry_reads)
      show "\<forall>p \<in> set d. wf_json (snd p)" using JDict.prems by simp
      show "\<forall>p \<in> set e. wf_json (snd p)" using w e by simp
      show "\<exists>c cs. render_entry p = c # cs \<and> c \<noteq> CHR ''}''" for p
        by (rule render_entry_Cons) simp
      show "join '','' (map render_entry d) @ CHR ''}'' # r
          = join '','' (map render_entry e) @ CHR ''}'' # s"
        using eq e by (simp add: render_dict del: render.simps)
    qed (simp_all add: delim_char_def)
    with e show "JDict d = w \<and> r = s" by simp
  qed
qed (auto intro: scalar_reads)

lemma render_inject: "wf_json v \<Longrightarrow> wf_json w \<Longrightarrow> render v = render w \<Longrightarrow> v = w"
  using readsD [OF render_reads, of v w "[]" "[]"] by simp

text \<open>
  Two values parsed from JSON have the same canonical text exactly when they agree up to
  the order of their keys.
\<close>

lemma json_text_inject:
  "wf_json v \<Longrightarrow> wf_json w \<Longrightarrow> json_text v = json_text w \<longleftrightarrow> canon v = canon w"
  using render_inject wf_json_canon by (metis json_text_def)

end
