(* ===== verification/Db.thy ===== *)
theory Db
  imports Json
begin

text \<open>
  Database sessions (\<open>sentinel_common/db.py\<close>): the unit of work that every handler of the
  tenant-scoped services runs in. A session works on a copy of the database; the commit
  publishes it, the rollback forgets it. The tenant and the actor are transaction-local
  settings that PostgreSQL's row-level security reads.
\<close>

record 'db session =
  working :: 'db
  in_transaction :: bool
  local_config :: "(string \<times> string) list"
  closed :: bool

text \<open>\<open>UnitOfWork.__aenter__\<close>: open the session, begin, set the two settings.\<close>

definition uow_enter :: "uuid \<Rightarrow> uuid \<Rightarrow> 'db \<Rightarrow> 'db session" where
  "uow_enter tenant actor db =
     \<lparr>working = db, in_transaction = True,
      local_config = [(''app.tenant_id'', uuid_str tenant), (''app.actor_id'', uuid_str actor)],
      closed = False\<rparr>"

text \<open>
  \<open>UnitOfWork.__aexit__\<close>: commit when the body returned, roll back when it raised, close
  in either case. \<open>commit_fault\<close> is the exception of a commit that the database refuses or
  that the connection loses; the transaction is then undone. The settings are local to the
  transaction and end with it.
\<close>

definition uow_exit ::
  "exn option \<Rightarrow> 'a result \<Rightarrow> 'db session \<Rightarrow> 'db \<Rightarrow> 'a result \<times> 'db \<times> 'db session" where
  "uow_exit commit_fault r s db =
     (case r of
        Inl e \<Rightarrow> (Inl e, db, s\<lparr>working := db, in_transaction := False, local_config := [], closed := True\<rparr>)
      | Inr x \<Rightarrow> (case commit_fault of
            None \<Rightarrow> (Inr x, working s, s\<lparr>in_transaction := False, local_config := [], closed := True\<rparr>)
          | Some e \<Rightarrow> (Inl e, db,
              s\<lparr>working := db, in_transaction := False, local_config := [], closed := True\<rparr>)))"

definition unit_of_work ::
  "exn option \<Rightarrow> uuid \<Rightarrow> uuid \<Rightarrow> ('db session \<Rightarrow> 'a result \<times> 'db session) \<Rightarrow> 'db
     \<Rightarrow> 'a result \<times> 'db" where
  "unit_of_work commit_fault tenant actor body db =
     (let (r, s) = body (uow_enter tenant actor db);
          (r', db', _) = uow_exit commit_fault r s db
      in (r', db'))"

text \<open>The exceptions of a database driver, where the model has to tell them from others.\<close>

definition db_fault :: "string option \<Rightarrow> exn option" where
  "db_fault f = map_option (Exn ''DBAPIError'') f"

text \<open>A body that reads and writes the tables of its session.\<close>

definition on_tables :: "('db \<Rightarrow> ('a \<times> 'db) result) \<Rightarrow> 'db session \<Rightarrow> 'a result \<times> 'db session" where
  "on_tables f s = (case f (working s) of
       Inl e \<Rightarrow> (Inl e, s)
     | Inr (x, db) \<Rightarrow> (Inr x, s\<lparr>working := db\<rparr>))"

text \<open>\<open>async with session.begin()\<close> without tenant settings, as the workers use it.\<close>

definition transaction :: "exn option \<Rightarrow> ('db \<Rightarrow> ('a \<times> 'db) result) \<Rightarrow> 'db \<Rightarrow> 'a result \<times> 'db" where
  "transaction commit_fault f db =
     (case f db of
        Inl e \<Rightarrow> (Inl e, db)
      | Inr (x, db') \<Rightarrow> (case commit_fault of None \<Rightarrow> (Inr x, db') | Some e \<Rightarrow> (Inl e, db)))"

lemma unit_of_work_transaction:
  "unit_of_work fault t a (on_tables f) db = transaction fault f db"
  by (auto simp: unit_of_work_def uow_exit_def on_tables_def transaction_def uow_enter_def
      split: sum.splits option.splits prod.splits)

lemma transaction_simps [simp]:
  "f db = Inl e \<Longrightarrow> transaction fault f db = (Inl e, db)"
  "f db = Inr (x, db') \<Longrightarrow> transaction None f db = (Inr x, db')"
  "f db = Inr (x, db') \<Longrightarrow> transaction (Some e) f db = (Inl e, db)"
  by (simp_all add: transaction_def)

text \<open>All or nothing: an exception leaves the database as it was.\<close>

lemma transaction_Inl: "transaction fault f db = (Inl e, db') \<Longrightarrow> db' = db"
  by (auto simp: transaction_def split: sum.splits option.splits)

lemma transaction_Inr: "transaction fault f db = (Inr x, db') \<longleftrightarrow> fault = None \<and> f db = Inr (x, db')"
  by (auto simp: transaction_def split: sum.splits option.splits)

lemma transaction_cases:
  obtains (raised) e where "transaction fault f db = (Inl e, db)"
  | (committed) x db' where "fault = None" "f db = Inr (x, db')" "transaction fault f db = (Inr x, db')"
proof (cases "transaction fault f db")
  case (Pair r db')
  show ?thesis
  proof (cases r)
    case (Inl e)
    with Pair transaction_Inl raised show ?thesis by metis
  next
    case (Inr x)
    with Pair transaction_Inr committed show ?thesis by metis
  qed
qed

lemma transaction_invariant:
  "I db \<Longrightarrow> (\<And>x db'. f db = Inr (x, db') \<Longrightarrow> I db') \<Longrightarrow> I (snd (transaction fault f db))"
  by (rule transaction_cases [of fault f db]) auto

end
