(* ===== verification/Clock.thy ===== *)
theory Clock
  imports PyStr
begin

text \<open>
  Timestamps as text: \<open>datetime.isoformat()\<close> of a UTC time, and the two \<open>strftime\<close>
  patterns of the login documents. A timestamp counts microseconds since the epoch; the
  calendar is the proleptic Gregorian one.
\<close>

definition civil_from_days :: "int \<Rightarrow> int \<times> int \<times> int" where
  "civil_from_days days =
     (let z = days + 719468;
          era = z div 146097;
          doe = z mod 146097;
          yoe = (doe - doe div 1460 + doe div 36524 - doe div 146096) div 365;
          doy = doe - (365 * yoe + yoe div 4 - yoe div 100);
          mp = (5 * doy + 2) div 153;
          d = doy - (153 * mp + 2) div 5 + 1;
          m = (if mp < 10 then mp + 3 else mp - 9)
      in (yoe + era * 400 + (if m \<le> 2 then 1 else 0), m, d))"

definition day_of :: "timestamp \<Rightarrow> int" where
  "day_of t = t div 86400000000"

definition second_of_day :: "timestamp \<Rightarrow> int" where
  "second_of_day t = (t mod 86400000000) div 1000000"

definition pad2 :: "int \<Rightarrow> string" where
  "pad2 n = pad_num 2 (nat n)"

definition isoformat :: "timestamp \<Rightarrow> string" where
  "isoformat t =
     (let (y, m, d) = civil_from_days (day_of t); s = second_of_day t; us = t mod 1000000
      in pad_num 4 (nat y) @ ''-'' @ pad2 m @ ''-'' @ pad2 d @ ''T''
         @ pad2 (s div 3600) @ '':'' @ pad2 (s div 60 mod 60) @ '':'' @ pad2 (s mod 60)
         @ (if us = 0 then [] else ''.'' @ pad_num 6 (nat us)) @ ''+00:00'')"

text \<open>\<open>%Y/%m/%d\<close> and \<open>%H%M%S\<close>.\<close>

definition strftime_day :: "timestamp \<Rightarrow> string" where
  "strftime_day t =
     (let (y, m, d) = civil_from_days (day_of t)
      in nat_str (nat y) @ ''/'' @ pad2 m @ ''/'' @ pad2 d)"

definition strftime_time :: "timestamp \<Rightarrow> string" where
  "strftime_time t =
     (let s = second_of_day t in pad2 (s div 3600) @ pad2 (s div 60 mod 60) @ pad2 (s mod 60))"

lemma civil_epoch: "civil_from_days 0 = (1970, 1, 1)"
  by code_simp

lemma civil_leap_day: "civil_from_days 19782 = (2024, 2, 29)"
  by code_simp

lemma isoformat_sample: "isoformat 1780747200000001 = ''2026-06-06T12:00:00.000001+00:00''"
  by code_simp

end
