(* ===== verification/Http.thy ===== *)
theory Http
  imports Config
begin

text \<open>
  The HTTP layer of every service (\<open>sentinel_common/http.py\<close>): requests and responses, the
  correlation middleware, the cookie CSRF middleware, and the application that \<open>create_app\<close>
  puts together with its health endpoints. The scheme and host of a referer are read as
  \<open>urllib.parse.urlparse\<close> reads them.
\<close>

section \<open>Requests and responses\<close>

record request =
  req_method :: string
  req_path :: string
  req_headers :: "(string \<times> string) list"
  req_cookies :: "(string \<times> string) list"

record response =
  resp_status :: nat
  resp_body :: json
  resp_headers :: "(string \<times> string) list"

text \<open>Header names are stored in lower case, as ASGI servers deliver them.\<close>

definition header :: "request \<Rightarrow> string \<Rightarrow> string option" where
  "header req name = map_of (req_headers req) (lower name)"

definition set_header :: "string \<Rightarrow> string \<Rightarrow> response \<Rightarrow> response" where
  "set_header name v resp = resp\<lparr>resp_headers :=
     (if map_of (resp_headers resp) name = None then resp_headers resp @ [(name, v)]
      else upd_first (\<lambda>h. fst h = name) (\<lambda>_. (name, v)) (resp_headers resp))\<rparr>"

definition json_response :: "nat \<Rightarrow> json \<Rightarrow> response" where
  "json_response st body = \<lparr>resp_status = st, resp_body = body, resp_headers = []\<rparr>"

definition detail_response :: "nat \<Rightarrow> string \<Rightarrow> response" where
  "detail_response st detail = json_response st (JDict [(''detail'', JStr detail)])"

text \<open>
  The rest of the application, as a middleware sees it: it answers or raises, and acts on
  the state of the service. The second argument is \<open>request.state.correlation_id\<close>.
\<close>

type_synonym 's endpoint = "request \<Rightarrow> uuid \<Rightarrow> 's \<Rightarrow> response result \<times> 's"

section \<open>The correlation middleware\<close>

text \<open>A missing, empty or malformed \<open>X-Correlation-ID\<close> is replaced by a fresh \<open>uuid4\<close>.\<close>

definition correlation_id_of :: "uuid \<Rightarrow> request \<Rightarrow> uuid" where
  "correlation_id_of fresh req =
     (case header req ''X-Correlation-ID'' of
        None \<Rightarrow> fresh
      | Some raw \<Rightarrow> if raw = [] then fresh
          else (case uuid_parse raw of Inr u \<Rightarrow> u | Inl _ \<Rightarrow> fresh))"

definition correlation_dispatch ::
  "uuid \<Rightarrow> string \<Rightarrow> 's endpoint \<Rightarrow> request \<Rightarrow> 's \<Rightarrow> response result \<times> 's" where
  "correlation_dispatch fresh elapsed call_next req s =
     (let cid = correlation_id_of fresh req;
          (r, s') = call_next req cid s
      in (bindr r (\<lambda>resp. Inr (set_header ''X-Response-Time-Ms'' elapsed
                            (set_header ''X-Correlation-ID'' (uuid_str cid) resp))), s'))"

section \<open>urlparse\<close>

definition scheme_char :: "char \<Rightarrow> bool" where
  "scheme_char c = (let n = code c in
     48 \<le> n \<and> n \<le> 57 \<or> 65 \<le> n \<and> n \<le> 90 \<or> 97 \<le> n \<and> n \<le> 122 \<or> n = 43 \<or> n = 45 \<or> n = 46)"

definition ascii_alpha :: "char \<Rightarrow> bool" where
  "ascii_alpha c = (let n = code c in 65 \<le> n \<and> n \<le> 90 \<or> 97 \<le> n \<and> n \<le> 122)"

text \<open>Control characters and blanks before the URL go, then every tab and line break.\<close>

definition url_clean :: "string \<Rightarrow> string" where
  "url_clean url = filter (\<lambda>c. code c \<notin> {9, 10, 13}) (lstrip_by (\<lambda>c. code c \<le> 32) url)"

definition split_scheme :: "string \<Rightarrow> string \<times> string" where
  "split_scheme url =
     (let s = takeWhile (\<lambda>c. c \<noteq> CHR '':'') url; rest = dropWhile (\<lambda>c. c \<noteq> CHR '':'') url
      in if rest \<noteq> [] \<and> s \<noteq> [] \<and> ascii_alpha (hd s) \<and> list_all scheme_char s
         then (lower s, tl rest) else ([], url))"

text \<open>
  \<open>(scheme, netloc)\<close>. Unbalanced brackets in the host raise; the check of what stands
  between brackets (an IP literal) is the argument \<open>bracket_ok\<close>.
\<close>

definition invalid_url :: exn where
  "invalid_url = Exn ''ValueError'' ''Invalid IPv6 URL''"

definition urlparse :: "(string \<Rightarrow> bool) \<Rightarrow> string \<Rightarrow> (string \<times> string) result" where
  "urlparse bracket_ok url0 =
     (let (scheme, url) = split_scheme (url_clean url0)
      in if starts_with ''//'' url then
           (let netloc = takeWhile (\<lambda>c. c \<notin> set ''/?#'') (drop 2 url);
                opens = CHR ''['' \<in> set netloc; closes = CHR '']'' \<in> set netloc
            in if opens \<noteq> closes then Inl invalid_url
               else if opens \<and> \<not> bracket_ok netloc then Inl invalid_url
               else Inr (scheme, netloc))
         else Inr (scheme, []))"

section \<open>The cookie CSRF middleware\<close>

definition safe_methods :: "string list" where
  "safe_methods = [''GET'', ''HEAD'', ''OPTIONS'']"

definition allowed_origins :: "settings \<Rightarrow> string set" where
  "allowed_origins cfg = set (map rstrip_slash (cors_origins cfg))"

definition cookie_mutation :: "settings \<Rightarrow> request \<Rightarrow> bool" where
  "cookie_mutation cfg req \<longleftrightarrow>
     req_method req \<notin> set safe_methods \<and> map_of (req_cookies req) (session_cookie_name cfg) \<noteq> None"

text \<open>The origin a mutation claims: the \<open>Origin\<close> header, else the site of the referer.\<close>

definition csrf_candidate :: "(string \<Rightarrow> bool) \<Rightarrow> request \<Rightarrow> string result" where
  "csrf_candidate bracket_ok req =
     (case header req ''origin'' of
        Some (c # cs) \<Rightarrow> Inr (rstrip_slash (c # cs))
      | _ \<Rightarrow> (case header req ''referer'' of
            Some (c # cs) \<Rightarrow> bindr (urlparse bracket_ok (c # cs)) (\<lambda>(scheme, netloc).
                Inr (if netloc \<noteq> [] then scheme @ ''://'' @ netloc else []))
          | _ \<Rightarrow> Inr []))"

definition csrf_rejection :: response where
  "csrf_rejection = detail_response 403 ''Cross-site request rejected''"

definition csrf_dispatch ::
  "(string \<Rightarrow> bool) \<Rightarrow> settings \<Rightarrow> (request \<Rightarrow> 's \<Rightarrow> response result \<times> 's)
     \<Rightarrow> request \<Rightarrow> 's \<Rightarrow> response result \<times> 's" where
  "csrf_dispatch bracket_ok cfg call_next req s =
     (if cookie_mutation cfg req then
        (case csrf_candidate bracket_ok req of
           Inl e \<Rightarrow> (Inl e, s)
         | Inr candidate \<Rightarrow>
             if candidate \<notin> allowed_origins cfg then (Inr csrf_rejection, s)
             else call_next req s)
      else call_next req s)"

section \<open>The application\<close>

text \<open>
  The health endpoints. \<open>ping\<close> is the outcome of \<open>SELECT 1\<close>.
\<close>

definition health_live :: json where
  "health_live = JDict [(''status'', JStr ''alive'')]"

definition health_ready :: "exn option \<Rightarrow> response" where
  "health_ready ping = (case ping of
       None \<Rightarrow> json_response 200 (JDict [(''status'', JStr ''ready'')])
     | Some e \<Rightarrow> json_response 503 (JDict [(''status'', JStr ''not_ready'')]))"

definition version_info :: "settings \<Rightarrow> json" where
  "version_info cfg = JDict [(''service'', JStr (service_name cfg)),
     (''version'', JStr (service_version cfg)), (''environment'', JStr (environment cfg))]"

definition docs_enabled :: "settings \<Rightarrow> bool" where
  "docs_enabled cfg \<longleftrightarrow> environment cfg \<noteq> ''production''"

text \<open>
  \<open>create_app\<close> adds the correlation middleware first and the CSRF middleware second, and a
  middleware added later wraps the earlier ones: the CSRF check runs outside, so a rejected
  request reaches neither the correlation middleware nor the routes. The CORS middleware of
  Starlette is outermost and is not modelled. The routes are the health endpoints and those
  of the service, \<open>routes\<close>.
\<close>

definition app_routes :: "settings \<Rightarrow> exn option \<Rightarrow> 's endpoint \<Rightarrow> 's endpoint" where
  "app_routes cfg ping routes req cid s =
     (if req_method req = ''GET'' \<and> req_path req = ''/health/live''
        then (Inr (json_response 200 health_live), s)
      else if req_method req = ''GET'' \<and> req_path req = ''/health/ready''
        then (Inr (health_ready ping), s)
      else if req_method req = ''GET'' \<and> req_path req = ''/version''
        then (Inr (json_response 200 (version_info cfg)), s)
      else routes req cid s)"

definition create_app ::
  "(string \<Rightarrow> bool) \<Rightarrow> settings \<Rightarrow> exn option \<Rightarrow> uuid \<Rightarrow> string \<Rightarrow> 's endpoint
     \<Rightarrow> request \<Rightarrow> 's \<Rightarrow> response result \<times> 's" where
  "create_app bracket_ok cfg ping fresh elapsed routes =
     csrf_dispatch bracket_ok cfg (correlation_dispatch fresh elapsed (app_routes cfg ping routes))"


section \<open>Correctness\<close>

lemma set_header_get [simp]:
  "map_of (resp_headers (set_header name v resp)) name = Some v"
proof -
  have "map_of hs name = Some w \<Longrightarrow>
      map_of (upd_first (\<lambda>h. fst h = name) (\<lambda>_. (name, v)) hs) name = Some v" for hs w
    by (induction hs) auto
  then show ?thesis by (auto simp: set_header_def map_add_def)
qed

lemma set_header_other [simp]:
  assumes "name' \<noteq> name"
  shows "map_of (resp_headers (set_header name v resp)) name' = map_of (resp_headers resp) name'"
proof -
  have "map_of (upd_first (\<lambda>h. fst h = name) (\<lambda>_. (name, v)) hs) name' = map_of hs name'" for hs
    using assms by (induction hs) auto
  then show ?thesis
    using assms by (auto simp: set_header_def map_add_def split: option.splits)
qed

lemma correlation_header:
  assumes "correlation_dispatch fresh elapsed call_next req s = (Inr resp, s')"
  shows "map_of (resp_headers resp) ''X-Correlation-ID'' = Some (uuid_str (correlation_id_of fresh req))"
  using assms
  by (auto simp: correlation_dispatch_def Let_def result_iff split: prod.splits)

lemma correlation_id_kept:
  "header req ''X-Correlation-ID'' = Some (uuid_str u) \<Longrightarrow> correlation_id_of fresh req = u"
  using length_uuid_str [of u] by (auto simp: correlation_id_of_def simp del: length_uuid_str)

lemma csrf_blocked:
  assumes "cookie_mutation cfg req"
    and "\<forall>c. csrf_candidate bracket_ok req = Inr c \<longrightarrow> c \<notin> allowed_origins cfg"
  shows "snd (csrf_dispatch bracket_ok cfg call_next req s) = s"
    and "\<And>resp. fst (csrf_dispatch bracket_ok cfg call_next req s) = Inr resp \<Longrightarrow> resp = csrf_rejection"
  using assms by (auto simp: csrf_dispatch_def split: sum.splits)

lemma csrf_passes:
  assumes "cookie_mutation cfg req \<Longrightarrow> \<exists>c. csrf_candidate bracket_ok req = Inr c \<and> c \<in> allowed_origins cfg"
  shows "csrf_dispatch bracket_ok cfg call_next req s = call_next req s"
  using assms by (auto simp: csrf_dispatch_def split: sum.splits)

text \<open>The site of a referer is its scheme and host, whatever path follows.\<close>

definition site_scheme :: "string \<Rightarrow> bool" where
  "site_scheme s \<longleftrightarrow> s \<noteq> [] \<and> (\<forall>c \<in> set s. 97 \<le> code c \<and> code c \<le> 122)"

definition site_host :: "string \<Rightarrow> bool" where
  "site_host h \<longleftrightarrow> h \<noteq> [] \<and> (\<forall>c \<in> set h. 32 < code c \<and> c \<notin> set ''/?#[]'')"

lemma url_clean_id:
  assumes "\<forall>c \<in> set url. 32 < code c" shows "url_clean url = url"
proof -
  have "lstrip_by (\<lambda>c. code c \<le> 32) url = url"
    using assms by (cases url) (auto simp: lstrip_by_def)
  moreover have "filter (\<lambda>c. code c \<notin> {9, 10, 13}) url = url"
    using assms by (fastforce simp: filter_id_conv)
  ultimately show ?thesis by (simp add: url_clean_def)
qed

lemma split_scheme_site:
  assumes "site_scheme s"
  shows "split_scheme (s @ CHR '':'' # rest) = (s, rest)"
proof -
  have nc: "c \<noteq> CHR '':''" if "c \<in> set s" for c
    using that assms by (auto simp: site_scheme_def)
  have "lower s = s"
    using assms by (induction s) (auto simp: lower_def site_scheme_def lower_char_def Let_def)
  moreover have "list_all scheme_char s"
    using assms by (auto simp: list_all_iff site_scheme_def scheme_char_def Let_def)
  moreover have "ascii_alpha (hd s)"
    using assms by (cases s) (auto simp: site_scheme_def ascii_alpha_def Let_def)
  ultimately show ?thesis
    using assms nc by (simp add: split_scheme_def takeWhile_append2 dropWhile_append2 site_scheme_def)
qed

lemma urlparse_site:
  assumes "site_scheme s" "site_host h" "\<forall>c \<in> set path. 32 < code c"
    and "path = [] \<or> hd path \<in> set ''/?#''"
  shows "urlparse bracket_ok (s @ ''://'' @ h @ path) = Inr (s, h)"
proof -
  have "\<forall>c \<in> set (s @ ''://'' @ h @ path). 32 < code c"
    using assms by (auto simp: site_scheme_def site_host_def)
  then have clean: "url_clean (s @ ''://'' @ h @ path) = s @ ''://'' @ h @ path"
    by (rule url_clean_id)
  have nl: "takeWhile (\<lambda>c. c \<notin> set ''/?#'') (h @ path) = h"
  proof -
    have "\<forall>c \<in> set h. c \<notin> set ''/?#''" using assms(2) by (auto simp: site_host_def)
    moreover have "takeWhile (\<lambda>c. c \<notin> set ''/?#'') path = []"
      using assms(4) by (cases path) auto
    ultimately show ?thesis by (simp add: takeWhile_append2)
  qed
  have br: "CHR ''['' \<notin> set h" "CHR '']'' \<notin> set h"
    using assms(2) by (auto simp: site_host_def)
  show ?thesis
    using split_scheme_site [OF assms(1), of "''//'' @ h @ path"] clean nl br
    by (simp add: urlparse_def starts_with_def)
qed

section \<open>Properties\<close>

text \<open>Cross-site protection: a request with a method other than GET, HEAD and OPTIONS that carries
  the session cookie, and whose Origin header (or, without one, the site of its Referer) is
  not one of the configured origins, reaches no endpoint: the state does not change and the
  answer, if there is one, is 403.\<close>

theorem csrf_rejects_foreign_mutation:
  assumes "cookie_mutation cfg req"
    and "\<forall>c. csrf_candidate bracket_ok req = Inr c \<longrightarrow> c \<notin> allowed_origins cfg"
  shows "snd (create_app bracket_ok cfg ping fresh elapsed routes req s) = s
    \<and> (\<forall>resp. fst (create_app bracket_ok cfg ping fresh elapsed routes req s) = Inr resp \<longrightarrow> resp_status resp = 403)"
proof (intro conjI allI impI)
  show "snd (create_app bracket_ok cfg ping fresh elapsed routes req s) = s"
    unfolding create_app_def by (rule csrf_blocked(1) [OF assms])
  fix resp assume "fst (create_app bracket_ok cfg ping fresh elapsed routes req s) = Inr resp"
  then have "resp = csrf_rejection" unfolding create_app_def by (rule csrf_blocked(2) [OF assms])
  then show "resp_status resp = 403"
    by (simp add: csrf_rejection_def detail_response_def json_response_def)
qed

definition sample_post :: "string \<Rightarrow> request" where
  "sample_post origin = \<lparr>req_method = ''POST'', req_path = ''/x'', req_headers = [(''origin'', origin)],
     req_cookies = [(''sentinel_session'', ''t'')]\<rparr>"

lemma csrf_rejects_foreign_mutation_witness:
  "snd (create_app (\<lambda>_. True) default_settings None 1 ''1.00'' (\<lambda>_ _ n. (Inr (json_response 200 JNull), Suc n))
     (sample_post ''https://evil.example'') (0::nat)) = 0"
proof -
  have h: "header (sample_post ''https://evil.example'') ''origin'' = Some ''https://evil.example''"
    by (simp add: header_def sample_post_def lower_def lower_char_def)
  have c: "csrf_candidate (\<lambda>_. True) (sample_post ''https://evil.example'') = Inr ''https://evil.example''"
    by (simp add: csrf_candidate_def h rstrip_slash_def rstrip_by_def)
  have o1: "allowed_origins default_settings = {''http://localhost:3000''}"
    by (simp add: allowed_origins_def default_settings_def rstrip_slash_def rstrip_by_def)
  have m: "cookie_mutation default_settings (sample_post ''https://evil.example'')"
    by (simp add: cookie_mutation_def sample_post_def safe_methods_def default_settings_def)
  show ?thesis
    using csrf_rejects_foreign_mutation [OF m, of "\<lambda>_. True" None 1 "''1.00''" "\<lambda>_ _ n. (Inr (json_response 200 JNull), Suc n)" "0::nat"] c o1 by simp
qed

text \<open>The correlation id reaches the client: every answer of the application other than the
  rejection of a cross-site request carries X-Correlation-ID, with the UUID of the request's
  own header if that parses and a fresh one otherwise, and the endpoint sees the same UUID.\<close>

theorem correlation_id_returned:
  assumes "create_app bracket_ok cfg ping fresh elapsed routes req s = (Inr resp, s')" "resp \<noteq> csrf_rejection"
  shows "map_of (resp_headers resp) ''X-Correlation-ID'' = Some (uuid_str (correlation_id_of fresh req))
    \<and> (\<exists>r. app_routes cfg ping routes req (correlation_id_of fresh req) s = (Inr r, s')
           \<and> resp_status resp = resp_status r \<and> resp_body resp = resp_body r)
    \<and> (\<forall>u. header req ''X-Correlation-ID'' = Some (uuid_str u) \<longrightarrow> correlation_id_of fresh req = u)"
proof -
  have cd: "correlation_dispatch fresh elapsed (app_routes cfg ping routes) req s = (Inr resp, s')"
    using assms by (auto simp: create_app_def csrf_dispatch_def split: if_splits sum.splits)
  then obtain r where "app_routes cfg ping routes req (correlation_id_of fresh req) s = (Inr r, s')"
      and "resp_status resp = resp_status r" "resp_body resp = resp_body r"
    by (auto simp: correlation_dispatch_def Let_def result_iff set_header_def split: prod.splits)
  with correlation_header [OF cd] correlation_id_kept show ?thesis by blast
qed

lemma correlation_id_returned_witness:
  "\<exists>resp. fst (create_app (\<lambda>_. True) default_settings None 9 ''1.00'' (\<lambda>_ _ n. (Inl invalid_url, n))
     \<lparr>req_method = ''GET'', req_path = ''/health/live'', req_headers = [], req_cookies = []\<rparr> (0::nat)) = Inr resp
   \<and> map_of (resp_headers resp) ''X-Correlation-ID'' = Some (uuid_str 9)"
proof -
  let ?req = "\<lparr>req_method = ''GET'', req_path = ''/health/live'', req_headers = [], req_cookies = []\<rparr>"
  let ?resp = "set_header ''X-Response-Time-Ms'' ''1.00'' (set_header ''X-Correlation-ID'' (uuid_str 9)
     (json_response 200 health_live))"
  have 1: "create_app (\<lambda>_. True) default_settings None 9 ''1.00'' (\<lambda>_ _ n. (Inl invalid_url, n)) ?req (0::nat)
      = (Inr ?resp, 0)"
    by (simp add: create_app_def csrf_dispatch_def cookie_mutation_def safe_methods_def
        correlation_dispatch_def app_routes_def correlation_id_of_def header_def)
  have 2: "?resp \<noteq> csrf_rejection"
    by (simp add: set_header_def json_response_def csrf_rejection_def detail_response_def)
  have "correlation_id_of 9 ?req = 9" by (simp add: correlation_id_of_def header_def)
  with correlation_id_returned [OF 1 2] 1 show ?thesis by simp
qed

text \<open>A rejected cross-site request is the exception: its answer has no X-Correlation-ID, since the
  check wraps the correlation middleware.\<close>

theorem csrf_rejection_without_correlation:
  assumes "cookie_mutation cfg req" "csrf_candidate bracket_ok req = Inr c" "c \<notin> allowed_origins cfg"
  shows "\<exists>resp. create_app bracket_ok cfg ping fresh elapsed routes req s = (Inr resp, s)
    \<and> resp_status resp = 403 \<and> map_of (resp_headers resp) ''X-Correlation-ID'' = None"
  using assms
  by (simp add: create_app_def csrf_dispatch_def csrf_rejection_def detail_response_def json_response_def)

lemma csrf_rejection_without_correlation_witness:
  "\<exists>resp. fst (create_app (\<lambda>_. True) default_settings None 1 ''1.00'' (\<lambda>_ _ n. (Inr (json_response 200 JNull), Suc n))
     (sample_post ''https://evil.example'') (0::nat)) = Inr resp \<and> map_of (resp_headers resp) ''X-Correlation-ID'' = None"
proof -
  have h: "header (sample_post ''https://evil.example'') ''origin'' = Some ''https://evil.example''"
    by (simp add: header_def sample_post_def lower_def lower_char_def)
  have c: "csrf_candidate (\<lambda>_. True) (sample_post ''https://evil.example'') = Inr ''https://evil.example''"
    by (simp add: csrf_candidate_def h rstrip_slash_def rstrip_by_def)
  have o1: "''https://evil.example'' \<notin> allowed_origins default_settings"
    by (simp add: allowed_origins_def default_settings_def rstrip_slash_def rstrip_by_def)
  have m: "cookie_mutation default_settings (sample_post ''https://evil.example'')"
    by (simp add: cookie_mutation_def sample_post_def safe_methods_def default_settings_def)
  show ?thesis
    using csrf_rejection_without_correlation [OF m c o1, of None 1 "''1.00''" "\<lambda>_ _ n. (Inr (json_response 200 JNull), Suc n)" "0::nat"] by fastforce
qed

end
