(* ===== verification/Auth.thy ===== *)
theory Auth
  imports Http
begin

text \<open>
  Authentication and authorization shared by the services (\<open>sentinel_common/auth.py\<close>):
  validation of Microsoft Entra tokens, the client that resolves a request to a profile at
  the identity service, and the dependencies that turn the profile into an actor and check
  a permission. PyJWT and the signing keys of Microsoft are the record \<open>jwt_lib\<close>; an
  HTTP call is a function from URL and headers to a status and a JSON body.
\<close>

type_synonym dict = "(string \<times> json) list"

section \<open>The libraries\<close>

record 'k jwt_lib =
  get_unverified_header :: "string \<Rightarrow> dict result"
  decode_unverified :: "string \<Rightarrow> dict result"
  get_signing_key :: "json \<Rightarrow> 'k result"
  decode_verified :: "string \<Rightarrow> 'k \<Rightarrow> string \<Rightarrow> string \<Rightarrow> string \<Rightarrow> int \<Rightarrow> string list \<Rightarrow> dict result"

text \<open>
  The exceptions that the code catches around the library: \<open>KeyError\<close>, \<open>ValueError\<close> and
  \<open>jwt.PyJWTError\<close>, with the subclasses that Python and PyJWT define.
\<close>

definition value_errors :: "string list" where
  "value_errors = [''ValueError'', ''UnicodeDecodeError'', ''UnicodeEncodeError'', ''JSONDecodeError'',
     ''binascii.Error'']"

definition jwt_errors :: "string list" where
  "jwt_errors = [''PyJWTError'', ''InvalidTokenError'', ''DecodeError'', ''InvalidSignatureError'',
     ''ExpiredSignatureError'', ''InvalidAudienceError'', ''InvalidIssuerError'',
     ''InvalidIssuedAtError'', ''ImmatureSignatureError'', ''InvalidKeyError'',
     ''InvalidAlgorithmError'', ''MissingRequiredClaimError'', ''InvalidSubjectError'',
     ''InvalidJTIError'', ''PyJWKError'', ''MissingCryptographyError'', ''PyJWKSetError'',
     ''PyJWKClientError'', ''PyJWKClientConnectionError'']"

definition token_fault :: "exn \<Rightarrow> bool" where
  "token_fault e = (case e of
       HTTPException _ _ \<Rightarrow> False
     | Exn c _ \<Rightarrow> c = ''KeyError'' \<or> c \<in> set value_errors \<or> c \<in> set jwt_errors)"

section \<open>Token principals\<close>

record token_principal =
  tp_entra_tenant_id :: uuid
  tp_entra_object_id :: uuid
  tp_display_name :: string
  tp_principal_name :: json
  tp_scopes :: "string set"
  tp_roles :: "json set"
  tp_claims :: dict

text \<open>\<open>frozenset\<close> of a JSON value: the elements of a list, the characters of a text, the keys
  of a dictionary; anything else is not iterable, and lists and dictionaries do not hash.\<close>

fun hashable :: "json \<Rightarrow> bool" where
  "hashable (JList _) = False"
| "hashable (JDict _) = False"
| "hashable _ = True"

fun py_frozenset :: "json \<Rightarrow> json set result" where
  "py_frozenset (JList xs) = (if list_all hashable xs then Inr (set xs)
     else Inl (Exn ''TypeError'' ''unhashable type''))"
| "py_frozenset (JStr s) = Inr (set (map (\<lambda>c. JStr [c]) s))"
| "py_frozenset (JDict d) = Inr (set (map (\<lambda>p. JStr (fst p)) d))"
| "py_frozenset _ = Inl (Exn ''TypeError'' ''object is not iterable'')"

definition required_claims :: "string list" where
  "required_claims = [''exp'', ''iat'', ''nbf'', ''tid'', ''oid'']"

definition entra_issuer :: "settings \<Rightarrow> uuid \<Rightarrow> string" where
  "entra_issuer cfg tid = rstrip_slash (entra_authority_host cfg) @ ''/'' @ uuid_str tid @ ''/v2.0''"

definition expected_audience :: "settings \<Rightarrow> string option \<Rightarrow> string option" where
  "expected_audience cfg audience = (if present audience then audience else entra_audience cfg)"

definition tenant_allowed :: "settings \<Rightarrow> uuid \<Rightarrow> bool" where
  "tenant_allowed cfg tid \<longleftrightarrow> allowed_tenants cfg = [] \<or> uuid_str tid \<in> set (allowed_tenants cfg)"

definition principal_of :: "uuid \<Rightarrow> dict \<Rightarrow> token_principal result" where
  "principal_of tid verified =
     bindr (dict_item verified ''oid'') (\<lambda>oid.
     bindr (uuid_parse (py_str oid)) (\<lambda>object_id.
     bindr (py_frozenset (case map_of verified ''roles'' of None \<Rightarrow> JList [] | Some r \<Rightarrow> r)) (\<lambda>roles.
     Inr \<lparr>tp_entra_tenant_id = tid, tp_entra_object_id = object_id,
          tp_display_name = py_str (py_or (py_or (dict_get verified ''name'')
             (dict_get verified ''preferred_username'')) (JStr ''User'')),
          tp_principal_name = dict_get verified ''preferred_username'',
          tp_scopes = set (split_ws (py_str (case map_of verified ''scp'' of
             None \<Rightarrow> JStr [] | Some v \<Rightarrow> v))),
          tp_roles = roles, tp_claims = verified\<rparr>)))"

text \<open>The body of \<open>EntraTokenValidator.validate\<close>, before its exception handlers.\<close>

definition validate_body ::
  "'k jwt_lib \<Rightarrow> settings \<Rightarrow> string \<Rightarrow> string option \<Rightarrow> token_principal result" where
  "validate_body lib cfg token audience =
     (if \<not> present (expected_audience cfg audience)
      then Inl (Exn ''RuntimeError'' ''Microsoft token audience is not configured'')
      else
        bindr (get_unverified_header lib token) (\<lambda>hdr.
        bindr (decode_unverified lib token) (\<lambda>claims.
        bindr (dict_item claims ''tid'') (\<lambda>tid_value.
        bindr (uuid_parse (py_str tid_value)) (\<lambda>tid.
        bindr (guardr (tenant_allowed cfg tid) (http_error 403 ''Tenant is not allowed'')) (\<lambda>_.
        bindr (dict_item hdr ''kid'') (\<lambda>kid.
        bindr (get_signing_key lib kid) (\<lambda>key.
        bindr (decode_verified lib token key ''RS256'' (the (expected_audience cfg audience))
                 (entra_issuer cfg tid) 60 required_claims) (\<lambda>verified.
        principal_of tid verified)))))))))"

definition invalid_access_token :: exn where
  "invalid_access_token = http_error 401 ''Invalid Microsoft Entra access token''"

definition validate ::
  "'k jwt_lib \<Rightarrow> settings \<Rightarrow> string \<Rightarrow> string option \<Rightarrow> token_principal result" where
  "validate lib cfg token audience =
     (case validate_body lib cfg token audience of
        Inr p \<Rightarrow> Inr p
      | Inl e \<Rightarrow> if token_fault e then Inl invalid_access_token else Inl e)"

section \<open>Profiles and actors\<close>

type_synonym http_get = "string \<Rightarrow> (string \<times> string) list \<Rightarrow> (nat \<times> json) result"

definition success_status :: "nat \<Rightarrow> bool" where
  "success_status st \<longleftrightarrow> 200 \<le> st \<and> st < 300"

definition raise_for_status :: "nat \<Rightarrow> unit result" where
  "raise_for_status st = guardr (success_status st) (Exn ''HTTPStatusError'' (nat_str st))"

definition profile_url :: "settings \<Rightarrow> string" where
  "profile_url cfg = rstrip_slash (identity_service_url cfg) @ ''/api/v1/auth/profile''"

definition opt_header :: "string \<Rightarrow> string option \<Rightarrow> (string \<times> string) list" where
  "opt_header name v = (case v of Some (c # cs) \<Rightarrow> [(name, c # cs)] | _ \<Rightarrow> [])"

definition resolve_profile ::
  "http_get \<Rightarrow> settings \<Rightarrow> uuid \<Rightarrow> string option \<Rightarrow> string option \<Rightarrow> json result" where
  "resolve_profile http cfg correlation_id cookie authorization =
     bindr (http (profile_url cfg)
              ((''X-Correlation-ID'', uuid_str correlation_id)
                 # opt_header ''Cookie'' cookie @ opt_header ''Authorization'' authorization))
       (\<lambda>(st, body).
          if st = 401 then Inl (http_error 401 ''Authentication failed'')
          else if st = 403 then Inl (http_error 403 ''Tenant or user is not authorized'')
          else bindr (raise_for_status st) (\<lambda>_. Inr body))"

text \<open>
  Reading the fields of a profile. The identity service sends texts and lists of texts;
  a field of another type is an error of the model's own.
\<close>

definition as_dict :: "json \<Rightarrow> dict result" where
  "as_dict v = (case v of JDict d \<Rightarrow> Inr d | _ \<Rightarrow> Inl (Exn ''TypeError'' ''not a mapping''))"

definition as_text :: "json \<Rightarrow> string result" where
  "as_text v = (case v of JStr s \<Rightarrow> Inr s | _ \<Rightarrow> Inl (Exn ''TypeError'' ''not a text''))"

definition as_opt_text :: "json \<Rightarrow> string option result" where
  "as_opt_text v = (case v of JNull \<Rightarrow> Inr None | JStr s \<Rightarrow> Inr (Some s)
     | _ \<Rightarrow> Inl (Exn ''TypeError'' ''not a text''))"

fun as_texts :: "json list \<Rightarrow> string list result" where
  "as_texts [] = Inr []"
| "as_texts (v # vs) = bindr (as_text v) (\<lambda>s. bindr (as_texts vs) (\<lambda>ss. Inr (s # ss)))"

definition as_text_list :: "json \<Rightarrow> string list result" where
  "as_text_list v = (case v of JList xs \<Rightarrow> as_texts xs | _ \<Rightarrow> Inl (Exn ''TypeError'' ''not a list''))"

text \<open>\<open>int(tokens.get("expires_in", 3600))\<close> of the values that JSON has; \<open>int_of_text\<close> reads a text.\<close>

definition expires_in :: "(string \<Rightarrow> int option) \<Rightarrow> dict \<Rightarrow> int result" where
  "expires_in int_of_text tokens = (case map_of tokens ''expires_in'' of
       None \<Rightarrow> Inr 3600
     | Some (JInt i) \<Rightarrow> Inr i
     | Some (JBool b) \<Rightarrow> Inr (if b then 1 else 0)
     | Some (JFloat s) \<Rightarrow> of_option (Exn ''ValueError'' ''int'') (int_of_text s)
     | Some (JStr s) \<Rightarrow> of_option (Exn ''ValueError'' ''int'') (int_of_text s)
     | Some _ \<Rightarrow> Inl (Exn ''TypeError'' ''int''))"

definition uuid_field :: "dict \<Rightarrow> string \<Rightarrow> uuid result" where
  "uuid_field d k = bindr (dict_item d k) (\<lambda>v. bindr (as_text v) uuid_parse)"

definition actor_of_profile :: "uuid \<Rightarrow> json \<Rightarrow> actor_context result" where
  "actor_of_profile correlation_id profile =
     bindr (as_dict profile) (\<lambda>d.
     bindr (uuid_field d ''tenant_id'') (\<lambda>tenant.
     bindr (uuid_field d ''entra_tenant_id'') (\<lambda>entra_tenant.
     bindr (uuid_field d ''user_id'') (\<lambda>user.
     bindr (uuid_field d ''entra_object_id'') (\<lambda>entra_object.
     bindr (bindr (dict_item d ''display_name'') as_text) (\<lambda>name.
     bindr (as_opt_text (dict_get d ''principal_name'')) (\<lambda>principal.
     bindr (bindr (dict_item d ''permissions'') as_text_list) (\<lambda>perms.
     Inr \<lparr>ac_tenant_id = tenant, ac_entra_tenant_id = entra_tenant, ac_actor_id = user,
          ac_entra_object_id = entra_object, ac_display_name = name,
          ac_principal_name = principal, ac_permissions = set perms,
          ac_correlation_id = correlation_id\<rparr>))))))))"

text \<open>\<open>HTTPBearer(auto_error=False)\<close> yields the scheme and the credentials of the header, if any.\<close>

definition get_actor ::
  "http_get \<Rightarrow> settings \<Rightarrow> request \<Rightarrow> uuid \<Rightarrow> (string \<times> string) option \<Rightarrow> actor_context result" where
  "get_actor http cfg req correlation_id credentials =
     bindr (resolve_profile http cfg correlation_id (header req ''cookie'')
              (map_option (\<lambda>(scheme, cred). scheme @ '' '' @ cred) credentials))
       (actor_of_profile correlation_id)"

definition require_permission :: "string \<Rightarrow> actor_context \<Rightarrow> actor_context result" where
  "require_permission permission actor =
     (if permission \<notin> ac_permissions actor
      then Inl (http_error 403 (''Permission '' @ permission @ '' is required''))
      else Inr actor)"

text \<open>What FastAPI answers to a request whose parameters or body it cannot validate.\<close>

definition request_validation :: exn where
  "request_validation = http_error 422 ''Unprocessable request''"

text \<open>An actor for the witnesses.\<close>

definition sample_actor :: "uuid \<Rightarrow> string set \<Rightarrow> actor_context" where
  "sample_actor t granted = \<lparr>ac_tenant_id = t, ac_entra_tenant_id = 3, ac_actor_id = 4,
     ac_entra_object_id = 5, ac_display_name = ''Ada'', ac_principal_name = None,
     ac_permissions = granted, ac_correlation_id = 6\<rparr>"

section \<open>Correctness\<close>

lemma require_permission_Inr [result_iff]:
  "require_permission p a = Inr b \<longleftrightarrow> b = a \<and> p \<in> ac_permissions a"
  by (auto simp: require_permission_def)

text \<open>
  A token is accepted only with an audience configured or asked for, a tenant that the
  deployment allows, and a payload that PyJWT verified with the signing key of the token's
  \<open>kid\<close>, RS256, that audience, and the issuer of that very tenant.
\<close>

lemma validate_accepts:
  assumes "validate lib cfg token audience = Inr p"
  obtains hdr claims kid key verified aud where
    "expected_audience cfg audience = Some aud" "aud \<noteq> []"
    "get_unverified_header lib token = Inr hdr" "decode_unverified lib token = Inr claims"
    "map_of hdr ''kid'' = Some kid" "get_signing_key lib kid = Inr key"
    "tenant_allowed cfg (tp_entra_tenant_id p)"
    "decode_verified lib token key ''RS256'' aud (entra_issuer cfg (tp_entra_tenant_id p)) 60
       required_claims = Inr verified"
    "principal_of (tp_entra_tenant_id p) verified = Inr p"
proof -
  from assms have body: "validate_body lib cfg token audience = Inr p"
    by (auto simp: validate_def split: sum.splits if_splits)
  then obtain aud where aud: "expected_audience cfg audience = Some aud" "aud \<noteq> []"
    by (auto simp: validate_body_def present_iff split: if_splits)
  with body obtain hdr claims tv tid kid key verified where
    b: "get_unverified_header lib token = Inr hdr" "decode_unverified lib token = Inr claims"
      "dict_item claims ''tid'' = Inr tv" "uuid_parse (py_str tv) = Inr tid"
      "tenant_allowed cfg tid" "dict_item hdr ''kid'' = Inr kid" "get_signing_key lib kid = Inr key"
      "decode_verified lib token key ''RS256'' aud (entra_issuer cfg tid) 60 required_claims = Inr verified"
      "principal_of tid verified = Inr p"
    by (auto simp: validate_body_def result_iff present_iff split: if_splits)
  then have "tp_entra_tenant_id p = tid"
    by (auto simp: principal_of_def result_iff)
  with b aud that show ?thesis by (auto simp: dict_item_def result_iff)
qed

lemma validate_error:
  "validate lib cfg token audience = Inl e \<Longrightarrow> \<not> token_fault e"
  by (auto simp: validate_def invalid_access_token_def token_fault_def split: sum.splits if_splits)

lemma resolve_profile_Inr:
  "resolve_profile http cfg cid cookie auth = Inr body \<Longrightarrow>
     \<exists>st hs. http (profile_url cfg) hs = Inr (st, body) \<and> success_status st"
  by (auto simp: resolve_profile_def raise_for_status_def result_iff split: prod.splits if_splits)

lemma resolve_profile_refused:
  assumes "http (profile_url cfg) ((''X-Correlation-ID'', uuid_str cid)
      # opt_header ''Cookie'' cookie @ opt_header ''Authorization'' auth) = Inr (st, body)"
    and "\<not> success_status st"
  shows "\<exists>e. resolve_profile http cfg cid cookie auth = Inl e \<and>
    (st \<in> {401, 403} \<longrightarrow> status_of e = st)"
  using assms by (auto simp: resolve_profile_def raise_for_status_def status_of_def)

lemma principal_of_claims:
  "principal_of tid verified = Inr p \<Longrightarrow> tp_claims p = verified
     \<and> (\<exists>oid. map_of verified ''oid'' = Some oid \<and> uuid_parse (py_str oid) = Inr (tp_entra_object_id p))"
  by (auto simp: principal_of_def result_iff dict_item_def)

section \<open>Properties\<close>

text \<open>C6: A Microsoft token is accepted only if PyJWT verified it with RS256 and the signing key of its
  kid, against the audience asked for or configured and against the issuer of the very
  tenant the accepted principal belongs to, that tenant is one the deployment allows, and
  the principal's object id is the verified one.\<close>

theorem token_accepted_only_if_verified:
  assumes "validate lib cfg token audience = Inr p"
  shows "\<exists>hdr kid key verified aud.
    expected_audience cfg audience = Some aud \<and> aud \<noteq> []
    \<and> get_unverified_header lib token = Inr hdr \<and> map_of hdr ''kid'' = Some kid
    \<and> get_signing_key lib kid = Inr key
    \<and> decode_verified lib token key ''RS256'' aud (entra_issuer cfg (tp_entra_tenant_id p)) 60
        [''exp'', ''iat'', ''nbf'', ''tid'', ''oid''] = Inr verified
    \<and> (allowed_tenants cfg = [] \<or> uuid_str (tp_entra_tenant_id p) \<in> set (allowed_tenants cfg))
    \<and> tp_claims p = verified
    \<and> (\<exists>oid. map_of verified ''oid'' = Some oid \<and> uuid_parse (py_str oid) = Inr (tp_entra_object_id p))"
proof -
  obtain hdr claims kid key verified aud where v: "expected_audience cfg audience = Some aud" "aud \<noteq> []"
    "get_unverified_header lib token = Inr hdr" "map_of hdr ''kid'' = Some kid"
    "get_signing_key lib kid = Inr key" "tenant_allowed cfg (tp_entra_tenant_id p)"
    "decode_verified lib token key ''RS256'' aud (entra_issuer cfg (tp_entra_tenant_id p)) 60
       required_claims = Inr verified"
    "principal_of (tp_entra_tenant_id p) verified = Inr p"
    using assms by (rule validate_accepts)
  with principal_of_claims [OF v(8)] show ?thesis by (auto simp: tenant_allowed_def required_claims_def)
qed

definition sample_jwt :: "unit jwt_lib" where
  "sample_jwt = \<lparr>get_unverified_header = (\<lambda>_. Inr [(''kid'', JStr ''k'')]),
     decode_unverified = (\<lambda>_. Inr [(''tid'', JStr (uuid_str 3))]), get_signing_key = (\<lambda>_. Inr ()),
     decode_verified = (\<lambda>_ _ _ _ _ _ _. Inr [(''oid'', JStr (uuid_str 4))])\<rparr>"

lemma token_accepted_only_if_verified_witness:
  "\<exists>p. validate sample_jwt default_settings ''token'' (Some ''aud'') = Inr p
    \<and> (\<exists>oid. map_of (tp_claims p) ''oid'' = Some oid \<and> uuid_parse (py_str oid) = Inr (tp_entra_object_id p))"
proof -
  obtain p where p: "validate sample_jwt default_settings ''token'' (Some ''aud'') = Inr p"
    by (simp add: validate_def validate_body_def sample_jwt_def expected_audience_def present_def
        dict_item_def tenant_allowed_def default_settings_def principal_of_def)
  with token_accepted_only_if_verified [OF p] show ?thesis by auto
qed

end
