(* ===== verification/Outbox.thy ===== *)
theory Outbox
  imports Tables Db Clock Auth
begin

text \<open>
  The transactional outbox of \<open>sentinel_common\<close>: the audit events (\<open>events.py\<close>), the table
  they are written to in the transaction that causes them and the claim of a row
  (\<open>audit.py\<close>), and the relay process that delivers them to the audit service
  (\<open>outbox_worker.py\<close>). The audit service is a function \<open>post\<close> from URL, headers and body
  to a status and a new state of its own; pydantic's readers of texts are the record
  \<open>pydantic_lib\<close>. The times of events are moments in UTC, as the services set them; the offset of
  a time that another client sends with one is not kept. Several relays run at once, so the relay is also given as a step
  relation in which claims, deliveries and settlements of different relays interleave.
\<close>

section \<open>Events\<close>

record cloud_event =
  ev_specversion :: string
  ev_id :: uuid
  ev_source :: string
  ev_type :: string
  ev_subject :: string
  ev_time :: timestamp
  ev_datacontenttype :: string
  ev_tenant_id :: uuid
  ev_correlation_id :: uuid
  ev_data :: dict

record audit_event = cloud_event +
  ev_actor_type :: string
  ev_actor_id :: string
  ev_action :: string
  ev_entity_type :: string
  ev_entity_id :: "string option"
  ev_outcome :: string

text \<open>\<open>model_dump(mode="json")\<close>: UUIDs become texts, a UTC time ends with \<open>Z\<close>.\<close>

fun json_mode :: "json \<Rightarrow> json" where
  "json_mode (JUuid u) = JStr (uuid_str u)"
| "json_mode (JList xs) = JList (map json_mode xs)"
| "json_mode (JDict d) = JDict (map (\<lambda>(k, v). (k, json_mode v)) d)"
| "json_mode v = v"

definition dump_time :: "timestamp \<Rightarrow> string" where
  "dump_time t = (let s = isoformat t in take (length s - 6) s @ ''Z'')"

definition opt_str :: "string option \<Rightarrow> json" where
  "opt_str s = (case s of None \<Rightarrow> JNull | Some x \<Rightarrow> JStr x)"

definition dump_event :: "audit_event \<Rightarrow> dict" where
  "dump_event e =
     [(''specversion'', JStr (ev_specversion e)), (''id'', JStr (uuid_str (ev_id e))),
      (''source'', JStr (ev_source e)), (''type'', JStr (ev_type e)),
      (''subject'', JStr (ev_subject e)), (''time'', JStr (dump_time (ev_time e))),
      (''datacontenttype'', JStr (ev_datacontenttype e)),
      (''tenant_id'', JStr (uuid_str (ev_tenant_id e))),
      (''correlation_id'', JStr (uuid_str (ev_correlation_id e))),
      (''data'', json_mode (JDict (ev_data e))), (''actor_type'', JStr (ev_actor_type e)),
      (''actor_id'', JStr (ev_actor_id e)), (''action'', JStr (ev_action e)),
      (''entity_type'', JStr (ev_entity_type e)), (''entity_id'', opt_str (ev_entity_id e)),
      (''outcome'', JStr (ev_outcome e))]"

record pydantic_lib =
  px_uuid :: "string \<Rightarrow> uuid option"
  px_time :: "string \<Rightarrow> timestamp option"

definition validation_error :: exn where
  "validation_error = Exn ''ValidationError'' ''AuditEvent''"

definition text_field :: "dict \<Rightarrow> string \<Rightarrow> string result" where
  "text_field d k = (case map_of d k of Some (JStr s) \<Rightarrow> Inr s | _ \<Rightarrow> Inl validation_error)"

definition text_field_or :: "string \<Rightarrow> dict \<Rightarrow> string \<Rightarrow> string result" where
  "text_field_or dflt d k = (if map_of d k = None then Inr dflt else text_field d k)"

definition parsed_field :: "(string \<Rightarrow> 'a option) \<Rightarrow> dict \<Rightarrow> string \<Rightarrow> 'a result" where
  "parsed_field parse d k = bindr (text_field d k) (\<lambda>s. of_option validation_error (parse s))"

definition opt_text_field :: "dict \<Rightarrow> string \<Rightarrow> string option result" where
  "opt_text_field d k = (case map_of d k of None \<Rightarrow> Inr None | Some JNull \<Rightarrow> Inr None
     | Some (JStr s) \<Rightarrow> Inr (Some s) | _ \<Rightarrow> Inl validation_error)"

definition dict_field :: "dict \<Rightarrow> string \<Rightarrow> dict result" where
  "dict_field d k = (case map_of d k of Some (JDict x) \<Rightarrow> Inr x | _ \<Rightarrow> Inl validation_error)"

text \<open>
  \<open>AuditEvent.model_validate\<close>. A missing id or time is made up from the defaults of the
  model, \<open>fresh\<close> and \<open>now\<close>; of the fields in the wrong type the model keeps only that
  they are refused.
\<close>

definition load_event ::
  "pydantic_lib \<Rightarrow> uuid \<Rightarrow> timestamp \<Rightarrow> json \<Rightarrow> audit_event result" where
  "load_event px fresh now body =
     (case body of JDict d \<Rightarrow>
       bindr (text_field_or ''1.0'' d ''specversion'') (\<lambda>specversion.
       bindr (if map_of d ''id'' = None then Inr fresh else parsed_field (px_uuid px) d ''id'') (\<lambda>event_id.
       bindr (text_field d ''source'') (\<lambda>source.
       bindr (text_field d ''type'') (\<lambda>ty.
       bindr (text_field d ''subject'') (\<lambda>subject.
       bindr (if map_of d ''time'' = None then Inr now else parsed_field (px_time px) d ''time'') (\<lambda>time.
       bindr (text_field_or ''application/json'' d ''datacontenttype'') (\<lambda>content.
       bindr (parsed_field (px_uuid px) d ''tenant_id'') (\<lambda>tenant.
       bindr (parsed_field (px_uuid px) d ''correlation_id'') (\<lambda>correlation.
       bindr (dict_field d ''data'') (\<lambda>data.
       bindr (text_field d ''actor_type'') (\<lambda>actor_type.
       bindr (text_field d ''actor_id'') (\<lambda>actor_id.
       bindr (text_field d ''action'') (\<lambda>action.
       bindr (text_field d ''entity_type'') (\<lambda>entity_type.
       bindr (opt_text_field d ''entity_id'') (\<lambda>entity_id.
       bindr (text_field d ''outcome'') (\<lambda>outcome.
       Inr \<lparr>ev_specversion = specversion, ev_id = event_id, ev_source = source, ev_type = ty,
            ev_subject = subject, ev_time = time, ev_datacontenttype = content,
            ev_tenant_id = tenant, ev_correlation_id = correlation, ev_data = data,
            ev_actor_type = actor_type, ev_actor_id = actor_id, ev_action = action,
            ev_entity_type = entity_type, ev_entity_id = entity_id,
            ev_outcome = outcome\<rparr>))))))))))))))))
     | _ \<Rightarrow> Inl validation_error)"

section \<open>The outbox table\<close>

record outbox_row = tenant_row +
  ob_destination :: string
  ob_event_type :: string
  ob_payload :: json
  ob_status :: string
  ob_attempts :: int
  ob_available_at :: timestamp
  ob_created_at :: timestamp
  ob_published_at :: "timestamp option"
  ob_last_error :: "string option"

text \<open>Every service's database holds the \<open>platform\<close> schema beside its own tables.\<close>

record platform_db =
  outbox :: "outbox_row list"

definition outbox_record :: "uuid \<Rightarrow> timestamp \<Rightarrow> audit_event \<Rightarrow> outbox_row" where
  "outbox_record new_id now e =
     \<lparr>row_id = new_id, tenant_id = ev_tenant_id e, ob_destination = ''audit'',
      ob_event_type = ev_type e, ob_payload = JDict (dump_event e), ob_status = ''pending'',
      ob_attempts = 0, ob_available_at = now, ob_created_at = now, ob_published_at = None,
      ob_last_error = None\<rparr>"

definition enqueue_audit ::
  "uuid \<Rightarrow> timestamp \<Rightarrow> audit_event \<Rightarrow> 'a platform_db_scheme \<Rightarrow> 'a platform_db_scheme" where
  "enqueue_audit new_id now e db = db\<lparr>outbox := outbox db @ [outbox_record new_id now e]\<rparr>"

definition outbox_claimable :: "timestamp \<Rightarrow> outbox_row \<Rightarrow> bool" where
  "outbox_claimable now r \<longleftrightarrow>
     (ob_status r = ''pending'' \<or> ob_status r = ''publishing'') \<and> ob_available_at r \<le> now"

definition mark_publishing :: "timestamp \<Rightarrow> outbox_row \<Rightarrow> outbox_row" where
  "mark_publishing now r = r\<lparr>ob_status := ''publishing'', ob_attempts := ob_attempts r + 1,
     ob_available_at := now + minutes 5\<rparr>"

definition claim_outbox ::
  "uuid set \<Rightarrow> timestamp \<Rightarrow> outbox_row list \<Rightarrow> outbox_row option \<times> outbox_row list" where
  "claim_outbox = claim_row outbox_claimable ob_created_at mark_publishing"

text \<open>The claim holds the row for five minutes: until then nobody else takes it.\<close>

interpretation outbox_queue: job_queue outbox_claimable ob_created_at mark_publishing
  "\<lambda>t0 t. t < t0 + minutes 5"
  by unfold_locales (auto simp: mark_publishing_def outbox_claimable_def)

section \<open>The relay\<close>

type_synonym 's http_post = "string \<Rightarrow> (string \<times> string) list \<Rightarrow> json \<Rightarrow> 's \<Rightarrow> nat result \<times> 's"

definition audit_events_url :: "settings \<Rightarrow> string" where
  "audit_events_url cfg = rstrip_slash (audit_service_url cfg) @ ''/api/v1/internal/events''"

definition http_publish ::
  "'s http_post \<Rightarrow> settings \<Rightarrow> audit_event \<Rightarrow> 's \<Rightarrow> unit result \<times> 's" where
  "http_publish post cfg e s =
     (let (r, s') = post (audit_events_url cfg)
                      (opt_header ''X-Internal-Token'' (internal_api_token cfg))
                      (JDict (dump_event e)) s
      in (bindr r raise_for_status, s'))"

text \<open>\<open>publisher.publish(AuditEvent.model_validate(record.payload))\<close>.\<close>

definition relay_publish ::
  "pydantic_lib \<Rightarrow> 's http_post \<Rightarrow> settings \<Rightarrow> outbox_row \<Rightarrow> 's \<Rightarrow> unit result \<times> 's" where
  "relay_publish px post cfg m s =
     (case load_event px 0 0 (ob_payload m) of
        Inl err \<Rightarrow> (Inl err, s)
      | Inr e \<Rightarrow> http_publish post cfg e s)"

text \<open>
  The session writes an attribute back only when it was assigned a value other than the one
  loaded with the record: \<open>assigned loaded new cur\<close> is what the row holds afterwards when it
  holds \<open>cur\<close> before.
\<close>

definition assigned :: "'a \<Rightarrow> 'a \<Rightarrow> 'a \<Rightarrow> 'a" where
  "assigned loaded new cur = (if new = loaded then cur else new)"

definition settle_published :: "timestamp \<Rightarrow> outbox_row \<Rightarrow> outbox_row list \<Rightarrow> outbox_row list" where
  "settle_published now m rows = upd_first (\<lambda>x. row_id x = row_id m)
     (\<lambda>x. x\<lparr>ob_status := assigned (ob_status m) ''published'' (ob_status x),
            ob_published_at := assigned (ob_published_at m) (Some now) (ob_published_at x),
            ob_last_error := assigned (ob_last_error m) None (ob_last_error x)\<rparr>) rows"

definition retry_delay :: "int \<Rightarrow> timestamp" where
  "retry_delay attempts = seconds (min 300 (2 ^ nat (min attempts 8)))"

definition settle_failed ::
  "timestamp \<Rightarrow> string \<Rightarrow> outbox_row \<Rightarrow> outbox_row list \<Rightarrow> outbox_row list" where
  "settle_failed now err m rows = upd_first (\<lambda>x. row_id x = row_id m)
     (\<lambda>x. x\<lparr>ob_status := assigned (ob_status m)
              (if ob_attempts m < 20 then ''pending'' else ''dead'') (ob_status x),
            ob_available_at := assigned (ob_available_at m)
              (now + retry_delay (ob_attempts m)) (ob_available_at x),
            ob_last_error := assigned (ob_last_error m) (Some (take 2000 err)) (ob_last_error x)\<rparr>) rows"

definition exn_text :: "exn \<Rightarrow> string" where
  "exn_text e = (case e of HTTPException _ d \<Rightarrow> py_str d | Exn _ m \<Rightarrow> m)"

text \<open>
  One turn of the loop of \<open>run\<close>. The record \<open>relay_turn\<close> holds what the outside decides:
  the clock at the three moments it is read, the outcome of the three commits, and whether
  the record can still be read after a failed commit has expired it. An exception that
  leaves the loop ends the process (\<open>Halted\<close>).
\<close>

record relay_turn =
  claim_clock :: timestamp
  claim_commit :: "exn option"
  settle_clock :: timestamp
  settle_commit :: "exn option"
  reload_fault :: "exn option"
  retry_clock :: timestamp
  retry_commit :: "exn option"

datatype relay_outcome = Idle | Delivered | Requeued | Halted exn

definition relay_requeue ::
  "relay_turn \<Rightarrow> exn \<Rightarrow> outbox_row \<Rightarrow> outbox_row list \<Rightarrow> relay_outcome \<times> outbox_row list" where
  "relay_requeue turn err m rows =
     (case transaction (retry_commit turn)
             (\<lambda>rows. Inr ((), settle_failed (retry_clock turn) (exn_text err) m rows)) rows of
        (Inl e, rows') \<Rightarrow> (Halted e, rows')
      | (Inr _, rows') \<Rightarrow> (Requeued, rows'))"

definition relay_iteration ::
  "pydantic_lib \<Rightarrow> 's http_post \<Rightarrow> settings \<Rightarrow> relay_turn \<Rightarrow> uuid set
     \<Rightarrow> outbox_row list \<times> 's \<Rightarrow> relay_outcome \<times> outbox_row list \<times> 's" where
  "relay_iteration px post cfg turn locked st =
     (let (rows, s) = st in
      case transaction (claim_commit turn)
             (\<lambda>rows. Inr (claim_outbox locked (claim_clock turn) rows)) rows of
        (Inl e, rows1) \<Rightarrow> (Halted e, rows1, s)
      | (Inr None, rows1) \<Rightarrow> (Idle, rows1, s)
      | (Inr (Some m), rows1) \<Rightarrow>
          (case relay_publish px post cfg m s of
             (Inl err, s1) \<Rightarrow> (let (out, rows2) = relay_requeue turn err m rows1 in (out, rows2, s1))
           | (Inr _, s1) \<Rightarrow>
               (case transaction (settle_commit turn)
                       (\<lambda>rows. Inr ((), settle_published (settle_clock turn) m rows)) rows1 of
                  (Inr _, rows2) \<Rightarrow> (Delivered, rows2, s1)
                | (Inl err, rows2) \<Rightarrow>
                    (case reload_fault turn of
                       Some e \<Rightarrow> (Halted e, rows2, s1)
                     | None \<Rightarrow> (let (out, rows3) = relay_requeue turn err m rows2
                                in (out, rows3, s1))))))"

text \<open>The loop, for the turns that it is given; it ends early when the process does.\<close>

fun relay_run ::
  "pydantic_lib \<Rightarrow> 's http_post \<Rightarrow> settings \<Rightarrow> relay_turn list \<Rightarrow> outbox_row list \<times> 's
     \<Rightarrow> relay_outcome list \<times> outbox_row list \<times> 's" where
  "relay_run px post cfg [] st = ([], st)"
| "relay_run px post cfg (turn # turns) st =
     (let (out, st') = relay_iteration px post cfg turn {} st
      in case out of Halted e \<Rightarrow> ([out], st')
         | _ \<Rightarrow> (let (outs, st'') = relay_run px post cfg turns st' in (out # outs, st'')))"


section \<open>Events survive the outbox\<close>

text \<open>What the reader of texts must do for an event: read back its UUIDs and its time.\<close>

definition reads_event :: "pydantic_lib \<Rightarrow> audit_event \<Rightarrow> bool" where
  "reads_event px e \<longleftrightarrow>
     (\<forall>u \<in> {ev_id e, ev_tenant_id e, ev_correlation_id e}. px_uuid px (uuid_str u) = Some u)
     \<and> px_time px (dump_time (ev_time e)) = Some (ev_time e)"

definition json_event :: "audit_event \<Rightarrow> audit_event" where
  "json_event e = e\<lparr>ev_data := map (\<lambda>(k, v). (k, json_mode v)) (ev_data e)\<rparr>"

lemma load_dump_event: "reads_event px e \<Longrightarrow> load_event px fresh now (JDict (dump_event e)) = Inr (json_event e)"
  by (cases e; cases "ev_entity_id e")
    (simp_all add: load_event_def dump_event_def text_field_def text_field_or_def parsed_field_def
      opt_text_field_def dict_field_def reads_event_def json_event_def opt_str_def)

section \<open>Interleaved relays\<close>

text \<open>
  Any number of relays and producers. \<open>rs_flight\<close> holds the records that relays have in
  memory, with what they know about the delivery; a relay may lose the commit after a
  delivery, act after its lease ran out, or die. \<open>others\<close> is a request of somebody else to
  the same service.
\<close>

datatype phase = Claimed | Accepted | Refused exn

record 's relay_state =
  rs_rows :: "outbox_row list"
  rs_flight :: "(outbox_row \<times> phase) set"
  rs_target :: 's

inductive relay_step ::
  "pydantic_lib \<Rightarrow> 's http_post \<Rightarrow> settings \<Rightarrow> 's relay_state \<Rightarrow> 's relay_state \<Rightarrow> bool"
  for px post cfg where
  enqueue: "new_id \<notin> row_id ` set (rs_rows st) \<Longrightarrow>
    relay_step px post cfg st (st\<lparr>rs_rows := rs_rows st @ [outbox_record new_id now e]\<rparr>)"
| claim: "claim_outbox locked now (rs_rows st) = (Some m, rows') \<Longrightarrow>
    relay_step px post cfg st (st\<lparr>rs_rows := rows', rs_flight := insert (m, Claimed) (rs_flight st)\<rparr>)"
| accepted: "(m, Claimed) \<in> rs_flight st \<Longrightarrow> relay_publish px post cfg m (rs_target st) = (Inr u, s') \<Longrightarrow>
    relay_step px post cfg st
      (st\<lparr>rs_target := s', rs_flight := insert (m, Accepted) (rs_flight st - {(m, Claimed)})\<rparr>)"
| refused: "(m, Claimed) \<in> rs_flight st \<Longrightarrow> relay_publish px post cfg m (rs_target st) = (Inl err, s') \<Longrightarrow>
    relay_step px post cfg st
      (st\<lparr>rs_target := s', rs_flight := insert (m, Refused err) (rs_flight st - {(m, Claimed)})\<rparr>)"
| settled: "(m, Accepted) \<in> rs_flight st \<Longrightarrow>
    relay_step px post cfg st
      (st\<lparr>rs_rows := settle_published now m (rs_rows st), rs_flight := rs_flight st - {(m, Accepted)}\<rparr>)"
| commit_lost: "(m, Accepted) \<in> rs_flight st \<Longrightarrow>
    relay_step px post cfg st
      (st\<lparr>rs_flight := insert (m, Refused err) (rs_flight st - {(m, Accepted)})\<rparr>)"
| requeued: "(m, Refused err) \<in> rs_flight st \<Longrightarrow>
    relay_step px post cfg st
      (st\<lparr>rs_rows := settle_failed now (exn_text err) m (rs_rows st),
          rs_flight := rs_flight st - {(m, Refused err)}\<rparr>)"
| died: "(m, ph) \<in> rs_flight st \<Longrightarrow>
    relay_step px post cfg st (st\<lparr>rs_flight := rs_flight st - {(m, ph)}\<rparr>)"
| others: "relay_step px post cfg st (st\<lparr>rs_target := snd (post url hs body (rs_target st))\<rparr>)"

definition relay_start :: "'s \<Rightarrow> 's relay_state" where
  "relay_start s = \<lparr>rs_rows = [], rs_flight = {}, rs_target = s\<rparr>"

subsection \<open>What every reachable state satisfies\<close>

text \<open>
  \<open>row_ok\<close> relates a row to the record a relay holds of it. The rows keep their identity
  and payload, the number of attempts never falls, and a row is given up only after twenty
  attempts.
\<close>

definition flight_ok :: "outbox_row list \<Rightarrow> outbox_row \<Rightarrow> bool" where
  "flight_ok rows m \<longleftrightarrow> ob_status m = ''publishing'' \<and>
     (\<exists>r \<in> set rows. row_id r = row_id m \<and> ob_payload r = ob_payload m \<and> ob_attempts m \<le> ob_attempts r)"

definition rows_ok :: "outbox_row list \<Rightarrow> bool" where
  "rows_ok rows \<longleftrightarrow> distinct (map row_id rows) \<and>
     (\<forall>r \<in> set rows. 0 \<le> ob_attempts r \<and> (ob_status r = ''dead'' \<longrightarrow> 20 \<le> ob_attempts r))"

lemma upd_first_row:
  assumes "distinct (map row_id rows)" "r \<in> set rows"
    and "y \<in> set (upd_first (\<lambda>x. row_id x = row_id r) f rows)"
  shows "y = f r \<or> y \<in> set rows \<and> row_id y \<noteq> row_id r"
  using assms
proof (induction rows)
  case (Cons a rows)
  show ?case
  proof (cases "row_id a = row_id r")
    case True
    then have "a = r" using Cons.prems(1,2) by (metis find_unique list.set_intros(1) option.inject)
    with Cons.prems show ?thesis by auto (metis image_eqI)
  next
    case False
    with Cons show ?thesis by auto
  qed
qed simp

lemma upd_first_row_in:
  assumes "distinct (map row_id rows)" "r \<in> set rows"
  shows "f r \<in> set (upd_first (\<lambda>x. row_id x = row_id r) f rows)"
  using assms
proof (induction rows)
  case (Cons a rows)
  show ?case
  proof (cases "row_id a = row_id r")
    case True
    then have "a = r" using Cons.prems(1,2) by (metis find_unique list.set_intros(1) option.inject)
    then show ?thesis by simp
  next
    case False
    with Cons show ?thesis by auto
  qed
qed simp

lemma upd_first_row_other:
  "s \<in> set rows \<Longrightarrow> \<not> P s \<Longrightarrow> s \<in> set (upd_first P f rows)"
  by (induction rows) auto

text \<open>Every change the relay makes to a row is of this kind.\<close>

lemma flight_ok_update:
  assumes rows: "rows_ok rows" and r: "r \<in> set rows"
    and f: "\<And>x. row_id (f x) = row_id x \<and> ob_payload (f x) = ob_payload x \<and> ob_attempts x \<le> ob_attempts (f x)"
    and m: "flight_ok rows m"
  shows "flight_ok (upd_first (\<lambda>x. row_id x = row_id r) f rows) m"
proof -
  from m obtain y where y: "y \<in> set rows" "row_id y = row_id m" "ob_payload y = ob_payload m"
      "ob_attempts m \<le> ob_attempts y" and st: "ob_status m = ''publishing''"
    by (auto simp: flight_ok_def)
  have d: "distinct (map row_id rows)" using rows by (simp add: rows_ok_def)
  show ?thesis
  proof (cases "row_id y = row_id r")
    case True
    then have "y = r" using d y(1) r by (metis find_unique option.inject)
    then have "f y \<in> set (upd_first (\<lambda>x. row_id x = row_id r) f rows)"
      using upd_first_row_in [OF d r] by simp
    moreover have "row_id (f y) = row_id m \<and> ob_payload (f y) = ob_payload m \<and> ob_attempts m \<le> ob_attempts (f y)"
      using f [of y] y by simp
    ultimately show ?thesis using st unfolding flight_ok_def by blast
  next
    case False
    then have "y \<in> set (upd_first (\<lambda>x. row_id x = row_id r) f rows)"
      using False by (intro upd_first_row_other [OF y(1)])
    then show ?thesis using y st unfolding flight_ok_def by blast
  qed
qed

lemma rows_ok_update:
  assumes rows: "rows_ok rows" and r: "r \<in> set rows" and f: "\<And>x. row_id (f x) = row_id x"
    and new: "0 \<le> ob_attempts (f r)" "ob_status (f r) = ''dead'' \<Longrightarrow> 20 \<le> ob_attempts (f r)"
  shows "rows_ok (upd_first (\<lambda>x. row_id x = row_id r) f rows)"
proof -
  have d: "distinct (map row_id rows)" using rows by (simp add: rows_ok_def)
  have "distinct (map row_id (upd_first (\<lambda>x. row_id x = row_id r) f rows))"
    using d f by (simp add: map_upd_first)
  moreover have "0 \<le> ob_attempts y \<and> (ob_status y = ''dead'' \<longrightarrow> 20 \<le> ob_attempts y)"
    if "y \<in> set (upd_first (\<lambda>x. row_id x = row_id r) f rows)" for y
    using upd_first_row [OF d r that] new rows by (auto simp: rows_ok_def)
  ultimately show ?thesis by (simp add: rows_ok_def)
qed

lemma flight_row:
  assumes "flight_ok rows m"
  obtains r where "r \<in> set rows" "row_id r = row_id m" "ob_payload r = ob_payload m"
    "ob_attempts m \<le> ob_attempts r"
  using assms by (auto simp: flight_ok_def)

lemma claim_outbox_Some:
  assumes "claim_outbox locked now rows = (Some m, rows')"
  obtains r where "r \<in> set rows" "outbox_claimable now r" "m = mark_publishing now r"
    "rows' = upd_first (\<lambda>x. row_id x = row_id r) (mark_publishing now) rows"
  using assms unfolding claim_outbox_def by (rule outbox_queue.claim_Some) blast

lemma claim_rows_ok:
  assumes "claim_outbox locked now rows = (Some m, rows')" and rows: "rows_ok rows"
  shows "rows_ok rows'" "flight_ok rows' m" "flight_ok rows x \<Longrightarrow> flight_ok rows' x"
proof -
  obtain r where r: "r \<in> set rows" "m = mark_publishing now r"
      "rows' = upd_first (\<lambda>x. row_id x = row_id r) (mark_publishing now) rows"
    using assms(1) by (rule claim_outbox_Some)
  have d: "distinct (map row_id rows)" and n: "0 \<le> ob_attempts r"
    using rows r(1) by (auto simp: rows_ok_def)
  show "rows_ok rows'"
    unfolding r(3) by (rule rows_ok_update [OF rows r(1)]) (use n in \<open>auto simp: mark_publishing_def\<close>)
  have "m \<in> set rows'" unfolding r(2,3) by (rule upd_first_row_in [OF d r(1)])
  moreover have "ob_status m = ''publishing''" by (simp add: r(2) mark_publishing_def)
  ultimately show "flight_ok rows' m" unfolding flight_ok_def by blast
  show "flight_ok rows' x" if "flight_ok rows x"
    unfolding r(3) by (rule flight_ok_update [OF rows r(1) _ that]) (simp add: mark_publishing_def)
qed

lemma settle_published_ok:
  assumes rows: "rows_ok rows" and m: "flight_ok rows m"
  shows "rows_ok (settle_published now m rows)"
    "flight_ok rows x \<Longrightarrow> flight_ok (settle_published now m rows) x"
proof -
  obtain r where r: "r \<in> set rows" "row_id r = row_id m"
    using m by (rule flight_row)
  then have n: "0 \<le> ob_attempts r" using rows by (auto simp: rows_ok_def)
  have st: "ob_status m = ''publishing''" using m by (simp add: flight_ok_def)
  show "rows_ok (settle_published now m rows)"
    unfolding settle_published_def r(2) [symmetric]
    by (rule rows_ok_update [OF rows r(1)]) (use n st in \<open>auto simp: assigned_def\<close>)
  show "flight_ok (settle_published now m rows) x" if "flight_ok rows x"
    unfolding settle_published_def r(2) [symmetric]
    by (rule flight_ok_update [OF rows r(1) _ that]) simp
qed

lemma settle_failed_ok:
  assumes rows: "rows_ok rows" and m: "flight_ok rows m"
  shows "rows_ok (settle_failed now err m rows)"
    "flight_ok rows x \<Longrightarrow> flight_ok (settle_failed now err m rows) x"
proof -
  obtain r where r: "r \<in> set rows" "row_id r = row_id m" "ob_attempts m \<le> ob_attempts r"
    using m by (rule flight_row)
  then have n: "0 \<le> ob_attempts r" using rows by (auto simp: rows_ok_def)
  have st: "ob_status m = ''publishing''" using m by (simp add: flight_ok_def)
  show "rows_ok (settle_failed now err m rows)"
    unfolding settle_failed_def r(2) [symmetric]
    by (rule rows_ok_update [OF rows r(1)])
      (use n st r(3) in \<open>auto simp: assigned_def split: if_splits\<close>)
  show "flight_ok (settle_failed now err m rows) x" if "flight_ok rows x"
    unfolding settle_failed_def r(2) [symmetric]
    by (rule flight_ok_update [OF rows r(1) _ that]) simp
qed

definition relay_ok :: "'s relay_state \<Rightarrow> bool" where
  "relay_ok st \<longleftrightarrow> rows_ok (rs_rows st) \<and> (\<forall>(m, ph) \<in> rs_flight st. flight_ok (rs_rows st) m)"

lemma relay_step_ok:
  assumes "relay_step px post cfg st st'" and "relay_ok st"
  shows "relay_ok st'"
  using assms
proof (induction rule: relay_step.induct)
  case (enqueue new_id st now e)
  then show ?case
    by (fastforce simp: relay_ok_def rows_ok_def flight_ok_def outbox_record_def)
next
  case (claim locked now st m rows')
  then show ?case using claim_rows_ok [OF claim.hyps]
    by (auto simp: relay_ok_def)
next
  case (settled m st now)
  then have "rows_ok (rs_rows st)" "flight_ok (rs_rows st) m" by (auto simp: relay_ok_def)
  then show ?case using settled settle_published_ok by (auto simp: relay_ok_def)
next
  case (requeued m err st now)
  then have "rows_ok (rs_rows st)" "flight_ok (rs_rows st) m" by (auto simp: relay_ok_def)
  then show ?case using requeued settle_failed_ok by (auto simp: relay_ok_def)
qed (auto simp: relay_ok_def)

lemma relay_reachable_ok: "(relay_step px post cfg)\<^sup>*\<^sup>* (relay_start s) st \<Longrightarrow> relay_ok st"
proof (induction rule: rtranclp_induct)
  case base
  show ?case by (simp add: relay_start_def relay_ok_def rows_ok_def)
next
  case (step y z)
  then show ?case by (blast intro: relay_step_ok)
qed

section \<open>Delivery at least once\<close>

text \<open>
  What the relay relies on at the other end: a service that has accepted a payload holds it,
  and keeps holding it whatever it is asked afterwards.
\<close>

locale delivery =
  fixes px :: pydantic_lib
    and post :: "'s http_post"
    and cfg :: settings
    and holds :: "'s \<Rightarrow> json \<Rightarrow> bool"
  assumes publish_holds: "relay_publish px post cfg m s = (Inr u, s') \<Longrightarrow> holds s' (ob_payload m)"
    and post_keeps: "holds s p \<Longrightarrow> holds (snd (post url hs body s)) p"
begin

lemma publish_keeps: "holds s p \<Longrightarrow> holds (snd (relay_publish px post cfg m s)) p"
  by (auto simp: relay_publish_def http_publish_def case_prod_beta post_keeps split: sum.splits)

definition delivered :: "'s relay_state \<Rightarrow> bool" where
  "delivered st \<longleftrightarrow>
     (\<forall>r \<in> set (rs_rows st). ob_status r = ''published'' \<longrightarrow> holds (rs_target st) (ob_payload r)) \<and>
     (\<forall>(m, ph) \<in> rs_flight st. ph = Accepted \<longrightarrow> holds (rs_target st) (ob_payload m))"

lemma delivered_target:
  "delivered st \<Longrightarrow> (\<And>p. holds (rs_target st) p \<Longrightarrow> holds s' p) \<Longrightarrow> delivered (st\<lparr>rs_target := s'\<rparr>)"
  by (fastforce simp: delivered_def)

lemma delivered_rows:
  assumes "delivered st"
    and "\<And>r. r \<in> set rows \<Longrightarrow> ob_status r = ''published'' \<Longrightarrow>
      r \<in> set (rs_rows st) \<or> holds (rs_target st) (ob_payload r)"
  shows "delivered (st\<lparr>rs_rows := rows\<rparr>)"
  using assms by (auto simp: delivered_def)

lemma delivered_flight:
  assumes "delivered st"
    and "\<And>m. (m, Accepted) \<in> fl \<Longrightarrow> (m, Accepted) \<in> rs_flight st \<or> holds (rs_target st) (ob_payload m)"
  shows "delivered (st\<lparr>rs_flight := fl\<rparr>)"
  using assms by (fastforce simp: delivered_def)

lemma claim_delivered:
  assumes "delivered st" "claim_outbox locked now (rs_rows st) = (Some m, rows')"
  shows "delivered (st\<lparr>rs_rows := rows'\<rparr>)"
proof (rule delivered_rows [OF assms(1)])
  fix y assume y: "y \<in> set rows'" "ob_status y = ''published''"
  obtain r :: outbox_row where
    "rows' = upd_first (\<lambda>x. row_id x = row_id r) (mark_publishing now) (rs_rows st)"
    using assms(2) by (rule claim_outbox_Some)
  with y in_set_upd_first [of y "\<lambda>x. row_id x = row_id r" "mark_publishing now" "rs_rows st"]
  show "y \<in> set (rs_rows st) \<or> holds (rs_target st) (ob_payload y)"
    by (auto simp: mark_publishing_def)
qed

lemma settle_published_delivered:
  assumes "delivered st" "relay_ok st" "(m, Accepted) \<in> rs_flight st"
  shows "delivered (st\<lparr>rs_rows := settle_published now m (rs_rows st)\<rparr>)"
proof (rule delivered_rows [OF assms(1)])
  fix y assume y: "y \<in> set (settle_published now m (rs_rows st))"
  have rows: "rows_ok (rs_rows st)" and fl: "flight_ok (rs_rows st) m"
    using assms(2,3) by (auto simp: relay_ok_def)
  obtain r where r: "r \<in> set (rs_rows st)" "row_id r = row_id m" "ob_payload r = ob_payload m"
    using fl by (rule flight_row)
  have "distinct (map row_id (rs_rows st))" using rows by (simp add: rows_ok_def)
  from upd_first_row [OF this r(1) y [unfolded settle_published_def r(2) [symmetric]]]
  have "y \<in> set (rs_rows st) \<or> ob_payload y = ob_payload m" using r(3) by auto
  moreover have "holds (rs_target st) (ob_payload m)"
    using assms(1,3) by (auto simp: delivered_def)
  ultimately show "y \<in> set (rs_rows st) \<or> holds (rs_target st) (ob_payload y)" by auto
qed

lemma settle_failed_delivered:
  assumes "delivered st" "relay_ok st" "(m, ph) \<in> rs_flight st"
  shows "delivered (st\<lparr>rs_rows := settle_failed now err m (rs_rows st)\<rparr>)"
proof (rule delivered_rows [OF assms(1)])
  fix y assume y: "y \<in> set (settle_failed now err m (rs_rows st))" "ob_status y = ''published''"
  have "ob_status m = ''publishing''" using assms(2,3) by (auto simp: relay_ok_def flight_ok_def)
  with y in_set_upd_first [of y _ _ "rs_rows st"]
  show "y \<in> set (rs_rows st) \<or> holds (rs_target st) (ob_payload y)"
    by (fastforce simp: settle_failed_def assigned_def split: if_splits)
qed

lemma step_delivered:
  assumes "relay_step px post cfg st st'" "relay_ok st" "delivered st"
  shows "delivered st'"
  using assms
proof (induction rule: relay_step.induct)
  case (enqueue new_id st now e)
  then show ?case by (intro delivered_rows) (auto simp: outbox_record_def)
next
  case (claim locked now st m rows')
  then have "delivered (st\<lparr>rs_rows := rows'\<rparr>)" by (blast intro: claim_delivered)
  then have "delivered (st\<lparr>rs_rows := rows'\<rparr>\<lparr>rs_flight := insert (m, Claimed) (rs_flight st)\<rparr>)"
    by (rule delivered_flight) simp
  then show ?case by simp
next
  case (accepted m st u s')
  then have "holds s' (ob_payload m)" using publish_holds by blast
  moreover have "delivered (st\<lparr>rs_target := s'\<rparr>)"
    using accepted publish_keeps by (intro delivered_target) (auto, metis snd_conv)
  ultimately have "delivered (st\<lparr>rs_target := s'\<rparr>
      \<lparr>rs_flight := insert (m, Accepted) (rs_flight st - {(m, Claimed)})\<rparr>)"
    by (intro delivered_flight) auto
  then show ?case by simp
next
  case (refused m st err s')
  then have "delivered (st\<lparr>rs_target := s'\<rparr>)"
    using publish_keeps by (intro delivered_target) (auto, metis snd_conv)
  then have "delivered (st\<lparr>rs_target := s'\<rparr>
      \<lparr>rs_flight := insert (m, Refused err) (rs_flight st - {(m, Claimed)})\<rparr>)"
    by (rule delivered_flight) auto
  then show ?case by simp
next
  case (settled m st now)
  then have "delivered (st\<lparr>rs_rows := settle_published now m (rs_rows st)\<rparr>)"
    by (intro settle_published_delivered)
  then have "delivered (st\<lparr>rs_rows := settle_published now m (rs_rows st)\<rparr>
      \<lparr>rs_flight := rs_flight st - {(m, Accepted)}\<rparr>)"
    by (rule delivered_flight) auto
  then show ?case by simp
next
  case (requeued m err st now)
  then have "delivered (st\<lparr>rs_rows := settle_failed now (exn_text err) m (rs_rows st)\<rparr>)"
    by (intro settle_failed_delivered)
  then have "delivered (st\<lparr>rs_rows := settle_failed now (exn_text err) m (rs_rows st)\<rparr>
      \<lparr>rs_flight := rs_flight st - {(m, Refused err)}\<rparr>)"
    by (rule delivered_flight) auto
  then show ?case by simp
next
  case (others st url hs body)
  then show ?case by (auto intro: delivered_target post_keeps)
qed (auto intro: delivered_flight)

lemma reachable_delivered:
  "(relay_step px post cfg)\<^sup>*\<^sup>* (relay_start s) st \<Longrightarrow> delivered st"
proof (induction rule: rtranclp_induct)
  case base
  show ?case by (simp add: relay_start_def delivered_def)
next
  case (step y z)
  then show ?case by (blast intro: step_delivered relay_reachable_ok)
qed

end

section \<open>The loop takes these steps\<close>

abbreviation relay_at :: "outbox_row list \<Rightarrow> (outbox_row \<times> phase) set \<Rightarrow> 's \<Rightarrow> 's relay_state" where
  "relay_at rows fl s \<equiv> \<lparr>rs_rows = rows, rs_flight = fl, rs_target = s\<rparr>"

lemma requeue_steps:
  assumes "rows' = snd (relay_requeue turn err m rows)"
  shows "(relay_step px post cfg)\<^sup>*\<^sup>* (relay_at rows {(m, Refused err)} s) (relay_at rows' {} s)"
proof (cases "retry_commit turn")
  case None
  with assms have "rows' = settle_failed (retry_clock turn) (exn_text err) m rows"
    by (simp add: relay_requeue_def)
  then show ?thesis
    using relay_step.requeued [of m err "relay_at rows {(m, Refused err)} s" px post cfg "retry_clock turn"]
    by simp
next
  case (Some e)
  with assms have "rows' = rows" by (simp add: relay_requeue_def)
  then show ?thesis
    using relay_step.died [of m "Refused err" "relay_at rows {(m, Refused err)} s" px post cfg] by simp
qed

lemma settle_steps:
  assumes "(case transaction (settle_commit turn) (\<lambda>rows. Inr ((), settle_published (settle_clock turn) m rows)) rows of
      (Inr u, rows2) \<Rightarrow> (Delivered, rows2, s)
    | (Inl err, rows2) \<Rightarrow> (case reload_fault turn of
         Some e \<Rightarrow> (Halted e, rows2, s)
       | None \<Rightarrow> (let (out, rows3) = relay_requeue turn err m rows2 in (out, rows3, s))))
     = (out, rows', s')"
  shows "(relay_step px post cfg)\<^sup>*\<^sup>* (relay_at rows {(m, Accepted)} s) (relay_at rows' {} s')"
proof (cases "settle_commit turn")
  case None
  with assms have "rows' = settle_published (settle_clock turn) m rows" "s' = s" by simp_all
  then show ?thesis
    using relay_step.settled [of m "relay_at rows {(m, Accepted)} s" px post cfg "settle_clock turn"] by simp
next
  case (Some err)
  show ?thesis
  proof (cases "reload_fault turn")
    case None
    then have "rows' = snd (relay_requeue turn err m rows)" "s' = s"
      using assms Some by (auto simp: case_prod_beta)
    then have "(relay_step px post cfg)\<^sup>*\<^sup>* (relay_at rows {(m, Refused err)} s) (relay_at rows' {} s')"
      by (simp add: requeue_steps)
    moreover have "relay_step px post cfg (relay_at rows {(m, Accepted)} s) (relay_at rows {(m, Refused err)} s)"
      using relay_step.commit_lost [of m "relay_at rows {(m, Accepted)} s" px post cfg err] by simp
    ultimately show ?thesis by (simp add: converse_rtranclp_into_rtranclp)
  next
    case (Some e)
    with assms \<open>settle_commit turn = Some err\<close> have "rows' = rows" "s' = s" by simp_all
    then show ?thesis
      using relay_step.died [of m Accepted "relay_at rows {(m, Accepted)} s" px post cfg] by simp
  qed
qed

lemma relay_iteration_steps:
  assumes "relay_iteration px post cfg turn locked (rows, s) = (out, rows', s')"
  shows "(relay_step px post cfg)\<^sup>*\<^sup>* (relay_at rows {} s) (relay_at rows' {} s')"
proof (cases "claim_commit turn = None \<and> fst (claim_outbox locked (claim_clock turn) rows) \<noteq> None")
  case False
  have "claim_outbox locked (claim_clock turn) rows = (None, x) \<Longrightarrow> x = rows" for x
    using outbox_queue.claim_None unfolding claim_outbox_def by blast
  with False assms have "rows' = rows" "s' = s"
    by (cases "claim_outbox locked (claim_clock turn) rows"; cases "claim_commit turn";
        force simp: relay_iteration_def)+
  then show ?thesis by simp
next
  case True
  then obtain m rows1 where m: "claim_outbox locked (claim_clock turn) rows = (Some m, rows1)"
    by (cases "claim_outbox locked (claim_clock turn) rows") auto
  have claimed: "relay_step px post cfg (relay_at rows {} s) (relay_at rows1 {(m, Claimed)} s)"
    using relay_step.claim [of locked "claim_clock turn" "relay_at rows {} s"] m by simp
  obtain r s1 where pub: "relay_publish px post cfg m s = (r, s1)" by fastforce
  have "(relay_step px post cfg)\<^sup>*\<^sup>* (relay_at rows1 {(m, Claimed)} s) (relay_at rows' {} s')"
  proof (cases r)
    case (Inl err)
    then have "relay_step px post cfg (relay_at rows1 {(m, Claimed)} s) (relay_at rows1 {(m, Refused err)} s1)"
      using pub relay_step.refused [of m "relay_at rows1 {(m, Claimed)} s" px post cfg err s1] by simp
    moreover have "rows' = snd (relay_requeue turn err m rows1)" "s' = s1"
      using assms True m pub Inl by (auto simp: relay_iteration_def case_prod_beta)
    then have "(relay_step px post cfg)\<^sup>*\<^sup>* (relay_at rows1 {(m, Refused err)} s1) (relay_at rows' {} s')"
      by (simp add: requeue_steps)
    ultimately show ?thesis by (rule converse_rtranclp_into_rtranclp)
  next
    case (Inr u)
    then have "relay_step px post cfg (relay_at rows1 {(m, Claimed)} s) (relay_at rows1 {(m, Accepted)} s1)"
      using pub relay_step.accepted [of m "relay_at rows1 {(m, Claimed)} s" px post cfg u s1] by simp
    moreover have "(relay_step px post cfg)\<^sup>*\<^sup>* (relay_at rows1 {(m, Accepted)} s1) (relay_at rows' {} s')"
      by (rule settle_steps) (use assms True m pub Inr in \<open>simp add: relay_iteration_def\<close>)
    ultimately show ?thesis by (rule converse_rtranclp_into_rtranclp)
  qed
  with claimed show ?thesis by (rule converse_rtranclp_into_rtranclp)
qed

lemma relay_run_steps:
  "relay_run px post cfg turns (rows, s) = (outs, rows', s') \<Longrightarrow>
     (relay_step px post cfg)\<^sup>*\<^sup>* (relay_at rows {} s) (relay_at rows' {} s')"
proof (induction turns arbitrary: rows s outs)
  case (Cons turn turns)
  obtain out rows1 s1 where it: "relay_iteration px post cfg turn {} (rows, s) = (out, rows1, s1)"
    by (metis prod_cases3)
  then have "(relay_step px post cfg)\<^sup>*\<^sup>* (relay_at rows {} s) (relay_at rows1 {} s1)"
    by (rule relay_iteration_steps)
  moreover have "(relay_step px post cfg)\<^sup>*\<^sup>* (relay_at rows1 {} s1) (relay_at rows' {} s')"
  proof (cases "\<exists>e. out = Halted e")
    case True
    with Cons.prems it show ?thesis by auto
  next
    case False
    then obtain outs' where "relay_run px post cfg turns (rows1, s1) = (outs', rows', s')"
      using Cons.prems it by (cases out) (auto simp: case_prod_beta prod_eq_iff)
    then show ?thesis by (rule Cons.IH)
  qed
  ultimately show ?case by (rule rtranclp_trans)
qed simp

section \<open>Retries\<close>

text \<open>The delay after a failure grows from two seconds to 256, within the limit of 300.\<close>

lemma retry_delay_power: "retry_delay (int n) = seconds (2 ^ min n 8)"
proof -
  have "(2::int) ^ min n 8 \<le> 2 ^ 8" by (rule power_increasing) simp_all
  moreover have "nat (min (int n) 8) = min n 8" by linarith
  ultimately show ?thesis by (simp add: retry_delay_def)
qed

text \<open>
  A row whose delivery fails every time, and a relay whose own commits succeed and whose turns
  come after the delays: after the n-th attempt the next turn comes 2, 4, 8 seconds later and so
  on, up to 256 from the eighth.
\<close>

fun delayed :: "nat \<Rightarrow> timestamp \<Rightarrow> relay_turn list \<Rightarrow> bool" where
  "delayed n t [] = True"
| "delayed n t (u # us) = (t \<le> claim_clock u \<and> claim_commit u = None \<and> retry_commit u = None
     \<and> delayed (Suc n) (retry_clock u + seconds (2 ^ min (Suc n) 8)) us)"

definition always_refused ::
  "pydantic_lib \<Rightarrow> 's http_post \<Rightarrow> settings \<Rightarrow> json \<Rightarrow> bool" where
  "always_refused px post cfg p \<longleftrightarrow>
     (\<forall>m s. ob_payload m = p \<longrightarrow> (\<exists>e s'. relay_publish px post cfg m s = (Inl e, s')))"

lemma claim_single:
  "outbox_claimable now r \<Longrightarrow> claim_outbox {} now [r] = (Some (mark_publishing now r), [mark_publishing now r])"
  by (simp add: claim_outbox_def claim_row_def select_first_def)

lemma refused_turn:
  assumes "always_refused px post cfg (ob_payload r)" "outbox_claimable (claim_clock u) r"
    and "claim_commit u = None" "retry_commit u = None"
  obtains r' s' where "relay_iteration px post cfg u {} ([r], s) = (Requeued, [r'], s')"
    "ob_attempts r' = ob_attempts r + 1" "ob_payload r' = ob_payload r"
    "ob_status r' = (if ob_attempts r + 1 < 20 then ''pending'' else ''dead'')"
    "ob_available_at r' = retry_clock u + retry_delay (ob_attempts r + 1)"
proof -
  let ?m = "mark_publishing (claim_clock u) r"
  have "ob_payload ?m = ob_payload r" by (simp add: mark_publishing_def)
  then obtain e s' where pub: "relay_publish px post cfg ?m s = (Inl e, s')"
    using assms(1) unfolding always_refused_def by blast
  obtain r' where r': "settle_failed (retry_clock u) (exn_text e) ?m [?m] = [r']"
    by (simp add: settle_failed_def)
  have "relay_iteration px post cfg u {} ([r], s) = (Requeued, [r'], s')"
    using assms(3,4) claim_single [OF assms(2)] pub r'
    by (simp add: relay_iteration_def relay_requeue_def)
  moreover have "ob_attempts r' = ob_attempts r + 1" "ob_payload r' = ob_payload r"
      "ob_status r' = (if ob_attempts r + 1 < 20 then ''pending'' else ''dead'')"
      "ob_available_at r' = retry_clock u + retry_delay (ob_attempts r + 1)"
    using r' by (auto simp: settle_failed_def mark_publishing_def assigned_def)
  ultimately show ?thesis by (rule that)
qed

lemma refused_run:
  assumes "always_refused px post cfg (ob_payload r)" "delayed n t turns" "ob_available_at r \<le> t"
    and "ob_status r = ''pending'' \<or> turns = []" "ob_attempts r = int n" "n + length turns \<le> 20"
  shows "\<exists>r' s'. relay_run px post cfg turns ([r], s) = (replicate (length turns) Requeued, [r'], s')
    \<and> ob_attempts r' = int (n + length turns)
    \<and> (turns \<noteq> [] \<longrightarrow> ob_status r' = (if n + length turns < 20 then ''pending'' else ''dead'')
        \<and> ob_available_at r' = retry_clock (last turns) + seconds (2 ^ min (n + length turns) 8))"
  using assms
proof (induction turns arbitrary: r n t s)
  case (Cons u us)
  then have cl: "outbox_claimable (claim_clock u) r" by (auto simp: outbox_claimable_def)
  obtain r1 s1 where it: "relay_iteration px post cfg u {} ([r], s) = (Requeued, [r1], s1)"
      "ob_attempts r1 = ob_attempts r + 1" "ob_payload r1 = ob_payload r"
      "ob_status r1 = (if ob_attempts r + 1 < 20 then ''pending'' else ''dead'')"
      "ob_available_at r1 = retry_clock u + retry_delay (ob_attempts r + 1)"
    using Cons.prems(2) by (auto intro: refused_turn [OF Cons.prems(1) cl, of s])
  have n: "ob_attempts r1 = int (Suc n)" using it(2) Cons.prems(5) by simp
  have at: "ob_available_at r1 = retry_clock u + seconds (2 ^ min (Suc n) 8)"
    using it(5) Cons.prems(5) retry_delay_power [of "Suc n"] by (simp add: add.commute)
  have st: "ob_status r1 = (if Suc n < 20 then ''pending'' else ''dead'')" using it(4) Cons.prems(5) by simp
  then have "ob_status r1 = ''pending'' \<or> us = []" using Cons.prems(6) by (cases us) auto
  then obtain r' s' where
    "relay_run px post cfg us ([r1], s1) = (replicate (length us) Requeued, [r'], s')"
    "ob_attempts r' = int (Suc n + length us)"
    "us \<noteq> [] \<longrightarrow> ob_status r' = (if Suc n + length us < 20 then ''pending'' else ''dead'')
        \<and> ob_available_at r' = retry_clock (last us) + seconds (2 ^ min (Suc n + length us) 8)"
    using Cons.IH [of r1 "Suc n" "retry_clock u + seconds (2 ^ min (Suc n) 8)" s1] Cons.prems(1,2,6) it(3) n at by auto
  then show ?case using it(1) st at n by (cases us) (auto simp: add.commute)
qed simp

text \<open>A row that is not due, or dead, is left alone.\<close>

lemma idle_turn:
  assumes "claim_commit u = None" "\<not> outbox_claimable (claim_clock u) r"
  shows "relay_iteration px post cfg u {} ([r], s) = (Idle, [r], s)"
  using assms by (simp add: relay_iteration_def transaction_def claim_outbox_def claim_row_def select_first_def)

section \<open>Properties\<close>

text \<open>Values for the witnesses.\<close>

definition sample_event :: "uuid \<Rightarrow> audit_event" where
  "sample_event i =
     \<lparr>ev_specversion = ''1.0'', ev_id = i, ev_source = ''identity-service'', ev_type = ''t'',
      ev_subject = ''s'', ev_time = 0, ev_datacontenttype = ''application/json'', ev_tenant_id = 7,
      ev_correlation_id = 8, ev_data = [], ev_actor_type = ''service'', ev_actor_id = ''relay'',
      ev_action = ''a'', ev_entity_type = ''e'', ev_entity_id = None, ev_outcome = ''succeeded''\<rparr>"

definition sample_turn :: "timestamp \<Rightarrow> relay_turn" where
  "sample_turn t = \<lparr>claim_clock = t, claim_commit = None, settle_clock = t, settle_commit = None,
     reload_fault = None, retry_clock = t, retry_commit = None\<rparr>"

text \<open>An event that is written to the outbox and read back by the relay is the same event, with the
  UUID objects in its data turned into texts, provided the reader of texts reads back the
  event's UUIDs and its time.\<close>

theorem outbox_event_roundtrip:
  assumes "reads_event px e"
  shows "load_event px fresh now (ob_payload (outbox_record new_id t e)) = Inr (json_event e)"
  using load_dump_event [OF assms] by (simp add: outbox_record_def)

lemma outbox_event_roundtrip_witness:
  "\<exists>px. load_event px 0 0 (ob_payload (outbox_record 1 0 (sample_event 5))) = Inr (sample_event 5)"
proof -
  let ?px = "\<lparr>px_uuid = (\<lambda>s. case uuid_parse s of Inr u \<Rightarrow> Some u | Inl _ \<Rightarrow> None), px_time = (\<lambda>_. Some 0)\<rparr>"
  have "reads_event ?px (sample_event 5)" by (simp add: reads_event_def sample_event_def)
  from outbox_event_roundtrip [OF this, of 0 0 1 0] show ?thesis
    by (auto simp: json_event_def sample_event_def)
qed



text \<open>C13: The loop of the relay process is an instance of the interleaved protocol: whatever the
  clocks, commit failures and answers of a run, it moves the outbox and the audit service
  along steps of the relation that also describes many relays at once.\<close>

theorem relay_loop_refines_steps:
  "(relay_step px post cfg)\<^sup>*\<^sup>* \<lparr>rs_rows = rows, rs_flight = {}, rs_target = s\<rparr>
     (case relay_run px post cfg turns (rows, s) of (outs, rows', s') \<Rightarrow>
        \<lparr>rs_rows = rows', rs_flight = {}, rs_target = s'\<rparr>)"
  using relay_run_steps by (auto split: prod.splits)

text \<open>C12: In every state that relays, producers and other clients of the audit service can reach,
  the ids of the outbox are distinct, every record in a relay's memory still has its row with
  the same payload, and a record is given up (dead) only after at least twenty attempts.\<close>

theorem outbox_reachable_invariant:
  assumes "(relay_step px post cfg)\<^sup>*\<^sup>* (relay_start s) st"
  shows "distinct (map row_id (rs_rows st)) \<and>
    (\<forall>r \<in> set (rs_rows st). ob_status r = ''dead'' \<longrightarrow> 20 \<le> ob_attempts r) \<and>
    (\<forall>(m, ph) \<in> rs_flight st. \<exists>r \<in> set (rs_rows st). row_id r = row_id m \<and> ob_payload r = ob_payload m)"
  using relay_reachable_ok [OF assms] by (fastforce simp: relay_ok_def rows_ok_def flight_ok_def)

lemma outbox_reachable_invariant_witness:
  "let st = (relay_start ())\<lparr>rs_rows := [outbox_record 1 0 (sample_event 5)]\<rparr>
   in \<forall>r \<in> set (rs_rows st). ob_status r = ''dead'' \<longrightarrow> 20 \<le> ob_attempts r"
proof -
  have "relay_step px post cfg (relay_start ())
      ((relay_start ())\<lparr>rs_rows := rs_rows (relay_start ()) @ [outbox_record 1 0 (sample_event 5)]\<rparr>)" for px post cfg
    by (rule relay_step.enqueue) (simp add: relay_start_def)
  then have "(relay_step px post cfg)\<^sup>*\<^sup>* (relay_start ())
      ((relay_start ())\<lparr>rs_rows := [outbox_record 1 0 (sample_event 5)]\<rparr>)" for px post cfg
    by (auto simp: relay_start_def)
  from outbox_reachable_invariant [OF this] show ?thesis by (simp add: Let_def)
qed

text \<open>C15: A record that the audit service refuses every time is retried with growing delays and given up
  with the twentieth attempt: after n turns (n between 1 and 20), each of which comes when the
  delay before it is over, the relay is still running, the record counts n attempts and is dead
  exactly when n is 20; it becomes available 2 to the power of n seconds after the n-th
  attempt (256 seconds from the eighth on), and a turn before that moment, and every turn after
  the record has died, leaves it alone and sends nothing.\<close>

theorem refused_record_given_up_after_twenty:
  assumes "always_refused px post cfg (ob_payload r)" "delayed 0 t turns" "ob_available_at r \<le> t"
    and "ob_status r = ''pending''" "ob_attempts r = 0" "turns \<noteq> []" "length turns \<le> 20"
  shows "\<exists>r' s'. relay_run px post cfg turns ([r], s) = (replicate (length turns) Requeued, [r'], s')
    \<and> ob_attempts r' = int (length turns)
    \<and> ob_status r' = (if length turns < 20 then ''pending'' else ''dead'')
    \<and> ob_available_at r' = retry_clock (last turns) + seconds (2 ^ min (length turns) 8)
    \<and> (\<forall>u. claim_commit u = None \<and> (length turns = 20 \<or> claim_clock u < ob_available_at r') \<longrightarrow>
          relay_iteration px post cfg u {} ([r'], s') = (Idle, [r'], s'))"
proof -
  obtain r' s' where r: "relay_run px post cfg turns ([r], s) = (replicate (length turns) Requeued, [r'], s')"
      "ob_attempts r' = int (length turns)" "ob_status r' = (if length turns < 20 then ''pending'' else ''dead'')"
      "ob_available_at r' = retry_clock (last turns) + seconds (2 ^ min (length turns) 8)"
    using refused_run [of px post cfg r 0 t turns s] assms by auto
  moreover have "relay_iteration px post cfg u {} ([r'], s') = (Idle, [r'], s')"
    if "claim_commit u = None" "length turns = 20 \<or> claim_clock u < ob_available_at r'" for u
    using that r(3) by (intro idle_turn) (auto simp: outbox_claimable_def)
  ultimately show ?thesis by blast
qed

lemma refused_record_given_up_after_twenty_witness:
  "\<exists>px cfg r' s'. relay_run px (\<lambda>_ _ _ s. (Inr 500, s)) cfg
      (map (\<lambda>i. sample_turn (seconds (300 * int i))) [0..<20]) ([outbox_record 1 0 (sample_event 5)], ())
    = (replicate 20 Requeued, [r'], s') \<and> ob_status r' = ''dead'' \<and> ob_available_at r' = seconds (300 * 19 + 256)"
proof -
  let ?turns = "map (\<lambda>i. sample_turn (seconds (300 * int i))) [0..<20]"
  have ref: "always_refused px (\<lambda>_ _ _ s. (Inr 500, s)) cfg p" for px cfg p
    by (auto simp: always_refused_def relay_publish_def http_publish_def raise_for_status_def
        success_status_def split: sum.splits)
  have sp: "delayed 0 0 ?turns"
    by (simp add: upt_rec sample_turn_def seconds_def)
  have last: "retry_clock (last ?turns) = seconds (300 * 19)" by (simp add: upt_rec sample_turn_def)
  have "\<exists>r' s'. relay_run px (\<lambda>_ _ _ s. (Inr 500, s)) cfg ?turns ([outbox_record 1 0 (sample_event 5)], ())
      = (replicate (length ?turns) Requeued, [r'], s') \<and> ob_status r' = (if length ?turns < 20 then ''pending'' else ''dead'')
      \<and> ob_available_at r' = retry_clock (last ?turns) + seconds (2 ^ min (length ?turns) 8)" for px cfg
    using refused_record_given_up_after_twenty [OF ref sp, of "outbox_record 1 0 (sample_event 5)" px cfg "()"]
    by (simp add: outbox_record_def) blast
  from this [of undefined default_settings] show ?thesis
    unfolding last by (simp only: length_map length_upt) (simp add: seconds_def, blast)
qed

end
