(* ===== verification/AuditLog.thy ===== *)
theory AuditLog
  imports Outbox "HOL-Library.Product_Lexorder"
begin

text \<open>
  The audit service (\<open>apps/audit-service\<close>): the two tables, the ingestion of an event into
  the tenant's hash chain, the searches, and the endpoints. SHA-256 is the argument \<open>sha\<close>,
  from the encoded text to the hexadecimal digest.
\<close>

section \<open>Tables\<close>

record audit_row = tenant_row +
  al_event_id :: uuid
  al_occurred_at :: timestamp
  al_ingested_at :: timestamp
  al_actor_type :: string
  al_actor_id :: string
  al_action :: string
  al_entity_type :: string
  al_entity_id :: "string option"
  al_outcome :: string
  al_source_service :: string
  al_correlation_id :: uuid
  al_trace_id :: "string option"
  al_metadata :: dict
  al_previous_hash :: "string option"
  al_record_hash :: string

record activity_row = tenant_row +
  ay_user_id :: "uuid option"
  ay_category :: string
  ay_message :: string
  ay_related_entity_type :: "string option"
  ay_related_entity_id :: "string option"
  ay_occurred_at :: timestamp
  ay_metadata :: dict

record audit_db =
  audit_logs :: "audit_row list"
  activity_events :: "activity_row list"

section \<open>Ingestion\<close>

definition find_event :: "audit_event \<Rightarrow> audit_db \<Rightarrow> audit_row option" where
  "find_event e db =
     find (\<lambda>r. tenant_id r = ev_tenant_id e \<and> al_event_id r = ev_id e) (audit_logs db)"

text \<open>\<open>order by ingested_at desc, id desc limit 1\<close>.\<close>

definition latest_record :: "uuid \<Rightarrow> audit_db \<Rightarrow> audit_row option" where
  "latest_record t db =
     select_first (\<lambda>r. tenant_id r = t) (\<lambda>r. (- al_ingested_at r, - uint (row_id r))) (audit_logs db)"

definition canonical_event :: "audit_event \<Rightarrow> string option \<Rightarrow> json" where
  "canonical_event e previous_hash = JDict
     [(''event_id'', JStr (uuid_str (ev_id e))), (''tenant_id'', JStr (uuid_str (ev_tenant_id e))),
      (''occurred_at'', JStr (isoformat (ev_time e))), (''actor_type'', JStr (ev_actor_type e)),
      (''actor_id'', JStr (ev_actor_id e)), (''action'', JStr (ev_action e)),
      (''entity_type'', JStr (ev_entity_type e)), (''entity_id'', opt_str (ev_entity_id e)),
      (''outcome'', JStr (ev_outcome e)), (''source'', JStr (ev_source e)),
      (''correlation_id'', JStr (uuid_str (ev_correlation_id e))), (''data'', JDict (ev_data e)),
      (''previous_hash'', opt_str previous_hash)]"

definition audit_row_of ::
  "(string \<Rightarrow> string) \<Rightarrow> uuid \<Rightarrow> clock \<Rightarrow> audit_event \<Rightarrow> string option \<Rightarrow> audit_row" where
  "audit_row_of sha new_id clk e previous_hash =
     \<lparr>row_id = new_id, tenant_id = ev_tenant_id e, al_event_id = ev_id e, al_occurred_at = ev_time e,
      al_ingested_at = tx_now clk, al_actor_type = ev_actor_type e, al_actor_id = ev_actor_id e,
      al_action = ev_action e, al_entity_type = ev_entity_type e, al_entity_id = ev_entity_id e,
      al_outcome = ev_outcome e, al_source_service = ev_source e,
      al_correlation_id = ev_correlation_id e, al_trace_id = None, al_metadata = ev_data e,
      al_previous_hash = previous_hash,
      al_record_hash = sha (json_text (canonical_event e previous_hash))\<rparr>"

definition activity_user :: "audit_event \<Rightarrow> uuid option result" where
  "activity_user e = (if ev_actor_type e = ''user''
     then bindr (uuid_parse (ev_actor_id e)) (\<lambda>u. Inr (Some u)) else Inr None)"

definition activity_row_of :: "uuid \<Rightarrow> audit_event \<Rightarrow> uuid option \<Rightarrow> activity_row" where
  "activity_row_of new_id e user =
     \<lparr>row_id = new_id, tenant_id = ev_tenant_id e, ay_user_id = user, ay_category = ev_type e,
      ay_message = ev_action e @ '' '' @ ev_outcome e, ay_related_entity_type = Some (ev_entity_type e),
      ay_related_entity_id = ev_entity_id e, ay_occurred_at = ev_time e,
      ay_metadata = [(''event_id'', JStr (uuid_str (ev_id e)))]\<rparr>"

text \<open>
  The part of \<open>ingest\<close> that runs under the tenant's advisory lock. The flush hits the
  constraint \<open>uq_audit_event\<close> when another transaction stored the event since the lookup.
\<close>

definition append_record ::
  "(string \<Rightarrow> string) \<Rightarrow> uuid \<Rightarrow> uuid \<Rightarrow> clock \<Rightarrow> audit_event \<Rightarrow> audit_db
     \<Rightarrow> (audit_row \<times> audit_db) result" where
  "append_record sha new_id activity_id clk e db =
     (let row = audit_row_of sha new_id clk e (map_option al_record_hash (latest_record (ev_tenant_id e) db))
      in bindr (activity_user e) (\<lambda>user.
         bindr (guardr (find_event e db = None) (Exn ''IntegrityError'' ''uq_audit_event'')) (\<lambda>_.
         Inr (row, db\<lparr>audit_logs := audit_logs db @ [row],
                      activity_events := activity_events db @ [activity_row_of activity_id e user]\<rparr>))))"

definition ingest ::
  "(string \<Rightarrow> string) \<Rightarrow> uuid \<Rightarrow> uuid \<Rightarrow> clock \<Rightarrow> audit_event \<Rightarrow> audit_db
     \<Rightarrow> (audit_row \<times> audit_db) result" where
  "ingest sha new_id activity_id clk e db =
     (case find_event e db of
        Some existing \<Rightarrow> Inr (existing, db)
      | None \<Rightarrow> append_record sha new_id activity_id clk e db)"

section \<open>Searches\<close>

record audit_filter =
  af_start :: "timestamp option"
  af_end :: "timestamp option"
  af_actor_id :: "string option"
  af_action :: "string option"
  af_entity_type :: "string option"
  af_entity_id :: "string option"
  af_outcome :: "string option"
  af_correlation_id :: "uuid option"

text \<open>A text filter that is missing or empty adds no condition.\<close>

definition text_filter :: "string option \<Rightarrow> string option \<Rightarrow> bool" where
  "text_filter f v \<longleftrightarrow> (present f \<longrightarrow> v = f)"

definition audit_match :: "audit_filter \<Rightarrow> audit_row \<Rightarrow> bool" where
  "audit_match f r \<longleftrightarrow>
     (case af_start f of None \<Rightarrow> True | Some s \<Rightarrow> s \<le> al_occurred_at r) \<and>
     (case af_end f of None \<Rightarrow> True | Some s \<Rightarrow> al_occurred_at r \<le> s) \<and>
     text_filter (af_actor_id f) (Some (al_actor_id r)) \<and>
     text_filter (af_action f) (Some (al_action r)) \<and>
     text_filter (af_entity_type f) (Some (al_entity_type r)) \<and>
     text_filter (af_entity_id f) (al_entity_id r) \<and>
     text_filter (af_outcome f) (Some (al_outcome r)) \<and>
     (case af_correlation_id f of None \<Rightarrow> True | Some c \<Rightarrow> al_correlation_id r = c)"

text \<open>The order of rows of equal \<open>occurred_at\<close> is left to the query plan.\<close>

definition audit_search ::
  "audit_row plan \<Rightarrow> uuid \<Rightarrow> audit_filter \<Rightarrow> nat \<Rightarrow> audit_db \<Rightarrow> audit_row list" where
  "audit_search plan t f limit db =
     take limit (sort_key (\<lambda>r. - al_occurred_at r)
       (scan_rows plan (filter (\<lambda>r. tenant_id r = t \<and> audit_match f r) (audit_logs db))))"

section \<open>Endpoints\<close>

text \<open>
  The bodies of the endpoints, after FastAPI has read the parameters and resolved the actor;
  \<open>limit\<close> is declared to lie between 1 and 1000, and the permission is checked first.
\<close>

definition audit_log_response :: "audit_row \<Rightarrow> json" where
  "audit_log_response r = JDict
     [(''id'', JUuid (row_id r)), (''event_id'', JUuid (al_event_id r)),
      (''occurred_at'', JStr (dump_time (al_occurred_at r))), (''actor_type'', JStr (al_actor_type r)),
      (''actor_id'', JStr (al_actor_id r)), (''action'', JStr (al_action r)),
      (''entity_type'', JStr (al_entity_type r)), (''entity_id'', opt_str (al_entity_id r)),
      (''outcome'', JStr (al_outcome r)), (''source_service'', JStr (al_source_service r)),
      (''correlation_id'', JUuid (al_correlation_id r)), (''metadata_json'', JDict (al_metadata r)),
      (''record_hash'', JStr (al_record_hash r))]"

definition events ::
  "audit_row plan \<Rightarrow> actor_context \<Rightarrow> audit_filter \<Rightarrow> int \<Rightarrow> audit_db
     \<Rightarrow> json list result" where
  "events plan actor f limit db =
     bindr (require_permission ''audit.read'' actor) (\<lambda>actor.
     bindr (guardr (1 \<le> limit \<and> limit \<le> 1000) request_validation) (\<lambda>_.
     Inr (map audit_log_response (audit_search plan (ac_tenant_id actor) f (nat limit) db))))"

definition operation_filter :: "uuid \<Rightarrow> audit_filter" where
  "operation_filter operation_id =
     \<lparr>af_start = None, af_end = None, af_actor_id = None, af_action = None,
      af_entity_type = Some ''operation'', af_entity_id = Some (uuid_str operation_id),
      af_outcome = None, af_correlation_id = None\<rparr>"

definition operation_timeline ::
  "audit_row plan \<Rightarrow> actor_context \<Rightarrow> uuid \<Rightarrow> audit_db \<Rightarrow> json list result" where
  "operation_timeline plan actor operation_id db =
     bindr (require_permission ''audit.read'' actor) (\<lambda>actor.
     Inr (map audit_log_response
       (rev (audit_search plan (ac_tenant_id actor) (operation_filter operation_id) 1000 db))))"

text \<open>What the outside decides of one ingestion: the ids, the clock, the commit.\<close>

record ingest_env =
  ie_row_id :: uuid
  ie_activity_id :: uuid
  ie_clock :: clock
  ie_commit :: "string option"
  ie_fresh :: uuid
  ie_lost :: bool

definition internal_guard :: "settings \<Rightarrow> string option \<Rightarrow> unit result" where
  "internal_guard cfg x_internal_token =
     guardr (present (internal_api_token cfg) \<and> x_internal_token = internal_api_token cfg)
       (http_error 401 ''Invalid internal credential'')"

definition ingest_event ::
  "(string \<Rightarrow> string) \<Rightarrow> settings \<Rightarrow> ingest_env \<Rightarrow> string option \<Rightarrow> audit_event \<Rightarrow> audit_db
     \<Rightarrow> unit result \<times> audit_db" where
  "ingest_event sha cfg env x_internal_token e db =
     (case internal_guard cfg x_internal_token of
        Inl err \<Rightarrow> (Inl err, db)
      | Inr _ \<Rightarrow> unit_of_work (db_fault (ie_commit env)) (ev_tenant_id e) (ev_id e)
          (on_tables (\<lambda>db. bindr (ingest sha (ie_row_id env) (ie_activity_id env) (ie_clock env) e db)
             (\<lambda>(_, db'). Inr ((), db')))) db)"

text \<open>
  The service as the relay's HTTP client sees it: the body is read as an \<open>AuditEvent\<close> (422
  if it is none), the endpoint runs, 204 or the error's status comes back, or the answer is
  lost on the way. The state counts the requests, so that \<open>env\<close> decides each one anew.
\<close>

definition audit_post ::
  "pydantic_lib \<Rightarrow> (string \<Rightarrow> string) \<Rightarrow> settings \<Rightarrow> (nat \<Rightarrow> ingest_env) \<Rightarrow> (audit_db \<times> nat) http_post" where
  "audit_post px sha cfg env url hs body st =
     (let (db, n) = st; v = env n in
      if url \<noteq> audit_events_url cfg then (Inr 404, db, Suc n)
      else case load_event px (ie_fresh v) (py_now (ie_clock v)) body of
        Inl _ \<Rightarrow> (Inr 422, db, Suc n)
      | Inr e \<Rightarrow>
          (let (r, db') = ingest_event sha cfg v (map_of hs ''X-Internal-Token'') e db;
               st = (case r of Inr _ \<Rightarrow> 204 | Inl err \<Rightarrow> status_of err)
           in (if ie_lost v then Inl (Exn ''ReadTimeout'' []) else Inr st, db', Suc n)))"

section \<open>An event is stored once\<close>

abbreviation event_key :: "audit_row \<Rightarrow> uuid \<times> uuid" where
  "event_key r \<equiv> (tenant_id r, al_event_id r)"

interpretation audit_table: keyed_upsert event_key event_key "\<lambda>r. r" "\<lambda>_ r. r"
  by unfold_locales simp_all

lemma audit_row_of_key [simp]:
  "tenant_id (audit_row_of sha i c e p) = ev_tenant_id e"
  "al_event_id (audit_row_of sha i c e p) = ev_id e"
  "al_ingested_at (audit_row_of sha i c e p) = tx_now c"
  "row_id (audit_row_of sha i c e p) = i"
  by (simp_all add: audit_row_of_def)

lemma find_event_key: "find_event e db = find (\<lambda>r. event_key r = (ev_tenant_id e, ev_id e)) (audit_logs db)"
  by (simp add: find_event_def)

lemma append_record_Inr:
  "append_record sha i a c e db = Inr (r, db') \<longleftrightarrow>
     find_event e db = None \<and> r = audit_row_of sha i c e (map_option al_record_hash (latest_record (ev_tenant_id e) db))
     \<and> (\<exists>user. activity_user e = Inr user \<and>
          db' = db\<lparr>audit_logs := audit_logs db @ [r],
                    activity_events := activity_events db @ [activity_row_of a e user]\<rparr>)"
  by (auto simp: append_record_def Let_def result_iff)

lemma ingest_cases:
  assumes "ingest sha i a c e db = Inr (r, db')"
  obtains (stored) "find_event e db = Some r" "db' = db"
  | (added) user where "find_event e db = None" "activity_user e = Inr user"
      "r = audit_row_of sha i c e (map_option al_record_hash (latest_record (ev_tenant_id e) db))"
      "db' = db\<lparr>audit_logs := audit_logs db @ [r],
              activity_events := activity_events db @ [activity_row_of a e user]\<rparr>"
proof (cases "find_event e db")
  case (Some x)
  show ?thesis by (rule stored) (use assms Some in \<open>simp_all add: ingest_def\<close>)
next
  case None
  then have "append_record sha i a c e db = Inr (r, db')" using assms by (simp add: ingest_def)
  with None added show ?thesis unfolding append_record_Inr by blast
qed

lemma ingest_find: "ingest sha i a c e db = Inr (r, db') \<Longrightarrow> find_event e db' = Some r"
  by (erule ingest_cases) (simp_all add: find_event_def find_append)

lemma ingest_row_key: "ingest sha i a c e db = Inr (r, db') \<Longrightarrow> event_key r = (ev_tenant_id e, ev_id e)"
  by (drule ingest_find) (auto simp: find_event_def dest!: find_Some_in)

text \<open>On the log, an ingestion is the get-or-create of the table's key.\<close>

lemma ingest_put:
  assumes "ingest sha i a c e db = Inr (r, db')"
  shows "audit_logs db' = audit_table.put r (audit_logs db)"
proof -
  have "find (\<lambda>x. event_key x = event_key r) (audit_logs db) = find_event e db"
    unfolding find_event_key ingest_row_key [OF assms] ..
  with assms show ?thesis by (elim ingest_cases) (simp_all only: upsert_def, simp_all)
qed

lemma ingest_keys_distinct:
  assumes "ingest sha i a c e db = Inr (r, db')" "distinct (map event_key (audit_logs db))"
  shows "distinct (map event_key (audit_logs db'))"
  unfolding ingest_put [OF assms(1)] by (rule audit_table.unique_put [OF assms(2)])

lemma ingest_again:
  "ingest sha i a c e db = Inr (r, db') \<Longrightarrow> ingest sha i' a' c' e db' = Inr (r, db')"
  by (drule ingest_find) (simp add: ingest_def)

lemma ingest_keeps_record:
  "ingest sha i a c e db = Inr (r, db') \<Longrightarrow> x \<in> set (audit_logs db) \<Longrightarrow> x \<in> set (audit_logs db')"
  by (erule ingest_cases) simp_all

section \<open>The hash chain\<close>

text \<open>What an auditor recomputes from a stored record.\<close>

definition canonical_row :: "audit_row \<Rightarrow> string option \<Rightarrow> json" where
  "canonical_row r previous_hash = JDict
     [(''event_id'', JStr (uuid_str (al_event_id r))), (''tenant_id'', JStr (uuid_str (tenant_id r))),
      (''occurred_at'', JStr (isoformat (al_occurred_at r))), (''actor_type'', JStr (al_actor_type r)),
      (''actor_id'', JStr (al_actor_id r)), (''action'', JStr (al_action r)),
      (''entity_type'', JStr (al_entity_type r)), (''entity_id'', opt_str (al_entity_id r)),
      (''outcome'', JStr (al_outcome r)), (''source'', JStr (al_source_service r)),
      (''correlation_id'', JStr (uuid_str (al_correlation_id r))), (''data'', JDict (al_metadata r)),
      (''previous_hash'', opt_str previous_hash)]"

lemma canonical_audit_row: "canonical_row (audit_row_of sha i c e p) q = canonical_event e q"
  by (simp add: canonical_row_def canonical_event_def audit_row_of_def)

lemma audit_row_of_hashes:
  "al_previous_hash (audit_row_of sha i c e p) = p"
  "al_record_hash (audit_row_of sha i c e p) = sha (json_text (canonical_event e p))"
  by (simp_all add: audit_row_of_def)

fun chained :: "(string \<Rightarrow> string) \<Rightarrow> string option \<Rightarrow> audit_row list \<Rightarrow> bool" where
  "chained sha prev [] = True"
| "chained sha prev (r # rs) = (al_previous_hash r = prev
     \<and> al_record_hash r = sha (json_text (canonical_row r prev))
     \<and> chained sha (Some (al_record_hash r)) rs)"

definition chain_head :: "string option \<Rightarrow> audit_row list \<Rightarrow> string option" where
  "chain_head prev rs = (if rs = [] then prev else Some (al_record_hash (last rs)))"

lemma chained_append:
  "chained sha prev (rs @ ss) \<longleftrightarrow> chained sha prev rs \<and> chained sha (chain_head prev rs) ss"
  by (induction rs arbitrary: prev) (auto simp: chain_head_def)

definition tenant_log :: "uuid \<Rightarrow> audit_db \<Rightarrow> audit_row list" where
  "tenant_log t db = filter (\<lambda>r. tenant_id r = t) (audit_logs db)"

definition log_in_order :: "uuid \<Rightarrow> audit_db \<Rightarrow> bool" where
  "log_in_order t db \<longleftrightarrow> sorted_wrt (\<lambda>a b. al_ingested_at a < al_ingested_at b) (tenant_log t db)"

lemma sort_key_single_min:
  assumes "x \<in> set xs" "\<And>y. y \<in> set xs \<Longrightarrow> y \<noteq> x \<Longrightarrow> f x < f y" "distinct xs"
  shows "sort_key f xs \<noteq> [] \<and> hd (sort_key f xs) = x"
proof -
  obtain y ys where y: "sort_key f xs = y # ys"
    using assms(1) by (metis list.set_cases neq_Nil_conv set_sort)
  then have "sorted (map f (y # ys))" by (metis sorted_sort_key)
  moreover have "x \<in> set (y # ys)" "y \<in> set xs" using assms(1) y by (metis set_sort, metis list.set_intros(1) set_sort)
  ultimately have "y = x" using assms(2) by force
  with y show ?thesis by simp
qed

lemma sorted_wrt_last_less:
  "sorted_wrt (\<lambda>a b. f a < (f b :: int)) xs \<Longrightarrow> y \<in> set xs \<Longrightarrow> y \<noteq> last xs \<Longrightarrow> f y < f (last xs)"
  by (induction xs) (auto split: if_splits)

lemma sorted_wrt_distinct: "sorted_wrt (\<lambda>a b. f a < (f b :: int)) xs \<Longrightarrow> distinct xs"
  by (induction xs) auto

text \<open>When the tenant's records were stored in the order of their stamps, the latest is the last.\<close>

lemma latest_last:
  assumes "log_in_order t db"
  shows "latest_record t db = (if tenant_log t db = [] then None else Some (last (tenant_log t db)))"
proof (cases "tenant_log t db = []")
  case True
  then show ?thesis by (simp add: latest_record_def select_first_def tenant_log_def)
next
  case False
  let ?f = "\<lambda>r. (- al_ingested_at r, - uint (row_id r))" and ?xs = "tenant_log t db"
  have s: "sorted_wrt (\<lambda>a b. al_ingested_at a < al_ingested_at b) ?xs"
    using assms by (simp add: log_in_order_def)
  have "sort_key ?f ?xs \<noteq> [] \<and> hd (sort_key ?f ?xs) = last ?xs"
    using False sorted_wrt_last_less [OF s] sorted_wrt_distinct [OF s]
    by (intro sort_key_single_min) (auto simp: less_prod_def)
  then show ?thesis using False
    by (auto simp: latest_record_def select_first_def tenant_log_def split: list.splits)
qed

definition chain_ok :: "(string \<Rightarrow> string) \<Rightarrow> audit_db \<Rightarrow> bool" where
  "chain_ok sha db \<longleftrightarrow> (\<forall>t. log_in_order t db \<and> chained sha None (tenant_log t db))"

text \<open>
  A transaction that starts after every stored record of its tenant extends the chain.
\<close>

lemma append_chain:
  assumes ok: "chain_ok sha db" and app: "append_record sha i a c e db = Inr (r, db')"
    and later: "\<And>x. x \<in> set (tenant_log (ev_tenant_id e) db) \<Longrightarrow> al_ingested_at x < tx_now c"
  shows "chain_ok sha db'"
proof -
  let ?t = "ev_tenant_id e"
  have r: "r = audit_row_of sha i c e (map_option al_record_hash (latest_record ?t db))"
    and logs: "audit_logs db' = audit_logs db @ [r]"
    using app by (auto simp: append_record_Inr)
  have tl: "tenant_log ?t db' = tenant_log ?t db @ [r]" "t \<noteq> ?t \<Longrightarrow> tenant_log t db' = tenant_log t db" for t
    using logs r by (auto simp: tenant_log_def)
  have ord: "log_in_order ?t db" and ch: "chained sha None (tenant_log ?t db)"
    using ok by (auto simp: chain_ok_def)
  have head: "map_option al_record_hash (latest_record ?t db) = chain_head None (tenant_log ?t db)"
    by (simp add: latest_last [OF ord] chain_head_def)
  have "log_in_order ?t db'"
    using ord later r by (auto simp: log_in_order_def tl sorted_wrt_append)
  moreover have "chained sha None (tenant_log ?t db')"
  proof -
    have "al_previous_hash r = chain_head None (tenant_log ?t db)"
      using r head by (simp add: audit_row_of_def)
    moreover have "al_record_hash r = sha (json_text (canonical_row r (chain_head None (tenant_log ?t db))))"
      unfolding r canonical_audit_row head by (simp add: audit_row_of_def)
    ultimately show ?thesis using ch by (simp add: tl chained_append)
  qed
  ultimately show ?thesis using ok tl(2) unfolding chain_ok_def log_in_order_def by metis
qed

text \<open>
  A run of ingestions, each the body of one transaction: an error rolls back and changes
  nothing. \<open>starts_later\<close> says that each transaction starts after all records stored before.
\<close>

fun ingest_run ::
  "(string \<Rightarrow> string) \<Rightarrow> (ingest_env \<times> audit_event) list \<Rightarrow> audit_db \<Rightarrow> audit_db" where
  "ingest_run sha [] db = db"
| "ingest_run sha ((v, e) # es) db =
     ingest_run sha es (snd (transaction (db_fault (ie_commit v))
       (ingest sha (ie_row_id v) (ie_activity_id v) (ie_clock v) e) db))"

fun starts_increase :: "timestamp \<Rightarrow> (ingest_env \<times> audit_event) list \<Rightarrow> bool" where
  "starts_increase t [] = True"
| "starts_increase t ((v, e) # es) = (t < tx_now (ie_clock v) \<and> starts_increase (tx_now (ie_clock v)) es)"

definition stamped_until :: "timestamp \<Rightarrow> audit_db \<Rightarrow> bool" where
  "stamped_until t db \<longleftrightarrow> (\<forall>r \<in> set (audit_logs db). al_ingested_at r \<le> t)"

lemma ingest_chain:
  assumes "ingest sha i a c e db = Inr (r, db')" "chain_ok sha db" "stamped_until t db" "t < tx_now c"
  shows "chain_ok sha db' \<and> stamped_until (tx_now c) db'"
  using assms(1)
proof (cases rule: ingest_cases)
  case stored
  with assms(2-) show ?thesis by (force simp: stamped_until_def)
next
  case (added user)
  then have "append_record sha i a c e db = Inr (r, db')" unfolding append_record_Inr by blast
  moreover have "\<And>x. x \<in> set (tenant_log (ev_tenant_id e) db) \<Longrightarrow> al_ingested_at x < tx_now c"
    using assms(3,4) by (force simp: stamped_until_def tenant_log_def)
  ultimately have "chain_ok sha db'" using append_chain [OF assms(2)] by blast
  moreover have "stamped_until (tx_now c) db'"
    using added assms(3,4) by (force simp: stamped_until_def)
  ultimately show ?thesis by blast
qed

lemma ingest_run_chain:
  "chain_ok sha db \<Longrightarrow> stamped_until t db \<Longrightarrow> starts_increase t es \<Longrightarrow> chain_ok sha (ingest_run sha es db)"
proof (induction es arbitrary: t db)
  case (Cons x es)
  obtain v e where x: "x = (v, e)" by fastforce
  let ?c = "tx_now (ie_clock v)"
  let ?f = "ingest sha (ie_row_id v) (ie_activity_id v) (ie_clock v) e"
  have "stamped_until ?c db" using Cons.prems x by (force simp: stamped_until_def)
  with Cons.prems(1) have start: "chain_ok sha db \<and> stamped_until ?c db" by blast
  have step: "chain_ok sha db' \<and> stamped_until ?c db'" if "?f db = Inr (r, db')" for r db'
    by (rule ingest_chain [OF that Cons.prems(1,2)]) (use Cons.prems(3) x in simp)
  have "chain_ok sha (snd (transaction (db_fault (ie_commit v)) ?f db)) \<and>
      stamped_until ?c (snd (transaction (db_fault (ie_commit v)) ?f db))"
    by (rule transaction_invariant [where I = "\<lambda>d. chain_ok sha d \<and> stamped_until ?c d", OF start step])
  then show ?case using Cons.IH Cons.prems(3) x by auto
qed simp

definition empty_audit :: audit_db where
  "empty_audit = \<lparr>audit_logs = [], activity_events = []\<rparr>"

lemma empty_audit_ok: "chain_ok sha empty_audit" "stamped_until t empty_audit"
  by (simp_all add: empty_audit_def chain_ok_def log_in_order_def tenant_log_def stamped_until_def)

subsection \<open>Tamper evidence\<close>

lemma canon_dict_field:
  assumes "canon (JDict d) = canon (JDict d')" "distinct (map fst d)" "distinct (map fst d')"
  shows "map_option canon (map_of d k) = map_option canon (map_of d' k)"
proof -
  let ?g = "\<lambda>(k, v). (k, canon v)"
  have look: "map_of (sort_key fst (map ?g x)) k = map_option canon (map_of x k)"
    if "distinct (map fst x)" for x :: dict
  proof -
    have "distinct (map fst (map ?g x))" using that by (simp add: case_prod_beta comp_def)
    moreover have "mset (sort_key fst (map ?g x)) = mset (map ?g x)" by simp
    ultimately have "map_of (sort_key fst (map ?g x)) = map_of (map ?g x)"
      by (metis distinct_keys_sort map_of_inject_set mset_eq_setD)
    then show ?thesis by (simp add: map_of_map)
  qed
  from assms(1) have "sort_key fst (map ?g d) = sort_key fst (map ?g d')" by simp
  then show ?thesis using look [OF assms(2)] look [OF assms(3)] by metis
qed

lemma canon_text: "canon (JStr s) = JStr s"
  by simp

definition wf_row :: "audit_row \<Rightarrow> bool" where
  "wf_row r \<longleftrightarrow> wf_json (JDict (al_metadata r))"

lemma opt_str_simps [simp]:
  "wf_json (opt_str x)" "canon (opt_str x) = opt_str x" "opt_str x = opt_str y \<longleftrightarrow> x = y"
  by (auto simp: opt_str_def split: option.splits)

lemma wf_canonical_row: "wf_row r \<Longrightarrow> wf_json (canonical_row r p)"
  by (simp add: canonical_row_def wf_row_def)

text \<open>Everything that an entry says, up to the order of keys in its data.\<close>

definition same_record :: "audit_row \<Rightarrow> audit_row \<Rightarrow> bool" where
  "same_record r s \<longleftrightarrow> al_event_id r = al_event_id s \<and> tenant_id r = tenant_id s
     \<and> isoformat (al_occurred_at r) = isoformat (al_occurred_at s)
     \<and> al_actor_type r = al_actor_type s \<and> al_actor_id r = al_actor_id s
     \<and> al_action r = al_action s \<and> al_entity_type r = al_entity_type s
     \<and> al_entity_id r = al_entity_id s \<and> al_outcome r = al_outcome s
     \<and> al_source_service r = al_source_service s \<and> al_correlation_id r = al_correlation_id s
     \<and> canon (JDict (al_metadata r)) = canon (JDict (al_metadata s))
     \<and> al_previous_hash r = al_previous_hash s \<and> al_record_hash r = al_record_hash s"

lemma canonical_row_inject:
  assumes "json_text (canonical_row r p) = json_text (canonical_row s q)" "wf_row r" "wf_row s"
    and "al_previous_hash r = p" "al_previous_hash s = q" "al_record_hash r = al_record_hash s"
  shows "same_record r s" "p = q"
proof -
  have "canon (canonical_row r p) = canon (canonical_row s q)"
    using assms(1-3) json_text_inject wf_canonical_row by blast
  note field = canon_dict_field [OF this [unfolded canonical_row_def]]
  show "p = q" using field [of "''previous_hash''"] by simp
  show "same_record r s"
    using field [of "''event_id''"] field [of "''tenant_id''"] field [of "''occurred_at''"]
      field [of "''actor_type''"] field [of "''actor_id''"] field [of "''action''"]
      field [of "''entity_type''"] field [of "''entity_id''"] field [of "''outcome''"]
      field [of "''source''"] field [of "''correlation_id''"] field [of "''data''"]
      field [of "''previous_hash''"] assms(4-)
    by (simp add: same_record_def canon_text del: canon.simps)
qed

definition hashed_texts :: "audit_row list \<Rightarrow> string set" where
  "hashed_texts rs = (\<lambda>r. json_text (canonical_row r (al_previous_hash r))) ` set rs"

text \<open>
  Two chains with the same head hash have the same records throughout, unless the hash
  function collides on one of their texts.
\<close>

lemma chain_evidence:
  assumes "chained sha None rs" "chained sha None ss" "chain_head None rs = chain_head None ss"
    and "inj_on sha (hashed_texts rs \<union> hashed_texts ss)"
    and "\<forall>r \<in> set rs \<union> set ss. wf_row r"
  shows "list_all2 same_record rs ss"
  using assms
proof (induction rs arbitrary: ss rule: rev_induct)
  case Nil
  then show ?case by (simp add: chain_head_def split: if_splits)
next
  case (snoc r rs)
  from snoc.prems(3) obtain ss' s where ss: "ss = ss' @ [s]"
    by (cases ss rule: rev_exhaust) (auto simp: chain_head_def)
  have hash: "al_record_hash r = al_record_hash s"
    using snoc.prems(3) ss by (simp add: chain_head_def)
  have prev: "al_previous_hash r = chain_head None rs" "al_previous_hash s = chain_head None ss'"
    and rec: "al_record_hash r = sha (json_text (canonical_row r (chain_head None rs)))"
      "al_record_hash s = sha (json_text (canonical_row s (chain_head None ss')))"
    and ch: "chained sha None rs" "chained sha None ss'"
    using snoc.prems(1,2) ss by (auto simp: chained_append)
  have "json_text (canonical_row r (chain_head None rs)) = json_text (canonical_row s (chain_head None ss'))"
  proof (rule inj_onD [OF snoc.prems(4)])
    show "sha (json_text (canonical_row r (chain_head None rs))) = sha (json_text (canonical_row s (chain_head None ss')))"
      using hash rec by simp
  qed (simp_all add: hashed_texts_def ss prev)
  moreover have "wf_row r" "wf_row s" using snoc.prems(5) ss by auto
  ultimately have same: "same_record r s" "chain_head None rs = chain_head None ss'"
    using canonical_row_inject [OF _ _ _ prev hash] by blast+
  have "hashed_texts rs \<union> hashed_texts ss' \<subseteq> hashed_texts (rs @ [r]) \<union> hashed_texts ss"
    using ss by (auto simp: hashed_texts_def)
  then have "list_all2 same_record rs ss'"
    using snoc.IH [OF ch same(2)] snoc.prems(4,5) ss by (auto intro: inj_on_subset)
  with same(1) ss show ?case by (simp add: list_all2_appendI)
qed

text \<open>The log that a run of ingestions leaves, and its newest record.\<close>

lemma run_log:
  assumes "starts_increase t0 es"
  shows "chained sha None (tenant_log t (ingest_run sha es empty_audit))"
    "map_option al_record_hash (latest_record t (ingest_run sha es empty_audit))
      = chain_head None (tenant_log t (ingest_run sha es empty_audit))"
proof -
  have ok: "chain_ok sha (ingest_run sha es empty_audit)" by (rule ingest_run_chain [OF empty_audit_ok assms])
  then have "log_in_order t (ingest_run sha es empty_audit)" by (simp add: chain_ok_def)
  then show "map_option al_record_hash (latest_record t (ingest_run sha es empty_audit))
      = chain_head None (tenant_log t (ingest_run sha es empty_audit))"
    by (simp add: latest_last chain_head_def)
  show "chained sha None (tenant_log t (ingest_run sha es empty_audit))" using ok by (simp add: chain_ok_def)
qed

definition wf_log :: "audit_db \<Rightarrow> bool" where
  "wf_log db \<longleftrightarrow> (\<forall>r \<in> set (audit_logs db). wf_row r)"

lemma ingest_wf:
  assumes "ingest sha i a c e db = Inr (r, db')" "wf_json (JDict (ev_data e))" "wf_log db"
  shows "wf_log db'"
  using assms by (cases rule: ingest_cases) (auto simp: wf_log_def wf_row_def audit_row_of_def)

lemma ingest_run_wf:
  "\<forall>x \<in> set es. wf_json (JDict (ev_data (snd x))) \<Longrightarrow> wf_log db \<Longrightarrow> wf_log (ingest_run sha es db)"
proof (induction es arbitrary: db)
  case (Cons x es)
  obtain v e where x: "x = (v, e)" by fastforce
  let ?f = "ingest sha (ie_row_id v) (ie_activity_id v) (ie_clock v) e"
  have "wf_log (snd (transaction (db_fault (ie_commit v)) ?f db))"
    using Cons.prems x by (intro transaction_invariant [where I = wf_log]) (auto intro: ingest_wf)
  then show ?case using Cons x by simp
qed simp

subsection \<open>Transactions that overlap\<close>

text \<open>
  \<open>ingested_at\<close> is the start of the transaction, but the lock is taken later. A transaction
  that started before the latest record and got the lock after it leaves that record the
  latest: the next transaction links to it as well, and the chain forks.
\<close>

lemma append_behind_latest:
  assumes latest: "latest_record (ev_tenant_id e) db = Some r2"
    and app: "append_record sha i a c e db = Inr (r1, db1)"
    and early: "tx_now c < al_ingested_at r2"
  shows "al_previous_hash r1 = Some (al_record_hash r2)" "latest_record (ev_tenant_id e) db1 = Some r2"
proof -
  have r1: "r1 = audit_row_of sha i c e (Some (al_record_hash r2))"
    and logs: "audit_logs db1 = audit_logs db @ [r1]"
    using app latest by (auto simp: append_record_Inr)
  show "al_previous_hash r1 = Some (al_record_hash r2)" by (simp add: r1 audit_row_of_def)
  have "(- al_ingested_at r2, - uint (row_id r2)) \<le> (- al_ingested_at r1, - uint (row_id r1))"
    using early by (simp add: r1 less_eq_prod_def)
  then show "latest_record (ev_tenant_id e) db1 = Some r2"
    using latest unfolding latest_record_def logs by (rule select_first_append [rotated])
qed

lemma append_previous:
  "append_record sha i a c e db = Inr (r, db') \<Longrightarrow>
     al_previous_hash r = map_option al_record_hash (latest_record (ev_tenant_id e) db)"
  by (auto simp: append_record_Inr audit_row_of_def)

section \<open>Searches return the newest matching records of the tenant\<close>

lemma audit_search_set:
  "set (audit_search plan t f n db) \<subseteq> {r \<in> set (audit_logs db). tenant_id r = t \<and> audit_match f r}"
  by (auto simp: audit_search_def dest!: in_set_takeD)

lemma audit_search_sorted:
  "sorted_wrt (\<lambda>a b. al_occurred_at b \<le> al_occurred_at a) (audit_search plan t f n db)"
proof -
  let ?k = "\<lambda>r. - al_occurred_at r" and ?xs = "scan_rows plan (filter (\<lambda>r. tenant_id r = t \<and> audit_match f r) (audit_logs db))"
  have "sorted (map ?k (sort_key ?k ?xs))" by (rule sorted_sort_key)
  then have "sorted_wrt (\<lambda>a b. al_occurred_at b \<le> al_occurred_at a) (sort_key ?k ?xs)"
    by (simp add: sorted_map)
  then show ?thesis unfolding audit_search_def by (rule sorted_wrt_take)
qed

lemma audit_search_newest:
  assumes "r \<in> set (audit_logs db)" "tenant_id r = t" "audit_match f r"
    and "r \<notin> set (audit_search plan t f n db)" "x \<in> set (audit_search plan t f n db)"
  shows "al_occurred_at r \<le> al_occurred_at x"
proof -
  let ?k = "\<lambda>r. - al_occurred_at r"
  let ?s = "sort_key ?k (scan_rows plan (filter (\<lambda>r. tenant_id r = t \<and> audit_match f r) (audit_logs db)))"
  have "r \<in> set ?s" using assms(1-3) by simp
  then have "r \<in> set (take n ?s) \<union> set (drop n ?s)" by (metis append_take_drop_id set_append)
  then have "r \<in> set (drop n ?s)" using assms(4) by (simp add: audit_search_def)
  moreover have "x \<in> set (take n ?s)" using assms(5) by (simp add: audit_search_def)
  moreover have "sorted_wrt (\<lambda>a b. ?k a \<le> ?k b) (take n ?s @ drop n ?s)"
    using sorted_sort_key [of ?k] unfolding append_take_drop_id by (simp add: sorted_map)
  then have "\<forall>a \<in> set (take n ?s). \<forall>b \<in> set (drop n ?s). ?k a \<le> ?k b"
    unfolding sorted_wrt_append by blast
  ultimately show ?thesis by fastforce
qed

interpretation audit_query: tenant_query audit_logs tenant_id "\<lambda>(plan, f, n) t. audit_search plan t f n"
proof
  fix q t db and r :: audit_row
  assume "r \<in> set ((case q of (plan, f, n) \<Rightarrow> \<lambda>t. audit_search plan t f n) t db)"
  then show "r \<in> set (audit_logs db) \<and> tenant_id r = t"
    using audit_search_set by (cases q) fastforce
next
  fix q t and db db' :: audit_db
  assume eq: "filter (\<lambda>r. tenant_id r = t) (audit_logs db) = filter (\<lambda>r. tenant_id r = t) (audit_logs db')"
  have "filter (\<lambda>r. tenant_id r = t \<and> audit_match f r) (audit_logs db)
      = filter (\<lambda>r. tenant_id r = t \<and> audit_match f r) (audit_logs db')" for f
    by (rule filter_cong_filter [OF eq]) simp
  then show "(case q of (plan, f, n) \<Rightarrow> \<lambda>t. audit_search plan t f n) t db
      = (case q of (plan, f, n) \<Rightarrow> \<lambda>t. audit_search plan t f n) t db'"
    by (cases q) (simp add: audit_search_def)
qed

section \<open>The audit service as the target of the relay\<close>

definition reads_uuids :: "pydantic_lib \<Rightarrow> bool" where
  "reads_uuids px \<longleftrightarrow> (\<forall>u. px_uuid px (uuid_str u) = Some u)"

definition stores_event :: "audit_db \<Rightarrow> audit_event \<Rightarrow> bool" where
  "stores_event db e \<longleftrightarrow> (\<exists>r \<in> set (audit_logs db). event_key r = (ev_tenant_id e, ev_id e))"

text \<open>The event of a payload is stored, if UUIDs are read back as they were written.\<close>

definition holds_payload :: "pydantic_lib \<Rightarrow> audit_db \<times> nat \<Rightarrow> json \<Rightarrow> bool" where
  "holds_payload px st p \<longleftrightarrow>
     (reads_uuids px \<longrightarrow> (\<exists>e. load_event px 0 0 p = Inr e \<and> stores_event (fst st) e))"

lemma transaction_snd:
  "snd (transaction fault f db) = (case f db of Inl e \<Rightarrow> db | Inr (x, db') \<Rightarrow> if fault = None then db' else db)"
  by (auto simp: transaction_def split: sum.splits option.splits)

lemma ingest_event_db:
  "snd (ingest_event sha cfg v tok e db) = db \<or>
     (\<exists>r. ingest sha (ie_row_id v) (ie_activity_id v) (ie_clock v) e db
        = Inr (r, snd (ingest_event sha cfg v tok e db)))"
  by (auto simp: ingest_event_def unit_of_work_transaction transaction_snd
      split: sum.splits) (auto simp: result_iff)

lemma ingest_event_Inr:
  assumes "ingest_event sha cfg v tok e db = (Inr u, db')"
  shows "\<exists>r. ingest sha (ie_row_id v) (ie_activity_id v) (ie_clock v) e db = Inr (r, db')"
    "present (internal_api_token cfg)" "tok = internal_api_token cfg"
  using assms
  by (auto simp: ingest_event_def internal_guard_def unit_of_work_transaction transaction_Inr result_iff
      split: sum.splits)

lemma ingest_event_error:
  assumes "ingest_event sha cfg v tok e db = (Inl err, db')"
  shows "400 \<le> status_of err"
proof (cases "internal_guard cfg tok")
  case (Inl x)
  then have x: "x = http_error 401 ''Invalid internal credential''"
    by (simp add: internal_guard_def result_iff)
  from assms Inl have "err = x" by (simp add: ingest_event_def)
  with x show ?thesis by (simp add: status_of_def)
next
  case (Inr u)
  let ?f = "\<lambda>db. bindr (ingest sha (ie_row_id v) (ie_activity_id v) (ie_clock v) e db) (\<lambda>(_, db'). Inr ((), db'))"
  have t: "transaction (db_fault (ie_commit v)) ?f db = (Inl err, db')"
    using assms Inr by (simp add: ingest_event_def unit_of_work_transaction)
  have "\<exists>c m. err = Exn c m"
  proof (cases "?f db")
    case (Inl x)
    then have "\<exists>c m. x = Exn c m"
      by (auto simp: result_iff ingest_def append_record_def activity_user_def Let_def
          split: option.splits if_splits dest: uuid_parse_Inl)
    with t Inl show ?thesis by (auto simp: transaction_def)
  next
    case (Inr y)
    with t show ?thesis
      by (cases y; cases "ie_commit v") (auto simp: transaction_def db_fault_def)
  qed
  then show ?thesis by (auto simp: status_of_def)
qed

lemma ingest_event_keeps:
  "stores_event db x \<Longrightarrow> stores_event (snd (ingest_event sha cfg v tok e db)) x"
  using ingest_event_db [of sha cfg v tok e db] ingest_keeps_record
  unfolding stores_event_def by metis

lemma audit_post_keeps:
  "stores_event (fst st) x \<Longrightarrow> stores_event (fst (snd (audit_post px sha cfg env url hs body st))) x"
  using ingest_event_keeps
  by (auto simp: audit_post_def Let_def case_prod_beta split: sum.splits)

lemma load_event_ids:
  assumes "reads_uuids px" "load_event px fresh now (JDict (dump_event e)) = Inr e'"
  shows "ev_id e' = ev_id e" "ev_tenant_id e' = ev_tenant_id e"
  using assms
  by (auto simp: load_event_def dump_event_def result_iff parsed_field_def text_field_def reads_uuids_def
      split: if_splits)

lemma audit_post_accepts:
  assumes "audit_post px sha cfg env url hs (JDict (dump_event e)) st = (Inr n, st')"
    and "success_status n" "reads_uuids px"
  shows "stores_event (fst st') e"
proof -
  obtain db k where st: "st = (db, k)" by fastforce
  let ?v = "env k"
  have url: "url = audit_events_url cfg"
    using assms by (auto simp: audit_post_def st success_status_def Let_def split: if_splits)
  obtain e' where e': "load_event px (ie_fresh ?v) (py_now (ie_clock ?v)) (JDict (dump_event e)) = Inr e'"
    using assms by (cases "load_event px (ie_fresh ?v) (py_now (ie_clock ?v)) (JDict (dump_event e))")
      (auto simp: audit_post_def st success_status_def Let_def url)
  obtain r db' where ing: "ingest_event sha cfg ?v (map_of hs ''X-Internal-Token'') e' db = (r, db')"
    by fastforce
  have "\<exists>u. r = Inr u"
  proof (cases r)
    case (Inl err)
    with assms(1) have "n = status_of err"
      by (auto simp: audit_post_def st url e' ing Let_def split: if_splits)
    moreover have "\<not> success_status (status_of err)"
      using ingest_event_error [OF ing [unfolded Inl]] by (simp add: success_status_def)
    ultimately show ?thesis using assms(2) by simp
  qed simp
  then obtain row where "ingest sha (ie_row_id ?v) (ie_activity_id ?v) (ie_clock ?v) e' db = Inr (row, db')"
    using ingest_event_Inr(1) ing by metis
  then have "stores_event db' e'"
    by (auto simp: stores_event_def find_event_def dest!: ingest_find find_Some_in)
  moreover have "fst st' = db'"
    using assms(1) by (auto simp: audit_post_def st url e' ing Let_def split: if_splits)
  ultimately show ?thesis
    using load_event_ids [OF assms(3) e'] by (simp add: stores_event_def)
qed

interpretation audit_delivery: delivery px "audit_post px sha cfg env" cfg "holds_payload px"
proof
  fix m :: outbox_row and s s' u
  assume pub: "relay_publish px (audit_post px sha cfg env) cfg m s = (Inr u, s')"
  then obtain e where e: "load_event px 0 0 (ob_payload m) = Inr e"
      and h: "http_publish (audit_post px sha cfg env) cfg e s = (Inr u, s')"
    by (auto simp: relay_publish_def split: sum.splits)
  then obtain n where "audit_post px sha cfg env (audit_events_url cfg)
      (opt_header ''X-Internal-Token'' (internal_api_token cfg)) (JDict (dump_event e)) s = (Inr n, s')"
      "success_status n"
    by (auto simp: http_publish_def raise_for_status_def result_iff split: prod.splits)
  then show "holds_payload px s' (ob_payload m)"
    using audit_post_accepts e by (auto simp: holds_payload_def)
next
  fix s p url hs body
  assume "holds_payload px s p"
  then show "holds_payload px (snd (audit_post px sha cfg env url hs body s)) p"
    using audit_post_keeps unfolding holds_payload_def by blast
qed

section \<open>Properties\<close>

text \<open>C11: Ingestion is idempotent and append-only: after an event has been ingested, the log holds
  exactly the returned record under the event's tenant and id, ids stay unique per tenant,
  every older record is still there, and ingesting the same event again, at any time and
  with any new ids, returns that record and changes nothing.\<close>

theorem audit_ingest_idempotent:
  assumes "ingest sha i a c e db = Inr (r, db')"
    and "distinct (map (\<lambda>r. (tenant_id r, al_event_id r)) (audit_logs db))"
  shows "distinct (map (\<lambda>r. (tenant_id r, al_event_id r)) (audit_logs db')) \<and> find_event e db' = Some r
    \<and> set (audit_logs db) \<subseteq> set (audit_logs db')
    \<and> (\<forall>i' a' c'. ingest sha i' a' c' e db' = Inr (r, db'))"
  using ingest_keys_distinct [OF assms] ingest_find [OF assms(1)] ingest_again [OF assms(1)]
    ingest_keeps_record [OF assms(1)] by blast

lemma audit_ingest_idempotent_witness:
  "\<exists>r db'. ingest (\<lambda>s. s) 1 2 \<lparr>tx_now = 5, py_now = 5\<rparr> (sample_event 9) empty_audit = Inr (r, db')
    \<and> ingest (\<lambda>s. s) 3 4 \<lparr>tx_now = 8, py_now = 8\<rparr> (sample_event 9) db' = Inr (r, db')"
proof -
  obtain r db' where i: "ingest (\<lambda>s. s) 1 2 \<lparr>tx_now = 5, py_now = 5\<rparr> (sample_event 9) empty_audit = Inr (r, db')"
    by (auto simp: ingest_def append_record_def find_event_def empty_audit_def activity_user_def sample_event_def Let_def)
  moreover have "distinct (map (\<lambda>r. (tenant_id r, al_event_id r)) (audit_logs empty_audit))"
    by (simp add: empty_audit_def)
  ultimately show ?thesis using audit_ingest_idempotent by blast
qed

text \<open>C10: When every ingestion's transaction starts after the records stored before it, each
  tenant's records form one hash chain, in which each record holds the previous record's
  hash and the hash of its own canonical text; failed ingestions leave no gap.\<close>

theorem audit_chain_intact:
  assumes "starts_increase t0 es"
  shows "chained sha None (filter (\<lambda>r. tenant_id r = t) (audit_logs (ingest_run sha es empty_audit)))"
  using ingest_run_chain [OF empty_audit_ok assms, of sha]
  by (simp add: chain_ok_def tenant_log_def)

lemma audit_chain_intact_witness:
  "let v = (\<lambda>n. \<lparr>ie_row_id = word_of_int n, ie_activity_id = 0, ie_clock = \<lparr>tx_now = n, py_now = n\<rparr>,
                ie_commit = None, ie_fresh = 0, ie_lost = False\<rparr>)
   in chained (\<lambda>s. s) None (filter (\<lambda>r. tenant_id r = 7)
        (audit_logs (ingest_run (\<lambda>s. s) [(v 1, sample_event 3), (v 2, sample_event 4)] empty_audit)))"
proof -
  let ?v = "\<lambda>n. \<lparr>ie_row_id = word_of_int n, ie_activity_id = 0, ie_clock = \<lparr>tx_now = n, py_now = n\<rparr>,
                ie_commit = None, ie_fresh = 0, ie_lost = False\<rparr>"
  have "starts_increase 0 [(?v 1, sample_event 3), (?v 2, sample_event 4)]" by simp
  from audit_chain_intact [OF this, of "\<lambda>s. s" 7] show ?thesis unfolding Let_def .
qed

text \<open>C9: The log that the service writes is tamper evident: let ingestions, in transactions that do not
  overlap, build the log of a tenant, and let someone present a log, of whatever origin, that
  an auditor can recompute up to the hash of the newest record in the database. Then the
  presented log has the very records that the service wrote, in their order (event, tenant,
  time, actor, action, entity, outcome, source, correlation and data), unless the hash
  function collides on one of the texts. So whoever keeps the newest hash detects any change,
  removal or insertion.\<close>

theorem audit_chain_tamper_evident:
  assumes "starts_increase t0 es" "\<forall>x \<in> set es. wf_json (JDict (ev_data (snd x)))"
    and "chained sha None ss" "\<forall>r \<in> set ss. wf_row r"
    and "chain_head None ss = map_option al_record_hash (latest_record t (ingest_run sha es empty_audit))"
    and "inj_on sha (hashed_texts (tenant_log t (ingest_run sha es empty_audit)) \<union> hashed_texts ss)"
  shows "list_all2 same_record (tenant_log t (ingest_run sha es empty_audit)) ss"
proof -
  have "wf_log (ingest_run sha es empty_audit)"
    using assms(2) by (rule ingest_run_wf) (simp add: wf_log_def empty_audit_def)
  then have "\<forall>r \<in> set (tenant_log t (ingest_run sha es empty_audit)) \<union> set ss. wf_row r"
    using assms(4) by (auto simp: wf_log_def tenant_log_def)
  with run_log [OF assms(1), where sha = sha and t = t] assms(3,5,6) show ?thesis by (intro chain_evidence) simp_all
qed

lemma audit_chain_tamper_evident_witness:
  "let v = (\<lambda>n. \<lparr>ie_row_id = word_of_int n, ie_activity_id = 0, ie_clock = \<lparr>tx_now = n, py_now = n\<rparr>,
                ie_commit = None, ie_fresh = 0, ie_lost = False\<rparr>);
       db = ingest_run (\<lambda>s. s) [(v 1, sample_event 3), (v 2, sample_event 4)] empty_audit
   in map al_event_id (tenant_log 7 db) = [3, 4] \<and> list_all2 same_record (tenant_log 7 db) (tenant_log 7 db)"
proof -
  let ?v = "\<lambda>n. \<lparr>ie_row_id = word_of_int n, ie_activity_id = 0, ie_clock = \<lparr>tx_now = n, py_now = n\<rparr>,
                ie_commit = None, ie_fresh = 0, ie_lost = False\<rparr>"
  let ?es = "[(?v 1, sample_event 3), (?v 2, sample_event 4)]"
  let ?db = "ingest_run (\<lambda>s. s) ?es empty_audit"
  have inc: "starts_increase 0 ?es" and data: "\<forall>x \<in> set ?es. wf_json (JDict (ev_data (snd x)))"
    by (simp_all add: sample_event_def)
  have "wf_log ?db" using data by (rule ingest_run_wf) (simp add: wf_log_def empty_audit_def)
  then have wf: "\<forall>r \<in> set (tenant_log 7 ?db). wf_row r" by (auto simp: wf_log_def tenant_log_def)
  have "list_all2 same_record (tenant_log 7 ?db) (tenant_log 7 ?db)"
    by (rule audit_chain_tamper_evident [OF inc data run_log(1) [OF inc] wf run_log(2) [OF inc, symmetric]]) simp
  moreover have "map al_event_id (tenant_log 7 ?db) = [3, 4]"
    by (simp add: transaction_def db_fault_def ingest_def find_event_def append_record_def activity_user_def sample_event_def
        empty_audit_def audit_row_of_def tenant_log_def Let_def)
  ultimately show ?thesis unfolding Let_def by blast
qed

text \<open>C38: The chain forks when transactions overlap: if a transaction that started before the latest
  record was stamped gets the tenant's lock after it, its record and the next one both link to
  that latest record, and no record links to its own, since ingested_at is the start of the
  transaction and not the moment of insertion.\<close>

theorem audit_chain_forks:
  assumes "latest_record (ev_tenant_id e1) db = Some r0" "tx_now c1 < al_ingested_at r0"
    and "append_record sha i1 a1 c1 e1 db = Inr (r1, db1)"
    and "append_record sha i2 a2 c2 e2 db1 = Inr (r2, db2)" "ev_tenant_id e2 = ev_tenant_id e1"
  shows "al_previous_hash r1 = Some (al_record_hash r0) \<and> al_previous_hash r2 = Some (al_record_hash r0)"
  using append_behind_latest [OF assms(1,3,2)] append_previous [OF assms(4)] assms(5) by simp

definition forked_log :: audit_db where
  "forked_log = empty_audit\<lparr>audit_logs :=
     [audit_row_of (\<lambda>s. s) 1 \<lparr>tx_now = 20, py_now = 20\<rparr> (sample_event 1) None]\<rparr>"

lemma audit_chain_forks_witness:
  "\<exists>r1 db1 r2 db2. append_record (\<lambda>s. s) 2 0 \<lparr>tx_now = 10, py_now = 21\<rparr> (sample_event 2) forked_log = Inr (r1, db1)
    \<and> append_record (\<lambda>s. s) 3 0 \<lparr>tx_now = 30, py_now = 31\<rparr> (sample_event 3) db1 = Inr (r2, db2)
    \<and> al_previous_hash r1 = al_previous_hash r2"
proof -
  have l: "latest_record (ev_tenant_id (sample_event 2)) forked_log
      = Some (audit_row_of (\<lambda>s. s) 1 \<lparr>tx_now = 20, py_now = 20\<rparr> (sample_event 1) None)"
    by (simp add: latest_record_def select_first_def forked_log_def sample_event_def)
  obtain r1 db1 where 1: "append_record (\<lambda>s. s) 2 0 \<lparr>tx_now = 10, py_now = 21\<rparr> (sample_event 2) forked_log = Inr (r1, db1)"
      and f: "find_event (sample_event 3) db1 = None"
    by (auto simp: append_record_def find_event_def forked_log_def empty_audit_def activity_user_def
        sample_event_def audit_row_of_def Let_def)
  obtain r2 db2 where 2: "append_record (\<lambda>s. s) 3 0 \<lparr>tx_now = 30, py_now = 31\<rparr> (sample_event 3) db1 = Inr (r2, db2)"
    using f by (auto simp: append_record_def activity_user_def sample_event_def Let_def)
  have "al_previous_hash r1 = al_previous_hash r2"
    using audit_chain_forks [OF l _ 1 2] by (simp add: sample_event_def)
  with 1 2 show ?thesis by blast
qed

text \<open>A search returns only records of the caller's tenant that meet every filter, newest first,
  at most the limit; a matching record that is left out is no newer than any that is
  returned; and when at most limit records match, all are returned.\<close>

theorem audit_search_newest_matching:
  "set (audit_search plan t f limit db) \<subseteq> {r \<in> set (audit_logs db). tenant_id r = t \<and> audit_match f r}
   \<and> sorted_wrt (\<lambda>a b. al_occurred_at b \<le> al_occurred_at a) (audit_search plan t f limit db)
   \<and> length (audit_search plan t f limit db) = min limit (length (filter (\<lambda>r. tenant_id r = t \<and> audit_match f r) (audit_logs db)))
   \<and> (\<forall>r \<in> set (audit_logs db). \<forall>x \<in> set (audit_search plan t f limit db).
        tenant_id r = t \<and> audit_match f r \<and> r \<notin> set (audit_search plan t f limit db)
        \<longrightarrow> al_occurred_at r \<le> al_occurred_at x)"
  using audit_search_set audit_search_sorted audit_search_newest
  by (auto simp: audit_search_def)

definition any_filter :: audit_filter where
  "any_filter = \<lparr>af_start = None, af_end = None, af_actor_id = None, af_action = None,
     af_entity_type = None, af_entity_id = None, af_outcome = None, af_correlation_id = None\<rparr>"

lemma audit_search_newest_matching_witness:
  "length (audit_search (\<lambda>_. 0) 7 any_filter 10 forked_log) = 1
   \<and> set (audit_search (\<lambda>_. 0) 7 any_filter 10 forked_log) \<subseteq> set (audit_logs forked_log)"
proof -
  have "filter (\<lambda>r. tenant_id r = 7 \<and> audit_match any_filter r) (audit_logs forked_log) = audit_logs forked_log"
    by (simp add: forked_log_def audit_match_def any_filter_def text_filter_def present_def sample_event_def)
  then show ?thesis
    using audit_search_newest_matching [of "\<lambda>_. 0" 7 any_filter 10 forked_log]
    by (auto simp: forked_log_def)
qed

text \<open>C39: The audit API is isolated by tenant: what a caller sees of the log, on either endpoint, does
  not change when records of other tenants are appended.\<close>

theorem audit_api_tenant_isolation:
  assumes "\<forall>r \<in> set extra. tenant_id r \<noteq> ac_tenant_id actor"
  shows "events plan actor f limit (db\<lparr>audit_logs := audit_logs db @ extra\<rparr>) = events plan actor f limit db
    \<and> operation_timeline plan actor op (db\<lparr>audit_logs := audit_logs db @ extra\<rparr>) = operation_timeline plan actor op db"
proof -
  have "audit_search plan (ac_tenant_id actor) g n (db\<lparr>audit_logs := audit_logs db @ extra\<rparr>)
      = audit_search plan (ac_tenant_id actor) g n db" for g n
    using audit_query.query_frame_append [of "db\<lparr>audit_logs := audit_logs db @ extra\<rparr>" db extra
        "ac_tenant_id actor" "(plan, g, n)"] assms by simp
  then show ?thesis
    by (auto simp: events_def operation_timeline_def require_permission_def)
qed


definition sample_reader :: "uuid \<Rightarrow> actor_context" where
  "sample_reader t = \<lparr>ac_tenant_id = t, ac_entra_tenant_id = 3, ac_actor_id = 4, ac_entra_object_id = 5,
     ac_display_name = ''Reader'', ac_principal_name = None, ac_permissions = {''audit.read''},
     ac_correlation_id = 6\<rparr>"

lemma audit_api_tenant_isolation_witness:
  "events (\<lambda>_. 0) (sample_reader 8) any_filter 10 (empty_audit\<lparr>audit_logs := audit_logs empty_audit @ audit_logs forked_log\<rparr>)
   = events (\<lambda>_. 0) (sample_reader 8) any_filter 10 empty_audit"
  by (rule conjunct1 [OF audit_api_tenant_isolation])
    (simp add: forked_log_def sample_reader_def sample_event_def)

end
