(* ===== verification/Session.thy ===== *)
theory Session
  imports Auth
begin

text \<open>
  Accounts, sessions and the Microsoft endpoints of the identity service
  (\<open>sentinel_identity/account.py\<close>, \<open>session.py\<close>, \<open>microsoft.py\<close>): which local tenant an
  account belongs to, the signed session token and the encrypted refresh token, the
  authorization URL and the token requests. PyJWT and Fernet are the records \<open>session_jwt\<close>
  and \<open>fernet_lib\<close>; the HTTP client posts a form and gets a status and the parsed body.
\<close>

section \<open>Accounts\<close>

definition MICROSOFT_CONSUMER_TENANT_ID :: uuid where
  "MICROSOFT_CONSUMER_TENANT_ID = 0x9188040d6c674c5bb11236a304b66dad"

definition is_personal_account :: "uuid \<Rightarrow> bool" where
  "is_personal_account entra_tenant_id \<longleftrightarrow> entra_tenant_id = MICROSOFT_CONSUMER_TENANT_ID"

definition identity_scope_key :: "uuid \<Rightarrow> uuid \<Rightarrow> string" where
  "identity_scope_key entra_tenant_id entra_object_id =
     (if is_personal_account entra_tenant_id
      then ''personal:'' @ uuid_str entra_tenant_id @ '':'' @ uuid_str entra_object_id
      else ''tenant:'' @ uuid_str entra_tenant_id)"

definition refresh_authority :: "uuid \<Rightarrow> string option \<Rightarrow> string" where
  "refresh_authority entra_tenant_id requested_tenant =
     (if is_personal_account entra_tenant_id then ''common''
      else if present requested_tenant then the requested_tenant else uuid_str entra_tenant_id)"

text \<open>
  Two accounts share a scope exactly when they are of the same organisation, or are the
  same personal account: every personal account has a scope of its own.
\<close>

lemma identity_scope_key_eq:
  "identity_scope_key t u = identity_scope_key t' u' \<longleftrightarrow>
     t = t' \<and> (is_personal_account t \<longrightarrow> u = u')"
proof -
  have "uuid_str a @ '':'' @ uuid_str b = uuid_str a' @ '':'' @ uuid_str b' \<longleftrightarrow> a = a' \<and> b = b'"
    for a b a' b' :: uuid
    by (metis append_eq_append_conv length_uuid_str same_append_eq uuid_str_inject)
  then show ?thesis
    by (auto simp: identity_scope_key_def is_personal_account_def)
qed

section \<open>Session tokens\<close>

record session_claims =
  sc_user_id :: uuid
  sc_tenant_id :: uuid
  sc_entra_tenant_id :: uuid
  sc_entra_object_id :: uuid

text \<open>
  \<open>jwt.encode(payload, key, algorithm)\<close> and \<open>jwt.decode(token, key, algorithms, issuer,
  audience, require)\<close>; the library reads the time (in seconds) to check \<open>exp\<close> and \<open>nbf\<close>.
\<close>

record session_jwt =
  sj_encode :: "dict \<Rightarrow> string \<Rightarrow> string \<Rightarrow> string"
  sj_decode :: "int \<Rightarrow> string \<Rightarrow> string \<Rightarrow> string list \<Rightarrow> string \<Rightarrow> string \<Rightarrow> string list \<Rightarrow> dict result"

definition required_setting :: "string \<Rightarrow> string option \<Rightarrow> string result" where
  "required_setting name v = (if present v then Inr (the v)
     else Inl (Exn ''RuntimeError'' (name @ '' is required'')))"

definition session_key :: "settings \<Rightarrow> string result" where
  "session_key cfg = required_setting ''SENTINEL_SESSION_SIGNING_KEY'' (session_signing_key cfg)"

definition session_payload :: "settings \<Rightarrow> int \<Rightarrow> session_claims \<Rightarrow> dict" where
  "session_payload cfg now c =
     [(''sub'', JStr (uuid_str (sc_user_id c))), (''tenant_id'', JStr (uuid_str (sc_tenant_id c))),
      (''tid'', JStr (uuid_str (sc_entra_tenant_id c))), (''oid'', JStr (uuid_str (sc_entra_object_id c))),
      (''iat'', JInt now), (''nbf'', JInt now), (''exp'', JInt (now + session_ttl_seconds cfg)),
      (''iss'', JStr ''sentinel-identity''), (''aud'', JStr ''sentinel-services'')]"

definition session_encode :: "session_jwt \<Rightarrow> settings \<Rightarrow> int \<Rightarrow> session_claims \<Rightarrow> string result" where
  "session_encode lib cfg now c =
     bindr (session_key cfg) (\<lambda>key. Inr (sj_encode lib (session_payload cfg now c) key ''HS256''))"

definition session_required :: "string list" where
  "session_required = [''sub'', ''tenant_id'', ''tid'', ''oid'', ''exp'', ''iat'', ''nbf'']"

text \<open>\<open>UUID(payload[k])\<close>: a claim that is not a text raises something nobody catches.\<close>

definition claim_uuid :: "dict \<Rightarrow> string \<Rightarrow> uuid result" where
  "claim_uuid d k = bindr (dict_item d k) (\<lambda>v. case v of
       JStr s \<Rightarrow> uuid_parse s
     | _ \<Rightarrow> Inl (Exn ''AttributeError'' ''replace''))"

definition session_decode_body :: "session_jwt \<Rightarrow> settings \<Rightarrow> int \<Rightarrow> string \<Rightarrow> session_claims result" where
  "session_decode_body lib cfg now token =
     bindr (session_key cfg) (\<lambda>key.
     bindr (sj_decode lib now token key [''HS256''] ''sentinel-identity'' ''sentinel-services''
              session_required) (\<lambda>payload.
     bindr (claim_uuid payload ''sub'') (\<lambda>user.
     bindr (claim_uuid payload ''tenant_id'') (\<lambda>tenant.
     bindr (claim_uuid payload ''tid'') (\<lambda>tid.
     bindr (claim_uuid payload ''oid'') (\<lambda>oid.
     Inr \<lparr>sc_user_id = user, sc_tenant_id = tenant, sc_entra_tenant_id = tid,
          sc_entra_object_id = oid\<rparr>))))))"

definition invalid_session :: exn where
  "invalid_session = http_error 401 ''Invalid or expired Sentinel session''"

definition session_decode :: "session_jwt \<Rightarrow> settings \<Rightarrow> int \<Rightarrow> string \<Rightarrow> session_claims result" where
  "session_decode lib cfg now token =
     (case session_decode_body lib cfg now token of
        Inr c \<Rightarrow> Inr c
      | Inl e \<Rightarrow> if token_fault e then Inl invalid_session else Inl e)"

text \<open>
  What PyJWT documents for a token of its own: before the expiry, the payload comes back;
  from the expiry on, \<open>ExpiredSignatureError\<close>.
\<close>

definition jwt_session_law :: "session_jwt \<Rightarrow> settings \<Rightarrow> string \<Rightarrow> int \<Rightarrow> session_claims \<Rightarrow> bool" where
  "jwt_session_law lib cfg key t0 c \<longleftrightarrow> (\<forall>now \<ge> t0.
     sj_decode lib now (sj_encode lib (session_payload cfg t0 c) key ''HS256'') key [''HS256'']
       ''sentinel-identity'' ''sentinel-services'' session_required
     = (if now < t0 + session_ttl_seconds cfg then Inr (session_payload cfg t0 c)
        else Inl (Exn ''ExpiredSignatureError'' ''Signature has expired'')))"

lemma session_key_Inr [result_iff]: "session_key cfg = Inr k \<longleftrightarrow> session_signing_key cfg = Some k \<and> k \<noteq> []"
  by (auto simp: session_key_def required_setting_def present_iff)

lemma claim_uuid_str [simp]:
  "map_of d k = Some (JStr (uuid_str u)) \<Longrightarrow> claim_uuid d k = Inr u"
  by (simp add: claim_uuid_def dict_item_def)

lemma session_roundtrip:
  assumes "session_encode lib cfg t0 c = Inr token"
    and "jwt_session_law lib cfg (the (session_signing_key cfg)) t0 c" "t0 \<le> now"
  shows "session_decode lib cfg now token =
    (if now < t0 + session_ttl_seconds cfg then Inr c else Inl invalid_session)"
proof -
  obtain k where k: "session_signing_key cfg = Some k" "k \<noteq> []"
      "token = sj_encode lib (session_payload cfg t0 c) k ''HS256''"
    using assms(1) by (auto simp: session_encode_def result_iff)
  have dec: "sj_decode lib now token k [''HS256''] ''sentinel-identity'' ''sentinel-services'' session_required
      = (if now < t0 + session_ttl_seconds cfg then Inr (session_payload cfg t0 c)
         else Inl (Exn ''ExpiredSignatureError'' ''Signature has expired''))"
    using assms(2,3) k unfolding jwt_session_law_def by simp
  have key: "session_key cfg = Inr k" using k by (simp add: result_iff)
  show ?thesis
  proof (cases "now < t0 + session_ttl_seconds cfg")
    case True
    then have "session_decode_body lib cfg now token = Inr c"
      by (simp add: session_decode_body_def key dec) (simp add: session_payload_def)
    with True show ?thesis by (simp add: session_decode_def)
  next
    case False
    then have "session_decode_body lib cfg now token
        = Inl (Exn ''ExpiredSignatureError'' ''Signature has expired'')"
      by (simp add: session_decode_body_def key dec)
    with False show ?thesis by (simp add: session_decode_def token_fault_def jwt_errors_def)
  qed
qed

section \<open>Encrypted refresh tokens\<close>

record 'f fernet_lib =
  fn_open :: "string \<Rightarrow> 'f result"
  fn_encrypt :: "'f \<Rightarrow> string \<Rightarrow> string"
  fn_decrypt :: "'f \<Rightarrow> string \<Rightarrow> string option"

definition cipher_fernet :: "'f fernet_lib \<Rightarrow> settings \<Rightarrow> 'f result" where
  "cipher_fernet lib cfg =
     bindr (required_setting ''SENTINEL_TOKEN_ENCRYPTION_KEY'' (token_encryption_key cfg)) (fn_open lib)"

definition cipher_encrypt :: "'f fernet_lib \<Rightarrow> settings \<Rightarrow> string \<Rightarrow> string result" where
  "cipher_encrypt lib cfg v = bindr (cipher_fernet lib cfg) (\<lambda>f. Inr (fn_encrypt lib f v))"

text \<open>\<open>InvalidToken\<close> is \<open>None\<close>.\<close>

definition cipher_decrypt :: "'f fernet_lib \<Rightarrow> settings \<Rightarrow> string \<Rightarrow> string result" where
  "cipher_decrypt lib cfg v = bindr (cipher_fernet lib cfg) (\<lambda>f.
     of_option (Exn ''RuntimeError'' ''Stored Microsoft refresh token cannot be decrypted'') (fn_decrypt lib f v))"

lemma cipher_roundtrip:
  assumes "cipher_encrypt lib cfg v = Inr w"
    and "\<And>f. fn_open lib (the (token_encryption_key cfg)) = Inr f \<Longrightarrow> fn_decrypt lib f (fn_encrypt lib f v) = Some v"
  shows "cipher_decrypt lib cfg w = Inr v"
  using assms
  by (auto simp: cipher_encrypt_def cipher_decrypt_def cipher_fernet_def required_setting_def result_iff
      split: if_splits)

section \<open>Secrets\<close>

text \<open>
  \<open>KeyVaultSecretProvider.get_secret\<close> of \<open>sentinel_common/secrets.py\<close>: \<open>vault\<close> is the Key
  Vault client, whose secrets may have no value.
\<close>

definition get_secret :: "(string \<Rightarrow> string option result) \<Rightarrow> string \<Rightarrow> string result" where
  "get_secret vault name = bindr (vault name) (of_option (Exn ''ValueError''
     (''Key Vault secret '' @ repr_str name @ '' has no value'')))"

section \<open>Microsoft endpoints\<close>

definition LOGIN_SCOPES :: "string list" where
  "LOGIN_SCOPES = [''openid'', ''profile'', ''email'', ''offline_access'']"

definition ARM_SCOPES :: "string list" where
  "ARM_SCOPES = [''https://management.azure.com/user_impersonation'']"

definition ms_client_id :: "settings \<Rightarrow> string result" where
  "ms_client_id cfg = required_setting ''SENTINEL_MICROSOFT_CLIENT_ID'' (microsoft_client_id cfg)"

definition ms_client_secret :: "settings \<Rightarrow> string result" where
  "ms_client_secret cfg =
     required_setting ''SENTINEL_MICROSOFT_CLIENT_SECRET'' (microsoft_client_secret cfg)"

definition ms_authority :: "settings \<Rightarrow> string option \<Rightarrow> string" where
  "ms_authority cfg tenant =
     rstrip_slash (entra_authority_host cfg) @ ''/'' @ (if present tenant then the tenant else ''common'')"

definition ms_scopes :: "string list" where
  "ms_scopes = LOGIN_SCOPES @ ARM_SCOPES"

subsection \<open>urlencode\<close>

text \<open>\<open>quote_plus\<close>: letters, digits and \<open>_.-~\<close> stay, a blank becomes \<open>+\<close>, every other
  character is escaped byte by byte in UTF-8.\<close>

definition url_safe :: "char \<Rightarrow> bool" where
  "url_safe c = (let n = code c in 48 \<le> n \<and> n \<le> 57 \<or> 65 \<le> n \<and> n \<le> 90 \<or> 97 \<le> n \<and> n \<le> 122
     \<or> n = 95 \<or> n = 46 \<or> n = 45 \<or> n = 126)"

definition upper_hex :: "nat \<Rightarrow> char" where
  "upper_hex n = (if n < 10 then char_of (48 + n) else char_of (55 + n))"

definition percent :: "nat \<Rightarrow> string" where
  "percent n = [CHR ''%'', upper_hex (n div 16), upper_hex (n mod 16)]"

definition quote_char :: "char \<Rightarrow> string" where
  "quote_char c = (let n = code c in
     if url_safe c then [c] else if n = 32 then ''+''
     else if n < 128 then percent n
     else percent (192 + n div 64) @ percent (128 + n mod 64))"

definition quote_plus :: "string \<Rightarrow> string" where
  "quote_plus s = concat (map quote_char s)"

definition urlencode :: "(string \<times> string) list \<Rightarrow> string" where
  "urlencode params = join ''&'' (map (\<lambda>(k, v). quote_plus k @ ''='' @ quote_plus v) params)"

subsection \<open>Requests\<close>

definition authorization_url ::
  "settings \<Rightarrow> string \<Rightarrow> string \<Rightarrow> string option \<Rightarrow> string result" where
  "authorization_url cfg state challenge tenant =
     bindr (ms_client_id cfg) (\<lambda>client.
     Inr (ms_authority cfg tenant @ ''/oauth2/v2.0/authorize?'' @ urlencode
       [(''client_id'', client), (''response_type'', ''code''),
        (''redirect_uri'', microsoft_redirect_uri cfg), (''response_mode'', ''query''),
        (''scope'', join '' '' ms_scopes), (''state'', state), (''code_challenge'', challenge),
        (''code_challenge_method'', ''S256''), (''prompt'', ''select_account'')]))"

type_synonym form_post = "string \<Rightarrow> (string \<times> string) list \<Rightarrow> (nat \<times> json) result"

definition token_request ::
  "form_post \<Rightarrow> settings \<Rightarrow> string option \<Rightarrow> (string \<times> string) list \<Rightarrow> dict result" where
  "token_request post cfg tenant data =
     bindr (post (ms_authority cfg tenant @ ''/oauth2/v2.0/token'') data) (\<lambda>(st, body).
       if 400 \<le> st then Inl (HTTPException 401 body) else as_dict body)"

definition exchange_code ::
  "form_post \<Rightarrow> settings \<Rightarrow> string \<Rightarrow> string \<Rightarrow> string option \<Rightarrow> dict result" where
  "exchange_code post cfg auth_code verifier tenant =
     bindr (ms_client_id cfg) (\<lambda>client. bindr (ms_client_secret cfg) (\<lambda>secret.
     token_request post cfg tenant
       [(''client_id'', client), (''client_secret'', secret), (''grant_type'', ''authorization_code''),
        (''code'', auth_code), (''redirect_uri'', microsoft_redirect_uri cfg),
        (''code_verifier'', verifier), (''scope'', join '' '' ms_scopes)]))"

definition ms_refresh :: "form_post \<Rightarrow> settings \<Rightarrow> string \<Rightarrow> string \<Rightarrow> dict result" where
  "ms_refresh post cfg refresh_token tenant =
     bindr (ms_client_id cfg) (\<lambda>client. bindr (ms_client_secret cfg) (\<lambda>secret.
     token_request post cfg (Some tenant)
       [(''client_id'', client), (''client_secret'', secret), (''grant_type'', ''refresh_token''),
        (''refresh_token'', refresh_token), (''scope'', join '' '' ms_scopes)]))"

section \<open>The query can be read back\<close>

text \<open>How a server reads a query string: split at \<open>&\<close> and at the first \<open>=\<close>, undo the escapes.\<close>

definition unhex :: "char \<Rightarrow> nat" where
  "unhex c = (let n = code c in if n \<le> 57 then n - 48 else n - 55)"

fun unquote_bytes :: "string \<Rightarrow> nat list" where
  "unquote_bytes (c # x # y # s) =
     (if c = CHR ''%'' then (16 * unhex x + unhex y) # unquote_bytes s
      else (if c = CHR ''+'' then 32 else code c) # unquote_bytes (x # y # s))"
| "unquote_bytes (c # s) = (if c = CHR ''+'' then 32 else code c) # unquote_bytes s"
| "unquote_bytes [] = []"

fun utf8_decode :: "nat list \<Rightarrow> string" where
  "utf8_decode [] = []"
| "utf8_decode [b] = [char_of b]"
| "utf8_decode (b # b' # bs) =
     (if b < 128 then char_of b # utf8_decode (b' # bs)
      else char_of (64 * (b - 192) + (b' - 128)) # utf8_decode bs)"

definition unquote_plus :: "string \<Rightarrow> string" where
  "unquote_plus s = utf8_decode (unquote_bytes s)"

definition parse_param :: "string \<Rightarrow> string \<times> string" where
  "parse_param p = (unquote_plus (takeWhile (\<lambda>c. c \<noteq> CHR ''='') p),
     unquote_plus (tl (dropWhile (\<lambda>c. c \<noteq> CHR ''='') p)))"

definition parse_query :: "string \<Rightarrow> (string \<times> string) list" where
  "parse_query q = map parse_param (split_on CHR ''&'' q)"

definition char_bytes :: "char \<Rightarrow> nat list" where
  "char_bytes c = (let n = code c in if n < 128 then [n] else [192 + n div 64, 128 + n mod 64])"

lemma unhex_upper_hex [simp]: "n < 16 \<Longrightarrow> unhex (upper_hex n) = n"
  by (auto simp: unhex_def upper_hex_def Let_def)

lemma unquote_percent: "n < 256 \<Longrightarrow> unquote_bytes (percent n @ s) = n # unquote_bytes s"
  by (simp add: percent_def)

lemma unquote_plain:
  "c \<noteq> CHR ''%'' \<Longrightarrow> unquote_bytes (c # s) = (if c = CHR ''+'' then 32 else code c) # unquote_bytes s"
  by (cases s rule: unquote_bytes.cases) auto

lemma url_safe_not: "url_safe c \<Longrightarrow> c \<notin> {CHR ''%'', CHR ''+'', CHR ''&'', CHR ''=''}"
  by (auto simp: url_safe_def Let_def)

lemma unquote_char: "unquote_bytes (quote_char c @ s) = char_bytes c @ unquote_bytes s"
proof -
  have n: "code c < 256" using nat_of_char_less_256 [of c] by simp
  consider "url_safe c" | "\<not> url_safe c" "code c = 32" | "\<not> url_safe c" "code c \<noteq> 32" "code c < 128"
    | "\<not> url_safe c" "128 \<le> code c" by linarith
  then show ?thesis
  proof cases
    case 1
    then have "code c < 128" by (auto simp: url_safe_def Let_def)
    with 1 url_safe_not [OF 1] show ?thesis
      by (simp add: quote_char_def char_bytes_def unquote_plain)
  next
    case 2
    then show ?thesis by (simp add: quote_char_def char_bytes_def unquote_plain)
  next
    case 3
    then show ?thesis by (simp add: quote_char_def char_bytes_def unquote_percent)
  next
    case 4
    have "code c div 64 < 64" by (rule less_mult_imp_div_less, rule less_le_trans [OF n]) simp
    then have "192 + code c div 64 < 256" "128 + code c mod 64 < 256" by simp_all
    with 4 show ?thesis
      by (simp add: quote_char_def char_bytes_def unquote_percent Let_def)
  qed
qed

lemma unquote_bytes_quote: "unquote_bytes (quote_plus s) = concat (map char_bytes s)"
proof (induction s)
  case (Cons c s)
  have "quote_plus (c # s) = quote_char c @ quote_plus s" by (simp add: quote_plus_def)
  with Cons show ?case by (simp add: unquote_char)
qed (simp add: quote_plus_def)

lemma utf8_char: "utf8_decode (char_bytes c @ bs) = c # utf8_decode bs"
proof -
  have n: "code c < 256" using nat_of_char_less_256 [of c] by simp
  show ?thesis
  proof (cases "code c < 128")
    case True
    then show ?thesis by (cases bs) (simp_all add: char_bytes_def)
  next
    case False
    have "64 * (code c div 64) + code c mod 64 = code c" by simp
    with False show ?thesis by (simp add: char_bytes_def Let_def)
  qed
qed

lemma unquote_quote [simp]: "unquote_plus (quote_plus s) = s"
proof -
  have "utf8_decode (concat (map char_bytes s)) = s"
    by (induction s) (simp_all add: utf8_char)
  then show ?thesis by (simp add: unquote_plus_def unquote_bytes_quote)
qed

lemma quote_plus_chars: "c \<in> set (quote_plus s) \<Longrightarrow> c \<noteq> CHR ''&'' \<and> c \<noteq> CHR ''=''"
proof -
  have hex: "upper_hex m \<noteq> CHR ''&'' \<and> upper_hex m \<noteq> CHR ''=''" if "m < 16" for m
  proof -
    have "m \<in> {..<16}" using that by simp
    then show ?thesis by (simp add: numeral_eq_Suc lessThan_Suc) (auto simp: upper_hex_def char_of_def)
  qed
  assume "c \<in> set (quote_plus s)"
  then obtain d where d: "c \<in> set (quote_char d)" by (auto simp: quote_plus_def)
  have n: "code d < 256" using nat_of_char_less_256 [of d] by simp
  have "code d div 64 < 64" by (rule less_mult_imp_div_less, rule less_le_trans [OF n]) simp
  then have "192 + code d div 64 < 256" "128 + code d mod 64 < 256" by simp_all
  then have small: "code d div 16 < 16" "(192 + code d div 64) div 16 < 16" "(128 + code d mod 64) div 16 < 16"
    using less_mult_imp_div_less [of _ 16 16] n by (simp_all del: nat_of_char_less_256)
  from d show ?thesis
    using url_safe_not hex small
    by (auto simp: quote_char_def percent_def Let_def split: if_splits)
qed

lemma parse_param_encode: "parse_param (quote_plus k @ ''='' @ quote_plus v) = (k, v)"
proof -
  have "takeWhile (\<lambda>c. c \<noteq> CHR ''='') (quote_plus k @ CHR ''='' # s) = quote_plus k"
      "dropWhile (\<lambda>c. c \<noteq> CHR ''='') (quote_plus k @ CHR ''='' # s) = CHR ''='' # s" for s
    using quote_plus_chars [of _ k] by (auto simp: takeWhile_append2 dropWhile_append2)
  then show ?thesis by (simp add: parse_param_def)
qed

lemma split_on_plain: "d \<notin> set w \<Longrightarrow> split_on d w = [w]"
  by (induction w) auto

lemma split_on_app: "d \<notin> set w \<Longrightarrow> split_on d (w @ d # s) = w # split_on d s"
  by (induction w) auto

lemma split_join: "ws \<noteq> [] \<Longrightarrow> (\<And>w. w \<in> set ws \<Longrightarrow> d \<notin> set w) \<Longrightarrow> split_on d (join [d] ws) = ws"
proof (induction ws)
  case (Cons w ws)
  then show ?case by (cases ws) (simp_all add: split_on_plain split_on_app)
qed simp

lemma urlencode_roundtrip:
  assumes "params \<noteq> []"
  shows "parse_query (urlencode params) = params"
proof -
  let ?e = "\<lambda>(k, v). quote_plus k @ ''='' @ quote_plus v"
  have "CHR ''&'' \<notin> set w" if "w \<in> set (map ?e params)" for w
    using that quote_plus_chars by fastforce
  then have "split_on CHR ''&'' (join ''&'' (map ?e params)) = map ?e params"
    using assms by (intro split_join) auto
  moreover have "map parse_param (map ?e params) = params"
    by (induction params) (auto simp: parse_param_encode simp del: append_Cons)
  ultimately show ?thesis by (simp add: parse_query_def urlencode_def)
qed

section \<open>Properties\<close>

text \<open>Accounts map to local tenants by scope: two Microsoft accounts have the same scope key exactly
  when they belong to the same organisation, or are the same personal account; no personal
  account shares a tenant with another account.\<close>

theorem scope_key_separates_accounts:
  "identity_scope_key t u = identity_scope_key t' u' \<longleftrightarrow>
     (if is_personal_account t then t = t' \<and> u = u' else t = t')"
  by (simp add: identity_scope_key_eq)

text \<open>A session token lives exactly session_ttl_seconds: decoding what encode issued returns the
  same user, tenant and object ids at every time before the expiry and a 401 from then on,
  given what PyJWT documents for a token signed with the same key.\<close>

theorem session_token_lifetime:
  assumes "session_encode lib cfg t0 c = Inr token"
    and "jwt_session_law lib cfg (the (session_signing_key cfg)) t0 c" "t0 \<le> now"
  shows "session_decode lib cfg now token = (if now < t0 + session_ttl_seconds cfg then Inr c
    else Inl (http_error 401 ''Invalid or expired Sentinel session''))"
  using session_roundtrip [OF assms] by (simp add: invalid_session_def)

definition sample_cfg :: settings where
  "sample_cfg = default_settings\<lparr>session_signing_key := Some ''key'', microsoft_client_id := Some ''client''\<rparr>"

definition sample_claims :: session_claims where
  "sample_claims = \<lparr>sc_user_id = 1, sc_tenant_id = 2, sc_entra_tenant_id = 3, sc_entra_object_id = 4\<rparr>"

definition sample_session_jwt :: session_jwt where
  "sample_session_jwt = \<lparr>sj_encode = (\<lambda>_ _ _. ''token''),
     sj_decode = (\<lambda>now _ _ _ _ _ _. if now < 28900 then Inr (session_payload sample_cfg 100 sample_claims)
       else Inl (Exn ''ExpiredSignatureError'' ''Signature has expired''))\<rparr>"

lemma session_token_lifetime_witness:
  "session_decode sample_session_jwt sample_cfg 28899 ''token'' = Inr sample_claims
   \<and> session_decode sample_session_jwt sample_cfg 28900 ''token''
     = Inl (http_error 401 ''Invalid or expired Sentinel session'')"
proof -
  have e: "session_encode sample_session_jwt sample_cfg 100 sample_claims = Inr ''token''"
    by (simp add: session_encode_def session_key_def required_setting_def sample_cfg_def present_def
        sample_session_jwt_def)
  have l: "jwt_session_law sample_session_jwt sample_cfg (the (session_signing_key sample_cfg)) 100 sample_claims"
    by (simp add: jwt_session_law_def sample_session_jwt_def sample_cfg_def default_settings_def)
  show ?thesis
    using session_token_lifetime [OF e l, of 28899] session_token_lifetime [OF e l, of 28900]
    by (simp add: sample_cfg_def default_settings_def)
qed

text \<open>The authorization URL says what login intended: a server that splits and unquotes the query
  of the URL gets back the client id, the redirect URI, the scopes, the state and the PKCE
  challenge unchanged, whatever characters they contain.\<close>

theorem authorization_url_readable:
  assumes "authorization_url cfg state challenge tenant = Inr url" "CHR ''?'' \<notin> set (ms_authority cfg tenant)"
  shows "\<exists>client. microsoft_client_id cfg = Some client \<and>
    parse_query (tl (dropWhile (\<lambda>c. c \<noteq> CHR ''?'') url)) =
      [(''client_id'', client), (''response_type'', ''code''),
       (''redirect_uri'', microsoft_redirect_uri cfg), (''response_mode'', ''query''),
       (''scope'', join '' '' ms_scopes), (''state'', state), (''code_challenge'', challenge),
       (''code_challenge_method'', ''S256''), (''prompt'', ''select_account'')]"
proof -
  obtain client where c: "microsoft_client_id cfg = Some client"
      and url: "url = (ms_authority cfg tenant @ ''/oauth2/v2.0/authorize'') @ CHR ''?'' # urlencode
       [(''client_id'', client), (''response_type'', ''code''),
        (''redirect_uri'', microsoft_redirect_uri cfg), (''response_mode'', ''query''),
        (''scope'', join '' '' ms_scopes), (''state'', state), (''code_challenge'', challenge),
        (''code_challenge_method'', ''S256''), (''prompt'', ''select_account'')]"
    using assms(1)
    by (auto simp: authorization_url_def ms_client_id_def required_setting_def result_iff present_iff split: if_splits)
  have "tl (dropWhile (\<lambda>c. c \<noteq> CHR ''?'') ((ms_authority cfg tenant @ ''/oauth2/v2.0/authorize'') @ CHR ''?'' # q)) = q" for q
    using assms(2) by (subst dropWhile_append2) auto
  with url c show ?thesis by (simp only:) (simp add: urlencode_roundtrip)
qed

lemma authorization_url_readable_witness:
  "\<exists>url. authorization_url sample_cfg ''s&t=1'' ''ch'' None = Inr url
     \<and> (''state'', ''s&t=1'') \<in> set (parse_query (tl (dropWhile (\<lambda>c. c \<noteq> CHR ''?'') url)))"
proof -
  obtain url where u: "authorization_url sample_cfg ''s&t=1'' ''ch'' None = Inr url"
    by (simp add: authorization_url_def ms_client_id_def required_setting_def sample_cfg_def present_def)
  have "CHR ''?'' \<notin> set (ms_authority sample_cfg None)"
    by (simp add: ms_authority_def sample_cfg_def default_settings_def present_def rstrip_slash_def rstrip_by_def)
  from authorization_url_readable [OF u this] u show ?thesis by auto
qed

end
