(* ===== verification/Identity.thy ===== *)
theory Identity
  imports Outbox Session
begin

text \<open>
  Tenants, users, roles and permissions: the tables of the identity service
  (\<open>sentinel_identity/models.py\<close>), the operations of its repository (\<open>repository.py\<close>), the
  resolution and onboarding of users (\<open>service.py\<close>) and the seeding at start-up
  (\<open>bootstrap.py\<close>). The ids that the database hands out are arguments. The text columns
  that a query orders by are ordered by code points.
\<close>

section \<open>Tables\<close>

record tenant = pk_row +
  tn_entra_tenant_id :: uuid
  tn_identity_scope_key :: string
  tn_account_type :: string
  tn_display_name :: string
  tn_status :: string
  tn_consented_at :: "timestamp option"
  tn_version :: int
  tn_created_at :: timestamp
  tn_updated_at :: timestamp

record user = stamped_row +
  us_entra_object_id :: uuid
  us_principal_name :: "string option"
  us_display_name :: string
  us_email :: "string option"
  us_is_active :: bool
  us_last_login_at :: timestamp
  us_version :: int

record role = stamped_row +
  ro_name :: string
  ro_description :: "string option"
  ro_is_system :: bool

record permission = pk_row +
  pm_name :: string
  pm_description :: string
  pm_created_at :: timestamp

record role_permission =
  rp_role_id :: uuid
  rp_permission_id :: uuid

record user_role =
  ur_tenant_id :: uuid
  ur_user_id :: uuid
  ur_role_id :: uuid
  ur_scope_type :: string
  ur_scope_id :: string
  ur_assigned_by :: "uuid option"
  ur_assigned_at :: timestamp
  ur_expires_at :: "timestamp option"

record oauth_connection = stamped_row +
  oc_user_id :: uuid
  oc_provider :: string
  oc_token_authority :: string
  oc_scopes :: string
  oc_encrypted_refresh_token :: string
  oc_last_refreshed_at :: "timestamp option"

record identity_db = platform_db +
  tenants :: "tenant list"
  users :: "user list"
  roles :: "role list"
  permissions :: "permission list"
  role_permissions :: "role_permission list"
  user_roles :: "user_role list"
  oauth_connections :: "oauth_connection list"

section \<open>Repository\<close>

subsection \<open>Tenants\<close>

definition get_tenant_by_scope_key :: "string \<Rightarrow> identity_db \<Rightarrow> tenant option" where
  "get_tenant_by_scope_key key db = find (\<lambda>t. tn_identity_scope_key t = key) (tenants db)"

definition get_tenant_by_id :: "uuid \<Rightarrow> identity_db \<Rightarrow> tenant option" where
  "get_tenant_by_id i db = find (\<lambda>t. row_id t = i) (tenants db)"

record tenant_args =
  ta_id :: uuid
  ta_clock :: clock
  ta_entra_tenant_id :: uuid
  ta_scope_key :: string
  ta_account_type :: string
  ta_display_name :: "string option"

definition new_tenant :: "tenant_args \<Rightarrow> tenant" where
  "new_tenant a = \<lparr>row_id = ta_id a, tn_entra_tenant_id = ta_entra_tenant_id a,
     tn_identity_scope_key = ta_scope_key a, tn_account_type = ta_account_type a,
     tn_display_name = (if present (ta_display_name a) then the (ta_display_name a)
       else uuid_str (ta_entra_tenant_id a)),
     tn_status = ''active'', tn_consented_at = Some (py_now (ta_clock a)), tn_version = 1,
     tn_created_at = tx_now (ta_clock a), tn_updated_at = tx_now (ta_clock a)\<rparr>"

definition rename_tenant :: "tenant_args \<Rightarrow> tenant \<Rightarrow> tenant" where
  "rename_tenant a t =
     (if present (ta_display_name a) \<and> tn_display_name t \<noteq> the (ta_display_name a)
      then t\<lparr>tn_display_name := the (ta_display_name a), tn_updated_at := tx_now (ta_clock a)\<rparr>
      else t)"

definition get_or_create_tenant ::
  "tenant_args \<Rightarrow> identity_db \<Rightarrow> tenant \<times> bool \<times> identity_db" where
  "get_or_create_tenant a db =
     (let (t, created, rows) = get_or_put (\<lambda>t. tn_identity_scope_key t = ta_scope_key a)
            (new_tenant a) (rename_tenant a) (tenants db)
      in (t, created, db\<lparr>tenants := rows\<rparr>))"

subsection \<open>Users\<close>

definition get_user :: "uuid \<Rightarrow> uuid \<Rightarrow> identity_db \<Rightarrow> user option" where
  "get_user t oid db = find (\<lambda>u. (tenant_id u, us_entra_object_id u) = (t, oid)) (users db)"

definition get_user_by_id :: "uuid \<Rightarrow> uuid \<Rightarrow> identity_db \<Rightarrow> user option" where
  "get_user_by_id t i db = find (\<lambda>u. tenant_id u = t \<and> row_id u = i) (users db)"

record user_args =
  ua_id :: uuid
  ua_clock :: clock
  ua_tenant_id :: uuid
  ua_entra_object_id :: uuid
  ua_display_name :: string
  ua_principal_name :: "string option"

abbreviation user_key :: "'a user_scheme \<Rightarrow> uuid \<times> uuid" where
  "user_key u \<equiv> (tenant_id u, us_entra_object_id u)"

definition new_user :: "user_args \<Rightarrow> user" where
  "new_user a = \<lparr>row_id = ua_id a, tenant_id = ua_tenant_id a, created_at = tx_now (ua_clock a),
     updated_at = tx_now (ua_clock a), us_entra_object_id = ua_entra_object_id a,
     us_principal_name = ua_principal_name a, us_display_name = ua_display_name a,
     us_email = ua_principal_name a, us_is_active = True, us_last_login_at = tx_now (ua_clock a),
     us_version = 1\<rparr>"

definition refresh_user :: "user_args \<Rightarrow> user \<Rightarrow> user" where
  "refresh_user a u = u\<lparr>us_display_name := ua_display_name a, us_principal_name := ua_principal_name a,
     us_email := ua_principal_name a, us_last_login_at := py_now (ua_clock a),
     us_version := us_version u + 1, updated_at := tx_now (ua_clock a)\<rparr>"

definition synchronize_user :: "user_args \<Rightarrow> identity_db \<Rightarrow> user \<times> identity_db" where
  "synchronize_user a db =
     (let (u, _, rows) = get_or_put (\<lambda>u. user_key u = (ua_tenant_id a, ua_entra_object_id a))
            (new_user a) (refresh_user a) (users db)
      in (u, db\<lparr>users := rows\<rparr>))"

definition count_users :: "uuid \<Rightarrow> identity_db \<Rightarrow> nat" where
  "count_users t db = length (filter (\<lambda>u. tenant_id u = t) (users db))"

subsection \<open>Roles and permissions\<close>

abbreviation role_key :: "'a role_scheme \<Rightarrow> uuid \<times> string" where
  "role_key r \<equiv> (tenant_id r, ro_name r)"

record role_args =
  ra_id :: uuid
  ra_clock :: clock
  ra_tenant_id :: uuid
  ra_name :: string
  ra_description :: string

definition new_role :: "role_args \<Rightarrow> role" where
  "new_role a = \<lparr>row_id = ra_id a, tenant_id = ra_tenant_id a, created_at = tx_now (ra_clock a),
     updated_at = tx_now (ra_clock a), ro_name = ra_name a, ro_description = Some (ra_description a),
     ro_is_system = True\<rparr>"

definition get_or_create_role :: "role_args \<Rightarrow> identity_db \<Rightarrow> role \<times> identity_db" where
  "get_or_create_role a db =
     (let (r, _, rows) = get_or_put (\<lambda>r. role_key r = (ra_tenant_id a, ra_name a))
            (new_role a) (\<lambda>r. r) (roles db)
      in (r, db\<lparr>roles := rows\<rparr>))"

text \<open>\<open>session.get\<close> by the composite key, then \<open>session.add\<close>.\<close>

definition add_missing :: "'r \<Rightarrow> 'r list \<Rightarrow> 'r list" where
  "add_missing r rows = (if r \<in> set rows then rows else rows @ [r])"

definition grant_permissions :: "role \<Rightarrow> string set \<Rightarrow> identity_db \<Rightarrow> identity_db" where
  "grant_permissions role names db = db\<lparr>role_permissions :=
     fold (\<lambda>p. add_missing \<lparr>rp_role_id = row_id role, rp_permission_id = row_id p\<rparr>)
       (filter (\<lambda>p. pm_name p \<in> names) (permissions db)) (role_permissions db)\<rparr>"

abbreviation assignment_key :: "user_role \<Rightarrow> uuid \<times> uuid \<times> uuid \<times> string \<times> string" where
  "assignment_key a \<equiv> (ur_tenant_id a, ur_user_id a, ur_role_id a, ur_scope_type a, ur_scope_id a)"

definition new_assignment :: "timestamp \<Rightarrow> uuid \<Rightarrow> uuid \<Rightarrow> uuid \<Rightarrow> user_role" where
  "new_assignment now t u r = \<lparr>ur_tenant_id = t, ur_user_id = u, ur_role_id = r,
     ur_scope_type = ''tenant'', ur_scope_id = ''*'', ur_assigned_by = None, ur_assigned_at = now,
     ur_expires_at = None\<rparr>"

definition assign_role :: "timestamp \<Rightarrow> uuid \<Rightarrow> uuid \<Rightarrow> uuid \<Rightarrow> identity_db \<Rightarrow> identity_db" where
  "assign_role now t u r db = db\<lparr>user_roles :=
     (if find (\<lambda>a. assignment_key a = (t, u, r, ''tenant'', ''*'')) (user_roles db) = None
      then user_roles db @ [new_assignment now t u r] else user_roles db)\<rparr>"

subsection \<open>OAuth connections\<close>

record connection_args =
  ca_id :: uuid
  ca_clock :: clock
  ca_tenant_id :: uuid
  ca_user_id :: uuid
  ca_encrypted_refresh_token :: string
  ca_scopes :: "string list"
  ca_token_authority :: string

abbreviation connection_key :: "'a oauth_connection_scheme \<Rightarrow> uuid \<times> uuid \<times> string" where
  "connection_key c \<equiv> (tenant_id c, oc_user_id c, oc_provider c)"

definition new_connection :: "connection_args \<Rightarrow> oauth_connection" where
  "new_connection a = \<lparr>row_id = ca_id a, tenant_id = ca_tenant_id a, created_at = tx_now (ca_clock a),
     updated_at = tx_now (ca_clock a), oc_user_id = ca_user_id a, oc_provider = ''microsoft'',
     oc_token_authority = ca_token_authority a, oc_scopes = join '' '' (ca_scopes a),
     oc_encrypted_refresh_token = ca_encrypted_refresh_token a, oc_last_refreshed_at = None\<rparr>"

definition refresh_connection :: "connection_args \<Rightarrow> oauth_connection \<Rightarrow> oauth_connection" where
  "refresh_connection a c = c\<lparr>oc_scopes := join '' '' (ca_scopes a),
     oc_token_authority := ca_token_authority a,
     oc_encrypted_refresh_token := ca_encrypted_refresh_token a,
     oc_last_refreshed_at := Some (py_now (ca_clock a)), updated_at := tx_now (ca_clock a)\<rparr>"

definition upsert_oauth_connection ::
  "connection_args \<Rightarrow> identity_db \<Rightarrow> oauth_connection \<times> identity_db" where
  "upsert_oauth_connection a db =
     (let (c, _, rows) = get_or_put
            (\<lambda>c. connection_key c = (ca_tenant_id a, ca_user_id a, ''microsoft''))
            (new_connection a) (refresh_connection a) (oauth_connections db)
      in (c, db\<lparr>oauth_connections := rows\<rparr>))"

definition get_oauth_connection :: "uuid \<Rightarrow> uuid option \<Rightarrow> identity_db \<Rightarrow> oauth_connection option" where
  "get_oauth_connection t user db =
     select_first (\<lambda>c. tenant_id c = t \<and> oc_provider c = ''microsoft''
         \<and> (case user of None \<Rightarrow> True | Some u \<Rightarrow> oc_user_id c = u))
       (\<lambda>c. - updated_at c) (oauth_connections db)"

subsection \<open>Effective roles and permissions\<close>

definition assignment_counts :: "timestamp \<Rightarrow> uuid \<Rightarrow> uuid \<Rightarrow> uuid \<Rightarrow> user_role \<Rightarrow> bool" where
  "assignment_counts now t u role a \<longleftrightarrow> ur_role_id a = role \<and> ur_tenant_id a = t \<and> ur_user_id a = u
     \<and> (case ur_expires_at a of None \<Rightarrow> True | Some e \<Rightarrow> now < e)"

definition effective_roles :: "timestamp \<Rightarrow> uuid \<Rightarrow> uuid \<Rightarrow> identity_db \<Rightarrow> role list" where
  "effective_roles now t u db = sort_key ro_name
     (filter (\<lambda>r. \<exists>a \<in> set (user_roles db). assignment_counts now t u (row_id r) a) (roles db))"

definition effective_permissions :: "timestamp \<Rightarrow> uuid \<Rightarrow> uuid \<Rightarrow> identity_db \<Rightarrow> permission list" where
  "effective_permissions now t u db = sort_key pm_name
     (filter (\<lambda>p. \<exists>rp \<in> set (role_permissions db). rp_permission_id rp = row_id p
        \<and> (\<exists>r \<in> set (roles db). row_id r = rp_role_id rp
             \<and> (\<exists>a \<in> set (user_roles db). assignment_counts now t u (row_id r) a))) (permissions db))"

definition list_permissions :: "identity_db \<Rightarrow> permission list" where
  "list_permissions db = sort_key pm_name (permissions db)"

definition role_permission_names :: "uuid \<Rightarrow> identity_db \<Rightarrow> string list" where
  "role_permission_names role db = sort (map pm_name
     (filter (\<lambda>p. \<exists>rp \<in> set (role_permissions db). rp_permission_id rp = row_id p \<and> rp_role_id rp = role)
       (permissions db)))"

definition list_roles_with_permissions :: "uuid \<Rightarrow> identity_db \<Rightarrow> (role \<times> string list) list" where
  "list_roles_with_permissions t db =
     map (\<lambda>r. (r, role_permission_names (row_id r) db))
       (sort_key ro_name (filter (\<lambda>r. tenant_id r = t) (roles db)))"

section \<open>Service\<close>

record resolved_identity =
  ri_tenant :: tenant
  ri_user :: user
  ri_roles :: "role list"
  ri_permissions :: "permission list"

definition resolved :: "timestamp \<Rightarrow> tenant \<Rightarrow> user \<Rightarrow> identity_db \<Rightarrow> resolved_identity" where
  "resolved now t u db = \<lparr>ri_tenant = t, ri_user = u,
     ri_roles = effective_roles now (row_id t) (row_id u) db,
     ri_permissions = effective_permissions now (row_id t) (row_id u) db\<rparr>"

text \<open>The arguments that a token principal gives for its user.\<close>

definition principal_user :: "uuid \<Rightarrow> clock \<Rightarrow> uuid \<Rightarrow> token_principal \<Rightarrow> user_args result" where
  "principal_user new_id clk t p = bindr (as_opt_text (tp_principal_name p)) (\<lambda>name.
     Inr \<lparr>ua_id = new_id, ua_clock = clk, ua_tenant_id = t, ua_entra_object_id = tp_entra_object_id p,
          ua_display_name = tp_display_name p, ua_principal_name = name\<rparr>)"

definition resolve_and_sync ::
  "uuid \<Rightarrow> clock \<Rightarrow> token_principal \<Rightarrow> identity_db \<Rightarrow> (resolved_identity \<times> identity_db) result" where
  "resolve_and_sync new_id clk p db =
     (case get_tenant_by_scope_key
             (identity_scope_key (tp_entra_tenant_id p) (tp_entra_object_id p)) db of
        None \<Rightarrow> Inl (http_error 403 ''Tenant has not been onboarded'')
      | Some t \<Rightarrow>
          if tn_status t \<noteq> ''active'' then Inl (http_error 403 ''Tenant is not active'')
          else bindr (principal_user new_id clk (row_id t) p) (\<lambda>a.
            (let (u, db) = synchronize_user a db
             in if \<not> us_is_active u then Inl (http_error 403 ''User is disabled'')
                else Inr (resolved (py_now clk) t u db, db))))"

definition admin_permissions :: "string set" where
  "admin_permissions = {''tenant.onboarding.manage'', ''identity.roles.read'', ''identity.roles.assign'',
     ''inventory.resources.read'', ''inventory.sync.execute'', ''relationships.read'',
     ''analysis.create'', ''analysis.read'', ''operations.create'', ''operations.approve'',
     ''operations.execute'', ''operations.cancel'', ''audit.read'', ''audit.export'', ''settings.manage''}"

definition reader_permissions :: "string set" where
  "reader_permissions = {''inventory.resources.read'', ''relationships.read'', ''analysis.read'', ''audit.read''}"

record onboard_ids =
  oi_tenant :: uuid
  oi_user :: uuid
  oi_role :: uuid
  oi_connection :: uuid

definition onboard_tenant_args ::
  "onboard_ids \<Rightarrow> clock \<Rightarrow> token_principal \<Rightarrow> string option \<Rightarrow> tenant_args" where
  "onboard_tenant_args ids clk p tenant_display_name =
     (let personal = is_personal_account (tp_entra_tenant_id p)
      in \<lparr>ta_id = oi_tenant ids, ta_clock = clk, ta_entra_tenant_id = tp_entra_tenant_id p,
          ta_scope_key = identity_scope_key (tp_entra_tenant_id p) (tp_entra_object_id p),
          ta_account_type = (if personal then ''personal'' else ''organization''),
          ta_display_name = (if present tenant_display_name then tenant_display_name
            else if personal then Some (tp_display_name p) else None)\<rparr>)"

definition onboard_role :: "bool \<Rightarrow> nat \<Rightarrow> string" where
  "onboard_role created existing_count =
     (if created \<or> existing_count = 0 then ''TenantAdministrator'' else ''Reader'')"

definition role_description :: "string \<Rightarrow> string" where
  "role_description name = (if name = ''TenantAdministrator''
     then ''Full Sentinel administration within one tenant'' else ''Read-only Sentinel access'')"

text \<open>
  Onboarding from the synchronization of the user on; what it takes of the statements before is
  the tenant, whether it was just created, and the number of users that was counted.
\<close>

definition onboard_into ::
  "onboard_ids \<Rightarrow> clock \<Rightarrow> token_principal \<Rightarrow> string \<Rightarrow> string list \<Rightarrow> string \<Rightarrow> tenant \<Rightarrow> bool \<Rightarrow> nat
     \<Rightarrow> identity_db \<Rightarrow> (resolved_identity \<times> identity_db) result" where
  "onboard_into ids clk p encrypted_refresh_token scopes token_authority t created existing_count db1 =
     bindr (principal_user (oi_user ids) clk (row_id t) p) (\<lambda>a.
       (let (u, db2) = synchronize_user a db1;
            role_name = onboard_role created existing_count;
            (r, db3) = get_or_create_role \<lparr>ra_id = oi_role ids, ra_clock = clk, ra_tenant_id = row_id t,
                         ra_name = role_name, ra_description = role_description role_name\<rparr> db2;
            names = (if role_name = ''TenantAdministrator'' then admin_permissions else reader_permissions);
            db4 = grant_permissions r names db3;
            db5 = assign_role (tx_now clk) (row_id t) (row_id u) (row_id r) db4;
            (c, db6) = upsert_oauth_connection \<lparr>ca_id = oi_connection ids, ca_clock = clk,
                         ca_tenant_id = row_id t, ca_user_id = row_id u,
                         ca_encrypted_refresh_token = encrypted_refresh_token, ca_scopes = scopes,
                         ca_token_authority = token_authority\<rparr> db5
        in Inr (resolved (py_now clk) t u db6, db6)))"

definition onboard_oauth_user ::
  "onboard_ids \<Rightarrow> clock \<Rightarrow> token_principal \<Rightarrow> string option \<Rightarrow> string \<Rightarrow> string list \<Rightarrow> string
     \<Rightarrow> identity_db \<Rightarrow> (resolved_identity \<times> identity_db) result" where
  "onboard_oauth_user ids clk p tenant_display_name encrypted_refresh_token scopes token_authority db0 =
     (let (t, created, db1) = get_or_create_tenant (onboard_tenant_args ids clk p tenant_display_name) db0;
          existing_count = count_users (row_id t) db1
      in onboard_into ids clk p encrypted_refresh_token scopes token_authority t created existing_count db1)"

definition resolve_session :: "timestamp \<Rightarrow> uuid \<Rightarrow> uuid \<Rightarrow> identity_db \<Rightarrow> resolved_identity result" where
  "resolve_session now t u db =
     (case get_user_by_id t u db of
        None \<Rightarrow> Inl (http_error 401 ''Session user is not active'')
      | Some usr \<Rightarrow>
          if \<not> us_is_active usr then Inl (http_error 401 ''Session user is not active'')
          else (case get_tenant_by_id t db of
              None \<Rightarrow> Inl (http_error 403 ''Tenant is not active'')
            | Some ten \<Rightarrow>
                if tn_status ten \<noteq> ''active'' then Inl (http_error 403 ''Tenant is not active'')
                else Inr \<lparr>ri_tenant = ten, ri_user = usr, ri_roles = effective_roles now t u db,
                          ri_permissions = effective_permissions now t u db\<rparr>))"

section \<open>Start-up\<close>

definition PERMISSIONS :: "(string \<times> string) list" where
  "PERMISSIONS =
     [(''tenant.onboarding.manage'', ''Manage tenant onboarding''),
      (''identity.roles.read'', ''Read roles and permissions''),
      (''identity.roles.assign'', ''Assign internal roles''),
      (''inventory.resources.read'', ''Read Azure resource inventory''),
      (''inventory.sync.execute'', ''Run Azure inventory synchronization''),
      (''relationships.read'', ''Read dependency relationships''),
      (''analysis.create'', ''Create change assessments''),
      (''analysis.read'', ''Read change assessments''),
      (''operations.create'', ''Create governed operations''),
      (''operations.approve'', ''Approve governed operations''),
      (''operations.execute'', ''Execute approved operations''),
      (''operations.cancel'', ''Cancel operations''),
      (''audit.read'', ''Read audit evidence''),
      (''audit.export'', ''Export audit evidence''),
      (''settings.manage'', ''Manage tenant settings'')]"

definition seed_permission ::
  "(string \<Rightarrow> uuid) \<Rightarrow> timestamp \<Rightarrow> string \<times> string \<Rightarrow> permission list \<Rightarrow> permission list" where
  "seed_permission new_id now nd rows = upsert (\<lambda>p. pm_name p = fst nd)
     \<lparr>row_id = new_id (fst nd), pm_name = fst nd, pm_description = snd nd, pm_created_at = now\<rparr>
     (\<lambda>p. p) rows"

definition seed_permissions :: "(string \<Rightarrow> uuid) \<Rightarrow> timestamp \<Rightarrow> identity_db \<Rightarrow> identity_db" where
  "seed_permissions new_id now db =
     db\<lparr>permissions := fold (seed_permission new_id now) PERMISSIONS (permissions db)\<rparr>"

definition bootstrap_tenant_row :: "uuid \<Rightarrow> clock \<Rightarrow> settings \<Rightarrow> uuid \<Rightarrow> string \<Rightarrow> tenant" where
  "bootstrap_tenant_row new_id clk cfg entra key = \<lparr>row_id = new_id, tn_entra_tenant_id = entra,
     tn_identity_scope_key = key, tn_account_type = ''organization'',
     tn_display_name = bootstrap_tenant_name cfg, tn_status = ''active'', tn_consented_at = None,
     tn_version = 1, tn_created_at = tx_now clk, tn_updated_at = tx_now clk\<rparr>"

definition bootstrap_user_row :: "uuid \<Rightarrow> clock \<Rightarrow> settings \<Rightarrow> uuid \<Rightarrow> uuid \<Rightarrow> user" where
  "bootstrap_user_row new_id clk cfg t oid = \<lparr>row_id = new_id, tenant_id = t, created_at = tx_now clk,
     updated_at = tx_now clk, us_entra_object_id = oid, us_principal_name = None,
     us_display_name = bootstrap_admin_name cfg, us_email = None, us_is_active = True,
     us_last_login_at = tx_now clk, us_version = 1\<rparr>"

definition bootstrap_admin ::
  "onboard_ids \<Rightarrow> clock \<Rightarrow> settings \<Rightarrow> tenant \<Rightarrow> role \<Rightarrow> identity_db \<Rightarrow> identity_db result" where
  "bootstrap_admin ids clk cfg t admin_role db =
     (if \<not> present (bootstrap_admin_object_id cfg) then Inr db
      else bindr (uuid_parse (the (bootstrap_admin_object_id cfg))) (\<lambda>oid.
        (let (u, _, rows) = get_or_put (\<lambda>u. user_key u = (row_id t, oid))
               (bootstrap_user_row (oi_user ids) clk cfg (row_id t) oid) (\<lambda>u. u) (users db);
             db = db\<lparr>users := rows\<rparr>
         in Inr (assign_role (tx_now clk) (row_id t) (row_id u) (row_id admin_role) db))))"

definition bootstrap_identity ::
  "(string \<Rightarrow> uuid) \<Rightarrow> onboard_ids \<Rightarrow> clock \<Rightarrow> settings \<Rightarrow> identity_db \<Rightarrow> (unit \<times> identity_db) result" where
  "bootstrap_identity new_permission_id ids clk cfg db0 =
     (let db1 = seed_permissions new_permission_id (tx_now clk) db0
      in if \<not> present (bootstrap_tenant_id cfg) then Inr ((), db1)
         else bindr (uuid_parse (the (bootstrap_tenant_id cfg))) (\<lambda>entra.
           (let key = identity_scope_key entra 0;
                (t, _, rows) = get_or_put (\<lambda>t. tn_identity_scope_key t = key)
                  (bootstrap_tenant_row (oi_tenant ids) clk cfg entra key) (\<lambda>t. t) (tenants db1);
                (r, db2) = get_or_create_role \<lparr>ra_id = oi_role ids, ra_clock = clk,
                   ra_tenant_id = row_id t, ra_name = ''TenantAdministrator'',
                   ra_description = role_description ''TenantAdministrator''\<rparr> (db1\<lparr>tenants := rows\<rparr>);
                db3 = grant_permissions r (set (map fst PERMISSIONS)) db2
            in bindr (bootstrap_admin ids clk cfg t r db3) (\<lambda>db. Inr ((), db)))))"

section \<open>The tables keep their keys\<close>

interpretation tenant_table: keyed_upsert tn_identity_scope_key ta_scope_key new_tenant rename_tenant
  by unfold_locales (simp_all add: new_tenant_def rename_tenant_def)

interpretation user_table: keyed_upsert user_key "\<lambda>a. (ua_tenant_id a, ua_entra_object_id a)" new_user refresh_user
  by unfold_locales (simp_all add: new_user_def refresh_user_def)

interpretation role_table: keyed_upsert role_key "\<lambda>a. (ra_tenant_id a, ra_name a)" new_role "\<lambda>_ r. r"
  by unfold_locales (simp_all add: new_role_def)

interpretation connection_table: keyed_upsert connection_key
  "\<lambda>a. (ca_tenant_id a, ca_user_id a, ''microsoft'')" new_connection refresh_connection
  by unfold_locales (simp_all add: new_connection_def refresh_connection_def)

interpretation permission_table: keyed_upsert pm_name fst
  "\<lambda>nd. \<lparr>row_id = new_id (fst nd), pm_name = fst nd, pm_description = snd nd, pm_created_at = now\<rparr>"
  "\<lambda>_ p. p" for new_id :: "string \<Rightarrow> uuid" and now
  by unfold_locales simp_all

text \<open>
  The constraints of the schema, and what the code keeps besides: an assignment names a
  role of its own tenant.
\<close>

definition identity_ok :: "identity_db \<Rightarrow> bool" where
  "identity_ok db \<longleftrightarrow> distinct (map tn_identity_scope_key (tenants db))
     \<and> distinct (map user_key (users db)) \<and> distinct (map role_key (roles db))
     \<and> distinct (map row_id (roles db)) \<and> distinct (map pm_name (permissions db))
     \<and> distinct (role_permissions db) \<and> distinct (map assignment_key (user_roles db))
     \<and> distinct (map connection_key (oauth_connections db))
     \<and> (\<forall>a \<in> set (user_roles db). \<exists>r \<in> set (roles db). row_id r = ur_role_id a \<and> tenant_id r = ur_tenant_id a)"

lemma get_or_create_tenant_facts:
  assumes "get_or_create_tenant a db = (t, c, db')"
  shows "\<exists>rows. db' = db\<lparr>tenants := rows\<rparr>" "t \<in> set (tenants db')" "tn_identity_scope_key t = ta_scope_key a"
    "c \<longleftrightarrow> get_tenant_by_scope_key (ta_scope_key a) db = None" "identity_ok db \<Longrightarrow> identity_ok db'"
proof -
  obtain rows where g: "get_or_put (\<lambda>t. tn_identity_scope_key t = ta_scope_key a) (new_tenant a) (rename_tenant a)
      (tenants db) = (t, c, rows)" and db': "db' = db\<lparr>tenants := rows\<rparr>"
    using assms by (auto simp: get_or_create_tenant_def split: prod.splits)
  note row = tenant_table.get_or_put_row [OF g]
  show "\<exists>rows. db' = db\<lparr>tenants := rows\<rparr>" using db' by blast
  show "t \<in> set (tenants db')" "tn_identity_scope_key t = ta_scope_key a" using row db' by simp_all
  show "c \<longleftrightarrow> get_tenant_by_scope_key (ta_scope_key a) db = None"
    using get_or_put_created [OF g] by (simp add: get_tenant_by_scope_key_def)
  show "identity_ok db'" if "identity_ok db"
    using that tenant_table.unique_put [of "tenants db" a] row(1) db' by (simp add: identity_ok_def)
qed

lemma synchronize_user_facts:
  assumes "synchronize_user a db = (u, db')"
  shows "\<exists>rows. db' = db\<lparr>users := rows\<rparr>" "u \<in> set (users db')" "tenant_id u = ua_tenant_id a"
    "us_entra_object_id u = ua_entra_object_id a" "us_display_name u = ua_display_name a"
    "get_user (ua_tenant_id a) (ua_entra_object_id a) db = None \<Longrightarrow> row_id u = ua_id a \<and> us_is_active u"
    "get_user (ua_tenant_id a) (ua_entra_object_id a) db = Some v \<Longrightarrow> row_id u = row_id v \<and> us_is_active u = us_is_active v"
    "identity_ok db \<Longrightarrow> identity_ok db'"
proof -
  obtain c rows where g: "get_or_put (\<lambda>u. user_key u = (ua_tenant_id a, ua_entra_object_id a)) (new_user a) (refresh_user a)
      (users db) = (u, c, rows)" and db': "db' = db\<lparr>users := rows\<rparr>"
    using assms by (auto simp: synchronize_user_def split: prod.splits)
  note row = user_table.get_or_put_row [OF g]
  show "\<exists>rows. db' = db\<lparr>users := rows\<rparr>" using db' by blast
  show "u \<in> set (users db')" "tenant_id u = ua_tenant_id a" "us_entra_object_id u = ua_entra_object_id a"
    using row db' by simp_all
  show "us_display_name u = ua_display_name a"
    using g by (auto simp: get_or_put_def new_user_def refresh_user_def split: option.splits)
  show "get_user (ua_tenant_id a) (ua_entra_object_id a) db = None \<Longrightarrow> row_id u = ua_id a \<and> us_is_active u"
    using g unfolding get_user_def by (auto simp: get_or_put_def new_user_def simp del: prod.inject)
  show "get_user (ua_tenant_id a) (ua_entra_object_id a) db = Some v \<Longrightarrow> row_id u = row_id v \<and> us_is_active u = us_is_active v"
    using g unfolding get_user_def by (auto simp: get_or_put_def refresh_user_def)
  show "identity_ok db'" if "identity_ok db"
    using that user_table.unique_put [of "users db" a] row(1) db' by (simp add: identity_ok_def)
qed

lemma get_or_create_role_facts:
  assumes "get_or_create_role a db = (r, db')"
  shows "\<exists>rows. db' = db\<lparr>roles := rows\<rparr>" "r \<in> set (roles db')" "tenant_id r = ra_tenant_id a" "ro_name r = ra_name a"
    "set (roles db) \<subseteq> set (roles db')" "set (roles db') \<subseteq> insert r (set (roles db))"
    "r \<in> set (roles db) \<or> row_id r = ra_id a"
    "identity_ok db \<Longrightarrow> ra_id a \<notin> row_id ` set (roles db) \<Longrightarrow> identity_ok db'"
proof -
  obtain c rows where g: "get_or_put (\<lambda>r. role_key r = (ra_tenant_id a, ra_name a)) (new_role a) (\<lambda>r. r)
      (roles db) = (r, c, rows)" and db': "db' = db\<lparr>roles := rows\<rparr>"
    using assms by (auto simp: get_or_create_role_def split: prod.splits)
  note row = role_table.get_or_put_row [OF g]
  show "\<exists>rows. db' = db\<lparr>roles := rows\<rparr>" using db' by blast
  show "r \<in> set (roles db')" "tenant_id r = ra_tenant_id a" "ro_name r = ra_name a" using row db' by simp_all
  have rows: "rows = roles db \<and> r \<in> set (roles db) \<or> rows = roles db @ [r] \<and> row_id r = ra_id a"
    using g by (auto simp: get_or_put_def new_role_def split: option.splits dest: find_Some_in)
  then show "set (roles db) \<subseteq> set (roles db')" "set (roles db') \<subseteq> insert r (set (roles db))"
      "r \<in> set (roles db) \<or> row_id r = ra_id a"
    using db' by auto
  show "identity_ok db'" if "identity_ok db" "ra_id a \<notin> row_id ` set (roles db)"
  proof -
    have "distinct (map role_key rows)"
      using that role_table.unique_put [of "roles db" a] row(1) by (simp add: identity_ok_def)
    moreover have "distinct (map row_id rows)" using rows that by (auto simp: identity_ok_def)
    moreover have "set (roles db) \<subseteq> set rows" using rows by auto
    ultimately show ?thesis using that(1) db' by (fastforce simp: identity_ok_def)
  qed
qed

lemma upsert_oauth_connection_facts:
  assumes "upsert_oauth_connection a db = (c, db')"
  shows "\<exists>rows. db' = db\<lparr>oauth_connections := rows\<rparr>" "c \<in> set (oauth_connections db')"
    "connection_key c = (ca_tenant_id a, ca_user_id a, ''microsoft'')"
    "oc_encrypted_refresh_token c = ca_encrypted_refresh_token a" "oc_token_authority c = ca_token_authority a"
    "identity_ok db \<Longrightarrow> identity_ok db'"
proof -
  obtain b rows where g: "get_or_put (\<lambda>c. connection_key c = (ca_tenant_id a, ca_user_id a, ''microsoft''))
      (new_connection a) (refresh_connection a) (oauth_connections db) = (c, b, rows)"
      and db': "db' = db\<lparr>oauth_connections := rows\<rparr>"
    using assms by (auto simp: upsert_oauth_connection_def split: prod.splits)
  note row = connection_table.get_or_put_row [OF g]
  show "\<exists>rows. db' = db\<lparr>oauth_connections := rows\<rparr>" using db' by blast
  show "c \<in> set (oauth_connections db')" "connection_key c = (ca_tenant_id a, ca_user_id a, ''microsoft'')"
    using row db' by simp_all
  show "oc_encrypted_refresh_token c = ca_encrypted_refresh_token a" "oc_token_authority c = ca_token_authority a"
    using g by (auto simp: get_or_put_def new_connection_def refresh_connection_def split: option.splits)
  show "identity_ok db'" if "identity_ok db"
    using that connection_table.unique_put [of "oauth_connections db" a] row(1) db' by (simp add: identity_ok_def)
qed

lemma fold_add_missing:
  "set (fold (\<lambda>p. add_missing (f p)) ps rows) = f ` set ps \<union> set rows"
  "distinct rows \<Longrightarrow> distinct (fold (\<lambda>p. add_missing (f p)) ps rows)"
  "f ` set ps \<subseteq> set rows \<Longrightarrow> fold (\<lambda>p. add_missing (f p)) ps rows = rows"
  by (induction ps arbitrary: rows) (auto simp: add_missing_def)

lemma grant_permissions_facts:
  "\<exists>rows. grant_permissions r names db = db\<lparr>role_permissions := rows\<rparr>"
  "set (role_permissions (grant_permissions r names db)) = set (role_permissions db) \<union>
     {\<lparr>rp_role_id = row_id r, rp_permission_id = row_id p\<rparr> | p. p \<in> set (permissions db) \<and> pm_name p \<in> names}"
  "identity_ok db \<Longrightarrow> identity_ok (grant_permissions r names db)"
  by (auto simp: grant_permissions_def fold_add_missing identity_ok_def)

lemma assign_role_facts:
  shows "\<exists>rows. assign_role now t u r db = db\<lparr>user_roles := rows\<rparr>"
    "set (user_roles (assign_role now t u r db)) \<subseteq> insert (new_assignment now t u r) (set (user_roles db))"
    "set (user_roles db) \<subseteq> set (user_roles (assign_role now t u r db))"
    "\<exists>a \<in> set (user_roles (assign_role now t u r db)). assignment_key a = (t, u, r, ''tenant'', ''*'')"
    "identity_ok db \<Longrightarrow> \<exists>x \<in> set (roles db). row_id x = r \<and> tenant_id x = t \<Longrightarrow> identity_ok (assign_role now t u r db)"
proof -
  let ?P = "\<lambda>a. assignment_key a = (t, u, r, ''tenant'', ''*'')"
  have key: "assignment_key (new_assignment now t u r) = (t, u, r, ''tenant'', ''*'')"
    by (simp add: new_assignment_def)
  show "\<exists>rows. assign_role now t u r db = db\<lparr>user_roles := rows\<rparr>"
    unfolding assign_role_def by blast
  show "set (user_roles (assign_role now t u r db)) \<subseteq> insert (new_assignment now t u r) (set (user_roles db))"
    "set (user_roles db) \<subseteq> set (user_roles (assign_role now t u r db))"
    by (auto simp: assign_role_def)
  show "\<exists>a \<in> set (user_roles (assign_role now t u r db)). ?P a"
  proof (cases "find ?P (user_roles db)")
    case None
    then show ?thesis using key by (simp add: assign_role_def)
  next
    case (Some a)
    then have "a \<in> set (user_roles db) \<and> ?P a" using find_Some_in by force
    with Some show ?thesis by (auto simp: assign_role_def)
  qed
  show "identity_ok (assign_role now t u r db)" if "identity_ok db" "\<exists>x \<in> set (roles db). row_id x = r \<and> tenant_id x = t"
  proof (cases "find ?P (user_roles db)")
    case None
    then have "assignment_key (new_assignment now t u r) \<notin> assignment_key ` set (user_roles db)"
      unfolding key by (rule find_None_key)
    then have "distinct (map assignment_key (user_roles db @ [new_assignment now t u r]))"
      using that(1) by (simp add: identity_ok_def)
    moreover have "assign_role now t u r db = db\<lparr>user_roles := user_roles db @ [new_assignment now t u r]\<rparr>"
      using None by (simp add: assign_role_def)
    ultimately show ?thesis using that by (simp add: identity_ok_def new_assignment_def)
  qed (use that in \<open>simp add: assign_role_def identity_ok_def\<close>)
qed

section \<open>Onboarding\<close>

lemma onboard_into_steps:
  assumes "onboard_into ids clk p tok scopes auth t created n db1 = Inr (ri, db6)"
  obtains a u db2 r db3 db4 db5 c where
    "principal_user (oi_user ids) clk (row_id t) p = Inr a"
    "synchronize_user a db1 = (u, db2)"
    "get_or_create_role \<lparr>ra_id = oi_role ids, ra_clock = clk, ra_tenant_id = row_id t,
       ra_name = onboard_role created n, ra_description = role_description (onboard_role created n)\<rparr> db2 = (r, db3)"
    "db4 = grant_permissions r (if onboard_role created n = ''TenantAdministrator''
       then admin_permissions else reader_permissions) db3"
    "db5 = assign_role (tx_now clk) (row_id t) (row_id u) (row_id r) db4"
    "upsert_oauth_connection \<lparr>ca_id = oi_connection ids, ca_clock = clk, ca_tenant_id = row_id t,
       ca_user_id = row_id u, ca_encrypted_refresh_token = tok, ca_scopes = scopes,
       ca_token_authority = auth\<rparr> db5 = (c, db6)"
    "ri = resolved (py_now clk) t u db6"
proof -
  from assms obtain a where 2: "principal_user (oi_user ids) clk (row_id t) p = Inr a"
    by (auto simp: onboard_into_def result_iff)
  obtain u db2 where 3: "synchronize_user a db1 = (u, db2)" by fastforce
  let ?name = "onboard_role created n"
  obtain r db3 where 4: "get_or_create_role \<lparr>ra_id = oi_role ids, ra_clock = clk, ra_tenant_id = row_id t,
      ra_name = ?name, ra_description = role_description ?name\<rparr> db2 = (r, db3)" by fastforce
  let ?db4 = "grant_permissions r (if ?name = ''TenantAdministrator'' then admin_permissions else reader_permissions) db3"
  let ?db5 = "assign_role (tx_now clk) (row_id t) (row_id u) (row_id r) ?db4"
  obtain c db6' where 5: "upsert_oauth_connection \<lparr>ca_id = oi_connection ids, ca_clock = clk, ca_tenant_id = row_id t,
      ca_user_id = row_id u, ca_encrypted_refresh_token = tok, ca_scopes = scopes,
      ca_token_authority = auth\<rparr> ?db5 = (c, db6')" by fastforce
  have "ri = resolved (py_now clk) t u db6 \<and> db6' = db6"
    using assms by (auto simp: onboard_into_def 2 3 4 5 Let_def)
  with that 2 3 4 5 show ?thesis by blast
qed

lemma onboard_tenant_key:
  "ta_scope_key (onboard_tenant_args ids clk p name) = identity_scope_key (tp_entra_tenant_id p) (tp_entra_object_id p)"
  by (simp add: onboard_tenant_args_def Let_def)

lemma onboard_oauth_user_into:
  assumes "onboard_oauth_user ids clk p name tok scopes auth db0 = Inr (ri, db)"
  obtains t created db1 where
    "get_or_create_tenant (onboard_tenant_args ids clk p name) db0 = (t, created, db1)"
    "onboard_into ids clk p tok scopes auth t created (count_users (row_id t) db0) db1 = Inr (ri, db)"
proof -
  obtain t created db1 where g: "get_or_create_tenant (onboard_tenant_args ids clk p name) db0 = (t, created, db1)"
    by (rule prod_cases3)
  then have "count_users (row_id t) db1 = count_users (row_id t) db0"
    by (auto simp: get_or_create_tenant_def count_users_def split: prod.splits)
  with that g assms show ?thesis by (simp add: onboard_oauth_user_def)
qed

text \<open>The role that an onboarding leaves: found or new in the tenant, with its permissions, assigned.\<close>

definition role_granted :: "timestamp \<Rightarrow> uuid \<Rightarrow> uuid \<Rightarrow> string \<Rightarrow> identity_db \<Rightarrow> identity_db \<Rightarrow> bool" where
  "role_granted now t u name db0 db \<longleftrightarrow> (\<exists>r \<in> set (roles db). tenant_id r = t \<and> ro_name r = name
     \<and> set (roles db) \<subseteq> insert r (set (roles db0)) \<and> set (roles db0) \<subseteq> set (roles db)
     \<and> set (role_permissions db) = set (role_permissions db0) \<union>
         {\<lparr>rp_role_id = row_id r, rp_permission_id = row_id p\<rparr> | p. p \<in> set (permissions db0)
            \<and> pm_name p \<in> (if ro_name r = ''TenantAdministrator'' then admin_permissions else reader_permissions)}
     \<and> set (user_roles db) \<subseteq> insert (new_assignment now t u (row_id r)) (set (user_roles db0))
     \<and> set (user_roles db0) \<subseteq> set (user_roles db)
     \<and> (\<exists>a \<in> set (user_roles db). assignment_key a = (t, u, row_id r, ''tenant'', ''*'')))"

lemma assigned_role_granted:
  assumes role: "get_or_create_role a db2 = (r, db3)"
    and db4: "db4 = grant_permissions r (if ra_name a = ''TenantAdministrator'' then admin_permissions else reader_permissions) db3"
    and db5: "db5 = assign_role now (ra_tenant_id a) u (row_id r) db4"
  shows "role_granted now (ra_tenant_id a) u (ra_name a) db2 db5"
proof -
  note R = get_or_create_role_facts [OF role]
  note G = grant_permissions_facts [where r = r and names = "if ra_name a = ''TenantAdministrator''
         then admin_permissions else reader_permissions" and db = db3, folded db4]
    and A = assign_role_facts [where now = now and t = "ra_tenant_id a" and u = u and r = "row_id r" and db = db4, folded db5]
  obtain rows3 rows4 rows5 where e: "db3 = db2\<lparr>roles := rows3\<rparr>" "db4 = db3\<lparr>role_permissions := rows4\<rparr>"
      "db5 = db4\<lparr>user_roles := rows5\<rparr>"
    using R(1) G(1) A(1) by blast
  show ?thesis
    unfolding role_granted_def
  proof (rule bexI [of _ r], intro conjI)
    show "r \<in> set (roles db5)" using R(2) by (simp add: e)
    show "tenant_id r = ra_tenant_id a" "ro_name r = ra_name a" using R(3,4) by simp_all
    show "set (roles db5) \<subseteq> insert r (set (roles db2))" "set (roles db2) \<subseteq> set (roles db5)"
      using R(5,6) by (simp_all add: e)
    show "set (role_permissions db5) = set (role_permissions db2) \<union>
           {\<lparr>rp_role_id = row_id r, rp_permission_id = row_id p\<rparr> | p. p \<in> set (permissions db2)
              \<and> pm_name p \<in> (if ro_name r = ''TenantAdministrator'' then admin_permissions else reader_permissions)}"
      using G(2) R(4) by (simp add: e)
    show "set (user_roles db5) \<subseteq> insert (new_assignment now (ra_tenant_id a) u (row_id r)) (set (user_roles db2))"
        "set (user_roles db2) \<subseteq> set (user_roles db5)"
        "\<exists>x \<in> set (user_roles db5). assignment_key x = (ra_tenant_id a, u, row_id r, ''tenant'', ''*'')"
      using A(2,3,4) by (simp_all add: e)
  qed
qed

text \<open>What an onboarding leaves behind, table by table.\<close>

lemma onboard_into_facts:
  assumes on: "onboard_into ids clk p tok scopes auth t created n db1 = Inr (ri, db)"
    and ok: "identity_ok db1" and fresh: "oi_role ids \<notin> row_id ` set (roles db1)"
  shows "identity_ok db" "permissions db = permissions db1" "outbox db = outbox db1" "tenants db = tenants db1"
    "ri_tenant ri = t" "ri_user ri \<in> set (users db)" "tenant_id (ri_user ri) = row_id t"
    "us_entra_object_id (ri_user ri) = tp_entra_object_id p"
    "ri = resolved (py_now clk) t (ri_user ri) db"
    "\<exists>a. principal_user (oi_user ids) clk (row_id t) p = Inr a
       \<and> synchronize_user a db1 = (ri_user ri, db1\<lparr>users := users db\<rparr>)"
    "role_granted (tx_now clk) (row_id t) (row_id (ri_user ri)) (onboard_role created n) db1 db"
proof -
  obtain a u db2 r db3 db4 db5 c where
    s: "principal_user (oi_user ids) clk (row_id t) p = Inr a"
      "synchronize_user a db1 = (u, db2)"
      "get_or_create_role \<lparr>ra_id = oi_role ids, ra_clock = clk, ra_tenant_id = row_id t,
         ra_name = onboard_role created n, ra_description = role_description (onboard_role created n)\<rparr> db2 = (r, db3)"
      "db4 = grant_permissions r (if onboard_role created n = ''TenantAdministrator''
         then admin_permissions else reader_permissions) db3"
      "db5 = assign_role (tx_now clk) (row_id t) (row_id u) (row_id r) db4"
      "upsert_oauth_connection \<lparr>ca_id = oi_connection ids, ca_clock = clk, ca_tenant_id = row_id t,
         ca_user_id = row_id u, ca_encrypted_refresh_token = tok, ca_scopes = scopes,
         ca_token_authority = auth\<rparr> db5 = (c, db)"
      "ri = resolved (py_now clk) t u db"
    using on by (rule onboard_into_steps)
  note U = synchronize_user_facts [OF s(2)] and R = get_or_create_role_facts [OF s(3)]
    and C = upsert_oauth_connection_facts [OF s(6)]
  note G = grant_permissions_facts [where r = r and names = "if onboard_role created n = ''TenantAdministrator''
         then admin_permissions else reader_permissions" and db = db3, folded s(4)]
    and A = assign_role_facts [where now = "tx_now clk" and t = "row_id t" and u = "row_id u" and r = "row_id r"
         and db = db4, folded s(5)]
  obtain rows2 rows3 rows4 rows5 rows6 where
    e: "db2 = db1\<lparr>users := rows2\<rparr>" "db3 = db2\<lparr>roles := rows3\<rparr>"
      "db4 = db3\<lparr>role_permissions := rows4\<rparr>" "db5 = db4\<lparr>user_roles := rows5\<rparr>"
      "db = db5\<lparr>oauth_connections := rows6\<rparr>"
    using U(1) R(1) G(1) A(1) C(1) by blast
  have ri: "ri_tenant ri = t" "ri_user ri = u" using s(7) by (simp_all add: resolved_def)
  have a: "ua_tenant_id a = row_id t" "ua_entra_object_id a = tp_entra_object_id p"
    using s(1) by (auto simp: principal_user_def result_iff)
  have f: "oi_role ids \<notin> row_id ` set (roles db2)" using fresh e by simp
  have "identity_ok db3" using U(8) [OF ok] R(8) f by simp
  then have ok4: "identity_ok db4" by (rule G(3))
  have rin: "r \<in> set (roles db4)" using R(2) e by simp
  then have "identity_ok db5" using A(5) [OF ok4] R(3) by auto
  then show "identity_ok db" by (rule C(6))
  show "permissions db = permissions db1" "outbox db = outbox db1" "tenants db = tenants db1" by (simp_all add: e)
  show "ri_tenant ri = t" by (rule ri(1))
  show "ri_user ri \<in> set (users db)" using U(2) ri by (simp add: e)
  show "tenant_id (ri_user ri) = row_id t" "us_entra_object_id (ri_user ri) = tp_entra_object_id p"
    using U(3,4) a ri by simp_all
  show "ri = resolved (py_now clk) t (ri_user ri) db" using s(7) ri by simp
  show "\<exists>a. principal_user (oi_user ids) clk (row_id t) p = Inr a
       \<and> synchronize_user a db1 = (ri_user ri, db1\<lparr>users := users db\<rparr>)"
    using s(1,2) by (simp add: e ri)
  show "role_granted (tx_now clk) (row_id t) (row_id (ri_user ri)) (onboard_role created n) db1 db"
    using assigned_role_granted [OF s(3), of db4 db5 "tx_now clk" "row_id u"] s(4,5) by (simp add: role_granted_def e ri)
qed

lemma onboard_facts:
  assumes on: "onboard_oauth_user ids clk p name tok scopes auth db0 = Inr (ri, db)"
    and ok: "identity_ok db0" and fresh: "oi_role ids \<notin> row_id ` set (roles db0)"
  shows "identity_ok db" "permissions db = permissions db0" "outbox db = outbox db0"
    "ri_tenant ri \<in> set (tenants db)"
    "tn_identity_scope_key (ri_tenant ri) = identity_scope_key (tp_entra_tenant_id p) (tp_entra_object_id p)"
    "ri_user ri \<in> set (users db)" "tenant_id (ri_user ri) = row_id (ri_tenant ri)"
    "us_entra_object_id (ri_user ri) = tp_entra_object_id p"
    "ri = resolved (py_now clk) (ri_tenant ri) (ri_user ri) db"
    "role_granted (tx_now clk) (row_id (ri_tenant ri)) (row_id (ri_user ri))
      (onboard_role (get_tenant_by_scope_key (identity_scope_key (tp_entra_tenant_id p) (tp_entra_object_id p)) db0 = None)
         (count_users (row_id (ri_tenant ri)) db0)) db0 db"
proof -
  obtain t created db1 where T0: "get_or_create_tenant (onboard_tenant_args ids clk p name) db0 = (t, created, db1)"
    and I: "onboard_into ids clk p tok scopes auth t created (count_users (row_id t) db0) db1 = Inr (ri, db)"
    using on by (rule onboard_oauth_user_into)
  note T = get_or_create_tenant_facts [OF T0]
  obtain rows where db1: "db1 = db0\<lparr>tenants := rows\<rparr>" using T(1) by blast
  have "oi_role ids \<notin> row_id ` set (roles db1)" using fresh by (simp add: db1)
  note F = onboard_into_facts [OF I T(5) [OF ok] this]
  have created: "created \<longleftrightarrow> get_tenant_by_scope_key (identity_scope_key (tp_entra_tenant_id p) (tp_entra_object_id p)) db0 = None"
    using T(4) by (simp add: onboard_tenant_key)
  show "identity_ok db" by (rule F(1))
  show "permissions db = permissions db0" "outbox db = outbox db0" using F(2,3) by (simp_all add: db1)
  show "ri_tenant ri \<in> set (tenants db)" using T(2) F(4,5) by simp
  show "tn_identity_scope_key (ri_tenant ri) = identity_scope_key (tp_entra_tenant_id p) (tp_entra_object_id p)"
    using T(3) F(5) by (simp add: onboard_tenant_key)
  show "ri_user ri \<in> set (users db)" "tenant_id (ri_user ri) = row_id (ri_tenant ri)"
    "us_entra_object_id (ri_user ri) = tp_entra_object_id p" "ri = resolved (py_now clk) (ri_tenant ri) (ri_user ri) db"
    using F(5-9) by simp_all
  show "role_granted (tx_now clk) (row_id (ri_tenant ri)) (row_id (ri_user ri))
      (onboard_role (get_tenant_by_scope_key (identity_scope_key (tp_entra_tenant_id p) (tp_entra_object_id p)) db0 = None)
         (count_users (row_id (ri_tenant ri)) db0)) db0 db"
    using F(11) unfolding F(5) created by (simp add: role_granted_def db1)
qed

text \<open>The ids are primary keys.\<close>

definition primary_keys :: "identity_db \<Rightarrow> bool" where
  "primary_keys db \<longleftrightarrow> distinct (map row_id (tenants db)) \<and> distinct (map row_id (users db))"

lemma get_or_create_tenant_ids:
  assumes "get_or_create_tenant a db = (t, c, db')" "primary_keys db" "ta_id a \<notin> row_id ` set (tenants db)"
  shows "primary_keys db'"
proof -
  have "row_id (new_tenant a) = ta_id a" "row_id (rename_tenant a y) = row_id y" for y
    by (simp_all add: new_tenant_def rename_tenant_def)
  then show ?thesis
    using assms get_or_put_ids [of _ "new_tenant a" "rename_tenant a" "tenants db"]
    by (auto simp: get_or_create_tenant_def primary_keys_def split: prod.splits)
qed

lemma synchronize_user_ids:
  assumes "synchronize_user a db = (u, db')" "primary_keys db" "ua_id a \<notin> row_id ` set (users db)"
  shows "primary_keys db'"
proof -
  have "row_id (new_user a) = ua_id a" "row_id (refresh_user a y) = row_id y" for y
    by (simp_all add: new_user_def refresh_user_def)
  then show ?thesis
    using assms get_or_put_ids [of _ "new_user a" "refresh_user a" "users db"]
    by (auto simp: synchronize_user_def primary_keys_def split: prod.splits)
qed

lemma onboard_into_ids:
  assumes "onboard_into ids clk p tok scopes auth t created n db1 = Inr (ri, db)" "primary_keys db1"
    and "oi_user ids \<notin> row_id ` set (users db1)" "identity_ok db1" "oi_role ids \<notin> row_id ` set (roles db1)"
  shows "primary_keys db"
proof -
  note F = onboard_into_facts [OF assms(1,4,5)]
  obtain a where a: "principal_user (oi_user ids) clk (row_id t) p = Inr a"
    "synchronize_user a db1 = (ri_user ri, db1\<lparr>users := users db\<rparr>)" using F(10) by blast
  have "ua_id a = oi_user ids" using a(1) by (auto simp: principal_user_def result_iff)
  then have "primary_keys (db1\<lparr>users := users db\<rparr>)" using synchronize_user_ids [OF a(2) assms(2)] assms(3) by simp
  then show ?thesis using F(4) by (simp add: primary_keys_def)
qed

lemma onboard_primary_keys:
  assumes "onboard_oauth_user ids clk p name tok scopes auth db0 = Inr (ri, db)" "primary_keys db0"
    and "oi_tenant ids \<notin> row_id ` set (tenants db0)" "oi_user ids \<notin> row_id ` set (users db0)"
    and "identity_ok db0" "oi_role ids \<notin> row_id ` set (roles db0)"
  shows "primary_keys db"
proof -
  obtain t created db1 where T0: "get_or_create_tenant (onboard_tenant_args ids clk p name) db0 = (t, created, db1)"
    and I: "onboard_into ids clk p tok scopes auth t created (count_users (row_id t) db0) db1 = Inr (ri, db)"
    using assms(1) by (rule onboard_oauth_user_into)
  note T = get_or_create_tenant_facts [OF T0]
  obtain rows where db1: "db1 = db0\<lparr>tenants := rows\<rparr>" using T(1) by blast
  have "ta_id (onboard_tenant_args ids clk p name) = oi_tenant ids"
    by (simp add: onboard_tenant_args_def Let_def)
  then have "primary_keys db1" using get_or_create_tenant_ids [OF T0 assms(2)] assms(3) by simp
  with I show ?thesis by (rule onboard_into_ids) (use assms T(5) in \<open>simp_all add: db1\<close>)
qed

lemma onboard_permissions:
  assumes on: "onboard_oauth_user ids clk p name tok scopes auth db0 = Inr (ri, db)"
    and ok: "identity_ok db0" and fresh: "oi_role ids \<notin> row_id ` set (roles db0)"
    and unassigned: "\<forall>a \<in> set (user_roles db0). ur_user_id a \<noteq> row_id (ri_user ri)"
  defines "rn \<equiv> onboard_role (get_tenant_by_scope_key (identity_scope_key (tp_entra_tenant_id p) (tp_entra_object_id p)) db0 = None)
      (count_users (row_id (ri_tenant ri)) db0)"
  shows "map ro_name (ri_roles ri) = [rn]"
    "pm_name ` set (permissions db0) \<inter> (if rn = ''TenantAdministrator'' then admin_permissions else reader_permissions)
       \<subseteq> pm_name ` set (ri_permissions ri)"
proof -
  note F = onboard_facts [OF on ok fresh]
  let ?t = "row_id (ri_tenant ri)" and ?u = "row_id (ri_user ri)"
  obtain r where r: "r \<in> set (roles db)" "ro_name r = rn"
      "set (role_permissions db) = set (role_permissions db0) \<union>
           {\<lparr>rp_role_id = row_id r, rp_permission_id = row_id p\<rparr> | p. p \<in> set (permissions db0)
              \<and> pm_name p \<in> (if ro_name r = ''TenantAdministrator'' then admin_permissions else reader_permissions)}"
      "set (user_roles db) \<subseteq> insert (new_assignment (tx_now clk) ?t ?u (row_id r)) (set (user_roles db0))"
      "\<exists>a \<in> set (user_roles db). assignment_key a = (?t, ?u, row_id r, ''tenant'', ''*'')"
    using F(10) unfolding rn_def role_granted_def by blast
  have new: "new_assignment (tx_now clk) ?t ?u (row_id r) \<in> set (user_roles db)"
    using r(4,5) unassigned by auto
  have counts: "(\<exists>a \<in> set (user_roles db). assignment_counts now ?t ?u x a) \<longleftrightarrow> x = row_id r" for now x
  proof
    assume "\<exists>a \<in> set (user_roles db). assignment_counts now ?t ?u x a"
    then show "x = row_id r"
      using r(4) unassigned by (auto simp: assignment_counts_def new_assignment_def)
  next
    assume "x = row_id r"
    then show "\<exists>a \<in> set (user_roles db). assignment_counts now ?t ?u x a"
      using new by (intro bexI [OF _ new]) (simp add: assignment_counts_def new_assignment_def)
  qed
  have "distinct (map row_id (roles db))" using F(1) by (simp add: identity_ok_def)
  then have one: "filter (\<lambda>x. row_id x = row_id r) (roles db) = [r]" using r(1) by (rule filter_key)
  have ri: "ri_roles ri = effective_roles (py_now clk) ?t ?u db"
    "ri_permissions ri = effective_permissions (py_now clk) ?t ?u db"
    using F(9) by (metis resolved_def resolved_identity.select_convs(3), metis resolved_def resolved_identity.select_convs(4))
  show "map ro_name (ri_roles ri) = [rn]"
    unfolding ri effective_roles_def counts one by (simp add: r(2))
  show "pm_name ` set (permissions db0) \<inter> (if rn = ''TenantAdministrator'' then admin_permissions else reader_permissions)
       \<subseteq> pm_name ` set (ri_permissions ri)"
  proof
    fix n assume "n \<in> pm_name ` set (permissions db0) \<inter> (if rn = ''TenantAdministrator'' then admin_permissions else reader_permissions)"
    then obtain q where q: "q \<in> set (permissions db0)" "pm_name q = n"
        "pm_name q \<in> (if rn = ''TenantAdministrator'' then admin_permissions else reader_permissions)" by blast
    then have rp: "\<lparr>rp_role_id = row_id r, rp_permission_id = row_id q\<rparr> \<in> set (role_permissions db)"
      using r(2,3) by auto
    have "q \<in> set (ri_permissions ri)"
      unfolding ri effective_permissions_def counts
      using q(1) F(2) r(1) rp by (auto intro!: bexI [OF _ rp])
    with q(2) show "n \<in> pm_name ` set (ri_permissions ri)" by blast
  qed
qed

text \<open>Nothing changes for the users of other tenants.\<close>

lemma onboard_isolation:
  assumes on: "onboard_oauth_user ids clk p name tok scopes auth db0 = Inr (ri, db)"
    and ok: "identity_ok db0" and fresh: "oi_role ids \<notin> row_id ` set (roles db0)"
    and other: "t' \<noteq> row_id (ri_tenant ri)"
  shows "effective_permissions now t' u' db = effective_permissions now t' u' db0"
proof -
  note F = onboard_facts [OF on ok fresh]
  let ?t = "row_id (ri_tenant ri)" and ?u = "row_id (ri_user ri)"
  obtain r where r: "tenant_id r = ?t" "r \<in> set (roles db)"
      "set (roles db) \<subseteq> insert r (set (roles db0))" "set (roles db0) \<subseteq> set (roles db)"
      "\<forall>x \<in> set (role_permissions db). x \<in> set (role_permissions db0) \<or> rp_role_id x = row_id r"
      "set (role_permissions db0) \<subseteq> set (role_permissions db)"
      "set (user_roles db) \<subseteq> insert (new_assignment (tx_now clk) ?t ?u (row_id r)) (set (user_roles db0))"
      "set (user_roles db0) \<subseteq> set (user_roles db)"
    using F(10) unfolding role_granted_def by fastforce
  have ids: "distinct (map row_id (roles db))" using F(1) by (simp add: identity_ok_def)
  have counts: "(\<exists>a \<in> set (user_roles db). assignment_counts now t' u' x a)
      \<longleftrightarrow> (\<exists>a \<in> set (user_roles db0). assignment_counts now t' u' x a)" for x
    using r(7,8) other by (auto simp: assignment_counts_def new_assignment_def)
  have not_r: "x \<noteq> row_id r" if "\<exists>a \<in> set (user_roles db0). assignment_counts now t' u' x a" for x
  proof
    assume x: "x = row_id r"
    from that obtain a where "a \<in> set (user_roles db0)" "ur_role_id a = x" "ur_tenant_id a = t'"
      by (auto simp: assignment_counts_def)
    then obtain y where "y \<in> set (roles db0)" "row_id y = row_id r" "tenant_id y = t'"
      using ok x unfolding identity_ok_def by metis
    moreover from this have "y = r" using ids r(2,4) by (metis eq_key_imp_eq_value find_unique option.inject subsetD)
    ultimately show False using r(1) other by simp
  qed
  have same: "(\<exists>rp \<in> set (role_permissions db). rp_permission_id rp = row_id q \<and> (\<exists>x \<in> set (roles db). row_id x = rp_role_id rp
        \<and> (\<exists>a \<in> set (user_roles db). assignment_counts now t' u' (row_id x) a)))
     \<longleftrightarrow> (\<exists>rp \<in> set (role_permissions db0). rp_permission_id rp = row_id q \<and> (\<exists>x \<in> set (roles db0). row_id x = rp_role_id rp
        \<and> (\<exists>a \<in> set (user_roles db0). assignment_counts now t' u' (row_id x) a)))" (is "?L \<longleftrightarrow> ?R") for q :: permission
  proof
    assume ?L
    then obtain rp x where x: "rp \<in> set (role_permissions db)" "rp_permission_id rp = row_id q" "x \<in> set (roles db)"
        "row_id x = rp_role_id rp" "\<exists>a \<in> set (user_roles db0). assignment_counts now t' u' (row_id x) a"
      unfolding counts by blast
    from not_r [OF x(5)] have "row_id x \<noteq> row_id r" .
    with x r(3,5) have "x \<in> set (roles db0)" "rp \<in> set (role_permissions db0)" by auto
    with x show ?R by blast
  next
    assume ?R then show ?L unfolding counts using r(4,6) by blast
  qed
  show ?thesis unfolding effective_permissions_def same F(2) ..
qed

section \<open>Resolution\<close>

lemma resolve_and_sync_Inr:
  assumes "resolve_and_sync new_id clk p db = Inr (ri, db')"
  obtains t a u where
    "get_tenant_by_scope_key (identity_scope_key (tp_entra_tenant_id p) (tp_entra_object_id p)) db = Some t"
    "tn_status t = ''active''" "principal_user new_id clk (row_id t) p = Inr a"
    "synchronize_user a db = (u, db')" "us_is_active u" "ri = resolved (py_now clk) t u db'"
proof -
  from assms obtain t where t:
    "get_tenant_by_scope_key (identity_scope_key (tp_entra_tenant_id p) (tp_entra_object_id p)) db = Some t"
    "tn_status t = ''active''"
    by (auto simp: resolve_and_sync_def split: option.splits if_splits)
  with assms obtain a where a: "principal_user new_id clk (row_id t) p = Inr a"
    by (auto simp: resolve_and_sync_def result_iff)
  obtain u db2 where u: "synchronize_user a db = (u, db2)" by fastforce
  have "us_is_active u" "db2 = db'" "ri = resolved (py_now clk) t u db2"
    using assms t a u by (auto simp: resolve_and_sync_def split: if_splits)
  with that t a u show ?thesis by blast
qed

lemma resolve_and_sync_ok:
  assumes "resolve_and_sync new_id clk p db = Inr (ri, db')" "identity_ok db"
  shows "identity_ok db'"
  using assms(1) by (rule resolve_and_sync_Inr) (use assms(2) synchronize_user_facts(8) in blast)

lemma resolve_session_Inr:
  "resolve_session now t u db = Inr ri \<longleftrightarrow>
     get_user_by_id t u db = Some (ri_user ri) \<and> us_is_active (ri_user ri)
     \<and> get_tenant_by_id t db = Some (ri_tenant ri) \<and> tn_status (ri_tenant ri) = ''active''
     \<and> ri_roles ri = effective_roles now t u db \<and> ri_permissions ri = effective_permissions now t u db"
  by (cases ri) (auto simp: resolve_session_def split: option.splits if_splits)

lemma resolve_session_user:
  "resolve_session now t u db = Inr ri \<Longrightarrow>
     row_id (ri_user ri) = u \<and> tenant_id (ri_user ri) = t \<and> row_id (ri_tenant ri) = t"
  by (auto simp: resolve_session_Inr get_user_by_id_def get_tenant_by_id_def dest!: find_Some_in)

section \<open>Start-up is idempotent\<close>

lemma upsert_found: "find P rows \<noteq> None \<Longrightarrow> upsert P new (\<lambda>r. r) rows = rows"
  by (auto simp: upsert_def)

lemma get_or_put_found: "find P rows = Some r \<Longrightarrow> get_or_put P new (\<lambda>r. r) rows = (r, False, rows)"
  by (simp add: get_or_put_def)

lemma seed_present:
  "fst ` set nds \<subseteq> pm_name ` set rows \<Longrightarrow> fold (seed_permission new_id now) nds rows = rows"
proof (induction nds)
  case (Cons nd nds)
  have "find (\<lambda>p. pm_name p = fst nd) rows \<noteq> None"
    using Cons.prems by (auto simp: find_None_iff)
  then have "seed_permission new_id now nd rows = rows"
    unfolding seed_permission_def by (rule upsert_found)
  with Cons show ?case by simp
qed simp

lemma seed_names: "pm_name ` set (fold (seed_permission new_id now) nds rows) = fst ` set nds \<union> pm_name ` set rows"
proof (induction nds arbitrary: rows)
  case (Cons nd nds)
  have "pm_name ` set (seed_permission new_id now nd rows) = insert (fst nd) (pm_name ` set rows)"
    unfolding seed_permission_def using permission_table.keys_put [where a = nd and rows = rows] by simp
  with Cons show ?case by simp
qed simp

lemma seed_distinct:
  "distinct (map pm_name rows) \<Longrightarrow> distinct (map pm_name (fold (seed_permission new_id now) nds rows))"
proof (induction nds arbitrary: rows)
  case (Cons nd nds)
  have "distinct (map pm_name (seed_permission new_id now nd rows))"
    unfolding seed_permission_def using permission_table.unique_put [OF Cons.prems] .
  with Cons.IH show ?case by simp
qed simp

lemma get_or_put_same_found:
  assumes "get_or_put P new (\<lambda>r. r) rows = (r, c, rows')" "P new"
  shows "find P rows' = Some r"
  using assms by (auto simp: get_or_put_def find_append split: option.splits)

lemma grant_again: "role_permissions (grant_permissions r names db) = role_permissions db \<Longrightarrow>
    grant_permissions r names db = db"
  by (simp add: grant_permissions_def)

text \<open>The state that a start-up leaves is one that the next start-up finds complete.\<close>

definition bootstrapped :: "settings \<Rightarrow> identity_db \<Rightarrow> bool" where
  "bootstrapped cfg db \<longleftrightarrow> set (map fst PERMISSIONS) \<subseteq> pm_name ` set (permissions db) \<and>
     (present (bootstrap_tenant_id cfg) \<longrightarrow> (\<exists>entra t r.
        uuid_parse (the (bootstrap_tenant_id cfg)) = Inr entra
        \<and> find (\<lambda>t. tn_identity_scope_key t = identity_scope_key entra 0) (tenants db) = Some t
        \<and> find (\<lambda>r. role_key r = (row_id t, ''TenantAdministrator'')) (roles db) = Some r
        \<and> (\<forall>p \<in> set (permissions db). pm_name p \<in> set (map fst PERMISSIONS) \<longrightarrow>
             \<lparr>rp_role_id = row_id r, rp_permission_id = row_id p\<rparr> \<in> set (role_permissions db))
        \<and> (present (bootstrap_admin_object_id cfg) \<longrightarrow> (\<exists>oid u.
             uuid_parse (the (bootstrap_admin_object_id cfg)) = Inr oid
             \<and> find (\<lambda>u. user_key u = (row_id t, oid)) (users db) = Some u
             \<and> find (\<lambda>a. assignment_key a = (row_id t, row_id u, row_id r, ''tenant'', ''*'')) (user_roles db) \<noteq> None))))"

lemma bootstrap_stable:
  assumes "bootstrapped cfg db"
  shows "bootstrap_identity new_permission_id ids clk cfg db = Inr ((), db)"
proof -
  have seed: "seed_permissions new_permission_id (tx_now clk) db = db"
    using assms by (simp add: seed_permissions_def bootstrapped_def seed_present)
  show ?thesis
  proof (cases "present (bootstrap_tenant_id cfg)")
    case True
    then obtain entra t r where t: "uuid_parse (the (bootstrap_tenant_id cfg)) = Inr entra"
        "find (\<lambda>t. tn_identity_scope_key t = identity_scope_key entra 0) (tenants db) = Some t"
        "find (\<lambda>r. role_key r = (row_id t, ''TenantAdministrator'')) (roles db) = Some r"
        "\<forall>p \<in> set (permissions db). pm_name p \<in> set (map fst PERMISSIONS) \<longrightarrow>
             \<lparr>rp_role_id = row_id r, rp_permission_id = row_id p\<rparr> \<in> set (role_permissions db)"
        "present (bootstrap_admin_object_id cfg) \<longrightarrow> (\<exists>oid u.
             uuid_parse (the (bootstrap_admin_object_id cfg)) = Inr oid
             \<and> find (\<lambda>u. user_key u = (row_id t, oid)) (users db) = Some u
             \<and> find (\<lambda>a. assignment_key a = (row_id t, row_id u, row_id r, ''tenant'', ''*'')) (user_roles db) \<noteq> None)"
      using assms unfolding bootstrapped_def by blast
    have role: "get_or_create_role \<lparr>ra_id = oi_role ids, ra_clock = clk, ra_tenant_id = row_id t,
        ra_name = ''TenantAdministrator'', ra_description = d\<rparr> db = (r, db)" for d
      using get_or_put_found [OF t(3)] by (simp add: get_or_create_role_def)
    have grant: "grant_permissions r (set (map fst PERMISSIONS)) db = db"
      unfolding grant_permissions_def using t(4) by (subst fold_add_missing(3)) auto
    have admin: "bootstrap_admin ids clk cfg t r db = Inr db"
    proof (cases "present (bootstrap_admin_object_id cfg)")
      case True
      then obtain oid u where u: "uuid_parse (the (bootstrap_admin_object_id cfg)) = Inr oid"
          "find (\<lambda>u. user_key u = (row_id t, oid)) (users db) = Some u"
          "find (\<lambda>a. assignment_key a = (row_id t, row_id u, row_id r, ''tenant'', ''*'')) (user_roles db) \<noteq> None"
        using t(5) by blast
      have "assign_role (tx_now clk) (row_id t) (row_id u) (row_id r) db = db"
        using u(3) by (simp add: assign_role_def)
      with True u(1) get_or_put_found [OF u(2)] show ?thesis
        by (simp add: bootstrap_admin_def)
    qed (simp add: bootstrap_admin_def)
    show ?thesis
      using True t(1) get_or_put_found [OF t(2)] role grant admin seed
      by (simp add: bootstrap_identity_def Let_def)
  qed (simp add: bootstrap_identity_def seed)
qed

lemma bootstrap_establishes:
  assumes "bootstrap_identity new_permission_id ids clk cfg db0 = Inr (u, db)"
  shows "bootstrapped cfg db"
proof (cases "present (bootstrap_tenant_id cfg)")
  case False
  with assms have "db = seed_permissions new_permission_id (tx_now clk) db0"
    by (simp add: bootstrap_identity_def)
  with False show ?thesis
    by (auto simp: bootstrapped_def seed_permissions_def seed_names)
next
  case True
  let ?db1 = "seed_permissions new_permission_id (tx_now clk) db0"
  from True assms obtain entra where entra: "uuid_parse (the (bootstrap_tenant_id cfg)) = Inr entra"
    by (cases "uuid_parse (the (bootstrap_tenant_id cfg))") (auto simp: bootstrap_identity_def Let_def)
  obtain t c1 trows where t: "get_or_put (\<lambda>t. tn_identity_scope_key t = identity_scope_key entra 0)
      (bootstrap_tenant_row (oi_tenant ids) clk cfg entra (identity_scope_key entra 0)) (\<lambda>t. t) (tenants ?db1) = (t, c1, trows)"
    by (rule prod_cases3)
  obtain r db2 where r: "get_or_create_role \<lparr>ra_id = oi_role ids, ra_clock = clk, ra_tenant_id = row_id t,
      ra_name = ''TenantAdministrator'', ra_description = role_description ''TenantAdministrator''\<rparr>
      (?db1\<lparr>tenants := trows\<rparr>) = (r, db2)" by fastforce
  let ?db3 = "grant_permissions r (set (map fst PERMISSIONS)) db2"
  have adm: "bootstrap_admin ids clk cfg t r ?db3 = Inr db"
    using assms True entra t r by (simp add: bootstrap_identity_def Let_def result_iff)
  obtain rrows where db2: "db2 = (?db1\<lparr>tenants := trows\<rparr>)\<lparr>roles := rrows\<rparr>"
      and rput: "\<exists>c. get_or_put (\<lambda>r. role_key r = (row_id t, ''TenantAdministrator''))
        (new_role \<lparr>ra_id = oi_role ids, ra_clock = clk, ra_tenant_id = row_id t,
           ra_name = ''TenantAdministrator'', ra_description = role_description ''TenantAdministrator''\<rparr>)
        (\<lambda>r. r) (roles ?db1) = (r, c, rrows)"
    using r by (auto simp: get_or_create_role_def split: prod.splits)
  have tf: "find (\<lambda>t. tn_identity_scope_key t = identity_scope_key entra 0) trows = Some t"
    using get_or_put_same_found [OF t] by (simp add: bootstrap_tenant_row_def)
  have rf: "find (\<lambda>r. role_key r = (row_id t, ''TenantAdministrator'')) rrows = Some r"
    using rput by (elim exE) (erule get_or_put_same_found, simp add: new_role_def)
  have same: "tenants ?db3 = trows" "roles ?db3 = rrows" "permissions ?db3 = permissions ?db1"
    by (simp_all add: grant_permissions_def db2)
  have granted: "\<forall>p \<in> set (permissions ?db1). pm_name p \<in> set (map fst PERMISSIONS) \<longrightarrow>
      \<lparr>rp_role_id = row_id r, rp_permission_id = row_id p\<rparr> \<in> set (role_permissions ?db3)"
    unfolding grant_permissions_facts(2) by (auto simp: db2)
  have names: "set (map fst PERMISSIONS) \<subseteq> pm_name ` set (permissions ?db1)"
    by (auto simp: seed_permissions_def seed_names)
  show ?thesis
  proof (cases "present (bootstrap_admin_object_id cfg)")
    case False
    then have "db = ?db3" using adm by (simp add: bootstrap_admin_def)
    then show ?thesis
      unfolding bootstrapped_def using True False entra tf rf granted names same by auto
  next
    case present_admin: True
    then obtain oid where oid: "uuid_parse (the (bootstrap_admin_object_id cfg)) = Inr oid"
      using adm by (auto simp: bootstrap_admin_def result_iff)
    obtain v c2 urows where v: "get_or_put (\<lambda>u. user_key u = (row_id t, oid))
        (bootstrap_user_row (oi_user ids) clk cfg (row_id t) oid) (\<lambda>u. u) (users ?db3) = (v, c2, urows)"
      by (rule prod_cases3)
    have db: "db = assign_role (tx_now clk) (row_id t) (row_id v) (row_id r) (?db3\<lparr>users := urows\<rparr>)"
      using adm present_admin oid v by (simp add: bootstrap_admin_def)
    have uf: "find (\<lambda>u. user_key u = (row_id t, oid)) urows = Some v"
      using get_or_put_same_found [OF v] by (simp add: bootstrap_user_row_def)
    have af: "find (\<lambda>a. assignment_key a = (row_id t, row_id v, row_id r, ''tenant'', ''*'')) (user_roles db) \<noteq> None"
    proof
      assume none: "find (\<lambda>a. assignment_key a = (row_id t, row_id v, row_id r, ''tenant'', ''*'')) (user_roles db) = None"
      obtain a where a: "a \<in> set (user_roles db)" "assignment_key a = (row_id t, row_id v, row_id r, ''tenant'', ''*'')"
        using assign_role_facts(4) db by blast
      from find_None_not [OF none a(1)] a(2) show False by blast
    qed
    have rest: "tenants db = trows" "roles db = rrows" "permissions db = permissions ?db1" "users db = urows"
        "role_permissions db = role_permissions ?db3"
      using same by (simp_all add: db assign_role_def)
    show ?thesis
      unfolding bootstrapped_def rest using entra tf rf granted names oid uf af by blast
  qed
qed

section \<open>Properties\<close>

text \<open>Values for the witnesses.\<close>

definition empty_identity :: identity_db where
  "empty_identity = \<lparr>outbox = [], tenants = [], users = [], roles = [], permissions = [],
     role_permissions = [], user_roles = [], oauth_connections = []\<rparr>"

definition sample_principal :: "uuid \<Rightarrow> uuid \<Rightarrow> token_principal" where
  "sample_principal t u = \<lparr>tp_entra_tenant_id = t, tp_entra_object_id = u, tp_display_name = ''Ada'',
     tp_principal_name = JStr ''ada@example.com'', tp_scopes = {}, tp_roles = {}, tp_claims = []\<rparr>"

definition sample_ids :: "uuid \<Rightarrow> onboard_ids" where
  "sample_ids n = \<lparr>oi_tenant = n, oi_user = n, oi_role = n, oi_connection = n\<rparr>"

definition sample_clock :: clock where
  "sample_clock = \<lparr>tx_now = 1000000, py_now = 1000000\<rparr>"

lemma onboard_returns:
  "as_opt_text (tp_principal_name p) = Inr x \<Longrightarrow>
     \<exists>ri db'. onboard_oauth_user ids clk p name tok scopes auth db = Inr (ri, db')"
  by (simp add: onboard_oauth_user_def onboard_into_def principal_user_def Let_def split: prod.splits)

lemma sample_onboard_returns:
  "\<exists>ri db'. onboard_oauth_user ids clk (sample_principal t u) name tok scopes auth db = Inr (ri, db')"
  by (rule onboard_returns [where x = "Some ''ada@example.com''"]) (simp add: sample_principal_def as_opt_text_def)

lemma empty_identity_ok: "identity_ok empty_identity"
  by (simp add: identity_ok_def empty_identity_def)

text \<open>The first user of a tenant becomes its administrator, every later one a reader: an onboarded
  user without earlier role assignments holds exactly one role, TenantAdministrator if the
  tenant was just created or has no users and Reader otherwise, and has every seeded
  permission of that role at once.\<close>

theorem onboarding_grants_one_role:
  assumes "onboard_oauth_user ids clk p name tok scopes auth db0 = Inr (ri, db)"
    and "identity_ok db0" "oi_role ids \<notin> row_id ` set (roles db0)"
    and "\<forall>a \<in> set (user_roles db0). ur_user_id a \<noteq> row_id (ri_user ri)"
  shows "\<exists>role. map ro_name (ri_roles ri) = [role]
    \<and> role = (if get_tenant_by_scope_key (identity_scope_key (tp_entra_tenant_id p) (tp_entra_object_id p)) db0 = None
                \<or> count_users (row_id (ri_tenant ri)) db0 = 0 then ''TenantAdministrator'' else ''Reader'')
    \<and> pm_name ` set (permissions db0) \<inter> (if role = ''TenantAdministrator'' then admin_permissions else reader_permissions)
        \<subseteq> pm_name ` set (ri_permissions ri)"
proof (intro exI conjI)
  show "map ro_name (ri_roles ri) = [onboard_role (get_tenant_by_scope_key
      (identity_scope_key (tp_entra_tenant_id p) (tp_entra_object_id p)) db0 = None) (count_users (row_id (ri_tenant ri)) db0)]"
    by (rule onboard_permissions(1) [OF assms])
qed (rule onboard_role_def, rule onboard_permissions(2) [OF assms])

lemma onboarding_grants_one_role_witness:
  "\<exists>ri db. onboard_oauth_user (sample_ids 1) sample_clock (sample_principal 3 4) None ''tok'' [] ''common'' empty_identity = Inr (ri, db)
     \<and> map ro_name (ri_roles ri) = [''TenantAdministrator'']"
proof -
  obtain ri db where on: "onboard_oauth_user (sample_ids 1) sample_clock (sample_principal 3 4) None ''tok'' [] ''common'' empty_identity = Inr (ri, db)"
    using sample_onboard_returns by blast
  have "\<exists>role. map ro_name (ri_roles ri) = [role] \<and> role = ''TenantAdministrator''"
    using onboarding_grants_one_role [OF on empty_identity_ok]
    by (simp add: empty_identity_def get_tenant_by_scope_key_def)
  with on show ?thesis by auto
qed

text \<open>C7: Onboarding is isolated by tenant: a login changes the effective permissions of no user of any
  other tenant, at no time.\<close>

theorem onboarding_isolated_by_tenant:
  assumes "onboard_oauth_user ids clk p name tok scopes auth db0 = Inr (ri, db)"
    and "identity_ok db0" "oi_role ids \<notin> row_id ` set (roles db0)" "t' \<noteq> row_id (ri_tenant ri)"
  shows "effective_permissions now t' u' db = effective_permissions now t' u' db0"
  by (rule onboard_isolation [OF assms])

lemma onboarding_isolated_by_tenant_witness:
  "\<exists>ri db. onboard_oauth_user (sample_ids 1) sample_clock (sample_principal 3 4) None ''tok'' [] ''common'' empty_identity = Inr (ri, db)
     \<and> effective_permissions 0 (row_id (ri_tenant ri) + 1) 9 db = []"
proof -
  obtain ri db where on: "onboard_oauth_user (sample_ids 1) sample_clock (sample_principal 3 4) None ''tok'' [] ''common'' empty_identity = Inr (ri, db)"
    using sample_onboard_returns by blast
  have "effective_permissions 0 (row_id (ri_tenant ri) + 1) 9 db = effective_permissions 0 (row_id (ri_tenant ri) + 1) 9 empty_identity"
    by (rule onboarding_isolated_by_tenant [OF on empty_identity_ok]) (simp_all add: empty_identity_def)
  with on show ?thesis by (auto simp: effective_permissions_def empty_identity_def)
qed

text \<open>The identity tables keep their keys: scope keys, users per tenant and object id, roles per
  tenant and name, assignments, grants and connections stay unique, and every assignment
  names a role of its own tenant, after a sign-in with a bearer token and after an
  onboarding, whose record is the login's own tenant and user.\<close>

theorem identity_tables_keep_keys:
  assumes "identity_ok db" "oi_role ids \<notin> row_id ` set (roles db)"
  shows "(case resolve_and_sync new_id clk p db of Inl e \<Rightarrow> True | Inr (ri, db') \<Rightarrow> identity_ok db')
    \<and> (case onboard_oauth_user ids clk p name tok scopes auth db of Inl e \<Rightarrow> True
      | Inr (ri, db') \<Rightarrow> identity_ok db' \<and> tenant_id (ri_user ri) = row_id (ri_tenant ri)
          \<and> us_entra_object_id (ri_user ri) = tp_entra_object_id p
          \<and> tn_identity_scope_key (ri_tenant ri) = identity_scope_key (tp_entra_tenant_id p) (tp_entra_object_id p))"
  using resolve_and_sync_ok onboard_facts(1,5,7,8) assms
  by (auto split: sum.splits)

lemma identity_tables_keep_keys_witness:
  "\<exists>ri db. onboard_oauth_user (sample_ids 1) sample_clock (sample_principal 3 4) None ''tok'' [] ''common'' empty_identity = Inr (ri, db)
     \<and> identity_ok db"
proof -
  obtain ri db where on: "onboard_oauth_user (sample_ids 1) sample_clock (sample_principal 3 4) None ''tok'' [] ''common'' empty_identity = Inr (ri, db)"
    using sample_onboard_returns by blast
  have "oi_role (sample_ids 1) \<notin> row_id ` set (roles empty_identity)" by (simp add: empty_identity_def)
  from identity_tables_keep_keys [where clk = sample_clock and p = "sample_principal 3 4" and name = None
      and tok = "''tok''" and scopes = "[]" and auth = "''common''", OF empty_identity_ok this] on
  show ?thesis by auto
qed

text \<open>The start-up seeding is idempotent: run again on what it left, with any clock and any new ids,
  it changes nothing.\<close>

theorem bootstrap_idempotent:
  assumes "bootstrap_identity new_permission_id ids clk cfg db0 = Inr (u, db)"
  shows "bootstrap_identity new_permission_id' ids' clk' cfg db = Inr ((), db)"
  by (rule bootstrap_stable [OF bootstrap_establishes [OF assms]])

lemma bootstrap_idempotent_witness:
  "\<exists>db. bootstrap_identity (\<lambda>n. of_nat (length n)) (sample_ids 1) sample_clock default_settings empty_identity = Inr ((), db)
     \<and> bootstrap_identity (\<lambda>n. 0) (sample_ids 2) sample_clock default_settings db = Inr ((), db)"
proof -
  obtain db where db: "bootstrap_identity (\<lambda>n. of_nat (length n)) (sample_ids 1) sample_clock default_settings empty_identity = Inr ((), db)"
    by (simp add: bootstrap_identity_def default_settings_def present_def)
  with bootstrap_idempotent [OF db] show ?thesis by blast
qed

end
