(* ===== verification/IdentityMain.thy ===== *)
theory IdentityMain
  imports Identity Clock
begin

text \<open>
  The endpoints of the identity service: the dependencies that resolve a request to a user
  (\<open>sentinel_identity/dependencies.py\<close>), the login documents in blob storage (\<open>storage.py\<close>),
  and login, callback, logout, the delegated Azure token, the profile and the lists of
  permissions and roles (\<open>main.py\<close>). Random tokens, ids, clocks and the outcomes of commits
  are arguments.
\<close>

section \<open>Resolving a request\<close>

record ('k, 'f) identity_deps =
  id_settings :: settings
  id_entra :: "'k jwt_lib"
  id_sessions :: session_jwt
  id_fernet :: "'f fernet_lib"
  id_microsoft :: form_post

text \<open>What the outside decides of one request.\<close>

record request_env =
  rq_ids :: onboard_ids
  rq_clock :: clock
  rq_time :: int
  rq_event_id :: uuid
  rq_outbox_id :: uuid
  rq_commit :: "exn option"
  rq_audit_commit :: "exn option"

definition cookie_value :: "request \<Rightarrow> string \<Rightarrow> string option" where
  "cookie_value req name = map_of (req_cookies req) name"

definition get_identity ::
  "('k, 'f) identity_deps \<Rightarrow> request_env \<Rightarrow> request \<Rightarrow> (string \<times> string) option \<Rightarrow> identity_db
     \<Rightarrow> (resolved_identity \<times> identity_db) result" where
  "get_identity deps env req credentials db =
     (let token = cookie_value req (session_cookie_name (id_settings deps))
      in if present token then
           bindr (session_decode (id_sessions deps) (id_settings deps) (rq_time env) (the token)) (\<lambda>claims.
           bindr (resolve_session (py_now (rq_clock env)) (sc_tenant_id claims) (sc_user_id claims) db) (\<lambda>ri.
           Inr (ri, db)))
         else (case credentials of
             Some (_, bearer) \<Rightarrow>
               bindr (validate (id_entra deps) (id_settings deps) bearer None) (\<lambda>p.
               resolve_and_sync (oi_user (rq_ids env)) (rq_clock env) p db)
           | None \<Rightarrow> Inl (http_error 401 ''Not authenticated'')))"

definition actor_of_identity :: "uuid \<Rightarrow> resolved_identity \<Rightarrow> actor_context" where
  "actor_of_identity correlation_id ri =
     \<lparr>ac_tenant_id = row_id (ri_tenant ri), ac_entra_tenant_id = tn_entra_tenant_id (ri_tenant ri),
      ac_actor_id = row_id (ri_user ri), ac_entra_object_id = us_entra_object_id (ri_user ri),
      ac_display_name = us_display_name (ri_user ri), ac_principal_name = us_principal_name (ri_user ri),
      ac_permissions = pm_name ` set (ri_permissions ri), ac_correlation_id = correlation_id\<rparr>"

section \<open>Login documents\<close>

text \<open>
  The recorder remembers that it has seen the container. \<open>create\<close> and \<open>upload\<close> are the
  exceptions, if any, of the two storage calls; an existing container is no error.
\<close>

record blob_recorder =
  br_container_ready :: bool
  br_blobs :: "(string \<times> string) list"

definition ensure_container :: "exn option \<Rightarrow> blob_recorder \<Rightarrow> unit result \<times> blob_recorder" where
  "ensure_container create br =
     (if br_container_ready br then (Inr (), br)
      else case create of
        Some e \<Rightarrow> if exn_type_name e = ''ResourceExistsError''
          then (Inr (), br\<lparr>br_container_ready := True\<rparr>) else (Inl e, br)
      | None \<Rightarrow> (Inr (), br\<lparr>br_container_ready := True\<rparr>))"

definition login_blob_name :: "timestamp \<Rightarrow> uuid \<Rightarrow> uuid \<Rightarrow> string" where
  "login_blob_name t user fresh = ''login-events/'' @ strftime_day t @ ''/'' @ strftime_time t
     @ ''-'' @ uuid_str user @ ''-'' @ uuid_str fresh @ ''.json''"

definition login_document :: "timestamp \<Rightarrow> json \<Rightarrow> resolved_identity \<Rightarrow> json" where
  "login_document t correlation_id ri = JDict
     [(''schema_version'', JInt 1), (''event_type'', JStr ''identity.login.succeeded''),
      (''occurred_at'', JStr (isoformat t)), (''correlation_id'', correlation_id),
      (''tenant'', JDict [(''id'', JStr (uuid_str (row_id (ri_tenant ri)))),
         (''entra_tenant_id'', JStr (uuid_str (tn_entra_tenant_id (ri_tenant ri)))),
         (''account_type'', JStr (tn_account_type (ri_tenant ri)))]),
      (''user'', JDict [(''id'', JStr (uuid_str (row_id (ri_user ri)))),
         (''entra_object_id'', JStr (uuid_str (us_entra_object_id (ri_user ri))))])]"

definition record_login ::
  "exn option \<Rightarrow> exn option \<Rightarrow> timestamp \<Rightarrow> uuid \<Rightarrow> resolved_identity \<Rightarrow> json \<Rightarrow> blob_recorder
     \<Rightarrow> string result \<times> blob_recorder" where
  "record_login create upload t fresh ri correlation_id br =
     (case ensure_container create br of
        (Inl e, br) \<Rightarrow> (Inl e, br)
      | (Inr _, br) \<Rightarrow>
          (let name = login_blob_name t (row_id (ri_user ri)) fresh
           in case json_dumps False (login_document t correlation_id ri) of
                Inl e \<Rightarrow> (Inl e, br)
              | Inr text \<Rightarrow> (case upload of
                    Some e \<Rightarrow> (Inl e, br)
                  | None \<Rightarrow> (Inr name, br\<lparr>br_blobs := br_blobs br @ [(name, text)]\<rparr>))))"

section \<open>Cookies\<close>

record cookie =
  ck_name :: string
  ck_value :: string
  ck_max_age :: int
  ck_httponly :: bool
  ck_secure :: bool
  ck_samesite :: string
  ck_domain :: "string option"
  ck_path :: string

definition oauth_cookie :: "settings \<Rightarrow> string \<Rightarrow> string \<Rightarrow> cookie" where
  "oauth_cookie cfg name v = \<lparr>ck_name = name, ck_value = v, ck_max_age = 600, ck_httponly = True,
     ck_secure = session_cookie_secure cfg, ck_samesite = ''lax'', ck_domain = None, ck_path = ''/''\<rparr>"

definition session_cookie :: "settings \<Rightarrow> string \<Rightarrow> cookie" where
  "session_cookie cfg v = \<lparr>ck_name = session_cookie_name cfg, ck_value = v,
     ck_max_age = session_ttl_seconds cfg, ck_httponly = True, ck_secure = session_cookie_secure cfg,
     ck_samesite = ''lax'', ck_domain = session_cookie_domain cfg, ck_path = ''/''\<rparr>"

definition delete_cookie :: "string \<Rightarrow> string option \<Rightarrow> cookie" where
  "delete_cookie name domain = \<lparr>ck_name = name, ck_value = [], ck_max_age = 0, ck_httponly = False,
     ck_secure = False, ck_samesite = ''lax'', ck_domain = domain, ck_path = ''/''\<rparr>"

section \<open>Login and callback\<close>

text \<open>\<open>s256\<close> is the base64url text of the SHA-256 of the verifier, without padding.\<close>

definition login ::
  "(string \<Rightarrow> string) \<Rightarrow> settings \<Rightarrow> string \<Rightarrow> string \<Rightarrow> uuid option \<Rightarrow> (string \<times> cookie list) result" where
  "login s256 cfg state verifier tenant =
     (let cookies = [oauth_cookie cfg ''sentinel_oauth_state'' state,
                     oauth_cookie cfg ''sentinel_pkce_verifier'' verifier,
                     (case tenant of
                        Some t \<Rightarrow> oauth_cookie cfg ''sentinel_oauth_tenant'' (uuid_str t)
                      | None \<Rightarrow> delete_cookie ''sentinel_oauth_tenant'' None)]
      in bindr (authorization_url cfg state (s256 verifier) (map_option uuid_str tenant)) (\<lambda>url.
         Inr (url, cookies)))"

text \<open>\<open>secrets.compare_digest\<close> of two texts, which must be ASCII.\<close>

definition compare_digest :: "string \<Rightarrow> string \<Rightarrow> bool result" where
  "compare_digest a b = (if \<forall>c \<in> set a \<union> set b. code c < 128 then Inr (a = b)
     else Inl (Exn ''TypeError'' ''comparing strings with non-ASCII characters is not supported''))"

definition nonempty_text :: "json \<Rightarrow> string option" where
  "nonempty_text v = (case v of JStr (c # cs) \<Rightarrow> Some (c # cs) | _ \<Rightarrow> None)"

definition callback_guard :: "request \<Rightarrow> string \<Rightarrow> string result" where
  "callback_guard req state =
     (let expected = cookie_value req ''sentinel_oauth_state'';
          verifier = cookie_value req ''sentinel_pkce_verifier''
      in if \<not> present expected then Inl (http_error 401 ''Invalid OAuth state'')
         else bindr (compare_digest (the expected) state) (\<lambda>same.
           if \<not> same \<or> \<not> present verifier then Inl (http_error 401 ''Invalid OAuth state'')
           else Inr (the verifier)))"

definition callback_tokens :: "dict \<Rightarrow> (string \<times> string \<times> string) result" where
  "callback_tokens tokens =
     (case (nonempty_text (dict_get tokens ''id_token''), nonempty_text (dict_get tokens ''access_token''),
            nonempty_text (dict_get tokens ''refresh_token'')) of
        (Some i, Some a, Some r) \<Rightarrow> Inr (i, a, r)
      | _ \<Rightarrow> Inl (http_error 401 ''Microsoft did not return required tokens''))"

definition callback_principal ::
  "('k, 'f) identity_deps \<Rightarrow> string option \<Rightarrow> string \<Rightarrow> token_principal result" where
  "callback_principal deps requested_tenant id_token =
     bindr (validate (id_entra deps) (id_settings deps) id_token (microsoft_client_id (id_settings deps))) (\<lambda>p.
       if present requested_tenant \<and> uuid_str (tp_entra_tenant_id p) \<noteq> the requested_tenant
       then Inl (http_error 401 ''Authenticated tenant does not match request'') else Inr p)"

definition login_event :: "request_env \<Rightarrow> uuid \<Rightarrow> resolved_identity \<Rightarrow> audit_event" where
  "login_event env correlation_id ri =
     \<lparr>ev_specversion = ''1.0'', ev_id = rq_event_id env, ev_source = ''identity-service'',
      ev_type = ''identity.user-synchronized.v1'', ev_subject = ''user/'' @ uuid_str (row_id (ri_user ri)),
      ev_time = py_now (rq_clock env), ev_datacontenttype = ''application/json'',
      ev_tenant_id = row_id (ri_tenant ri), ev_correlation_id = correlation_id,
      ev_data = [(''authentication'', JStr ''authorization_code_pkce'')], ev_actor_type = ''user'',
      ev_actor_id = uuid_str (row_id (ri_user ri)), ev_action = ''identity.login'',
      ev_entity_type = ''user'', ev_entity_id = Some (uuid_str (row_id (ri_user ri))),
      ev_outcome = ''succeeded''\<rparr>"

definition callback_onboard ::
  "('k, 'f) identity_deps \<Rightarrow> request_env \<Rightarrow> uuid \<Rightarrow> string option \<Rightarrow> string \<Rightarrow> token_principal
     \<Rightarrow> identity_db \<Rightarrow> (resolved_identity \<times> identity_db) result" where
  "callback_onboard deps env correlation_id requested_tenant refresh_token p db =
     bindr (cipher_encrypt (id_fernet deps) (id_settings deps) refresh_token) (\<lambda>encrypted.
     bindr (onboard_oauth_user (rq_ids env) (rq_clock env) p None encrypted ms_scopes
              (refresh_authority (tp_entra_tenant_id p) requested_tenant) db) (\<lambda>(ri, db).
     Inr (ri, enqueue_audit (rq_outbox_id env) (py_now (rq_clock env)) (login_event env correlation_id ri) db)))"

definition claims_of_identity :: "resolved_identity \<Rightarrow> session_claims" where
  "claims_of_identity ri = \<lparr>sc_user_id = row_id (ri_user ri), sc_tenant_id = row_id (ri_tenant ri),
     sc_entra_tenant_id = tn_entra_tenant_id (ri_tenant ri),
     sc_entra_object_id = us_entra_object_id (ri_user ri)\<rparr>"

text \<open>The outcome of the storage calls, where the deployment has a storage account.\<close>

record blob_env =
  be_create :: "exn option"
  be_upload :: "exn option"
  be_time :: timestamp
  be_fresh :: uuid

definition callback_blob ::
  "blob_env \<Rightarrow> uuid \<Rightarrow> resolved_identity \<Rightarrow> blob_recorder option \<Rightarrow> blob_recorder option" where
  "callback_blob be correlation_id ri recorder =
     map_option (\<lambda>br. snd (record_login (be_create be) (be_upload be) (be_time be) (be_fresh be) ri
                             (JUuid correlation_id) br)) recorder"

record redirect =
  rd_url :: string
  rd_status :: nat
  rd_cookies :: "cookie list"

definition callback_response :: "settings \<Rightarrow> string \<Rightarrow> redirect" where
  "callback_response cfg token =
     \<lparr>rd_url = rstrip_slash (frontend_url cfg) @ ''/'', rd_status = 302,
      rd_cookies = [session_cookie cfg token, delete_cookie ''sentinel_oauth_state'' None,
        delete_cookie ''sentinel_pkce_verifier'' None, delete_cookie ''sentinel_oauth_tenant'' None]\<rparr>"

definition callback ::
  "('k, 'f) identity_deps \<Rightarrow> request_env \<Rightarrow> blob_env \<Rightarrow> request \<Rightarrow> uuid \<Rightarrow> string \<Rightarrow> string
     \<Rightarrow> identity_db \<times> blob_recorder option
     \<Rightarrow> redirect result \<times> identity_db \<times> blob_recorder option" where
  "callback deps env be req correlation_id auth_code state st =
     (let (db, recorder) = st;
          cfg = id_settings deps;
          requested_tenant = cookie_value req ''sentinel_oauth_tenant''
      in case bindr (callback_guard req state) (\<lambda>verifier.
              bindr (exchange_code (id_microsoft deps) cfg auth_code verifier requested_tenant) (\<lambda>tokens.
              bindr (callback_tokens tokens) (\<lambda>(id_token, _, refresh_token).
              bindr (callback_principal deps requested_tenant id_token) (\<lambda>p. Inr (p, refresh_token))))) of
           Inl e \<Rightarrow> (Inl e, db, recorder)
         | Inr (p, refresh_token) \<Rightarrow>
             (case transaction (rq_commit env)
                     (callback_onboard deps env correlation_id requested_tenant refresh_token p) db of
                (Inl e, db') \<Rightarrow> (Inl e, db', recorder)
              | (Inr ri, db') \<Rightarrow>
                  (bindr (session_encode (id_sessions deps) cfg (rq_time env) (claims_of_identity ri)) (\<lambda>token.
                     Inr (callback_response cfg token)),
                   db', callback_blob be correlation_id ri recorder)))"

definition logout :: "settings \<Rightarrow> json \<times> cookie list" where
  "logout cfg = (JDict [(''status'', JStr ''ok'')],
     [delete_cookie (session_cookie_name cfg) (session_cookie_domain cfg)])"

section \<open>The delegated Azure token\<close>

definition delegated_guard :: "settings \<Rightarrow> string option \<Rightarrow> unit result" where
  "delegated_guard cfg x_internal_token =
     (if \<not> present (internal_api_token cfg) then Inl (http_error 401 ''Invalid internal credential'')
      else bindr (compare_digest (case x_internal_token of None \<Rightarrow> [] | Some s \<Rightarrow> s) (the (internal_api_token cfg)))
        (\<lambda>same. guardr same (http_error 401 ''Invalid internal credential'')))"

definition delegated_connection ::
  "uuid \<Rightarrow> uuid \<Rightarrow> identity_db \<Rightarrow> oauth_connection result" where
  "delegated_connection t u db =
     (let refusal = http_error 409 ''User has no active delegated Microsoft OAuth connection''
      in case (get_tenant_by_id t db, get_user_by_id t u db, get_oauth_connection t (Some u) db) of
           (Some tenant, Some user, Some connection) \<Rightarrow>
             if us_is_active user then Inr connection else Inl refusal
         | _ \<Rightarrow> Inl refusal)"

definition delegated_body ::
  "(string \<Rightarrow> int option) \<Rightarrow> ('k, 'f) identity_deps \<Rightarrow> request_env \<Rightarrow> uuid \<Rightarrow> uuid \<Rightarrow> identity_db
     \<Rightarrow> ((string \<times> int) \<times> identity_db) result" where
  "delegated_body int_of_text deps env t u db =
     bindr (delegated_connection t u db) (\<lambda>connection.
     bindr (cipher_decrypt (id_fernet deps) (id_settings deps) (oc_encrypted_refresh_token connection)) (\<lambda>refresh_token.
     bindr (ms_refresh (id_microsoft deps) (id_settings deps) refresh_token (oc_token_authority connection)) (\<lambda>tokens.
     (case nonempty_text (dict_get tokens ''access_token'') of
        None \<Rightarrow> Inl (http_error 502 ''Microsoft token refresh failed'')
      | Some access_token \<Rightarrow>
          bindr (case nonempty_text (dict_get tokens ''refresh_token'') of
              None \<Rightarrow> Inr db
            | Some rotated \<Rightarrow>
                bindr (cipher_encrypt (id_fernet deps) (id_settings deps) rotated) (\<lambda>encrypted.
                Inr (snd (upsert_oauth_connection
                  \<lparr>ca_id = oi_connection (rq_ids env), ca_clock = rq_clock env, ca_tenant_id = t,
                   ca_user_id = oc_user_id connection, ca_encrypted_refresh_token = encrypted,
                   ca_scopes = ms_scopes, ca_token_authority = oc_token_authority connection\<rparr> db)))) (\<lambda>db'.
          bindr (expires_in int_of_text tokens) (\<lambda>n. Inr ((access_token, n), db')))))))"

definition delegated_azure_token ::
  "(string \<Rightarrow> int option) \<Rightarrow> ('k, 'f) identity_deps \<Rightarrow> request_env \<Rightarrow> uuid \<Rightarrow> uuid \<Rightarrow> string option \<Rightarrow> identity_db
     \<Rightarrow> (string \<times> int) result \<times> identity_db" where
  "delegated_azure_token int_of_text deps env t u x_internal_token db =
     (case delegated_guard (id_settings deps) x_internal_token of
        Inl e \<Rightarrow> (Inl e, db)
      | Inr _ \<Rightarrow> transaction (rq_commit env) (delegated_body int_of_text deps env t u) db)"

section \<open>Profile, permissions, roles\<close>

definition profile_event :: "request_env \<Rightarrow> uuid \<Rightarrow> resolved_identity \<Rightarrow> audit_event" where
  "profile_event env correlation_id ri = (login_event env correlation_id ri)
     \<lparr>ev_data := [(''entra_object_id'', JStr (uuid_str (us_entra_object_id (ri_user ri))))],
      ev_action := ''identity.profile.read''\<rparr>"

definition profile_response :: "resolved_identity \<Rightarrow> json" where
  "profile_response ri = JDict
     [(''user_id'', JStr (uuid_str (row_id (ri_user ri)))), (''tenant_id'', JStr (uuid_str (row_id (ri_tenant ri)))),
      (''entra_tenant_id'', JStr (uuid_str (tn_entra_tenant_id (ri_tenant ri)))),
      (''entra_object_id'', JStr (uuid_str (us_entra_object_id (ri_user ri)))),
      (''display_name'', JStr (us_display_name (ri_user ri))),
      (''principal_name'', opt_str (us_principal_name (ri_user ri))),
      (''roles'', JList (map JStr (sort (map ro_name (ri_roles ri))))),
      (''permissions'', JList (map JStr (sort (map pm_name (ri_permissions ri)))))]"

text \<open>
  The identity is resolved in the request's session; the audit event is written and
  committed in a second one while the first is still open, and the first commits after the
  endpoint has returned.
\<close>

definition profile ::
  "('k, 'f) identity_deps \<Rightarrow> request_env \<Rightarrow> request \<Rightarrow> uuid \<Rightarrow> (string \<times> string) option \<Rightarrow> identity_db
     \<Rightarrow> json result \<times> identity_db" where
  "profile deps env req correlation_id credentials db =
     (case get_identity deps env req credentials db of
        Inl e \<Rightarrow> (Inl e, db)
      | Inr (ri, db1) \<Rightarrow>
          (case transaction (rq_audit_commit env) (\<lambda>d. Inr ((), enqueue_audit (rq_outbox_id env)
                   (py_now (rq_clock env)) (profile_event env correlation_id ri) d)) db of
             (Inl e, db2) \<Rightarrow> (Inl e, db2)
           | (Inr _, db2) \<Rightarrow> (case rq_commit env of
                 None \<Rightarrow> (Inr (profile_response ri), db2\<lparr>users := users db1\<rparr>)
               | Some e \<Rightarrow> (Inl e, db2))))"

definition permission_response :: "permission \<Rightarrow> json" where
  "permission_response p = JDict [(''name'', JStr (pm_name p)), (''description'', JStr (pm_description p))]"

definition may_read_roles :: "resolved_identity \<Rightarrow> bool" where
  "may_read_roles ri \<longleftrightarrow> ''identity.roles.read'' \<in> pm_name ` set (ri_permissions ri)"

definition permissions_endpoint ::
  "('k, 'f) identity_deps \<Rightarrow> request_env \<Rightarrow> request \<Rightarrow> (string \<times> string) option \<Rightarrow> identity_db
     \<Rightarrow> json list result \<times> identity_db" where
  "permissions_endpoint deps env req credentials db =
     transaction (rq_commit env) (\<lambda>db0. bindr (get_identity deps env req credentials db0) (\<lambda>(ri, db1).
       Inr (map permission_response (if may_read_roles ri then list_permissions db0 else ri_permissions ri), db1))) db"

definition role_response :: "role \<times> string list \<Rightarrow> json" where
  "role_response rp = (case rp of (r, ps) \<Rightarrow> JDict [(''id'', JStr (uuid_str (row_id r))), (''name'', JStr (ro_name r)),
     (''description'', opt_str (ro_description r)), (''permissions'', JList (map JStr ps))])"

definition roles_endpoint ::
  "('k, 'f) identity_deps \<Rightarrow> request_env \<Rightarrow> request \<Rightarrow> (string \<times> string) option \<Rightarrow> identity_db
     \<Rightarrow> json list result \<times> identity_db" where
  "roles_endpoint deps env req credentials db =
     transaction (rq_commit env) (\<lambda>db0. bindr (get_identity deps env req credentials db0) (\<lambda>(ri, db1).
       if \<not> may_read_roles ri then Inl (http_error 403 ''identity.roles.read is required'')
       else Inr (map role_response (list_roles_with_permissions (row_id (ri_tenant ri)) db0), db1))) db"

text \<open>The start-up: the seeding runs in one transaction, and a failure stops the service.\<close>

definition lifespan ::
  "exn option \<Rightarrow> (string \<Rightarrow> uuid) \<Rightarrow> onboard_ids \<Rightarrow> clock \<Rightarrow> settings \<Rightarrow> identity_db
     \<Rightarrow> unit result \<times> identity_db" where
  "lifespan commit_fault new_permission_id ids clk cfg db =
     transaction commit_fault (bootstrap_identity new_permission_id ids clk cfg) db"

section \<open>From the profile to the actor\<close>

lemma as_texts_JStr [simp]: "as_texts (map JStr xs) = Inr xs"
  by (induction xs) (simp_all add: as_text_def)

lemma uuid_field_text: "map_of d k = Some (JStr (uuid_str u)) \<Longrightarrow> uuid_field d k = Inr u"
  by (simp add: uuid_field_def dict_item_def as_text_def)

lemma actor_of_profile_response:
  "actor_of_profile correlation_id (profile_response ri) = Inr (actor_of_identity correlation_id ri)"
proof -
  have opt: "as_opt_text (opt_str x) = Inr x" for x
    by (cases x) (simp_all add: as_opt_text_def opt_str_def)
  show ?thesis
    by (simp add: actor_of_profile_def profile_response_def as_dict_def uuid_field_text dict_item_def as_text_def
        dict_get_def opt as_text_list_def actor_of_identity_def)
qed

section \<open>The login document is never written\<close>

lemma login_document_uuid: "has_uuid (login_document t (JUuid u) ri)"
  by (simp add: login_document_def)

lemma login_document_text: "\<not> has_uuid (login_document t (JStr s) ri)"
  by (simp add: login_document_def)

lemma ensure_container_blobs: "ensure_container create br = (r, br') \<Longrightarrow> br_blobs br' = br_blobs br"
  by (auto simp: ensure_container_def split: if_splits option.splits)

lemma record_login_uuid:
  "\<exists>e. fst (record_login create upload t fresh ri (JUuid u) br) = Inl e"
  "br_blobs (snd (record_login create upload t fresh ri (JUuid u) br)) = br_blobs br"
  using login_document_uuid [of t u ri] ensure_container_blobs [of create br]
  by (auto simp: record_login_def json_dumps_def split: prod.splits sum.splits)

lemma record_login_text:
  assumes "br_container_ready br"
  shows "record_login create None t fresh ri (JStr s) br =
    (Inr (login_blob_name t (row_id (ri_user ri)) fresh),
     br\<lparr>br_blobs := br_blobs br @ [(login_blob_name t (row_id (ri_user ri)) fresh, json_text (login_document t (JStr s) ri))]\<rparr>)"
  using assms login_document_text [of t s ri]
  by (simp add: record_login_def ensure_container_def json_dumps_def Let_def)

section \<open>The callback\<close>

lemma callback_guard_Inr:
  assumes "callback_guard req state = Inr verifier"
  shows "cookie_value req ''sentinel_oauth_state'' = Some state" "state \<noteq> []"
    "cookie_value req ''sentinel_pkce_verifier'' = Some verifier"
  using assms
  by (auto simp: callback_guard_def compare_digest_def present_iff result_iff Let_def split: if_splits)

lemma callback_Inr:
  assumes "callback deps env be req cid auth_code state (db, recorder) = (Inr rd, db', recorder')"
  obtains verifier tokens id_token access_token refresh_token p ri token where
    "callback_guard req state = Inr verifier"
    "exchange_code (id_microsoft deps) (id_settings deps) auth_code verifier (cookie_value req ''sentinel_oauth_tenant'') = Inr tokens"
    "callback_tokens tokens = Inr (id_token, access_token, refresh_token)"
    "callback_principal deps (cookie_value req ''sentinel_oauth_tenant'') id_token = Inr p"
    "rq_commit env = None"
    "callback_onboard deps env cid (cookie_value req ''sentinel_oauth_tenant'') refresh_token p db = Inr (ri, db')"
    "session_encode (id_sessions deps) (id_settings deps) (rq_time env) (claims_of_identity ri) = Inr token"
    "rd = callback_response (id_settings deps) token"
    "recorder' = callback_blob be cid ri recorder"
proof -
  let ?rt = "cookie_value req ''sentinel_oauth_tenant''"
  let ?pre = "bindr (callback_guard req state) (\<lambda>verifier.
      bindr (exchange_code (id_microsoft deps) (id_settings deps) auth_code verifier ?rt) (\<lambda>tokens.
      bindr (callback_tokens tokens) (\<lambda>(id_token, _, refresh_token).
      bindr (callback_principal deps ?rt id_token) (\<lambda>p. Inr (p, refresh_token)))))"
  obtain p refresh_token where pre: "?pre = Inr (p, refresh_token)"
    using assms by (cases ?pre) (auto simp: callback_def Let_def)
  obtain r db2 where tr: "transaction (rq_commit env) (callback_onboard deps env cid ?rt refresh_token p) db = (r, db2)"
    by fastforce
  obtain ri where ri: "r = Inr ri"
    using assms pre tr by (cases r) (auto simp: callback_def Let_def)
  have c: "rq_commit env = None" "callback_onboard deps env cid ?rt refresh_token p db = Inr (ri, db2)"
    using tr ri by (simp_all add: transaction_Inr)
  have rest: "bindr (session_encode (id_sessions deps) (id_settings deps) (rq_time env) (claims_of_identity ri))
        (\<lambda>token. Inr (callback_response (id_settings deps) token)) = Inr rd"
      "db2 = db'" "recorder' = callback_blob be cid ri recorder"
    using assms pre tr ri by (auto simp: callback_def Let_def)
  from pre obtain verifier tokens id_token access_token where
    "callback_guard req state = Inr verifier"
    "exchange_code (id_microsoft deps) (id_settings deps) auth_code verifier ?rt = Inr tokens"
    "callback_tokens tokens = Inr (id_token, access_token, refresh_token)"
    "callback_principal deps ?rt id_token = Inr p"
    by (auto simp: result_iff split: prod.splits)
  with c rest that show ?thesis by (auto simp: result_iff)
qed

lemma callback_onboard_Inr:
  "callback_onboard deps env cid rt tok p db = Inr (ri, db') \<longleftrightarrow>
     (\<exists>enc db1. cipher_encrypt (id_fernet deps) (id_settings deps) tok = Inr enc
        \<and> onboard_oauth_user (rq_ids env) (rq_clock env) p None enc ms_scopes (refresh_authority (tp_entra_tenant_id p) rt) db = Inr (ri, db1)
        \<and> db' = enqueue_audit (rq_outbox_id env) (py_now (rq_clock env)) (login_event env cid ri) db1)"
  by (auto simp: callback_onboard_def result_iff)

text \<open>The session cookie of a login resolves to the user and tenant that logged in.\<close>

lemma get_user_by_id_in:
  "distinct (map row_id (users db)) \<Longrightarrow> u \<in> set (users db) \<Longrightarrow>
     get_user_by_id (tenant_id u) (row_id u) db = Some u"
proof -
  assume d: "distinct (map row_id (users db))" and u: "u \<in> set (users db)"
  obtain v where v: "find (\<lambda>x. tenant_id x = tenant_id u \<and> row_id x = row_id u) (users db) = Some v"
    using u by (metis (mono_tags, lifting) find_None_not not_None_eq)
  then have "v \<in> set (users db)" "row_id v = row_id u" using find_Some_in by force+
  then have "v = u" using d u by (metis find_unique option.inject)
  with v show ?thesis by (simp add: get_user_by_id_def)
qed

lemma get_tenant_by_id_in:
  "distinct (map row_id (tenants db)) \<Longrightarrow> t \<in> set (tenants db) \<Longrightarrow> get_tenant_by_id (row_id t) db = Some t"
  unfolding get_tenant_by_id_def by (rule find_unique) simp_all

lemma callback_session:
  assumes cb: "callback deps env be req cid auth_code state (db, recorder) = (Inr rd, db', recorder')"
    and ok: "identity_ok db" and fresh: "oi_role (rq_ids env) \<notin> row_id ` set (roles db)" and pk0: "primary_keys db"
    and fresh_ids: "oi_tenant (rq_ids env) \<notin> row_id ` set (tenants db)" "oi_user (rq_ids env) \<notin> row_id ` set (users db)"
    and law: "\<And>c. jwt_session_law (id_sessions deps) (id_settings deps) (the (session_signing_key (id_settings deps))) (rq_time env) c"
    and nonempty: "\<And>t0 c k. sj_encode (id_sessions deps) (session_payload (id_settings deps) t0 c) k ''HS256'' \<noteq> []"
    and req2: "cookie_value req2 (session_cookie_name (id_settings deps)) = Some (ck_value (hd (rd_cookies rd)))"
    and time: "rq_time env \<le> rq_time env2" "rq_time env2 < rq_time env + session_ttl_seconds (id_settings deps)"
  obtains verifier tokens id_token access_token refresh_token p t u where "callback_guard req state = Inr verifier"
    "exchange_code (id_microsoft deps) (id_settings deps) auth_code verifier (cookie_value req ''sentinel_oauth_tenant'') = Inr tokens"
    "callback_tokens tokens = Inr (id_token, access_token, refresh_token)"
    "callback_principal deps (cookie_value req ''sentinel_oauth_tenant'') id_token = Inr p"
    "get_tenant_by_scope_key (identity_scope_key (tp_entra_tenant_id p) (tp_entra_object_id p)) db' = Some t"
    "get_user (row_id t) (tp_entra_object_id p) db' = Some u"
    "get_identity deps env2 req2 credentials db' =
      (if \<not> us_is_active u then Inl (http_error 401 ''Session user is not active'')
       else if tn_status t \<noteq> ''active'' then Inl (http_error 403 ''Tenant is not active'')
       else Inr (resolved (py_now (rq_clock env2)) t u db', db'))"
proof -
  obtain verifier tokens id_token access_token refresh_token p ri token where g: "callback_guard req state = Inr verifier"
      "exchange_code (id_microsoft deps) (id_settings deps) auth_code verifier (cookie_value req ''sentinel_oauth_tenant'') = Inr tokens"
      "callback_tokens tokens = Inr (id_token, access_token, refresh_token)"
      "callback_principal deps (cookie_value req ''sentinel_oauth_tenant'') id_token = Inr p"
    and c: "callback_onboard deps env cid (cookie_value req ''sentinel_oauth_tenant'') refresh_token p db = Inr (ri, db')"
    "session_encode (id_sessions deps) (id_settings deps) (rq_time env) (claims_of_identity ri) = Inr token"
    "rd = callback_response (id_settings deps) token"
    using cb by (rule callback_Inr) blast
  obtain enc db1 where on: "onboard_oauth_user (rq_ids env) (rq_clock env) p None enc ms_scopes
        (refresh_authority (tp_entra_tenant_id p) (cookie_value req ''sentinel_oauth_tenant'')) db = Inr (ri, db1)"
      and db': "db' = enqueue_audit (rq_outbox_id env) (py_now (rq_clock env)) (login_event env cid ri) db1"
    using c(1) unfolding callback_onboard_Inr by blast
  note F = onboard_facts [OF on ok fresh]
  let ?t = "ri_tenant ri" and ?u = "ri_user ri"
  have pk: "primary_keys db'"
    using onboard_primary_keys [OF on pk0 fresh_ids ok fresh] db' by (simp add: primary_keys_def enqueue_audit_def)
  have t: "?t \<in> set (tenants db')" and u: "?u \<in> set (users db')" "tenant_id ?u = row_id ?t"
    using F(4,6,7) db' by (simp_all add: enqueue_audit_def)
  have ok': "identity_ok db'" using F(1) db' by (simp add: identity_ok_def enqueue_audit_def)
  have keyed: "get_tenant_by_scope_key (identity_scope_key (tp_entra_tenant_id p) (tp_entra_object_id p)) db' = Some ?t"
      "get_user (row_id ?t) (tp_entra_object_id p) db' = Some ?u"
    using find_unique [of tn_identity_scope_key "tenants db'" ?t] find_unique [of user_key "users db'" ?u] ok' t u F(5,8)
    by (simp_all add: identity_ok_def get_tenant_by_scope_key_def get_user_def)
  have look: "get_user_by_id (row_id ?t) (row_id ?u) db' = Some ?u" "get_tenant_by_id (row_id ?t) db' = Some ?t"
    using get_user_by_id_in [of db' ?u] get_tenant_by_id_in [of db' ?t] pk t u by (simp_all add: primary_keys_def)
  have tok: "ck_value (hd (rd_cookies rd)) = token"
    by (simp add: c(3) callback_response_def session_cookie_def)
  obtain k where "token = sj_encode (id_sessions deps) (session_payload (id_settings deps) (rq_time env) (claims_of_identity ri)) k ''HS256''"
    using c(2) by (auto simp: session_encode_def result_iff)
  then have "token \<noteq> []" using nonempty by simp
  then have "present (Some token)" by (simp add: present_def)
  moreover have "session_decode (id_sessions deps) (id_settings deps) (rq_time env2) token = Inr (claims_of_identity ri)"
    using session_roundtrip [OF c(2) law time(1)] time(2) by simp
  ultimately have gi: "get_identity deps env2 req2 credentials db' =
      bindr (resolve_session (py_now (rq_clock env2)) (row_id ?t) (row_id ?u) db') (\<lambda>ri. Inr (ri, db'))"
    using req2 tok by (simp add: get_identity_def claims_of_identity_def)
  show ?thesis
    by (rule that [OF g keyed]) (simp add: gi resolve_session_def look resolved_def)
qed

section \<open>Tenant status and the delegated token\<close>

definition set_tenant_status :: "string \<Rightarrow> identity_db \<Rightarrow> identity_db" where
  "set_tenant_status st db = db\<lparr>tenants := map (\<lambda>t. t\<lparr>tn_status := st\<rparr>) (tenants db)\<rparr>"

lemma delegated_connection_status:
  "delegated_connection t u (set_tenant_status st db) = delegated_connection t u db"
proof -
  have "get_tenant_by_id t (set_tenant_status st db) = map_option (\<lambda>t. t\<lparr>tn_status := st\<rparr>) (get_tenant_by_id t db)"
  proof -
    have "find (\<lambda>x. row_id x = t) (map (\<lambda>t. t\<lparr>tn_status := st\<rparr>) ts)
        = map_option (\<lambda>t. t\<lparr>tn_status := st\<rparr>) (find (\<lambda>x. row_id x = t) ts)" for ts :: "tenant list"
      by (induction ts) auto
    then show ?thesis by (simp add: get_tenant_by_id_def set_tenant_status_def)
  qed
  moreover have "get_user_by_id t u (set_tenant_status st db) = get_user_by_id t u db"
    "get_oauth_connection t (Some u) (set_tenant_status st db) = get_oauth_connection t (Some u) db"
    by (simp_all add: get_user_by_id_def get_oauth_connection_def set_tenant_status_def)
  ultimately show ?thesis
    by (cases "get_tenant_by_id t db") (simp_all add: delegated_connection_def)
qed

lemma delegated_body_status:
  "map_sum id fst (delegated_body iot deps env t u (set_tenant_status st db))
   = map_sum id fst (delegated_body iot deps env t u db)"
  unfolding delegated_body_def delegated_connection_status
  by (simp add: bindr_def split: sum.splits option.splits)

lemma delegated_connection_Inr:
  assumes "delegated_connection t u db = Inr c"
  shows "\<exists>usr. get_user_by_id t u db = Some usr \<and> us_is_active usr"
    "get_oauth_connection t (Some u) db = Some c"
  using assms by (auto simp: delegated_connection_def Let_def split: option.splits if_splits)

section \<open>Properties\<close>

text \<open>C4: A login completes only for the browser that began it: when the callback redirects with a
  session, the state parameter is the one in the browser's state cookie, the PKCE verifier
  cookie was used for the exchange, and the validated ID token belongs to the tenant asked
  for; in every other case there is no session.\<close>

theorem callback_requires_own_state:
  assumes "callback deps env be req cid auth_code state (db, recorder) = (Inr rd, db', recorder')"
  shows "\<exists>verifier tokens id_token p. cookie_value req ''sentinel_oauth_state'' = Some state \<and> state \<noteq> []
    \<and> cookie_value req ''sentinel_pkce_verifier'' = Some verifier
    \<and> exchange_code (id_microsoft deps) (id_settings deps) auth_code verifier (cookie_value req ''sentinel_oauth_tenant'') = Inr tokens
    \<and> dict_get tokens ''id_token'' = JStr id_token
    \<and> validate (id_entra deps) (id_settings deps) id_token (microsoft_client_id (id_settings deps)) = Inr p
    \<and> (case cookie_value req ''sentinel_oauth_tenant'' of None \<Rightarrow> True
       | Some t \<Rightarrow> t = [] \<or> uuid_str (tp_entra_tenant_id p) = t)"
proof -
  obtain verifier tokens id_token access_token refresh_token p where c:
    "callback_guard req state = Inr verifier"
    "exchange_code (id_microsoft deps) (id_settings deps) auth_code verifier (cookie_value req ''sentinel_oauth_tenant'') = Inr tokens"
    "callback_tokens tokens = Inr (id_token, access_token, refresh_token)"
    "callback_principal deps (cookie_value req ''sentinel_oauth_tenant'') id_token = Inr p"
    using assms by (rule callback_Inr) blast
  have "dict_get tokens ''id_token'' = JStr id_token"
    using c(3) by (auto simp: callback_tokens_def nonempty_text_def split: option.splits json.splits list.splits)
  moreover have "validate (id_entra deps) (id_settings deps) id_token (microsoft_client_id (id_settings deps)) = Inr p
      \<and> (case cookie_value req ''sentinel_oauth_tenant'' of None \<Rightarrow> True
         | Some t \<Rightarrow> t = [] \<or> uuid_str (tp_entra_tenant_id p) = t)"
    using c(4) by (auto simp: callback_principal_def result_iff present_def split: if_splits option.splits)
  ultimately show ?thesis using callback_guard_Inr [OF c(1)] c(2) by blast
qed

text \<open>Values for the witnesses: sessions whose token is the texts of the four ids.\<close>

definition sample_sessions :: session_jwt where
  "sample_sessions = \<lparr>sj_encode = (\<lambda>d _ _. concat (map (\<lambda>k. py_str (dict_get d k)) [''sub'', ''tenant_id'', ''tid'', ''oid''])),
     sj_decode = (\<lambda>now tok _ _ _ _ _. if now < 28900
       then Inr [(''sub'', JStr (take 36 tok)), (''tenant_id'', JStr (take 36 (drop 36 tok))),
         (''tid'', JStr (take 36 (drop 72 tok))), (''oid'', JStr (drop 108 tok)), (''iat'', JInt 100), (''nbf'', JInt 100),
         (''exp'', JInt 28900), (''iss'', JStr ''sentinel-identity''), (''aud'', JStr ''sentinel-services'')]
       else Inl (Exn ''ExpiredSignatureError'' ''Signature has expired''))\<rparr>"

definition login_cfg :: settings where
  "login_cfg = default_settings\<lparr>session_signing_key := Some ''key'', microsoft_client_id := Some ''client'',
     microsoft_client_secret := Some ''secret'', token_encryption_key := Some ''fernet''\<rparr>"

definition login_deps :: "(unit, unit) identity_deps" where
  "login_deps = \<lparr>id_settings = login_cfg, id_entra = sample_jwt, id_sessions = sample_sessions,
     id_fernet = \<lparr>fn_open = (\<lambda>_. Inr ()), fn_encrypt = (\<lambda>_ v. v), fn_decrypt = (\<lambda>_ v. Some v)\<rparr>,
     id_microsoft = (\<lambda>_ _. Inr (200, JDict [(''id_token'', JStr ''i''), (''access_token'', JStr ''a''), (''refresh_token'', JStr ''r'')]))\<rparr>"

definition login_env :: request_env where
  "login_env = \<lparr>rq_ids = sample_ids 1, rq_clock = sample_clock, rq_time = 100, rq_event_id = 5, rq_outbox_id = 6,
     rq_commit = None, rq_audit_commit = None\<rparr>"

definition login_request :: request where
  "login_request = \<lparr>req_method = ''GET'', req_path = ''/auth/callback'', req_headers = [],
     req_cookies = [(''sentinel_oauth_state'', ''s''), (''sentinel_pkce_verifier'', ''v'')]\<rparr>"

definition login_blob :: blob_env where
  "login_blob = \<lparr>be_create = None, be_upload = None, be_time = 0, be_fresh = 7\<rparr>"

lemma sample_sessions_law:
  "jwt_session_law sample_sessions login_cfg k 100 c"
  by (simp add: jwt_session_law_def sample_sessions_def session_payload_def dict_get_def login_cfg_def default_settings_def)

text \<open>A tenant that one person already leads.\<close>

definition login_team :: identity_db where
  "login_team = empty_identity\<lparr>
     tenants := [\<lparr>row_id = 77, tn_entra_tenant_id = 3, tn_identity_scope_key = identity_scope_key 3 4,
       tn_account_type = ''organization'', tn_display_name = ''Team'', tn_status = ''active'', tn_consented_at = None,
       tn_version = 1, tn_created_at = 0, tn_updated_at = 0\<rparr>],
     users := [\<lparr>row_id = 78, tenant_id = 77, created_at = 0, updated_at = 0, us_entra_object_id = 88,
       us_principal_name = None, us_display_name = ''Other'', us_email = None, us_is_active = True,
       us_last_login_at = 0, us_version = 1\<rparr>]\<rparr>"

lemma login_team_ok: "identity_ok login_team" "primary_keys login_team"
  by (simp_all add: identity_ok_def primary_keys_def login_team_def empty_identity_def)

lemma login_principal:
  "callback_principal login_deps (cookie_value login_request ''sentinel_oauth_tenant'') i = Inr p \<Longrightarrow>
     tp_entra_tenant_id p = 3 \<and> tp_entra_object_id p = 4"
  by (auto simp: callback_principal_def login_deps_def login_cfg_def cookie_value_def login_request_def present_def
      validate_def validate_body_def sample_jwt_def expected_audience_def
      dict_item_def tenant_allowed_def default_settings_def principal_of_def)

lemma sample_callback:
  "\<exists>rd db' r'. callback login_deps login_env login_blob login_request 9 ''code'' ''s'' (db, br) = (Inr rd, db', r')"
proof -
  have guard: "callback_guard login_request ''s'' = Inr ''v''"
    by (simp add: callback_guard_def cookie_value_def login_request_def present_def compare_digest_def)
  have ten: "cookie_value login_request ''sentinel_oauth_tenant'' = None"
    by (simp add: cookie_value_def login_request_def)
  have ex: "exchange_code (id_microsoft login_deps) login_cfg ''code'' ''v'' None
      = Inr [(''id_token'', JStr ''i''), (''access_token'', JStr ''a''), (''refresh_token'', JStr ''r'')]"
    by (simp add: exchange_code_def token_request_def ms_client_id_def ms_client_secret_def required_setting_def
        present_def login_cfg_def login_deps_def as_dict_def)
  have tok: "callback_tokens [(''id_token'', JStr ''i''), (''access_token'', JStr ''a''), (''refresh_token'', JStr ''r'')]
      = Inr (''i'', ''a'', ''r'')"
    by (simp add: callback_tokens_def dict_get_def nonempty_text_def)
  obtain p where p: "validate sample_jwt login_cfg ''i'' (Some ''client'') = Inr p"
      and name: "tp_principal_name p = JNull"
    by (simp add: validate_def validate_body_def sample_jwt_def expected_audience_def present_def
        dict_item_def tenant_allowed_def login_cfg_def default_settings_def principal_of_def dict_get_def)
  have prin: "callback_principal login_deps None ''i'' = Inr p"
    using p by (simp add: callback_principal_def login_deps_def login_cfg_def present_def)
  have on: "\<exists>ri db'. onboard_oauth_user ids clk p n tk sc au db = Inr (ri, db')" for ids clk n tk sc au db
    by (rule onboard_returns [where x = None]) (simp add: name as_opt_text_def)
  have enc: "cipher_encrypt (id_fernet login_deps) login_cfg ''r'' = Inr ''r''"
    by (simp add: cipher_encrypt_def cipher_fernet_def required_setting_def present_def login_deps_def login_cfg_def)
  obtain ri db' where ri: "callback_onboard login_deps login_env 9 None ''r'' p db = Inr (ri, db')"
    using on [of "rq_ids login_env" "rq_clock login_env" None "''r''" ms_scopes "refresh_authority (tp_entra_tenant_id p) None" db] enc
    by (auto simp: callback_onboard_def login_deps_def)
  obtain token where "session_encode (id_sessions login_deps) login_cfg 100 (claims_of_identity ri) = Inr token"
    by (simp add: session_encode_def session_key_def required_setting_def present_def login_cfg_def)
  with guard ten ex tok prin ri show ?thesis
    by (simp add: callback_def Let_def login_env_def login_deps_def)
qed

lemma callback_requires_own_state_witness:
  "\<exists>verifier. cookie_value login_request ''sentinel_pkce_verifier'' = Some verifier"
proof -
  obtain rd db' r' where "callback login_deps login_env login_blob login_request 9 ''code'' ''s'' (empty_identity, None) = (Inr rd, db', r')"
    using sample_callback by blast
  from callback_requires_own_state [OF this] show ?thesis by blast
qed

text \<open>C25: The cookie that a login sets signs in the very person whom Microsoft vouched for: until the
  session expires, a request with it resolves to the user whom the database holds for the
  object id of the validated ID token, in the tenant that it holds for that token's identity
  scope, with their current roles and permissions, or is refused with 401 for a disabled user
  and 403 for a tenant that is not active, even when the login itself succeeded.\<close>

theorem session_cookie_resolves_to_login:
  assumes "callback deps env be req cid auth_code state (db, recorder) = (Inr rd, db', recorder')"
    and "identity_ok db" "primary_keys db" "oi_role (rq_ids env) \<notin> row_id ` set (roles db)"
    and "oi_tenant (rq_ids env) \<notin> row_id ` set (tenants db)" "oi_user (rq_ids env) \<notin> row_id ` set (users db)"
    and "\<forall>c. jwt_session_law (id_sessions deps) (id_settings deps) (the (session_signing_key (id_settings deps))) (rq_time env) c"
    and "\<forall>t0 c k. sj_encode (id_sessions deps) (session_payload (id_settings deps) t0 c) k ''HS256'' \<noteq> []"
    and "cookie_value req2 (session_cookie_name (id_settings deps)) = Some (ck_value (hd (rd_cookies rd)))"
    and "rq_time env \<le> rq_time env2" "rq_time env2 < rq_time env + session_ttl_seconds (id_settings deps)"
  shows "\<exists>verifier tokens id_token access_token refresh_token p t u. callback_guard req state = Inr verifier
    \<and> exchange_code (id_microsoft deps) (id_settings deps) auth_code verifier (cookie_value req ''sentinel_oauth_tenant'') = Inr tokens
    \<and> callback_tokens tokens = Inr (id_token, access_token, refresh_token)
    \<and> callback_principal deps (cookie_value req ''sentinel_oauth_tenant'') id_token = Inr p
    \<and> get_tenant_by_scope_key (identity_scope_key (tp_entra_tenant_id p) (tp_entra_object_id p)) db' = Some t
    \<and> get_user (row_id t) (tp_entra_object_id p) db' = Some u
    \<and> get_identity deps env2 req2 credentials db' =
        (if \<not> us_is_active u then Inl (http_error 401 ''Session user is not active'')
         else if tn_status t \<noteq> ''active'' then Inl (http_error 403 ''Tenant is not active'')
         else Inr (resolved (py_now (rq_clock env2)) t u db', db'))"
proof -
  note c = callback_session [OF assms(1,2,4,3,5,6) _ _ assms(9-11)]
  show ?thesis
    by (rule c [where credentials = credentials]) (use assms(7,8) in blast)+
qed

lemma session_cookie_resolves_to_login_witness:
  "\<exists>rd db' r' t u. callback login_deps login_env login_blob login_request 9 ''code'' ''s'' (login_team, None) = (Inr rd, db', r')
    \<and> get_tenant_by_scope_key (identity_scope_key 3 4) db' = Some t \<and> get_user (row_id t) 4 db' = Some u
    \<and> get_identity login_deps login_env \<lparr>req_method = ''GET'', req_path = ''/'', req_headers = [],
          req_cookies = [(''sentinel_session'', ck_value (hd (rd_cookies rd)))]\<rparr> None db' =
        (if \<not> us_is_active u then Inl (http_error 401 ''Session user is not active'')
         else if tn_status t \<noteq> ''active'' then Inl (http_error 403 ''Tenant is not active'')
         else Inr (resolved (py_now (rq_clock login_env)) t u db', db'))"
proof -
  obtain rd db' r' where cb: "callback login_deps login_env login_blob login_request 9 ''code'' ''s'' (login_team, None) = (Inr rd, db', r')"
    using sample_callback by blast
  let ?req = "\<lparr>req_method = ''GET'', req_path = ''/'', req_headers = [], req_cookies = [(''sentinel_session'', ck_value (hd (rd_cookies rd)))]\<rparr>"
  have law: "\<forall>c. jwt_session_law (id_sessions login_deps) (id_settings login_deps) (the (session_signing_key (id_settings login_deps))) (rq_time login_env) c"
    using sample_sessions_law by (simp add: login_deps_def login_env_def)
  have ne: "uuid_str u @ s \<noteq> []" for u s using length_uuid_str [of u] by (cases "uuid_str u") auto
  have non: "\<forall>t0 c k. sj_encode (id_sessions login_deps) (session_payload (id_settings login_deps) t0 c) k ''HS256'' \<noteq> []"
    using ne by (simp add: login_deps_def sample_sessions_def session_payload_def dict_get_def)
  have ck: "cookie_value ?req (session_cookie_name (id_settings login_deps)) = Some (ck_value (hd (rd_cookies rd)))"
    by (simp add: cookie_value_def login_deps_def login_cfg_def default_settings_def)
  have ids: "oi_role (rq_ids login_env) \<notin> row_id ` set (roles login_team)"
    "oi_tenant (rq_ids login_env) \<notin> row_id ` set (tenants login_team)"
    "oi_user (rq_ids login_env) \<notin> row_id ` set (users login_team)"
    by (simp_all add: login_team_def empty_identity_def login_env_def sample_ids_def)
  have time: "rq_time login_env \<le> rq_time login_env"
    "rq_time login_env < rq_time login_env + session_ttl_seconds (id_settings login_deps)"
    by (simp_all add: login_deps_def login_cfg_def default_settings_def)
  have p: "tp_entra_tenant_id p = 3 \<and> tp_entra_object_id p = 4"
    if "callback_principal login_deps (cookie_value login_request ''sentinel_oauth_tenant'') i = Inr p" for i p
    using that by (rule login_principal)
  from session_cookie_resolves_to_login [OF cb login_team_ok ids law non ck time, where credentials = None] cb p
  show ?thesis by metis
qed

text \<open>The login document is never written: the callback passes the request's correlation id as a UUID
  object, json.dumps without a default refuses it, and the error is swallowed, so whatever
  the storage does, no login adds a blob; with the id as text, as record_login declares, the
  document would be uploaded.\<close>

theorem login_blob_never_written:
  "map_option br_blobs (snd (snd (callback deps env be req cid auth_code state (db, recorder)))) = map_option br_blobs recorder
   \<and> (\<exists>e. fst (record_login create upload t fresh ri (JUuid cid) br) = Inl e)
   \<and> snd (record_login create None t fresh ri (JStr (uuid_str cid)) (br\<lparr>br_container_ready := True\<rparr>))
       = br\<lparr>br_container_ready := True, br_blobs := br_blobs br @ [(login_blob_name t (row_id (ri_user ri)) fresh,
             json_text (login_document t (JStr (uuid_str cid)) ri))]\<rparr>"
proof (intro conjI)
  have "map_option br_blobs (callback_blob be cid x recorder) = map_option br_blobs recorder" for x
    using record_login_uuid(2) by (cases recorder) (simp_all add: callback_blob_def)
  then show "map_option br_blobs (snd (snd (callback deps env be req cid auth_code state (db, recorder)))) = map_option br_blobs recorder"
    by (auto simp: callback_def Let_def split: sum.splits prod.splits)
qed (use record_login_uuid(1) record_login_text in simp_all)

text \<open>The delegated Azure token does not depend on the tenant's status: for a suspended or offboarded
  tenant the endpoint hands out the same token as for an active one, as long as the user row
  is active and connected. (The user's own requests are refused with 403 then.)\<close>

theorem delegated_token_ignores_tenant_status:
  "fst (delegated_azure_token int_of_text deps env t u x_internal_token (set_tenant_status st db))
   = fst (delegated_azure_token int_of_text deps env t u x_internal_token db)"
proof -
  have "fst (transaction f b d) = fst (transaction f b' d')" if "map_sum id fst (b d) = map_sum id fst (b' d')"
    for f and b b' :: "identity_db \<Rightarrow> ((string \<times> int) \<times> identity_db) result" and d d'
    using that by (cases "b d"; cases "b' d'") (auto simp: transaction_def split: option.splits)
  from this [where b = "delegated_body int_of_text deps env t u" and b' = "delegated_body int_of_text deps env t u"
      and d = "set_tenant_status st db" and d' = db, OF delegated_body_status] show ?thesis
    by (simp add: delegated_azure_token_def split: sum.splits)
qed

text \<open>The services see the caller as the identity service does: the actor that a service builds from
  the profile response has the tenant, the user, both Entra ids, the names and exactly the
  effective permissions of the resolved identity.\<close>

theorem profile_carries_identity:
  "actor_of_profile correlation_id (profile_response ri) = Inr
    \<lparr>ac_tenant_id = row_id (ri_tenant ri), ac_entra_tenant_id = tn_entra_tenant_id (ri_tenant ri),
     ac_actor_id = row_id (ri_user ri), ac_entra_object_id = us_entra_object_id (ri_user ri),
     ac_display_name = us_display_name (ri_user ri), ac_principal_name = us_principal_name (ri_user ri),
     ac_permissions = pm_name ` set (ri_permissions ri), ac_correlation_id = correlation_id\<rparr>"
  by (simp add: actor_of_profile_response actor_of_identity_def)

end
