(* ===== verification/Cursor.thy ===== *)
theory Cursor
  imports PyStr
begin

text \<open>
  The page cursor of the inventory: the id of the last row in URL-safe base64
  (\<open>sentinel_inventory/repository.py\<close>), with \<open>base64\<close> as Python's library decodes it
  (characters outside the alphabet are skipped), and the \<open>ILIKE\<close> of its search.
\<close>

section \<open>Base64\<close>

definition b64_char :: "nat \<Rightarrow> char" where
  "b64_char n = char_of (if n < 26 then 65 + n else if n < 52 then 71 + n else if n < 62 then n - 4
     else if n = 62 then 45 else 95)"

fun b64_encode :: "nat list \<Rightarrow> string" where
  "b64_encode (a # b # c # bs) =
     [b64_char (a div 4), b64_char (a mod 4 * 16 + b div 16), b64_char (b mod 16 * 4 + c div 64),
      b64_char (c mod 64)] @ b64_encode bs"
| "b64_encode [a, b] =
     [b64_char (a div 4), b64_char (a mod 4 * 16 + b div 16), b64_char (b mod 16 * 4), CHR ''='']"
| "b64_encode [a] = [b64_char (a div 4), b64_char (a mod 4 * 16), CHR ''='', CHR ''='']"
| "b64_encode [] = []"

text \<open>The six bits of a character; \<open>-\<close> and \<open>_\<close> are first translated to \<open>+\<close> and \<open>/\<close>.\<close>

definition b64_value :: "char \<Rightarrow> nat option" where
  "b64_value c = (let n = code c in
     if 65 \<le> n \<and> n \<le> 90 then Some (n - 65) else if 97 \<le> n \<and> n \<le> 122 then Some (n - 71)
     else if 48 \<le> n \<and> n \<le> 57 then Some (n + 4) else if n = 43 \<or> n = 45 then Some 62
     else if n = 47 \<or> n = 95 then Some 63 else None)"

text \<open>
  The decoder of \<open>binascii.a2b_base64\<close>: the position in the group of four, the bits left
  over, the number of padding characters in a row, and the bytes so far in reverse. Padding
  that completes a group ends the input; a group left open is an error.
\<close>

fun b64_scan :: "nat \<Rightarrow> nat \<Rightarrow> nat \<Rightarrow> nat list \<Rightarrow> string \<Rightarrow> nat list option" where
  "b64_scan pos left pads acc [] = (if pos = 0 then Some (rev acc) else None)"
| "b64_scan pos left pads acc (c # s) =
     (if c = CHR ''='' then
        (if 2 \<le> pos \<and> 4 \<le> pos + pads + 1 then Some (rev acc)
         else b64_scan pos left (if 2 \<le> pos then pads + 1 else pads) acc s)
      else case b64_value c of
        None \<Rightarrow> b64_scan pos left pads acc s
      | Some v \<Rightarrow>
          if pos = 0 then b64_scan 1 v 0 acc s
          else if pos = 1 then b64_scan 2 (v mod 16) 0 ((left * 4 + v div 16) # acc) s
          else if pos = 2 then b64_scan 3 (v mod 4) 0 ((left * 16 + v div 4) # acc) s
          else b64_scan 0 0 0 ((left * 64 + v) # acc) s)"

definition b64_decode :: "string \<Rightarrow> nat list option" where
  "b64_decode s = b64_scan 0 0 0 [] s"

section \<open>Cursors\<close>

definition encode_cursor :: "uuid \<Rightarrow> string" where
  "encode_cursor u = b64_encode (map code (uuid_str u))"

text \<open>\<open>binascii.Error\<close>, \<open>UnicodeDecodeError\<close> and the error of \<open>UUID\<close> are all \<open>ValueError\<close>s.\<close>

definition decode_cursor :: "string \<Rightarrow> uuid result" where
  "decode_cursor cursor =
     (case b64_decode cursor of
        None \<Rightarrow> Inl (Exn ''binascii.Error'' ''Invalid base64-encoded string'')
      | Some bs \<Rightarrow> if \<forall>b \<in> set bs. b < 128 then uuid_parse (map char_of bs)
                  else Inl (Exn ''UnicodeDecodeError'' ''utf-8''))"

lemma b64_value_char: "n < 64 \<Longrightarrow> b64_value (b64_char n) = Some n"
  by (auto simp: b64_value_def b64_char_def Let_def)

lemma b64_char_not_pad: "n < 64 \<Longrightarrow> b64_char n \<noteq> CHR ''=''"
proof
  assume "n < 64" "b64_char n = CHR ''=''"
  then have "b64_value CHR ''='' = Some n" using b64_value_char by metis
  then show False by (simp add: b64_value_def)
qed

lemma b64_scan_step:
  assumes "v < 64"
  shows "b64_scan 0 l p acc (b64_char v # s) = b64_scan 1 v 0 acc s"
    "b64_scan 1 l p acc (b64_char v # s) = b64_scan 2 (v mod 16) 0 ((l * 4 + v div 16) # acc) s"
    "b64_scan 2 l p acc (b64_char v # s) = b64_scan 3 (v mod 4) 0 ((l * 16 + v div 4) # acc) s"
    "b64_scan 3 l p acc (b64_char v # s) = b64_scan 0 0 0 ((l * 64 + v) # acc) s"
  using b64_value_char [OF assms] b64_char_not_pad [OF assms] by simp_all

lemma b64_group:
  assumes "a < 256" "b < 256" "c < 256"
  shows "b64_scan 0 l p acc (b64_encode [a, b, c] @ s) = b64_scan 0 0 0 (c # b # a # acc) s"
proof -
  have hi: "b div 16 < 16" "c div 64 < 4" and mid: "a mod 4 < 4" "b mod 16 < 16" using assms by simp_all
  have small: "a div 4 < 64" "a mod 4 * 16 + b div 16 < 64" "b mod 16 * 4 + c div 64 < 64" "c mod 64 < 64"
    using assms hi mid by (simp_all only: less_mult_imp_div_less)
  have one: "a div 4 * 4 + (a mod 4 * 16 + b div 16) div 16 = a" using hi by (simp add: div_mult_self3)
  have two: "(a mod 4 * 16 + b div 16) mod 16 * 16 + (b mod 16 * 4 + c div 64) div 4 = b" using hi by simp
  have three: "(b mod 16 * 4 + c div 64) mod 4 * 64 + c mod 64 = c" using hi by simp
  show ?thesis
    by (simp only: b64_encode.simps append_Cons append_Nil b64_scan_step [OF small(1)]
        b64_scan_step [OF small(2)] b64_scan_step [OF small(3)] b64_scan_step [OF small(4)] one two three)
qed

lemma b64_scan_encode:
  assumes "length bs mod 3 = 0" "\<forall>b \<in> set bs. b < 256"
  shows "b64_scan 0 0 0 acc (b64_encode bs) = Some (rev acc @ bs)"
  using assms
proof (induction bs arbitrary: acc rule: b64_encode.induct)
  case (1 a b c bs)
  then have "b64_scan 0 0 0 acc (b64_encode [a, b, c] @ b64_encode bs) = b64_scan 0 0 0 (c # b # a # acc) (b64_encode bs)"
    by (intro b64_group) simp_all
  moreover have "length bs mod 3 = 0" using 1(2) by (simp add: mod_Suc split: if_splits)
  ultimately show ?case using 1 by simp
qed simp_all

lemma decode_encode_cursor [simp]: "decode_cursor (encode_cursor u) = Inr u"
proof -
  have "b64_decode (encode_cursor u) = Some (map code (uuid_str u))"
    unfolding b64_decode_def encode_cursor_def
    by (subst b64_scan_encode) (auto simp: nat_of_char_less_256)
  moreover have "\<forall>b \<in> set (map code (uuid_str u)). b < 128"
    using uuid_str_code by fastforce
  ultimately show ?thesis by (simp add: decode_cursor_def comp_def)
qed

section \<open>ILIKE\<close>

text \<open>\<open>%\<close> stands for any text, \<open>_\<close> for one character, a backslash takes the next one literally.\<close>

function (sequential) like :: "string \<Rightarrow> string \<Rightarrow> bool" where
  "like [] s = (s = [])"
| "like (p # ps) s =
     (if p = CHR ''%'' then like ps s \<or> (if s = [] then False else like (p # ps) (tl s))
      else if s = [] then False
      else if p = CHR ''_'' then like ps (tl s)
      else if p = CHR 0x5C then ps \<noteq> [] \<and> hd s = hd ps \<and> like (tl ps) (tl s)
      else hd s = p \<and> like ps (tl s))"
  by pat_completeness auto
termination by (relation "measure (\<lambda>(p, s). length p + length s)") (auto simp: neq_Nil_conv)

declare like.simps(2) [simp del]

definition ilike :: "string \<Rightarrow> string \<Rightarrow> bool" where
  "ilike pattern s = like (lower pattern) (lower s)"

text \<open>A search for plain text finds exactly the texts that contain it.\<close>

lemma like_percent: "like (CHR ''%'' # ps) s \<longleftrightarrow> (\<exists>u v. s = u @ v \<and> like ps v)"
proof (induction s)
  case Nil
  then show ?case by (simp add: like.simps(2))
next
  case (Cons c s)
  have "like (CHR ''%'' # ps) (c # s) \<longleftrightarrow> like ps (c # s) \<or> like (CHR ''%'' # ps) s"
    by (subst like.simps(2)) simp
  also have "\<dots> \<longleftrightarrow> (\<exists>u v. c # s = u @ v \<and> like ps v)"
    unfolding Cons.IH by (auto simp: Cons_eq_append_conv)
  finally show ?case .
qed

lemma like_char:
  assumes "p \<noteq> CHR ''%''" "p \<noteq> CHR ''_''" "p \<noteq> CHR 0x5C"
  shows "like (p # ps) s \<longleftrightarrow> (\<exists>v. s = p # v \<and> like ps v)"
  using assms by (cases s) (simp_all add: like.simps(2) eq_commute [of p])

lemma like_plain:
  assumes "CHR ''%'' \<notin> set w" "CHR ''_'' \<notin> set w" "CHR 0x5C \<notin> set w"
  shows "like (w @ ps) s \<longleftrightarrow> (\<exists>v. s = w @ v \<and> like ps v)"
  using assms
proof (induction w arbitrary: s)
  case (Cons a w)
  then have "a \<noteq> CHR ''%''" "a \<noteq> CHR ''_''" "a \<noteq> CHR 0x5C" by auto
  from like_char [OF this] Cons show ?case by auto
qed simp

lemma like_substring:
  assumes "CHR ''%'' \<notin> set w" "CHR ''_'' \<notin> set w" "CHR 0x5C \<notin> set w"
  shows "like (''%'' @ w @ ''%'') s \<longleftrightarrow> contains w s"
proof -
  have all: "like ''%'' v" for v
    by (auto simp: like_percent intro: exI [of _ v])
  have "like (''%'' @ w @ ''%'') s \<longleftrightarrow> (\<exists>u v. s = u @ v \<and> like (w @ ''%'') v)"
    using like_percent [of "w @ ''%''" s] by simp
  also have "\<dots> \<longleftrightarrow> (\<exists>u v. s = u @ w @ v)"
    unfolding like_plain [OF assms] using all by blast
  finally show ?thesis by (simp add: contains_iff)
qed

end
