(* ===== verification/Inventory.thy ===== *)
theory Inventory
  imports Outbox Cursor
begin

text \<open>
  The inventory of Azure resources (\<open>apps/inventory-service\<close>): the tables of
  \<open>sentinel_inventory/models.py\<close>, the repository (\<open>repository.py\<close>), the service
  (\<open>service.py\<close>) and the endpoints of \<open>main.py\<close> that need no Azure client. The widths of
  the text columns are not modelled. Ids of new rows, clocks and query plans are arguments.
\<close>

section \<open>Tables\<close>

record subscription = stamped_row +
  sb_azure_subscription_id :: uuid
  sb_display_name :: string
  sb_state :: string
  sb_management_group_id :: "string option"
  sb_last_sync_at :: "timestamp option"
  sb_version :: int

record resource_group = stamped_row +
  rg_subscription_id :: uuid
  rg_name :: string
  rg_normalized_name :: string
  rg_location :: "string option"
  rg_tags :: json
  rg_state :: string
  rg_last_seen_at :: timestamp

record resource = stamped_row +
  rs_subscription_id :: uuid
  rs_azure_resource_id :: string
  rs_normalized_resource_id :: string
  rs_resource_type :: string
  rs_name :: string
  rs_resource_group :: string
  rs_location :: "string option"
  rs_kind :: "string option"
  rs_sku :: "string option"
  rs_tags :: json
  rs_properties :: json
  rs_source_etag :: "string option"
  rs_provisioning_state :: "string option"
  rs_state :: string
  rs_first_seen_at :: timestamp
  rs_last_seen_at :: timestamp
  rs_missing_since :: "timestamp option"
  rs_deleted_at :: "timestamp option"
  rs_version :: int

record sync_job = tenant_row +
  jb_requested_by :: uuid
  jb_mode :: string
  jb_scope :: dict
  jb_idempotency_key :: string
  jb_status :: string
  jb_resources_seen :: int
  jb_resources_changed :: int
  jb_error_summary :: "dict option"
  jb_correlation_id :: uuid
  jb_requested_at :: timestamp
  jb_started_at :: "timestamp option"
  jb_completed_at :: "timestamp option"
  jb_heartbeat_at :: "timestamp option"

record inventory_db = platform_db +
  subscriptions :: "subscription list"
  resource_groups :: "resource_group list"
  resources :: "resource list"
  sync_jobs :: "sync_job list"

definition resource_states :: "string list" where
  "resource_states = [''active'', ''missing'', ''deleted'', ''inaccessible'']"

section \<open>Queries\<close>

record resource_filter =
  rf_subscription_id :: "uuid option"
  rf_resource_group :: "string option"
  rf_resource_type :: "string option"
  rf_location :: "string option"
  rf_state :: "string option"
  rf_search :: "string option"

text \<open>A filter that is missing or empty does not restrict.\<close>

definition when_present :: "string option \<Rightarrow> (string \<Rightarrow> bool) \<Rightarrow> bool" where
  "when_present s P = (if present s then P (the s) else True)"

definition search_pattern :: "string \<Rightarrow> string" where
  "search_pattern search = ''%'' @ strip search @ ''%''"

definition resource_match :: "resource_filter \<Rightarrow> resource \<Rightarrow> bool" where
  "resource_match f r \<longleftrightarrow>
     (case rf_subscription_id f of None \<Rightarrow> True | Some s \<Rightarrow> rs_subscription_id r = s)
     \<and> when_present (rf_resource_group f) (\<lambda>g. lower (rs_resource_group r) = lower g)
     \<and> when_present (rf_resource_type f) (\<lambda>t. lower (rs_resource_type r) = lower t)
     \<and> when_present (rf_location f) (\<lambda>l. case rs_location r of None \<Rightarrow> False | Some x \<Rightarrow> lower x = lower l)
     \<and> when_present (rf_state f) (\<lambda>s. rs_state r = s)
     \<and> when_present (rf_search f) (\<lambda>s. ilike (search_pattern s) (rs_name r)
          \<or> ilike (search_pattern s) (rs_azure_resource_id r))"

text \<open>PostgreSQL refuses a state that the enumeration does not have.\<close>

definition state_known :: "resource_filter \<Rightarrow> bool" where
  "state_known f = when_present (rf_state f) (\<lambda>s. s \<in> set resource_states)"

definition list_resources ::
  "uuid \<Rightarrow> resource_filter \<Rightarrow> string option \<Rightarrow> nat \<Rightarrow> inventory_db
     \<Rightarrow> (resource list \<times> string option) result" where
  "list_resources t f cursor limit db =
     bindr (if present cursor then bindr (decode_cursor (the cursor)) (\<lambda>u. Inr (\<lambda>r. u < row_id r))
            else Inr (\<lambda>_. True)) (\<lambda>after.
     bindr (guardr (state_known f) (Exn ''DBAPIError'' ''invalid input value for enum'')) (\<lambda>_.
       (let rows = take (limit + 1) (sort_key row_id
              (filter (\<lambda>r. tenant_id r = t \<and> resource_match f r \<and> after r) (resources db)))
        in Inr (if limit < length rows
                then (take limit rows, Some (encode_cursor (row_id (rows ! (limit - 1)))))
                else (rows, None)))))"

definition get_resource :: "uuid \<Rightarrow> uuid \<Rightarrow> inventory_db \<Rightarrow> resource option" where
  "get_resource t i db = find (\<lambda>r. tenant_id r = t \<and> row_id r = i) (resources db)"

definition list_subscriptions :: "subscription plan \<Rightarrow> uuid \<Rightarrow> inventory_db \<Rightarrow> subscription list" where
  "list_subscriptions plan t db =
     sort_key sb_display_name (scan_rows plan (filter (\<lambda>s. tenant_id s = t) (subscriptions db)))"

definition list_resource_groups :: "resource_group plan \<Rightarrow> uuid \<Rightarrow> inventory_db \<Rightarrow> resource_group list" where
  "list_resource_groups plan t db =
     sort_key rg_name (scan_rows plan (filter (\<lambda>g. tenant_id g = t) (resource_groups db)))"

section \<open>Jobs\<close>

record job_args =
  ja_id :: uuid
  ja_clock :: clock
  ja_tenant_id :: uuid
  ja_actor_id :: uuid
  ja_entra_tenant_id :: uuid
  ja_mode :: string
  ja_subscription_ids :: "uuid list"
  ja_correlation_id :: uuid
  ja_idempotency_key :: string

abbreviation job_key :: "'a sync_job_scheme \<Rightarrow> uuid \<times> string" where
  "job_key j \<equiv> (tenant_id j, jb_idempotency_key j)"

definition new_job :: "job_args \<Rightarrow> sync_job" where
  "new_job a = \<lparr>row_id = ja_id a, tenant_id = ja_tenant_id a, jb_requested_by = ja_actor_id a,
     jb_mode = ja_mode a,
     jb_scope = [(''subscription_ids'', JList (map (\<lambda>u. JStr (uuid_str u)) (ja_subscription_ids a))),
       (''entra_tenant_id'', JStr (uuid_str (ja_entra_tenant_id a)))],
     jb_idempotency_key = ja_idempotency_key a, jb_status = ''queued'', jb_resources_seen = 0,
     jb_resources_changed = 0, jb_error_summary = None, jb_correlation_id = ja_correlation_id a,
     jb_requested_at = tx_now (ja_clock a), jb_started_at = None, jb_completed_at = None,
     jb_heartbeat_at = None\<rparr>"

definition create_sync_job :: "job_args \<Rightarrow> inventory_db \<Rightarrow> sync_job \<times> inventory_db" where
  "create_sync_job a db =
     (let (j, _, rows) = get_or_put (\<lambda>j. job_key j = (ja_tenant_id a, ja_idempotency_key a))
            (new_job a) (\<lambda>j. j) (sync_jobs db)
      in (j, db\<lparr>sync_jobs := rows\<rparr>))"

definition job_queued :: "timestamp \<Rightarrow> sync_job \<Rightarrow> bool" where
  "job_queued now j \<longleftrightarrow> jb_status j = ''queued''"

definition start_job :: "timestamp \<Rightarrow> sync_job \<Rightarrow> sync_job" where
  "start_job now j = j\<lparr>jb_status := ''running'', jb_started_at := Some now, jb_heartbeat_at := Some now\<rparr>"

definition claim_job :: "uuid set \<Rightarrow> timestamp \<Rightarrow> sync_job list \<Rightarrow> sync_job option \<times> sync_job list" where
  "claim_job = claim_row job_queued jb_requested_at start_job"

section \<open>Subscriptions\<close>

definition find_subscription :: "uuid \<Rightarrow> uuid \<Rightarrow> inventory_db \<Rightarrow> subscription option" where
  "find_subscription t azure_id db =
     find (\<lambda>s. (tenant_id s, sb_azure_subscription_id s) = (t, azure_id)) (subscriptions db)"

record subscription_args =
  sa_id :: uuid
  sa_clock :: clock
  sa_tenant_id :: uuid
  sa_azure_subscription_id :: uuid
  sa_display_name :: string
  sa_state :: string

abbreviation subscription_key :: "'a subscription_scheme \<Rightarrow> uuid \<times> uuid" where
  "subscription_key s \<equiv> (tenant_id s, sb_azure_subscription_id s)"

definition new_subscription :: "subscription_args \<Rightarrow> subscription" where
  "new_subscription a = \<lparr>row_id = sa_id a, tenant_id = sa_tenant_id a, created_at = tx_now (sa_clock a),
     updated_at = tx_now (sa_clock a), sb_azure_subscription_id = sa_azure_subscription_id a,
     sb_display_name = sa_display_name a, sb_state = sa_state a, sb_management_group_id = None,
     sb_last_sync_at = None, sb_version = 1\<rparr>"

definition refresh_subscription :: "subscription_args \<Rightarrow> subscription \<Rightarrow> subscription" where
  "refresh_subscription a s = s\<lparr>sb_display_name := sa_display_name a, sb_state := sa_state a,
     sb_version := sb_version s + 1, updated_at := tx_now (sa_clock a)\<rparr>"

definition upsert_subscription :: "subscription_args \<Rightarrow> inventory_db \<Rightarrow> subscription \<times> inventory_db" where
  "upsert_subscription a db =
     (let (s, _, rows) = get_or_put
            (\<lambda>s. subscription_key s = (sa_tenant_id a, sa_azure_subscription_id a))
            (new_subscription a) (refresh_subscription a) (subscriptions db)
      in (s, db\<lparr>subscriptions := rows\<rparr>))"

section \<open>Resources\<close>

text \<open>The values that one row of the resource graph gives a resource.\<close>

record resource_values =
  rv_azure_resource_id :: string
  rv_normalized_resource_id :: string
  rv_resource_type :: string
  rv_name :: string
  rv_resource_group :: string
  rv_location :: "string option"
  rv_kind :: "string option"
  rv_sku :: "string option"
  rv_tags :: json
  rv_properties :: json
  rv_last_seen_at :: timestamp

text \<open>A text column takes a text or \<open>None\<close>; the driver refuses anything else.\<close>

definition column_text :: "json \<Rightarrow> string option result" where
  "column_text v = (case v of JNull \<Rightarrow> Inr None | JStr s \<Rightarrow> Inr (Some s)
     | _ \<Rightarrow> Inl (Exn ''DBAPIError'' ''expected str''))"

definition item_text :: "dict \<Rightarrow> string \<Rightarrow> string" where
  "item_text item k = py_str (py_or (dict_get item k) (JStr []))"

definition resource_values_of :: "timestamp \<Rightarrow> dict \<Rightarrow> resource_values result" where
  "resource_values_of now item =
     bindr (dict_item item ''id'') (\<lambda>arm_id.
     bindr (column_text (dict_get item ''location'')) (\<lambda>location.
     bindr (column_text (dict_get item ''kind'')) (\<lambda>kind.
     Inr \<lparr>rv_azure_resource_id = py_str arm_id, rv_normalized_resource_id = lower (py_str arm_id),
          rv_resource_type = lower (item_text item ''type''), rv_name = item_text item ''name'',
          rv_resource_group = item_text item ''resourceGroup'', rv_location = location, rv_kind = kind,
          rv_sku = (let s = item_text item ''sku'' in if s = [] then None else Some s),
          rv_tags = py_or (dict_get item ''tags'') (JDict []),
          rv_properties = py_or (dict_get item ''properties'') (JDict []), rv_last_seen_at = now\<rparr>)))"

definition values_differ :: "resource_values \<Rightarrow> resource \<Rightarrow> bool" where
  "values_differ v r \<longleftrightarrow> rs_azure_resource_id r \<noteq> rv_azure_resource_id v
     \<or> rs_normalized_resource_id r \<noteq> rv_normalized_resource_id v
     \<or> rs_resource_type r \<noteq> rv_resource_type v \<or> rs_name r \<noteq> rv_name v
     \<or> rs_resource_group r \<noteq> rv_resource_group v \<or> rs_location r \<noteq> rv_location v
     \<or> rs_kind r \<noteq> rv_kind v \<or> rs_sku r \<noteq> rv_sku v
     \<or> \<not> py_eq (rs_tags r) (rv_tags v) \<or> \<not> py_eq (rs_properties r) (rv_properties v)
     \<or> rs_last_seen_at r \<noteq> rv_last_seen_at v \<or> rs_state r \<noteq> ''active'' \<or> rs_missing_since r \<noteq> None"

record resource_args =
  xa_id :: uuid
  xa_group_id :: uuid
  xa_clock :: clock
  xa_tenant_id :: uuid
  xa_subscription_id :: uuid
  xa_values :: resource_values

abbreviation resource_key :: "'a resource_scheme \<Rightarrow> uuid \<times> string" where
  "resource_key r \<equiv> (tenant_id r, rs_normalized_resource_id r)"

definition new_resource :: "resource_args \<Rightarrow> resource" where
  "new_resource a = (let v = xa_values a in
     \<lparr>row_id = xa_id a, tenant_id = xa_tenant_id a, created_at = tx_now (xa_clock a),
      updated_at = tx_now (xa_clock a), rs_subscription_id = xa_subscription_id a,
      rs_azure_resource_id = rv_azure_resource_id v, rs_normalized_resource_id = rv_normalized_resource_id v,
      rs_resource_type = rv_resource_type v, rs_name = rv_name v, rs_resource_group = rv_resource_group v,
      rs_location = rv_location v, rs_kind = rv_kind v, rs_sku = rv_sku v, rs_tags = rv_tags v,
      rs_properties = rv_properties v, rs_source_etag = None, rs_provisioning_state = None,
      rs_state = ''active'', rs_first_seen_at = tx_now (xa_clock a), rs_last_seen_at = rv_last_seen_at v,
      rs_missing_since = None, rs_deleted_at = None, rs_version = 1\<rparr>)"

text \<open>The subscription of a known resource is not among the values: it stays.\<close>

definition refresh_resource :: "resource_args \<Rightarrow> resource \<Rightarrow> resource" where
  "refresh_resource a r = (let v = xa_values a in
     r\<lparr>updated_at := tx_now (xa_clock a), rs_azure_resource_id := rv_azure_resource_id v,
       rs_normalized_resource_id := rv_normalized_resource_id v, rs_resource_type := rv_resource_type v,
       rs_name := rv_name v, rs_resource_group := rv_resource_group v, rs_location := rv_location v,
       rs_kind := rv_kind v, rs_sku := rv_sku v,
       rs_tags := (if py_eq (rs_tags r) (rv_tags v) then rs_tags r else rv_tags v),
       rs_properties := (if py_eq (rs_properties r) (rv_properties v) then rs_properties r else rv_properties v),
       rs_last_seen_at := rv_last_seen_at v, rs_state := ''active'', rs_missing_since := None,
       rs_version := rs_version r + 1\<rparr>)"

record group_args =
  ga_id :: uuid
  ga_clock :: clock
  ga_seen_at :: timestamp
  ga_resource :: resource
  ga_subscription_id :: uuid

abbreviation group_key :: "'a resource_group_scheme \<Rightarrow> uuid \<times> uuid \<times> string" where
  "group_key g \<equiv> (tenant_id g, rg_subscription_id g, rg_normalized_name g)"

abbreviation group_args_key :: "group_args \<Rightarrow> uuid \<times> uuid \<times> string" where
  "group_args_key a \<equiv> (tenant_id (ga_resource a), ga_subscription_id a, lower (rs_name (ga_resource a)))"

definition new_group :: "group_args \<Rightarrow> resource_group" where
  "new_group a = (let r = ga_resource a in
     \<lparr>row_id = ga_id a, tenant_id = tenant_id r, created_at = tx_now (ga_clock a),
      updated_at = tx_now (ga_clock a), rg_subscription_id = ga_subscription_id a, rg_name = rs_name r,
      rg_normalized_name = lower (rs_name r), rg_location = rs_location r, rg_tags = rs_tags r,
      rg_state = ''active'', rg_last_seen_at = tx_now (ga_clock a)\<rparr>)"

definition refresh_group :: "group_args \<Rightarrow> resource_group \<Rightarrow> resource_group" where
  "refresh_group a g =
     (if rg_last_seen_at g = ga_seen_at a \<and> rg_state g = ''active'' then g
      else g\<lparr>rg_last_seen_at := ga_seen_at a, rg_state := ''active'', updated_at := tx_now (ga_clock a)\<rparr>)"

definition resource_group_type :: string where
  "resource_group_type = ''microsoft.resources/subscriptions/resourcegroups''"

text \<open>A resource that is a resource group also has a row among the groups.\<close>

definition upsert_group :: "group_args \<Rightarrow> inventory_db \<Rightarrow> inventory_db" where
  "upsert_group a db =
     (if rs_resource_type (ga_resource a) = resource_group_type
      then db\<lparr>resource_groups := upsert (\<lambda>g. group_key g = group_args_key a) (new_group a) (refresh_group a)
                (resource_groups db)\<rparr>
      else db)"

definition put_resource :: "resource_args \<Rightarrow> inventory_db \<Rightarrow> (resource \<times> bool) \<times> inventory_db" where
  "put_resource a db =
     (let P = (\<lambda>r. resource_key r = (xa_tenant_id a, rv_normalized_resource_id (xa_values a)));
          (r, created, rows) = get_or_put P (new_resource a) (refresh_resource a) (resources db);
          changed = (case find P (resources db) of None \<Rightarrow> True | Some old \<Rightarrow> values_differ (xa_values a) old)
      in ((r, changed),
          upsert_group \<lparr>ga_id = xa_group_id a, ga_clock = xa_clock a, ga_seen_at = rv_last_seen_at (xa_values a),
             ga_resource = r, ga_subscription_id = xa_subscription_id a\<rparr> (db\<lparr>resources := rows\<rparr>)))"

definition upsert_resource ::
  "uuid \<Rightarrow> uuid \<Rightarrow> clock \<Rightarrow> uuid \<Rightarrow> subscription \<Rightarrow> dict \<Rightarrow> inventory_db
     \<Rightarrow> ((resource \<times> bool) \<times> inventory_db) result" where
  "upsert_resource new_id new_group_id clk t sub item db =
     bindr (resource_values_of (py_now clk) item) (\<lambda>v.
       Inr (put_resource \<lparr>xa_id = new_id, xa_group_id = new_group_id, xa_clock = clk, xa_tenant_id = t,
              xa_subscription_id = row_id sub, xa_values = v\<rparr> db))"

section \<open>Service and endpoints\<close>

definition resource_or_404 :: "uuid \<Rightarrow> uuid \<Rightarrow> inventory_db \<Rightarrow> resource result" where
  "resource_or_404 t i db = of_option (http_error 404 ''Resource not found'') (get_resource t i db)"

text \<open>The response models: tags must be texts, properties a dictionary.\<close>

definition text_dict :: "json \<Rightarrow> bool" where
  "text_dict v = (case v of JDict d \<Rightarrow> list_all (\<lambda>p. case snd p of JStr _ \<Rightarrow> True | _ \<Rightarrow> False) d | _ \<Rightarrow> False)"

definition is_dict :: "json \<Rightarrow> bool" where
  "is_dict v = (case v of JDict _ \<Rightarrow> True | _ \<Rightarrow> False)"

definition response_error :: "string \<Rightarrow> exn" where
  "response_error model = Exn ''ValidationError'' model"

definition opt_time :: "timestamp option \<Rightarrow> json" where
  "opt_time t = (case t of None \<Rightarrow> JNull | Some x \<Rightarrow> JStr (dump_time x))"

definition resource_response :: "resource \<Rightarrow> json result" where
  "resource_response r =
     bindr (guardr (text_dict (rs_tags r) \<and> is_dict (rs_properties r)) (response_error ''ResourceResponse'')) (\<lambda>_.
     Inr (JDict [(''id'', JStr (uuid_str (row_id r))), (''subscription_id'', JStr (uuid_str (rs_subscription_id r))),
       (''azure_resource_id'', JStr (rs_azure_resource_id r)), (''resource_type'', JStr (rs_resource_type r)),
       (''name'', JStr (rs_name r)), (''resource_group'', JStr (rs_resource_group r)),
       (''location'', opt_str (rs_location r)), (''kind'', opt_str (rs_kind r)), (''sku'', opt_str (rs_sku r)),
       (''tags'', rs_tags r), (''properties'', rs_properties r),
       (''provisioning_state'', opt_str (rs_provisioning_state r)), (''state'', JStr (rs_state r)),
       (''last_seen_at'', JStr (dump_time (rs_last_seen_at r)))]))"

definition list_resources_endpoint ::
  "actor_context \<Rightarrow> resource_filter \<Rightarrow> string option \<Rightarrow> int \<Rightarrow> inventory_db \<Rightarrow> json result" where
  "list_resources_endpoint actor f cursor limit db =
     bindr (require_permission ''inventory.resources.read'' actor) (\<lambda>actor.
     bindr (guardr (1 \<le> limit \<and> limit \<le> 200) request_validation) (\<lambda>_.
     bindr (list_resources (ac_tenant_id actor) f cursor (nat limit) db) (\<lambda>(rows, next_cursor).
     bindr (each_result resource_response rows) (\<lambda>items.
     Inr (JDict [(''items'', JList items),
       (''page'', JDict [(''next_cursor'', opt_str next_cursor), (''limit'', JInt limit)])])))))"

definition get_resource_endpoint :: "actor_context \<Rightarrow> uuid \<Rightarrow> inventory_db \<Rightarrow> json result" where
  "get_resource_endpoint actor i db =
     bindr (require_permission ''inventory.resources.read'' actor) (\<lambda>actor.
     bindr (resource_or_404 (ac_tenant_id actor) i db) resource_response)"

definition subscription_response :: "subscription \<Rightarrow> json" where
  "subscription_response s = JDict
     [(''id'', JStr (uuid_str (row_id s))), (''azure_subscription_id'', JStr (uuid_str (sb_azure_subscription_id s))),
      (''display_name'', JStr (sb_display_name s)), (''state'', JStr (sb_state s)),
      (''last_sync_at'', opt_time (sb_last_sync_at s))]"

definition subscriptions_endpoint ::
  "subscription plan \<Rightarrow> actor_context \<Rightarrow> inventory_db \<Rightarrow> json list result" where
  "subscriptions_endpoint plan actor db =
     bindr (require_permission ''inventory.resources.read'' actor) (\<lambda>actor.
     Inr (map subscription_response (list_subscriptions plan (ac_tenant_id actor) db)))"

definition resource_group_response :: "resource_group \<Rightarrow> json result" where
  "resource_group_response g =
     bindr (guardr (text_dict (rg_tags g)) (response_error ''ResourceGroupResponse'')) (\<lambda>_.
     Inr (JDict [(''id'', JStr (uuid_str (row_id g))), (''subscription_id'', JStr (uuid_str (rg_subscription_id g))),
       (''name'', JStr (rg_name g)), (''location'', opt_str (rg_location g)), (''tags'', rg_tags g),
       (''state'', JStr (rg_state g))]))"

definition resource_groups_endpoint ::
  "resource_group plan \<Rightarrow> actor_context \<Rightarrow> inventory_db \<Rightarrow> json list result" where
  "resource_groups_endpoint plan actor db =
     bindr (require_permission ''inventory.resources.read'' actor) (\<lambda>actor.
     each_result resource_group_response (list_resource_groups plan (ac_tenant_id actor) db))"

text \<open>Requesting a synchronization: the whole unit of work, with the audit event in its outbox.\<close>

record sync_request =
  sq_subscription_ids :: "uuid list"
  sq_mode :: string
  sq_idempotency_key :: string

record sync_env =
  sy_job_id :: uuid
  sy_event_id :: uuid
  sy_outbox_id :: uuid
  sy_clock :: clock
  sy_commit :: "exn option"

definition sync_request_valid :: "sync_request \<Rightarrow> bool" where
  "sync_request_valid q \<longleftrightarrow> 1 \<le> length (sq_subscription_ids q) \<and> length (sq_subscription_ids q) \<le> 100
     \<and> (sq_mode q = ''full'' \<or> sq_mode q = ''incremental'')
     \<and> 8 \<le> length (sq_idempotency_key q) \<and> length (sq_idempotency_key q) \<le> 255"

definition sync_event :: "sync_env \<Rightarrow> actor_context \<Rightarrow> sync_request \<Rightarrow> sync_job \<Rightarrow> audit_event" where
  "sync_event env actor q job =
     \<lparr>ev_specversion = ''1.0'', ev_id = sy_event_id env, ev_source = ''inventory-service'',
      ev_type = ''inventory.sync-requested.v1'', ev_subject = ''sync-job/'' @ uuid_str (row_id job),
      ev_time = py_now (sy_clock env), ev_datacontenttype = ''application/json'',
      ev_tenant_id = ac_tenant_id actor, ev_correlation_id = ac_correlation_id actor,
      ev_data = [(''mode'', JStr (sq_mode q)), (''subscription_count'', JInt (int (length (sq_subscription_ids q))))],
      ev_actor_type = ''user'', ev_actor_id = uuid_str (ac_actor_id actor),
      ev_action = ''inventory.sync.request'', ev_entity_type = ''sync_job'',
      ev_entity_id = Some (uuid_str (row_id job)), ev_outcome = ''accepted''\<rparr>"

definition job_args_of :: "sync_env \<Rightarrow> actor_context \<Rightarrow> sync_request \<Rightarrow> job_args" where
  "job_args_of env actor q = \<lparr>ja_id = sy_job_id env, ja_clock = sy_clock env,
     ja_tenant_id = ac_tenant_id actor, ja_actor_id = ac_actor_id actor,
     ja_entra_tenant_id = ac_entra_tenant_id actor, ja_mode = sq_mode q,
     ja_subscription_ids = sq_subscription_ids q, ja_correlation_id = ac_correlation_id actor,
     ja_idempotency_key = sq_idempotency_key q\<rparr>"

definition request_sync ::
  "sync_env \<Rightarrow> actor_context \<Rightarrow> sync_request \<Rightarrow> inventory_db \<Rightarrow> (sync_job \<times> inventory_db) result" where
  "request_sync env actor q db =
     (let registered = map sb_azure_subscription_id (list_subscriptions (\<lambda>_. 0) (ac_tenant_id actor) db);
          unknown = filter (\<lambda>u. u \<notin> set registered) (sq_subscription_ids q)
      in if unknown \<noteq> [] then Inl (http_error 422 ''Scope contains unregistered subscriptions'')
         else (let (job, db) = create_sync_job (job_args_of env actor q) db
               in Inr (job, enqueue_audit (sy_outbox_id env) (py_now (sy_clock env))
                     (sync_event env actor q job) db)))"

definition job_response :: "sync_job \<Rightarrow> json" where
  "job_response j = JDict
     [(''id'', JStr (uuid_str (row_id j))), (''mode'', JStr (jb_mode j)), (''status'', JStr (jb_status j)),
      (''resources_seen'', JInt (jb_resources_seen j)), (''resources_changed'', JInt (jb_resources_changed j)),
      (''requested_at'', JStr (dump_time (jb_requested_at j))), (''started_at'', opt_time (jb_started_at j)),
      (''completed_at'', opt_time (jb_completed_at j)),
      (''error_summary'', case jb_error_summary j of None \<Rightarrow> JNull | Some d \<Rightarrow> JDict d)]"

definition create_sync_job_endpoint ::
  "sync_env \<Rightarrow> actor_context \<Rightarrow> sync_request \<Rightarrow> inventory_db \<Rightarrow> json result \<times> inventory_db" where
  "create_sync_job_endpoint env actor q db =
     (case bindr (require_permission ''inventory.sync.execute'' actor) (\<lambda>actor.
             bindr (guardr (sync_request_valid q) request_validation) (\<lambda>_. Inr actor)) of
        Inl e \<Rightarrow> (Inl e, db)
      | Inr actor \<Rightarrow>
          (case unit_of_work (sy_commit env) (ac_tenant_id actor) (ac_actor_id actor)
                  (on_tables (request_sync env actor q)) db of
             (Inl e, db') \<Rightarrow> (Inl e, db')
           | (Inr job, db') \<Rightarrow> (Inr (job_response job), db')))"

section \<open>Contracts\<close>

interpretation subscription_table: keyed_upsert subscription_key
  "\<lambda>a. (sa_tenant_id a, sa_azure_subscription_id a)" new_subscription refresh_subscription
  by unfold_locales (simp_all add: new_subscription_def refresh_subscription_def)

interpretation job_table: keyed_upsert job_key "\<lambda>a. (ja_tenant_id a, ja_idempotency_key a)" new_job "\<lambda>_ j. j"
  by unfold_locales (simp_all add: new_job_def)

interpretation resource_table: keyed_upsert resource_key
  "\<lambda>a. (xa_tenant_id a, rv_normalized_resource_id (xa_values a))" new_resource refresh_resource
  by unfold_locales (simp_all add: new_resource_def refresh_resource_def Let_def)

interpretation group_table: keyed_upsert group_key group_args_key new_group refresh_group
  by unfold_locales (simp_all add: new_group_def refresh_group_def Let_def)

interpretation sync_queue: job_queue job_queued jb_requested_at start_job "\<lambda>_ _. True"
  by unfold_locales (simp_all add: job_queued_def start_job_def)

definition page_rows :: "resource_filter \<times> string option \<times> nat \<Rightarrow> uuid \<Rightarrow> inventory_db \<Rightarrow> resource list" where
  "page_rows q t db = (case q of (f, cursor, n) \<Rightarrow>
     (case list_resources t f cursor n db of Inl _ \<Rightarrow> [] | Inr (rows, _) \<Rightarrow> rows))"

lemma list_resources_cong:
  assumes "filter (\<lambda>r. tenant_id r = t) (resources db) = filter (\<lambda>r. tenant_id r = t) (resources db')"
  shows "list_resources t f cursor n db = list_resources t f cursor n db'"
proof -
  have "filter (\<lambda>r. tenant_id r = t \<and> resource_match f r \<and> after r) (resources db)
      = filter (\<lambda>r. tenant_id r = t \<and> resource_match f r \<and> after r) (resources db')" for after
    by (rule filter_cong_filter [OF assms]) simp
  then show ?thesis by (simp add: list_resources_def)
qed

lemma list_resources_rows:
  assumes "list_resources t f cursor n db = Inr (rows, c)"
  shows "set rows \<subseteq> {r \<in> set (resources db). tenant_id r = t \<and> resource_match f r}"
  using assms by (auto simp: list_resources_def result_iff Let_def split: if_splits dest!: in_set_takeD)

interpretation resource_query: tenant_query resources tenant_id page_rows
proof
  fix q t db and r :: resource
  assume "r \<in> set (page_rows q t db)"
  then show "r \<in> set (resources db) \<and> tenant_id r = t"
    by (cases q) (auto simp: page_rows_def split: sum.splits prod.splits dest: list_resources_rows [OF sym])
next
  fix q t and db db' :: inventory_db
  assume "filter (\<lambda>r. tenant_id r = t) (resources db) = filter (\<lambda>r. tenant_id r = t) (resources db')"
  from list_resources_cong [OF this] show "page_rows q t db = page_rows q t db'"
    by (cases q) (simp add: page_rows_def)
qed

section \<open>Pages\<close>

text \<open>A client that follows the cursors; \<open>None\<close> when the fuel runs out or a page fails.\<close>

fun follow_pages ::
  "nat \<Rightarrow> uuid \<Rightarrow> resource_filter \<Rightarrow> nat \<Rightarrow> string option \<Rightarrow> inventory_db \<Rightarrow> resource list option" where
  "follow_pages 0 t f n cursor db = None"
| "follow_pages (Suc k) t f n cursor db = (case list_resources t f cursor n db of
       Inl _ \<Rightarrow> None
     | Inr (rows, None) \<Rightarrow> Some rows
     | Inr (rows, Some c) \<Rightarrow> map_option ((@) rows) (follow_pages k t f n (Some c) db))"

definition matching :: "uuid \<Rightarrow> resource_filter \<Rightarrow> inventory_db \<Rightarrow> resource list" where
  "matching t f db = sort_key row_id (filter (\<lambda>r. tenant_id r = t \<and> resource_match f r) (resources db))"

lemma encode_cursor_present: "present (Some (encode_cursor u))"
proof -
  have "b64_encode xs \<noteq> []" if "xs \<noteq> []" for xs
    using that by (cases xs rule: b64_encode.cases) simp_all
  moreover have "uuid_str u \<noteq> []" using length_uuid_str [of u] by (cases "uuid_str u") simp_all
  ultimately show ?thesis by (simp add: encode_cursor_def present_def)
qed

lemma list_resources_page:
  assumes "state_known f" "cursor = None \<or> cursor = Some (encode_cursor u)"
  shows "list_resources t f cursor n db =
    (let rest = (if cursor = None then matching t f db else filter (\<lambda>r. u < row_id r) (matching t f db))
     in Inr (if n < length rest then (take n rest, Some (encode_cursor (row_id (rest ! (n - 1))))) else (rest, None)))"
proof -
  have "sort_key row_id (filter (\<lambda>r. tenant_id r = t \<and> resource_match f r \<and> u < row_id r) (resources db))
      = filter (\<lambda>r. u < row_id r) (matching t f db)"
  proof -
    have "filter (\<lambda>r. u < row_id r) (filter (\<lambda>r. tenant_id r = t \<and> resource_match f r) (resources db))
        = filter (\<lambda>r. tenant_id r = t \<and> resource_match f r \<and> u < row_id r) (resources db)"
      unfolding filter_filter by (rule filter_cong) auto
    then show ?thesis unfolding matching_def by (simp only: filter_sort)
  qed
  moreover have "take (n + 1) xs ! (n - 1) = xs ! (n - 1)" for xs :: "resource list"
    by (cases n) simp_all
  note facts = calculation(1) this
  from assms(2) show ?thesis
  proof
    assume "cursor = None"
    then show ?thesis using assms(1) facts(2) by (simp add: list_resources_def present_def Let_def matching_def)
  next
    assume c: "cursor = Some (encode_cursor u)"
    have "list_resources t f cursor n db = (let rows = take (n + 1) (filter (\<lambda>r. u < row_id r) (matching t f db))
        in Inr (if n < length rows then (take n rows, Some (encode_cursor (row_id (rows ! (n - 1))))) else (rows, None)))"
      using assms(1) encode_cursor_present [of u]
      by (simp add: list_resources_def c flip: facts(1))
    then show ?thesis using facts(2) by (simp add: c Let_def)
  qed
qed

lemma filter_after:
  assumes "sorted_wrt (\<lambda>a b. key a < key b) (xs @ [x] @ ys)"
  shows "filter (\<lambda>r. (key x :: 'k::linorder) < key r) (xs @ [x] @ ys) = ys"
proof -
  have "filter (\<lambda>r. key x < key r) xs = []" using assms by (auto simp: sorted_wrt_append filter_empty_conv)
  moreover have "filter (\<lambda>r. key x < key r) ys = ys" using assms by (simp add: sorted_wrt_append)
  ultimately show ?thesis by simp
qed

lemma filter_after_nth:
  assumes "sorted_wrt (\<lambda>a b. key a < key b) zs" "i < length zs"
  shows "filter (\<lambda>r. (key (zs ! i) :: 'k::linorder) < key r) zs = drop (Suc i) zs"
  using filter_after [of key "take i zs" "zs ! i" "drop (Suc i) zs"] assms
  by (simp add: Cons_nth_drop_Suc)

lemma matching_sorted: "distinct (map row_id (resources db)) \<Longrightarrow> sorted_wrt (\<lambda>a b. row_id a < row_id b) (matching t f db)"
proof -
  assume "distinct (map row_id (resources db))"
  then have "distinct (map row_id (filter (\<lambda>r. tenant_id r = t \<and> resource_match f r) (resources db)))"
    by (rule distinct_map_filter)
  then have "distinct (map row_id (matching t f db))" by (simp add: matching_def distinct_map)
  moreover have "sorted (map row_id (matching t f db))" by (simp add: matching_def)
  ultimately have "sorted_wrt (<) (map row_id (matching t f db))" by (simp add: strict_sorted_iff)
  then show ?thesis by (simp add: sorted_wrt_map)
qed

lemma follow_pages_from:
  assumes ids: "distinct (map row_id (resources db))" and state: "state_known f" and n: "0 < n"
  shows "i < length (matching t f db) \<Longrightarrow> length (matching t f db) \<le> k + i \<Longrightarrow>
    follow_pages k t f n (Some (encode_cursor (row_id (matching t f db ! i)))) db = Some (drop (Suc i) (matching t f db))"
proof (induction k arbitrary: i)
  case (Suc k)
  let ?m = "matching t f db" and ?c = "Some (encode_cursor (row_id (matching t f db ! i)))"
  have rest: "filter (\<lambda>r. row_id (?m ! i) < row_id r) ?m = drop (Suc i) ?m"
    by (rule filter_after_nth [OF matching_sorted [OF ids] Suc.prems(1)])
  have page: "list_resources t f ?c n db = Inr (if n < length ?m - Suc i
      then (take n (drop (Suc i) ?m), Some (encode_cursor (row_id (?m ! (i + n))))) else (drop (Suc i) ?m, None))"
    using list_resources_page [OF state, of ?c "row_id (?m ! i)" t n db] rest n Suc.prems(1) by (simp add: Let_def)
  show ?case
  proof (cases "n < length ?m - Suc i")
    case True
    then have "follow_pages k t f n (Some (encode_cursor (row_id (?m ! (i + n))))) db = Some (drop (Suc (i + n)) ?m)"
      using Suc.prems n by (intro Suc.IH) simp_all
    moreover have "take n (drop (Suc i) ?m) @ drop (Suc (i + n)) ?m = drop (Suc i) ?m"
      by (metis add.commute add_Suc_right append_take_drop_id drop_drop)
    ultimately show ?thesis using page True by simp
  qed (simp add: page)
qed simp

lemma follow_pages_all:
  assumes "distinct (map row_id (resources db))" "state_known f" "0 < n" "length (resources db) < k"
  shows "follow_pages k t f n None db = Some (matching t f db)"
proof -
  let ?m = "matching t f db"
  obtain k' where k: "k = Suc k'" using assms(4) by (cases k) simp_all
  have page: "list_resources t f None n db = Inr (if n < length ?m
      then (take n ?m, Some (encode_cursor (row_id (?m ! (n - 1))))) else (?m, None))"
    using list_resources_page [OF assms(2), of None 0 t n db] by (simp add: Let_def)
  have "length ?m \<le> length (resources db)" by (simp add: matching_def)
  then have "n < length ?m \<Longrightarrow> follow_pages k' t f n (Some (encode_cursor (row_id (?m ! (n - 1))))) db = Some (drop n ?m)"
    using follow_pages_from [OF assms(1-3), of "n - 1" t k'] assms(3,4) k by simp
  with page show ?thesis by (simp add: k)
qed

section \<open>The queue of jobs\<close>

text \<open>Workers that claim one job after another, each passing over the jobs it finds locked.\<close>

fun claim_jobs :: "(uuid set \<times> timestamp) list \<Rightarrow> sync_job list \<Rightarrow> uuid list \<times> sync_job list" where
  "claim_jobs [] rows = ([], rows)"
| "claim_jobs ((locked, now) # turns) rows = (case claim_job locked now rows of
       (None, rows) \<Rightarrow> claim_jobs turns rows
     | (Some j, rows) \<Rightarrow> (let (ids, rows) = claim_jobs turns rows in (row_id j # ids, rows)))"

definition queued_ids :: "sync_job list \<Rightarrow> uuid set" where
  "queued_ids rows = row_id ` {j \<in> set rows. jb_status j = ''queued''}"

lemma queued_ids_simps [simp]:
  "queued_ids [] = {}"
  "queued_ids (j # js) = (if jb_status j = ''queued'' then insert (row_id j) (queued_ids js) else queued_ids js)"
  by (auto simp: queued_ids_def)

lemma claim_job_queued:
  assumes ids: "distinct (map row_id rows)" and claim: "claim_job locked now rows = (Some m, rows')"
  shows "row_id m \<in> queued_ids rows - locked" "queued_ids rows' = queued_ids rows - {row_id m}"
proof -
  obtain r where r: "r \<in> set rows" "job_queued now r" "row_id r \<notin> locked" "m = start_job now r"
      "rows' = upd_first (\<lambda>x. row_id x = row_id r) (start_job now) rows"
    using claim unfolding claim_job_def by (rule sync_queue.claim_Some)
  then show "row_id m \<in> queued_ids rows - locked"
    by (auto simp: queued_ids_def job_queued_def start_job_def)
  have "queued_ids (upd_first (\<lambda>x. row_id x = row_id r) (start_job now) xs) = queued_ids xs - {row_id r}"
    if "distinct (map row_id xs)" for xs
    using that
  proof (induction xs)
    case (Cons a xs)
    have "row_id a \<notin> queued_ids xs" using Cons.prems by (auto simp: queued_ids_def)
    with Cons show ?case by (auto simp: start_job_def)
  qed simp
  from this [OF ids] show "queued_ids rows' = queued_ids rows - {row_id m}"
    using r(4,5) by (simp add: start_job_def)
qed

lemma claim_jobs_once:
  assumes "distinct (map row_id rows)"
  shows "distinct (fst (claim_jobs turns rows)) \<and> set (fst (claim_jobs turns rows)) \<subseteq> queued_ids rows
    \<and> queued_ids (snd (claim_jobs turns rows)) = queued_ids rows - set (fst (claim_jobs turns rows))"
  using assms
proof (induction turns arbitrary: rows)
  case (Cons turn turns)
  obtain locked now where turn: "turn = (locked, now)" by force
  have ids: "map row_id (snd (claim_job locked now rows)) = map row_id rows"
    unfolding claim_job_def by (rule sync_queue.claim_ids)
  show ?case
  proof (cases "claim_job locked now rows")
    case (Pair j rows')
    with ids Cons.prems have d: "distinct (map row_id rows')" by simp
    show ?thesis
    proof (cases j)
      case None
      have "rows' = rows" using sync_queue.claim_None [of locked now rows rows'] Pair None by (simp add: claim_job_def)
      with Cons.IH [OF d] show ?thesis by (simp add: turn Pair None)
    next
      case (Some m)
      note q = claim_job_queued [OF Cons.prems Pair [unfolded Some]]
      obtain claimed rows'' where rest: "claim_jobs turns rows' = (claimed, rows'')" by force
      have IH: "distinct claimed" "set claimed \<subseteq> queued_ids rows - {row_id m}" "queued_ids rows'' = queued_ids rows - {row_id m} - set claimed"
        using Cons.IH [OF d] q(2) rest by simp_all
      have step: "claim_jobs (turn # turns) rows = (row_id m # claimed, rows'')" by (simp add: turn Pair Some rest)
      show ?thesis unfolding step fst_conv snd_conv proof (intro conjI)
        show "distinct (row_id m # claimed)" using IH(1,2) by auto
        show "set (row_id m # claimed) \<subseteq> queued_ids rows" using IH(2) q(1) by auto
        show "queued_ids rows'' = queued_ids rows - set (row_id m # claimed)" using IH(3) by auto
      qed
    qed
  qed
qed simp

lemma claim_jobs_all:
  assumes "distinct (map row_id rows)" "\<forall>(locked, now) \<in> set turns. locked \<inter> queued_ids rows = {}"
    and "card (queued_ids rows) \<le> length turns"
  shows "set (fst (claim_jobs turns rows)) = queued_ids rows"
  using assms
proof (induction turns arbitrary: rows)
  case Nil
  then have "queued_ids rows = {}" by (simp add: queued_ids_def)
  then show ?case by simp
next
  case (Cons turn turns)
  obtain locked now where turn: "turn = (locked, now)" by force
  have ids: "map row_id (snd (claim_job locked now rows)) = map row_id rows"
    unfolding claim_job_def by (rule sync_queue.claim_ids)
  show ?case
  proof (cases "claim_job locked now rows")
    case (Pair j rows')
    with ids Cons.prems have d: "distinct (map row_id rows')" by simp
    show ?thesis
    proof (cases j)
      case None
      have "\<forall>r \<in> set rows. job_queued now r \<longrightarrow> row_id r \<in> locked"
        using sync_queue.claim_None [of locked now rows rows'] Pair None by (simp add: claim_job_def)
      then have "queued_ids rows = {}" using Cons.prems(2) turn by (auto simp: queued_ids_def job_queued_def)
      moreover have "rows' = rows"
        using sync_queue.claim_None [of locked now rows rows'] Pair None by (simp add: claim_job_def)
      ultimately show ?thesis using claim_jobs_once [OF Cons.prems(1), of "turn # turns"] by simp
    next
      case (Some m)
      note q = claim_job_queued [OF Cons.prems(1) Pair [unfolded Some]]
      have "finite (queued_ids rows)" by (simp add: queued_ids_def)
      then have "card (queued_ids rows') \<le> length turns" using Cons.prems(3) q by (auto simp: card_Diff_singleton)
      moreover have "\<forall>(locked, now) \<in> set turns. locked \<inter> queued_ids rows' = {}" using Cons.prems(2) q(2) by fastforce
      ultimately have "set (fst (claim_jobs turns rows')) = queued_ids rows'" using Cons.IH [OF d] by simp
      moreover have "fst (claim_jobs (turn # turns) rows) = row_id m # fst (claim_jobs turns rows')"
        by (simp add: turn Pair Some split: prod.splits)
      ultimately show ?thesis using q by simp blast
    qed
  qed
qed

section \<open>The tables keep their keys\<close>

definition inventory_ok :: "inventory_db \<Rightarrow> bool" where
  "inventory_ok db \<longleftrightarrow> distinct (map subscription_key (subscriptions db))
     \<and> distinct (map resource_key (resources db)) \<and> distinct (map group_key (resource_groups db))
     \<and> distinct (map job_key (sync_jobs db))
     \<and> (\<forall>r \<in> set (resources db). rs_normalized_resource_id r = lower (rs_azure_resource_id r))
     \<and> (\<forall>g \<in> set (resource_groups db). rg_normalized_name g = lower (rg_name g))"

lemma upsert_subscription_rows:
  assumes "upsert_subscription a db = (s, db')"
  shows "db' = db\<lparr>subscriptions := subscription_table.put a (subscriptions db)\<rparr>"
    "find_subscription (sa_tenant_id a) (sa_azure_subscription_id a) db' = Some s"
    "subscription_key s = (sa_tenant_id a, sa_azure_subscription_id a)" "s \<in> set (subscriptions db')"
proof -
  obtain c rows where g: "get_or_put (\<lambda>s. subscription_key s = (sa_tenant_id a, sa_azure_subscription_id a))
      (new_subscription a) (refresh_subscription a) (subscriptions db) = (s, c, rows)"
    and db': "db' = db\<lparr>subscriptions := rows\<rparr>"
    using assms by (auto simp: upsert_subscription_def split: prod.splits)
  note r = subscription_table.get_or_put_row [OF g]
  show "db' = db\<lparr>subscriptions := subscription_table.put a (subscriptions db)\<rparr>" using db' r(1) by simp
  show "find_subscription (sa_tenant_id a) (sa_azure_subscription_id a) db' = Some s"
    using r(2) db' by (simp add: find_subscription_def)
  show "subscription_key s = (sa_tenant_id a, sa_azure_subscription_id a)" by (rule r(3))
  show "s \<in> set (subscriptions db')" using r(4) db' by simp
qed

lemma upsert_subscription_ok: "inventory_ok db \<Longrightarrow> upsert_subscription a db = (s, db') \<Longrightarrow> inventory_ok db'"
  using upsert_subscription_rows(1) [of a db s db'] subscription_table.unique_put [of "subscriptions db" a]
  by (simp add: inventory_ok_def)

lemma create_sync_job_rows:
  assumes "create_sync_job a db = (j, db')"
  shows "db' = db\<lparr>sync_jobs := job_table.put a (sync_jobs db)\<rparr>"
    "find (\<lambda>j. job_key j = (ja_tenant_id a, ja_idempotency_key a)) (sync_jobs db') = Some j"
    "job_key j = (ja_tenant_id a, ja_idempotency_key a)"
proof -
  obtain c rows where g: "get_or_put (\<lambda>j. job_key j = (ja_tenant_id a, ja_idempotency_key a))
      (new_job a) (\<lambda>j. j) (sync_jobs db) = (j, c, rows)" and db': "db' = db\<lparr>sync_jobs := rows\<rparr>"
    using assms by (auto simp: create_sync_job_def split: prod.splits)
  note r = job_table.get_or_put_row [OF g]
  show "db' = db\<lparr>sync_jobs := job_table.put a (sync_jobs db)\<rparr>" using db' r(1) by simp
  show "find (\<lambda>j. job_key j = (ja_tenant_id a, ja_idempotency_key a)) (sync_jobs db') = Some j"
    using r(2) db' by simp
  show "job_key j = (ja_tenant_id a, ja_idempotency_key a)" by (rule r(3))
qed

lemma create_sync_job_again:
  assumes "find (\<lambda>j. job_key j = (ja_tenant_id a, ja_idempotency_key a)) (sync_jobs db) = Some j"
  shows "create_sync_job a db = (j, db)"
  using assms by (simp add: create_sync_job_def get_or_put_def)

lemma request_sync_ok:
  assumes "inventory_ok db" "request_sync env actor q db = Inr (j, db')"
  shows "inventory_ok db'"
proof -
  obtain db1 where "create_sync_job (job_args_of env actor q) db = (j, db1)" and db': "inventory_ok db1 \<Longrightarrow> inventory_ok db'"
    using assms(2) by (auto simp: request_sync_def Let_def inventory_ok_def enqueue_audit_def split: if_splits prod.splits)
  from create_sync_job_rows(1) [OF this(1)] show ?thesis
    using assms(1) job_table.unique_put [of "sync_jobs db" "job_args_of env actor q"]
    by (intro db') (simp add: inventory_ok_def)
qed

lemma upsert_group_ok: "inventory_ok db \<Longrightarrow> inventory_ok (upsert_group a db)"
  using group_table.unique_put [of "resource_groups db" a]
  by (auto simp: inventory_ok_def upsert_group_def new_group_def refresh_group_def Let_def dest!: in_set_upsert)

lemma put_resource_rows:
  assumes "put_resource a db = ((r, changed), db')"
  shows "resources db' = resource_table.put a (resources db)"
    "find (\<lambda>r. resource_key r = (xa_tenant_id a, rv_normalized_resource_id (xa_values a))) (resources db') = Some r"
    "resource_key r = (xa_tenant_id a, rv_normalized_resource_id (xa_values a))" "r \<in> set (resources db')"
    "subscriptions db' = subscriptions db" "sync_jobs db' = sync_jobs db" "outbox db' = outbox db"
    "changed = (case find (\<lambda>r. resource_key r = (xa_tenant_id a, rv_normalized_resource_id (xa_values a))) (resources db) of
        None \<Rightarrow> True | Some old \<Rightarrow> values_differ (xa_values a) old)"
proof -
  obtain c rows where g: "get_or_put (\<lambda>r. resource_key r = (xa_tenant_id a, rv_normalized_resource_id (xa_values a)))
      (new_resource a) (refresh_resource a) (resources db) = (r, c, rows)"
    and db': "\<exists>b. db' = upsert_group b (db\<lparr>resources := rows\<rparr>)"
    and "changed = (case find (\<lambda>r. resource_key r = (xa_tenant_id a, rv_normalized_resource_id (xa_values a))) (resources db) of
        None \<Rightarrow> True | Some old \<Rightarrow> values_differ (xa_values a) old)"
    using assms by (simp add: put_resource_def Let_def split: prod.splits) blast
  then show "changed = (case find (\<lambda>r. resource_key r = (xa_tenant_id a, rv_normalized_resource_id (xa_values a))) (resources db) of
        None \<Rightarrow> True | Some old \<Rightarrow> values_differ (xa_values a) old)" by simp
  note r = resource_table.get_or_put_row [OF g]
  have rows: "resources db' = rows" using db' by (auto simp: upsert_group_def)
  show "resources db' = resource_table.put a (resources db)" unfolding rows by (rule r(1))
  show "find (\<lambda>r. resource_key r = (xa_tenant_id a, rv_normalized_resource_id (xa_values a))) (resources db') = Some r"
    unfolding rows by (rule r(2))
  show "resource_key r = (xa_tenant_id a, rv_normalized_resource_id (xa_values a))" by (rule r(3))
  show "r \<in> set (resources db')" unfolding rows by (rule r(4))
  show "subscriptions db' = subscriptions db" "sync_jobs db' = sync_jobs db" "outbox db' = outbox db"
    using db' by (auto simp: upsert_group_def)
qed

lemma put_resource_ok:
  assumes ok: "inventory_ok db" and put: "put_resource a db = ((r, changed), db')"
    and norm: "rv_normalized_resource_id (xa_values a) = lower (rv_azure_resource_id (xa_values a))"
  shows "inventory_ok db'"
proof -
  obtain b where b: "db' = upsert_group b (db\<lparr>resources := resource_table.put a (resources db)\<rparr>)"
    using put by (auto simp: put_resource_def Let_def split: prod.splits dest!: get_or_put_upsert)
  have "\<forall>r \<in> set (resource_table.put a (resources db)). rs_normalized_resource_id r = lower (rs_azure_resource_id r)"
    using ok norm by (auto simp: inventory_ok_def new_resource_def refresh_resource_def Let_def dest!: in_set_upsert)
  then show ?thesis
    unfolding b using ok resource_table.unique_put [of "resources db" a]
    by (intro upsert_group_ok) (simp add: inventory_ok_def)
qed

lemma put_resource_values:
  assumes "put_resource a db = ((r, changed), db')"
  shows "rs_azure_resource_id r = rv_azure_resource_id (xa_values a)" "rs_name r = rv_name (xa_values a)"
    "rs_state r = ''active''" "rs_last_seen_at r = rv_last_seen_at (xa_values a)"
    "py_eq (rs_properties r) (rv_properties (xa_values a))" "py_eq (rs_tags r) (rv_tags (xa_values a))"
  using assms
  by (auto simp: put_resource_def get_or_put_def new_resource_def refresh_resource_def Let_def py_eq_def
      split: option.splits)

lemma resource_values_normal: "resource_values_of now item = Inr v \<Longrightarrow>
    rv_normalized_resource_id v = lower (rv_azure_resource_id v) \<and> rv_last_seen_at v = now
    \<and> map_of item ''id'' \<noteq> None \<and> rv_azure_resource_id v = py_str (dict_get item ''id'')"
  by (auto simp: resource_values_of_def result_iff dict_item_def dict_get_def)

section \<open>Properties\<close>

text \<open>Values for the witnesses.\<close>

definition empty_inventory :: inventory_db where
  "empty_inventory = \<lparr>outbox = [], subscriptions = [], resource_groups = [], resources = [], sync_jobs = []\<rparr>"

definition no_filter :: resource_filter where
  "no_filter = \<lparr>rf_subscription_id = None, rf_resource_group = None, rf_resource_type = None,
     rf_location = None, rf_state = None, rf_search = None\<rparr>"

definition sample_subscription :: "uuid \<Rightarrow> subscription" where
  "sample_subscription azure_id = new_subscription \<lparr>sa_id = 1, sa_clock = instant 0, sa_tenant_id = 2,
     sa_azure_subscription_id = azure_id, sa_display_name = ''Dev'', sa_state = ''Enabled''\<rparr>"

definition sample_values :: "string \<Rightarrow> resource_values" where
  "sample_values arm_id = \<lparr>rv_azure_resource_id = arm_id, rv_normalized_resource_id = lower arm_id,
     rv_resource_type = [], rv_name = [], rv_resource_group = [], rv_location = None, rv_kind = None, rv_sku = None,
     rv_tags = JDict [], rv_properties = JDict [], rv_last_seen_at = 0\<rparr>"

definition sample_resource :: "uuid \<Rightarrow> string \<Rightarrow> resource" where
  "sample_resource i arm_id = new_resource \<lparr>xa_id = i, xa_group_id = i, xa_clock = instant 0, xa_tenant_id = 2,
     xa_subscription_id = 1, xa_values = sample_values arm_id\<rparr>"

definition sample_job :: "uuid \<Rightarrow> string \<Rightarrow> sync_job" where
  "sample_job i key = new_job \<lparr>ja_id = i, ja_clock = instant 0, ja_tenant_id = 2, ja_actor_id = 4,
     ja_entra_tenant_id = 3, ja_mode = ''full'', ja_subscription_ids = [7], ja_correlation_id = 6,
     ja_idempotency_key = key\<rparr>"

definition sample_sync_request :: sync_request where
  "sample_sync_request = \<lparr>sq_subscription_ids = [7], sq_mode = ''full'', sq_idempotency_key = ''12345678''\<rparr>"

definition sample_sync_env :: "uuid \<Rightarrow> sync_env" where
  "sample_sync_env n = \<lparr>sy_job_id = n, sy_event_id = n, sy_outbox_id = n, sy_clock = instant 5, sy_commit = None\<rparr>"

text \<open>C19: The pages of the inventory are complete: a client that follows the cursors, with any page size
  and any valid filter, sees every matching resource of its tenant exactly once, in the order
  of the ids, and the walk ends.\<close>

theorem inventory_pages_complete:
  assumes "distinct (map row_id (resources db))" "state_known f" "0 < n" "length (resources db) < k"
  shows "\<exists>rows. follow_pages k t f n None db = Some rows
    \<and> sorted_wrt (\<lambda>a b. row_id a < row_id b) rows
    \<and> set rows = {r \<in> set (resources db). tenant_id r = t \<and> resource_match f r}"
  using follow_pages_all [OF assms] matching_sorted [OF assms(1)] by (simp add: matching_def)

lemma inventory_pages_complete_witness:
  "\<exists>rows. follow_pages 3 2 no_filter 1 None (empty_inventory\<lparr>resources := [sample_resource 9 ''/b'', sample_resource 8 ''/a'']\<rparr>) = Some rows
     \<and> set rows = {sample_resource 9 ''/b'', sample_resource 8 ''/a''}"
proof -
  let ?db = "empty_inventory\<lparr>resources := [sample_resource 9 ''/b'', sample_resource 8 ''/a'']\<rparr>"
  have "distinct (map row_id (resources ?db))" by (simp add: sample_resource_def new_resource_def Let_def)
  moreover have "state_known no_filter" by (simp add: state_known_def when_present_def present_def no_filter_def)
  ultimately have "\<exists>rows. follow_pages 3 2 no_filter 1 None ?db = Some rows
      \<and> sorted_wrt (\<lambda>a b. row_id a < row_id b) rows \<and> set rows = {r \<in> set (resources ?db). tenant_id r = 2 \<and> resource_match no_filter r}"
    by (rule inventory_pages_complete) simp_all
  moreover have "{r \<in> set (resources ?db). tenant_id r = 2 \<and> resource_match no_filter r} = {sample_resource 9 ''/b'', sample_resource 8 ''/a''}"
    by (auto simp: sample_resource_def new_resource_def Let_def resource_match_def no_filter_def when_present_def present_def)
  ultimately show ?thesis by auto
qed

text \<open>C20: A synchronization job is run at most once: however the claims of the workers interleave and
  whatever rows are locked, no job is handed out twice, only queued jobs are, and as many
  claims as there are queued jobs hand out all of them when none is locked. (A job whose
  worker dies stays in the status running and is never handed out again.)\<close>

theorem sync_jobs_claimed_once:
  assumes "distinct (map row_id rows)"
  shows "distinct (fst (claim_jobs turns rows)) \<and> set (fst (claim_jobs turns rows)) \<subseteq> queued_ids rows
    \<and> (if card (queued_ids rows) \<le> length turns \<and> (\<Union>turn \<in> set turns. fst turn) \<inter> queued_ids rows = {}
       then set (fst (claim_jobs turns rows)) = queued_ids rows else True)"
proof -
  have "set (fst (claim_jobs turns rows)) = queued_ids rows"
    if "card (queued_ids rows) \<le> length turns" "(\<Union>turn \<in> set turns. fst turn) \<inter> queued_ids rows = {}"
    using that by (intro claim_jobs_all [OF assms]) fastforce+
  with claim_jobs_once [OF assms, of turns] show ?thesis by simp
qed

lemma sync_jobs_claimed_once_witness:
  "set (fst (claim_jobs [({}, 5), ({}, 6)] [sample_job 1 ''a'', sample_job 2 ''b''])) = {1, 2}"
proof -
  have "distinct (map row_id [sample_job 1 ''a'', sample_job 2 ''b''])" by (simp add: sample_job_def new_job_def)
  moreover have "queued_ids [sample_job 1 ''a'', sample_job 2 ''b''] = {1, 2}"
    by (simp add: sample_job_def new_job_def insert_commute)
  ultimately show ?thesis
    using sync_jobs_claimed_once [of "[sample_job 1 ''a'', sample_job 2 ''b'']" "[({}, 5), ({}, 6)]"]
    by (simp add: card_insert_if)
qed

text \<open>Requesting a synchronization is idempotent: a second request of the tenant with the same key
  answers with the same job and adds none, whatever its scope and mode, though it writes an
  audit event of its own; a request that names a subscription the tenant has not registered
  is refused with 422 and changes nothing, key or not.\<close>

theorem sync_request_idempotent:
  assumes "create_sync_job_endpoint env actor q db = (Inr answer, db1)"
    and "ac_tenant_id actor2 = ac_tenant_id actor" "''inventory.sync.execute'' \<in> ac_permissions actor2"
    and "sync_request_valid q2" "sq_idempotency_key q2 = sq_idempotency_key q" "sy_commit env2 = None"
  shows "\<exists>job \<in> set (sync_jobs db1). answer = job_response job
    \<and> create_sync_job_endpoint env2 actor2 q2 db1 =
       (if set (sq_subscription_ids q2)
             \<subseteq> sb_azure_subscription_id ` {s \<in> set (subscriptions db1). tenant_id s = ac_tenant_id actor}
        then (Inr answer, db1\<lparr>outbox := outbox db1
                @ [outbox_record (sy_outbox_id env2) (py_now (sy_clock env2)) (sync_event env2 actor2 q2 job)]\<rparr>)
        else (Inl (http_error 422 ''Scope contains unregistered subscriptions''), db1))"
proof -
  obtain job where job: "request_sync env actor q db = Inr (job, db1)" and answer: "answer = job_response job"
    using assms(1) by (auto simp: create_sync_job_endpoint_def unit_of_work_transaction transaction_Inr result_iff
        split: sum.splits prod.splits)
  obtain db' where c: "create_sync_job (job_args_of env actor q) db = (job, db')" and db1: "sync_jobs db1 = sync_jobs db'"
    using job by (auto simp: request_sync_def Let_def enqueue_audit_def split: if_splits prod.splits)
  note rows = create_sync_job_rows(2) [OF c, folded db1]
  have again: "create_sync_job (job_args_of env2 actor2 q2) db1 = (job, db1)"
    using rows assms(2,5) by (intro create_sync_job_again) (simp add: job_args_of_def)
  have unknown: "filter (\<lambda>u. u \<notin> set (map sb_azure_subscription_id (list_subscriptions (\<lambda>_. 0) (ac_tenant_id actor2) db1)))
      (sq_subscription_ids q2) \<noteq> [] \<longleftrightarrow> \<not> set (sq_subscription_ids q2)
         \<subseteq> sb_azure_subscription_id ` {s \<in> set (subscriptions db1). tenant_id s = ac_tenant_id actor}"
    unfolding filter_empty_conv using assms(2) by (auto simp: list_subscriptions_def)
  have sync: "request_sync env2 actor2 q2 db1 =
      (if set (sq_subscription_ids q2) \<subseteq> sb_azure_subscription_id ` {s \<in> set (subscriptions db1). tenant_id s = ac_tenant_id actor}
       then Inr (job, enqueue_audit (sy_outbox_id env2) (py_now (sy_clock env2)) (sync_event env2 actor2 q2 job) db1)
       else Inl (http_error 422 ''Scope contains unregistered subscriptions''))"
    unfolding request_sync_def Let_def unknown by (simp add: again)
  have "job \<in> set (sync_jobs db1)" using find_Some_in [OF rows] by blast
  then show ?thesis
    using assms(3,4,6) answer
    by (intro bexI [of _ job])
      (simp_all add: create_sync_job_endpoint_def require_permission_def unit_of_work_transaction sync transaction_def
        enqueue_audit_def)
qed

lemma sync_request_idempotent_witness:
  "\<exists>answer db1. create_sync_job_endpoint (sample_sync_env 1) (sample_actor 2 {''inventory.sync.execute''}) sample_sync_request
        (empty_inventory\<lparr>subscriptions := [sample_subscription 7]\<rparr>) = (Inr answer, db1)
     \<and> fst (create_sync_job_endpoint (sample_sync_env 2) (sample_actor 2 {''inventory.sync.execute''}) sample_sync_request db1) = Inr answer"
proof -
  let ?a = "sample_actor 2 {''inventory.sync.execute''}" and ?db = "empty_inventory\<lparr>subscriptions := [sample_subscription 7]\<rparr>"
  have valid: "sync_request_valid sample_sync_request" by (simp add: sync_request_valid_def sample_sync_request_def)
  have list: "list_subscriptions (\<lambda>_. 0) 2 ?db = [sample_subscription 7]"
    by (simp add: list_subscriptions_def scan_rows_def sample_subscription_def new_subscription_def)
  obtain job db' where c: "create_sync_job (job_args_of (sample_sync_env 1) ?a sample_sync_request) ?db = (job, db')" by force
  then have r: "request_sync (sample_sync_env 1) ?a sample_sync_request ?db
      = Inr (job, enqueue_audit 1 5 (sync_event (sample_sync_env 1) ?a sample_sync_request job) db')"
    using list by (simp add: request_sync_def sample_actor_def sample_sync_request_def sample_sync_env_def instant_def
        sample_subscription_def new_subscription_def)
  then have first: "create_sync_job_endpoint (sample_sync_env 1) ?a sample_sync_request ?db
      = (Inr (job_response job), enqueue_audit 1 5 (sync_event (sample_sync_env 1) ?a sample_sync_request job) db')"
    using valid by (simp add: create_sync_job_endpoint_def require_permission_def unit_of_work_transaction sample_actor_def
        sample_sync_env_def transaction_def)
  have "subscriptions db' = [sample_subscription 7]"
    using create_sync_job_rows(1) [OF c] by (simp add: empty_inventory_def)
  then have "set (sq_subscription_ids sample_sync_request) \<subseteq> sb_azure_subscription_id `
      {s \<in> set (subscriptions (enqueue_audit 1 5 (sync_event (sample_sync_env 1) ?a sample_sync_request job) db')). tenant_id s = ac_tenant_id ?a}"
    by (auto simp: enqueue_audit_def sample_subscription_def new_subscription_def sample_sync_request_def sample_actor_def)
  moreover have "''inventory.sync.execute'' \<in> ac_permissions ?a" "sy_commit (sample_sync_env 2) = None"
    by (simp_all add: sample_actor_def sample_sync_env_def)
  ultimately have "fst (create_sync_job_endpoint (sample_sync_env 2) ?a sample_sync_request
      (enqueue_audit 1 5 (sync_event (sample_sync_env 1) ?a sample_sync_request job) db')) = Inr (job_response job)"
    using sync_request_idempotent [OF first refl _ valid refl, of "sample_sync_env 2"] by auto
  with first show ?thesis by blast
qed

text \<open>C29: A resource of Azure is stored once: after a row of the resource graph is stored the tenant has
  exactly one resource with its ARM id, whatever the letters' case, active and with the
  row's values, every other resource is as before, and all the unique keys of the inventory
  hold.\<close>

theorem resource_stored_once:
  assumes "upsert_resource new_id new_group_id clk t sub item db = Inr ((r, changed), db')" "inventory_ok db"
  shows "inventory_ok db' \<and> rs_azure_resource_id r = py_str (dict_get item ''id'')
    \<and> rs_state r = ''active'' \<and> rs_last_seen_at r = py_now clk
    \<and> py_eq (rs_properties r) (py_or (dict_get item ''properties'') (JDict []))
    \<and> filter (\<lambda>x. tenant_id x = t \<and> lower (rs_azure_resource_id x) = lower (py_str (dict_get item ''id''))) (resources db') = [r]
    \<and> filter (\<lambda>x. \<not> (tenant_id x = t \<and> rs_normalized_resource_id x = rs_normalized_resource_id r)) (resources db')
      = filter (\<lambda>x. \<not> (tenant_id x = t \<and> rs_normalized_resource_id x = rs_normalized_resource_id r)) (resources db)"
proof -
  obtain v where v: "resource_values_of (py_now clk) item = Inr v"
    and put: "put_resource \<lparr>xa_id = new_id, xa_group_id = new_group_id, xa_clock = clk, xa_tenant_id = t,
        xa_subscription_id = row_id sub, xa_values = v\<rparr> db = ((r, changed), db')"
    using assms(1) by (auto simp: upsert_resource_def result_iff)
  note rows = put_resource_rows [OF put] and vals = put_resource_values [OF put] and norm = resource_values_normal [OF v]
  have ok: "inventory_ok db'" using put_resource_ok [OF assms(2) put] norm by simp
  have props: "rv_properties v = py_or (dict_get item ''properties'') (JDict [])"
    using v by (auto simp: resource_values_of_def result_iff)
  have key: "resource_key r = (t, rs_normalized_resource_id r)" using rows(3) by simp
  have "filter (\<lambda>x. resource_key x = resource_key r) (resources db') = [r]"
    using ok rows(4) by (intro filter_key) (simp_all add: inventory_ok_def)
  moreover have "lower (rs_azure_resource_id x) = rs_normalized_resource_id x" if "x \<in> set (resources db')" for x
    using ok that by (simp add: inventory_ok_def)
  then have "filter (\<lambda>x. tenant_id x = t \<and> lower (rs_azure_resource_id x) = lower (py_str (dict_get item ''id''))) (resources db')
      = filter (\<lambda>x. resource_key x = resource_key r) (resources db')"
    using norm rows(3) by (intro filter_cong) auto
  moreover have "filter (\<lambda>x. \<not> (tenant_id x = t \<and> rs_normalized_resource_id x = rs_normalized_resource_id r)) (resources db')
      = filter (\<lambda>x. \<not> (tenant_id x = t \<and> rs_normalized_resource_id x = rs_normalized_resource_id r)) (resources db)"
    unfolding rows(1) using rows(3) by (intro resource_table.filter_put_other) simp
  ultimately show ?thesis using ok vals norm props by simp
qed

lemma resource_stored_once_witness:
  "\<exists>r changed db'. upsert_resource 9 9 (instant 5) 2 (sample_subscription 7) [(''id'', JStr ''/A'')]
       (empty_inventory\<lparr>resources := [sample_resource 8 ''/a'']\<rparr>) = Inr ((r, changed), db')
     \<and> rs_azure_resource_id r = ''/A''"
proof -
  let ?db = "empty_inventory\<lparr>resources := [sample_resource 8 ''/a'']\<rparr>"
  obtain r changed db' where up: "upsert_resource 9 9 (instant 5) 2 (sample_subscription 7) [(''id'', JStr ''/A'')] ?db = Inr ((r, changed), db')"
    by (cases "put_resource \<lparr>xa_id = 9, xa_group_id = 9, xa_clock = instant 5, xa_tenant_id = 2,
         xa_subscription_id = row_id (sample_subscription 7), xa_values = (case resource_values_of (py_now (instant 5)) [(''id'', JStr ''/A'')] of Inr v \<Rightarrow> v)\<rparr> ?db")
      (auto simp: upsert_resource_def resource_values_of_def dict_item_def dict_get_def column_text_def)
  have "inventory_ok ?db"
    by (simp add: inventory_ok_def empty_inventory_def sample_resource_def new_resource_def sample_values_def Let_def)
  from resource_stored_once [OF up this] have "rs_azure_resource_id r = ''/A''" by (simp add: dict_get_def)
  with up show ?thesis by blast
qed

end
