(* ===== verification/InventoryWorker.thy ===== *)
theory InventoryWorker
  imports Inventory
begin

text \<open>
  The synchronization of the inventory with Azure: the Azure clients
  (\<open>sentinel_inventory/azure.py\<close>), the endpoint that registers subscriptions (\<open>main.py\<close>) and
  the worker that runs the queued jobs (\<open>worker.py\<close>). The answers of Azure, of the identity
  service and of the relationship service are arguments.
\<close>

section \<open>Azure\<close>

record access_token =
  tk_token :: json
  tk_expires_on :: int

definition delegated_token_url :: "settings \<Rightarrow> uuid \<Rightarrow> uuid \<Rightarrow> string" where
  "delegated_token_url cfg t u =
     rstrip_slash (identity_service_url cfg) @ ''/api/v1/internal/azure-token/'' @ uuid_str t @ ''/'' @ uuid_str u"

definition internal_headers :: "settings \<Rightarrow> (string \<times> string) list" where
  "internal_headers cfg = [(''X-Internal-Token'', case internal_api_token cfg of None \<Rightarrow> [] | Some s \<Rightarrow> s)]"

text \<open>\<open>int(t.timestamp())\<close>: whole seconds, rounded towards zero.\<close>

definition whole_seconds :: "timestamp \<Rightarrow> int" where
  "whole_seconds t = sgn t * (\<bar>t\<bar> div 1000000)"

definition fetch_token ::
  "(string \<Rightarrow> int option) \<Rightarrow> http_get \<Rightarrow> settings \<Rightarrow> uuid \<Rightarrow> uuid \<Rightarrow> timestamp \<Rightarrow> access_token result" where
  "fetch_token int_of_text http cfg t u later =
     bindr (http (delegated_token_url cfg t u) (internal_headers cfg)) (\<lambda>(st, body).
     bindr (raise_for_status st) (\<lambda>_.
     bindr (as_dict body) (\<lambda>payload.
     bindr (expires_in int_of_text payload) (\<lambda>n.
     bindr (dict_item payload ''access_token'') (\<lambda>tok.
     Inr \<lparr>tk_token = tok, tk_expires_on = whole_seconds (later + seconds n)\<rparr>)))))"

text \<open>
  The credential keeps the last token while it is good for more than 300 seconds; \<open>now\<close> and
  \<open>later\<close> are the two readings of the clock.
\<close>

definition get_token ::
  "(string \<Rightarrow> int option) \<Rightarrow> http_get \<Rightarrow> settings \<Rightarrow> uuid \<Rightarrow> uuid \<Rightarrow> timestamp \<Rightarrow> timestamp
     \<Rightarrow> access_token option \<Rightarrow> access_token result \<times> access_token option" where
  "get_token int_of_text http cfg t u now later cached =
     (if (case cached of None \<Rightarrow> False | Some tok \<Rightarrow> seconds 300 < seconds (tk_expires_on tok) - now)
      then (Inr (the cached), cached)
      else (case fetch_token int_of_text http cfg t u later of
          Inl e \<Rightarrow> (Inl e, cached)
        | Inr tok \<Rightarrow> (Inr tok, Some tok)))"

datatype azure_credential =
    Delegated uuid uuid
  | Certificate string string string
  | Default_chain

definition provider_credential :: "settings \<Rightarrow> uuid option \<Rightarrow> azure_credential option \<Rightarrow> azure_credential" where
  "provider_credential cfg customer_tenant_id credential =
     (case credential of
        Some c \<Rightarrow> c
      | None \<Rightarrow>
          if present (azure_tenant_id cfg) \<and> present (azure_client_id cfg) \<and> present (azure_client_certificate_path cfg)
          then Certificate (case customer_tenant_id of Some t \<Rightarrow> uuid_str t | None \<Rightarrow> the (azure_tenant_id cfg))
                 (the (azure_client_id cfg)) (the (azure_client_certificate_path cfg))
          else Default_chain)"

text \<open>What the subscriptions client lists, and what the provider makes of it.\<close>

record azure_item =
  ai_subscription_id :: "string option"
  ai_display_name :: "string option"
  ai_state :: "string option"

record azure_subscription =
  az_subscription_id :: uuid
  az_display_name :: string
  az_state :: string

definition azure_subscription_of :: "azure_item \<Rightarrow> azure_subscription result" where
  "azure_subscription_of i =
     bindr (uuid_parse (the (ai_subscription_id i))) (\<lambda>u.
     Inr \<lparr>az_subscription_id = u,
          az_display_name = (if present (ai_display_name i) then the (ai_display_name i) else the (ai_subscription_id i)),
          az_state = (if present (ai_state i) then the (ai_state i) else ''Unknown'')\<rparr>)"

definition list_azure_subscriptions :: "azure_item list result \<Rightarrow> azure_subscription list result" where
  "list_azure_subscriptions listed = bindr listed (\<lambda>items.
     each_result azure_subscription_of (filter (\<lambda>i. present (ai_subscription_id i)) items))"

text \<open>
  The resource graph answers a query page by page; \<open>None\<close> is the loop that has not ended
  within the pages it was given.
\<close>

record graph_request =
  gq_subscriptions :: "string list"
  gq_top :: int
  gq_skip_token :: "string option"

type_synonym graph_client = "graph_request \<Rightarrow> (dict list option \<times> string option) result"

definition page_data :: "dict list option \<Rightarrow> dict list" where
  "page_data data = (case data of None \<Rightarrow> [] | Some rows \<Rightarrow> rows)"

fun query_pages ::
  "nat \<Rightarrow> graph_client \<Rightarrow> string list \<Rightarrow> string option \<Rightarrow> dict list \<Rightarrow> dict list result option" where
  "query_pages 0 client subs skip_token rows = None"
| "query_pages (Suc k) client subs skip_token rows =
     (case client \<lparr>gq_subscriptions = subs, gq_top = 1000, gq_skip_token = skip_token\<rparr> of
        Inl e \<Rightarrow> Some (Inl e)
      | Inr (data, next_token) \<Rightarrow>
          if present next_token then query_pages k client subs next_token (rows @ page_data data)
          else Some (Inr (rows @ page_data data)))"

definition query_resources :: "nat \<Rightarrow> graph_client \<Rightarrow> uuid list \<Rightarrow> dict list result option" where
  "query_resources pages client ids = query_pages pages client (map uuid_str ids) None []"

section \<open>Registering subscriptions\<close>

text \<open>\<open>new_id\<close> gives the id of the n-th row that is new.\<close>

fun register_all ::
  "(nat \<Rightarrow> uuid) \<Rightarrow> clock \<Rightarrow> uuid \<Rightarrow> nat \<Rightarrow> azure_subscription list \<Rightarrow> inventory_db
     \<Rightarrow> subscription list \<times> inventory_db" where
  "register_all new_id clk t n [] db = ([], db)"
| "register_all new_id clk t n (a # rest) db =
     (let (s, db) = upsert_subscription \<lparr>sa_id = new_id n, sa_clock = clk, sa_tenant_id = t,
            sa_azure_subscription_id = az_subscription_id a, sa_display_name = az_display_name a,
            sa_state = az_state a\<rparr> db;
          (ss, db) = register_all new_id clk t (Suc n) rest db
      in (s # ss, db))"

definition discover_subscriptions ::
  "(nat \<Rightarrow> uuid) \<Rightarrow> clock \<Rightarrow> exn option \<Rightarrow> azure_item list result \<Rightarrow> actor_context \<Rightarrow> inventory_db
     \<Rightarrow> json list result \<times> inventory_db" where
  "discover_subscriptions new_id clk commit_fault listed actor db =
     (case bindr (require_permission ''inventory.sync.execute'' actor) (\<lambda>_. list_azure_subscriptions listed) of
        Inl e \<Rightarrow> (Inl e, db)
      | Inr discovered \<Rightarrow>
          unit_of_work commit_fault (ac_tenant_id actor) (ac_actor_id actor)
            (on_tables (\<lambda>db. (let (rows, db) = register_all new_id clk (ac_tenant_id actor) 0 discovered db
               in Inr (map subscription_response rows, db)))) db)"

section \<open>The worker\<close>

text \<open>What the outside decides of one run.\<close>

record worker_env =
  wk_locked :: "uuid set"
  wk_claim_time :: timestamp
  wk_claim_commit :: "exn option"
  wk_listed :: "azure_item list result"
  wk_subscription_id :: "nat \<Rightarrow> uuid"
  wk_subscription_clock :: clock
  wk_subscription_commit :: "exn option"
  wk_graph :: graph_client
  wk_resource_id :: "nat \<Rightarrow> uuid"
  wk_group_id :: "nat \<Rightarrow> uuid"
  wk_resource_clock :: "nat \<Rightarrow> clock"
  wk_complete_time :: timestamp
  wk_resource_commit :: "exn option"
  wk_fail_time :: timestamp
  wk_fail_commit :: "exn option"

definition job_scope_ids :: "sync_job \<Rightarrow> (uuid list \<times> uuid) result" where
  "job_scope_ids j =
     bindr (dict_item (jb_scope j) ''subscription_ids'') (\<lambda>v.
     bindr (py_iter v) (\<lambda>items.
     bindr (each_result (\<lambda>x. uuid_parse (py_str x)) items) (\<lambda>ids.
     bindr (dict_item (jb_scope j) ''entra_tenant_id'') (\<lambda>e.
     bindr (uuid_parse (py_str e)) (\<lambda>entra.
     Inr (ids, entra))))))"

definition not_accessible :: "uuid \<Rightarrow> exn" where
  "not_accessible u = Exn ''PermissionError'' (''Subscription '' @ uuid_str u @ '' is not accessible'')"

fun register_scope ::
  "(nat \<Rightarrow> uuid) \<Rightarrow> clock \<Rightarrow> uuid \<Rightarrow> (uuid \<rightharpoonup> azure_subscription) \<Rightarrow> nat \<Rightarrow> uuid list
     \<Rightarrow> (uuid \<rightharpoonup> subscription) \<Rightarrow> inventory_db \<Rightarrow> ((uuid \<rightharpoonup> subscription) \<times> inventory_db) result" where
  "register_scope new_id clk t available n [] subs db = Inr (subs, db)"
| "register_scope new_id clk t available n (u # us) subs db =
     (case available u of
        None \<Rightarrow> Inl (not_accessible u)
      | Some source \<Rightarrow>
          (let (s, db) = upsert_subscription \<lparr>sa_id = new_id n, sa_clock = clk, sa_tenant_id = t,
                 sa_azure_subscription_id = az_subscription_id source, sa_display_name = az_display_name source,
                 sa_state = az_state source\<rparr> db
           in register_scope new_id clk t available (Suc n) us (subs(u \<mapsto> s)) db))"

definition projection :: "uuid \<Rightarrow> resource \<Rightarrow> json" where
  "projection t r = JDict
     [(''tenant_id'', JStr (uuid_str t)), (''inventory_resource_id'', JStr (uuid_str (row_id r))),
      (''azure_resource_id'', JStr (rs_azure_resource_id r)), (''name'', JStr (rs_name r)),
      (''resource_type'', JStr (rs_resource_type r)), (''resource_group'', JStr (rs_resource_group r)),
      (''properties'', rs_properties r)]"

definition subscription_of ::
  "(uuid \<rightharpoonup> subscription) \<Rightarrow> dict \<Rightarrow> subscription result" where
  "subscription_of subs item =
     bindr (dict_item item ''subscriptionId'') (\<lambda>v.
     bindr (uuid_parse (py_str v)) (\<lambda>u.
     of_option (Exn ''KeyError'' (py_repr (JUuid u))) (subs u)))"

text \<open>Every row in turn: the number of changed resources, the projections, the tables.\<close>

fun store_resources ::
  "worker_env \<Rightarrow> uuid \<Rightarrow> (uuid \<rightharpoonup> subscription) \<Rightarrow> nat \<Rightarrow> dict list \<Rightarrow> inventory_db
     \<Rightarrow> ((nat \<times> json list) \<times> inventory_db) result" where
  "store_resources env t subs n [] db = Inr ((0, []), db)"
| "store_resources env t subs n (item # items) db =
     bindr (subscription_of subs item) (\<lambda>sub.
     bindr (upsert_resource (wk_resource_id env n) (wk_group_id env n) (wk_resource_clock env n) t sub item db)
       (\<lambda>((r, was_changed), db).
     bindr (store_resources env t subs (Suc n) items db) (\<lambda>((changed, projections), db).
     Inr ((of_bool was_changed + changed, projection t r # projections), db))))"

definition update_job :: "uuid \<Rightarrow> (sync_job \<Rightarrow> sync_job) \<Rightarrow> inventory_db \<Rightarrow> inventory_db" where
  "update_job i f db = db\<lparr>sync_jobs := upd_first (\<lambda>j. row_id j = i) f (sync_jobs db)\<rparr>"

definition complete_job :: "timestamp \<Rightarrow> nat \<Rightarrow> nat \<Rightarrow> sync_job \<Rightarrow> sync_job" where
  "complete_job now seen changed j = j\<lparr>jb_status := ''completed'', jb_resources_seen := int seen,
     jb_resources_changed := int changed, jb_completed_at := Some now, jb_heartbeat_at := Some now\<rparr>"

definition error_summary :: "exn \<Rightarrow> dict" where
  "error_summary e = [(''type'', JStr (exn_type_name e)), (''message'', JStr (exn_text e))]"

definition fail_job :: "timestamp \<Rightarrow> exn \<Rightarrow> sync_job \<Rightarrow> sync_job" where
  "fail_job now e j = j\<lparr>jb_status := ''failed'', jb_error_summary := Some (error_summary e),
     jb_completed_at := Some now\<rparr>"

fun post_projections ::
  "'s http_post \<Rightarrow> settings \<Rightarrow> json list \<Rightarrow> 's \<Rightarrow> unit result \<times> 's" where
  "post_projections post cfg [] s = (Inr (), s)"
| "post_projections post cfg (p # ps) s =
     (let (r, s) = post (rstrip_slash (relationship_service_url cfg) @ ''/api/v1/internal/resources'')
                     (internal_headers cfg) p s
      in case bindr r raise_for_status of
           Inl e \<Rightarrow> (Inl e, s)
         | Inr _ \<Rightarrow> post_projections post cfg ps s)"

definition post_rebuild :: "'s http_post \<Rightarrow> settings \<Rightarrow> uuid \<Rightarrow> 's \<Rightarrow> unit result \<times> 's" where
  "post_rebuild post cfg t s =
     (let (r, s) = post (rstrip_slash (relationship_service_url cfg) @ ''/api/v1/internal/rebuild/'' @ uuid_str t)
                     (internal_headers cfg) JNull s
      in (bindr r raise_for_status, s))"

definition publish_projections ::
  "'s http_post \<Rightarrow> settings \<Rightarrow> uuid \<Rightarrow> json list \<Rightarrow> 's \<Rightarrow> unit result \<times> 's" where
  "publish_projections post cfg t ps s =
     (case post_projections post cfg ps s of
        (Inl e, s) \<Rightarrow> (Inl e, s)
      | (Inr _, s) \<Rightarrow> post_rebuild post cfg t s)"

text \<open>The first transaction of a run, after the scope has been read and Azure has answered.\<close>

definition register_job_scope ::
  "worker_env \<Rightarrow> sync_job \<Rightarrow> inventory_db \<Rightarrow> (uuid list \<times> (uuid \<rightharpoonup> subscription)) result \<times> inventory_db" where
  "register_job_scope env job db =
     (case bindr (job_scope_ids job) (\<lambda>(ids, _).
             bindr (list_azure_subscriptions (wk_listed env)) (\<lambda>listed. Inr (ids, listed))) of
        Inl e \<Rightarrow> (Inl e, db)
      | Inr (ids, listed) \<Rightarrow>
          transaction (wk_subscription_commit env) (\<lambda>db.
            bindr (register_scope (wk_subscription_id env) (wk_subscription_clock env) (tenant_id job)
                     (map_of (rev (map (\<lambda>a. (az_subscription_id a, a)) listed))) 0 ids (\<lambda>_. None) db)
              (\<lambda>(subs, db). Inr ((ids, subs), db))) db)"

text \<open>The second one: the resources and the job's result.\<close>

definition store_job_resources ::
  "worker_env \<Rightarrow> sync_job \<Rightarrow> (uuid \<rightharpoonup> subscription) \<Rightarrow> dict list \<Rightarrow> inventory_db
     \<Rightarrow> json list result \<times> inventory_db" where
  "store_job_resources env job subs rows db =
     transaction (wk_resource_commit env) (\<lambda>db.
       bindr (store_resources env (tenant_id job) subs 0 rows db) (\<lambda>((changed, projections), db).
       Inr (projections, update_job (row_id job) (complete_job (wk_complete_time env) (length rows) changed) db))) db"

definition run_job ::
  "nat \<Rightarrow> worker_env \<Rightarrow> 's http_post \<Rightarrow> settings \<Rightarrow> sync_job \<Rightarrow> inventory_db \<times> 's
     \<Rightarrow> (unit result \<times> inventory_db \<times> 's) option" where
  "run_job pages env post cfg job st =
     (let (db, s) = st in
      case register_job_scope env job db of
        (Inl e, db) \<Rightarrow> Some (Inl e, db, s)
      | (Inr (ids, subs), db) \<Rightarrow>
          (case query_resources pages (wk_graph env) ids of
             None \<Rightarrow> None
           | Some (Inl e) \<Rightarrow> Some (Inl e, db, s)
           | Some (Inr rows) \<Rightarrow>
               (case store_job_resources env job subs rows db of
                  (Inl e, db) \<Rightarrow> Some (Inl e, db, s)
                | (Inr projections, db) \<Rightarrow>
                    (let (r, s) = publish_projections post cfg (tenant_id job) projections s
                     in Some (r, db, s)))))"

text \<open>One run: \<open>Inr False\<close> when there was no job; an exception that leaves it ends the worker.\<close>

definition run_once ::
  "nat \<Rightarrow> worker_env \<Rightarrow> 's http_post \<Rightarrow> settings \<Rightarrow> inventory_db \<times> 's
     \<Rightarrow> (bool result \<times> inventory_db \<times> 's) option" where
  "run_once pages env post cfg st =
     (let (db, s) = st in
      case transaction (wk_claim_commit env) (\<lambda>db.
             (let (j, rows) = claim_job (wk_locked env) (wk_claim_time env) (sync_jobs db)
              in Inr (j, db\<lparr>sync_jobs := rows\<rparr>))) db of
        (Inl e, db) \<Rightarrow> Some (Inl e, db, s)
      | (Inr None, db) \<Rightarrow> Some (Inr False, db, s)
      | (Inr (Some job), db) \<Rightarrow>
          (case run_job pages env post cfg job (db, s) of
             None \<Rightarrow> None
           | Some (Inr _, db, s) \<Rightarrow> Some (Inr True, db, s)
           | Some (Inl e, db, s) \<Rightarrow>
               (case transaction (wk_fail_commit env) (\<lambda>db.
                       Inr ((), update_job (row_id job) (fail_job (wk_fail_time env) e) db)) db of
                  (Inl e, db) \<Rightarrow> Some (Inl e, db, s)
                | (Inr _, db) \<Rightarrow> Some (Inr True, db, s))))"

section \<open>The resource graph\<close>

text \<open>The client serves the pages, in this order, from a token on.\<close>

fun serves :: "graph_client \<Rightarrow> string list \<Rightarrow> string option \<Rightarrow> dict list list \<Rightarrow> bool" where
  "serves client subs skip_token [] = False"
| "serves client subs skip_token (p # ps) =
     (case client \<lparr>gq_subscriptions = subs, gq_top = 1000, gq_skip_token = skip_token\<rparr> of
        Inl _ \<Rightarrow> False
      | Inr (data, next_token) \<Rightarrow> page_data data = p
          \<and> (if present next_token then serves client subs next_token ps else ps = []))"

lemma query_pages_serves:
  "serves client subs tok ps \<Longrightarrow> length ps \<le> k \<Longrightarrow> query_pages k client subs tok rows = Some (Inr (rows @ concat ps))"
proof (induction k arbitrary: ps tok rows)
  case 0
  then show ?case by simp
next
  case (Suc k)
  then obtain p ps' where ps: "ps = p # ps'" by (cases ps) simp_all
  with Suc show ?case by (auto split: sum.splits prod.splits if_splits)
qed

section \<open>The tables of a run\<close>

lemma register_scope_frame:
  assumes "register_scope new_id clk t available n us subs db = Inr (subs', db')"
  shows "sync_jobs db' = sync_jobs db \<and> resources db' = resources db \<and> outbox db' = outbox db
    \<and> (if inventory_ok db then inventory_ok db' else True)"
  using assms
proof (induction us arbitrary: n subs db)
  case (Cons u us)
  then obtain source where src: "available u = Some source" by (auto split: option.splits)
  define a where "a = \<lparr>sa_id = new_id n, sa_clock = clk, sa_tenant_id = t,
      sa_azure_subscription_id = az_subscription_id source, sa_display_name = az_display_name source, sa_state = az_state source\<rparr>"
  obtain x db1 where up: "upsert_subscription a db = (x, db1)" by force
  have "register_scope new_id clk t available (Suc n) us (subs(u \<mapsto> x)) db1 = Inr (subs', db')"
    using Cons.prems src up by (simp add: a_def)
  from Cons.IH [OF this] upsert_subscription_rows(1) [OF up] upsert_subscription_ok [of db, OF _ up]
  show ?case by simp
qed simp

lemma store_resources_frame:
  assumes "store_resources env t subs n items db = Inr ((changed, ps), db')"
  shows "sync_jobs db' = sync_jobs db \<and> subscriptions db' = subscriptions db \<and> outbox db' = outbox db
    \<and> (if inventory_ok db then inventory_ok db' else True)"
  using assms
proof (induction items arbitrary: n db changed ps)
  case (Cons item items)
  then obtain sub r was db1 c qs where
      up: "upsert_resource (wk_resource_id env n) (wk_group_id env n) (wk_resource_clock env n) t sub item db = Inr ((r, was), db1)"
    and rest: "store_resources env t subs (Suc n) items db1 = Inr ((c, qs), db')"
    by (auto simp: result_iff)
  obtain v where v: "resource_values_of (py_now (wk_resource_clock env n)) item = Inr v"
    and put: "put_resource \<lparr>xa_id = wk_resource_id env n, xa_group_id = wk_group_id env n, xa_clock = wk_resource_clock env n,
        xa_tenant_id = t, xa_subscription_id = row_id sub, xa_values = v\<rparr> db = ((r, was), db1)"
    using up by (auto simp: upsert_resource_def result_iff)
  have "inventory_ok db \<Longrightarrow> inventory_ok db1"
    using put_resource_ok [OF _ put] resource_values_normal [OF v] by simp
  with Cons.IH [OF rest] put_resource_rows(5-7) [OF put] show ?case by simp
qed simp

text \<open>With a clock that has moved on since every resource was last seen, each counts as changed.\<close>

lemma store_resources_changed:
  assumes "store_resources env t subs n items db = Inr ((changed, ps), db')"
    and "strict_mono (\<lambda>k. py_now (wk_resource_clock env k))"
    and "\<forall>r \<in> set (resources db). rs_last_seen_at r < py_now (wk_resource_clock env n)"
  shows "changed = length items"
  using assms(1,3)
proof (induction items arbitrary: n db changed ps)
  case (Cons item items)
  then obtain sub r was db1 c qs where
      up: "upsert_resource (wk_resource_id env n) (wk_group_id env n) (wk_resource_clock env n) t sub item db = Inr ((r, was), db1)"
    and rest: "store_resources env t subs (Suc n) items db1 = Inr ((c, qs), db')" and changed: "changed = of_bool was + c"
    by (auto simp: result_iff)
  obtain v where v: "resource_values_of (py_now (wk_resource_clock env n)) item = Inr v"
    and put: "put_resource \<lparr>xa_id = wk_resource_id env n, xa_group_id = wk_group_id env n, xa_clock = wk_resource_clock env n,
        xa_tenant_id = t, xa_subscription_id = row_id sub, xa_values = v\<rparr> db = ((r, was), db1)"
    using up by (auto simp: upsert_resource_def result_iff)
  note norm = resource_values_normal [OF v] and rows = put_resource_rows [OF put]
  have was
    using rows(8) Cons.prems(2) norm by (auto simp: values_differ_def split: option.splits dest!: find_Some_in)
  have less: "py_now (wk_resource_clock env n) < py_now (wk_resource_clock env (Suc n))"
    using assms(2) by (simp add: strict_mono_Suc_iff)
  have "rs_last_seen_at x \<le> py_now (wk_resource_clock env n)" if "x \<in> set (resources db1)" for x
    using in_set_upsert [OF that [unfolded rows(1)]] Cons.prems(2) norm
    by (force simp: new_resource_def refresh_resource_def Let_def)
  then have "\<forall>x \<in> set (resources db1). rs_last_seen_at x < py_now (wk_resource_clock env (Suc n))"
    using less by force
  from Cons.IH [OF rest this] \<open>was\<close> show ?case by (simp add: changed)
qed simp

lemma register_job_scope_frame:
  assumes "register_job_scope env job db = (r, db')"
  shows "sync_jobs db' = sync_jobs db \<and> resources db' = resources db \<and> (if inventory_ok db then inventory_ok db' else True)"
proof (cases "bindr (job_scope_ids job) (\<lambda>(ids, _). bindr (list_azure_subscriptions (wk_listed env)) (\<lambda>listed. Inr (ids, listed)))")
  case (Inl e)
  with assms show ?thesis by (simp add: register_job_scope_def)
next
  case (Inr x)
  obtain ids listed where x: "x = (ids, listed)" by force
  show ?thesis
  proof (cases r)
    case (Inl e)
    then have "db' = db" using assms Inr x by (auto simp: register_job_scope_def dest: transaction_Inl)
    then show ?thesis by simp
  next
    case Inr': (Inr y)
    then obtain subs where "register_scope (wk_subscription_id env) (wk_subscription_clock env) (tenant_id job)
         (map_of (rev (map (\<lambda>a. (az_subscription_id a, a)) listed))) 0 ids (\<lambda>_. None) db = Inr (subs, db')"
      using assms Inr x by (auto simp: register_job_scope_def transaction_Inr result_iff)
    from register_scope_frame [OF this] show ?thesis by simp
  qed
qed

lemma store_job_resources_frame:
  assumes "store_job_resources env job subs rows db = (r, db')"
  shows "(case r of Inl e \<Rightarrow> db' = db
     | Inr ps \<Rightarrow> \<exists>changed db1. store_resources env (tenant_id job) subs 0 rows db = Inr ((changed, ps), db1)
         \<and> db' = update_job (row_id job) (complete_job (wk_complete_time env) (length rows) changed) db1)"
proof (cases r)
  case (Inl e)
  then show ?thesis using assms by (auto simp: store_job_resources_def dest: transaction_Inl)
next
  case (Inr ps)
  then show ?thesis using assms by (auto simp: store_job_resources_def transaction_Inr result_iff)
qed

lemma update_job_ok:
  "inventory_ok db \<Longrightarrow> (\<And>j. job_key (f j) = job_key j) \<Longrightarrow> inventory_ok (update_job i f db)"
  by (simp add: inventory_ok_def update_job_def map_upd_first)

section \<open>Runs\<close>

definition clock_ahead :: "worker_env \<Rightarrow> inventory_db \<Rightarrow> bool" where
  "clock_ahead env db \<longleftrightarrow> strict_mono (\<lambda>k. py_now (wk_resource_clock env k))
     \<and> (\<forall>r \<in> set (resources db). rs_last_seen_at r < py_now (wk_resource_clock env 0))"

lemma run_job_tables:
  assumes "run_job pages env post cfg job (db, s) = Some (r, db', s')" "inventory_ok db"
  shows "inventory_ok db'
    \<and> ((\<exists>e. r = Inl e) \<and> sync_jobs db' = sync_jobs db
       \<or> (\<exists>seen changed. sync_jobs db' = upd_first (\<lambda>j. row_id j = row_id job)
             (complete_job (wk_complete_time env) seen changed) (sync_jobs db)
           \<and> (clock_ahead env db \<longrightarrow> changed = seen)))"
proof -
  obtain reg db1 where reg: "register_job_scope env job db = (reg, db1)" by force
  note frame = register_job_scope_frame [OF reg]
  show ?thesis
  proof (cases reg)
    case (Inl e)
    with assms reg frame show ?thesis by (auto simp: run_job_def)
  next
    case (Inr y)
    then obtain ids subs where y: "reg = Inr (ids, subs)" by (cases y) simp
    then obtain q where q: "query_resources pages (wk_graph env) ids = Some q"
      using assms(1) reg by (cases "query_resources pages (wk_graph env) ids") (simp_all add: run_job_def)
    show ?thesis
    proof (cases q)
      case (Inl e)
      with assms reg y q frame show ?thesis by (auto simp: run_job_def)
    next
      case (Inr rows)
      obtain st db2 where st: "store_job_resources env job subs rows db1 = (st, db2)" by force
      note store = store_job_resources_frame [OF st]
      show ?thesis
      proof (cases st)
        case (Inl e)
        with assms reg y q Inr st store frame show ?thesis by (auto simp: run_job_def)
      next
        case Inr': (Inr ps)
        have "db' = db2" using assms(1) reg y q Inr st Inr' by (auto simp: run_job_def split: prod.splits)
        moreover obtain changed db3 where c: "store_resources env (tenant_id job) subs 0 rows db1 = Inr ((changed, ps), db3)"
            "db2 = update_job (row_id job) (complete_job (wk_complete_time env) (length rows) changed) db3"
          using store Inr' by auto
        moreover note store_resources_frame [OF c(1)]
        moreover have "clock_ahead env db \<longrightarrow> changed = length rows"
          using store_resources_changed [OF c(1)] frame by (simp add: clock_ahead_def)
        moreover have "inventory_ok db3 \<Longrightarrow> inventory_ok db2"
          unfolding c(2) by (rule update_job_ok) (simp_all add: complete_job_def)
        moreover have "sync_jobs db2 = upd_first (\<lambda>j. row_id j = row_id job)
            (complete_job (wk_complete_time env) (length rows) changed) (sync_jobs db3)"
          by (simp add: c(2) update_job_def)
        ultimately show ?thesis using frame assms(2) by simp blast
      qed
    qed
  qed
qed

lemma run_once_tables:
  assumes claim: "claim_job (wk_locked env) (wk_claim_time env) (sync_jobs db) = (Some job, rows)"
    and run: "run_once pages env post cfg (db, s) = Some (Inr True, db', s')"
    and ok: "inventory_ok db"
  shows "inventory_ok db'
    \<and> (\<exists>f. sync_jobs db' = upd_first (\<lambda>j. row_id j = row_id job) f rows
       \<and> ((\<exists>seen changed. f = complete_job (wk_complete_time env) seen changed
              \<and> (clock_ahead env db \<longrightarrow> changed = seen))
          \<or> (\<exists>e. f = fail_job (wk_fail_time env) e)
          \<or> (\<exists>e seen changed. f = fail_job (wk_fail_time env) e \<circ> complete_job (wk_complete_time env) seen changed)))"
proof -
  let ?db = "db\<lparr>sync_jobs := rows\<rparr>"
  have commit: "wk_claim_commit env = None" using run claim
    by (cases "wk_claim_commit env") (simp_all add: run_once_def transaction_def)
  obtain r db1 s1 where job: "run_job pages env post cfg job (?db, s) = Some (r, db1, s1)"
    using run claim commit by (auto simp: run_once_def transaction_def split: option.splits)
  have "map job_key rows = map job_key (sync_jobs db)"
    using claim unfolding claim_job_def by (rule sync_queue.claim_Some) (simp add: map_upd_first start_job_def)
  then have "inventory_ok ?db" using ok by (simp add: inventory_ok_def)
  note tables = run_job_tables [OF job this]
  have ahead: "clock_ahead env ?db = clock_ahead env db" by (simp add: clock_ahead_def)
  show ?thesis
  proof (cases r)
    case (Inr u)
    then have "db' = db1" using run claim commit job by (simp add: run_once_def transaction_def)
    with tables Inr obtain seen changed where "inventory_ok db'"
        "sync_jobs db' = upd_first (\<lambda>j. row_id j = row_id job) (complete_job (wk_complete_time env) seen changed) rows"
        "clock_ahead env db \<longrightarrow> changed = seen"
      using ahead by auto
    then show ?thesis by (intro conjI exI [of _ "complete_job (wk_complete_time env) seen changed"]) blast+
  next
    case (Inl e)
    then have db': "db' = update_job (row_id job) (fail_job (wk_fail_time env) e) db1"
      using run claim commit job by (auto simp: run_once_def transaction_def split: option.splits)
    have twice: "upd_first (\<lambda>j. row_id j = i) (fail_job n e) (upd_first (\<lambda>j. row_id j = i) (complete_job m a b) js)
        = upd_first (\<lambda>j. row_id j = i) (fail_job n e \<circ> complete_job m a b) js" for i n m a b js
      by (induction js) (simp_all add: complete_job_def)
    have "inventory_ok db'"
      unfolding db' using tables by (intro update_job_ok) (simp_all add: fail_job_def)
    moreover from tables have "sync_jobs db1 = rows
        \<or> (\<exists>seen changed. sync_jobs db1 = upd_first (\<lambda>j. row_id j = row_id job) (complete_job (wk_complete_time env) seen changed) rows)"
      by auto
    ultimately consider "inventory_ok db'" "sync_jobs db' = upd_first (\<lambda>j. row_id j = row_id job) (fail_job (wk_fail_time env) e) rows"
      | seen changed where "inventory_ok db'" "sync_jobs db' = upd_first (\<lambda>j. row_id j = row_id job)
          (fail_job (wk_fail_time env) e \<circ> complete_job (wk_complete_time env) seen changed) rows"
      by (auto simp: db' update_job_def twice)
    then show ?thesis by cases blast+
  qed
qed

lemma run_once_job:
  assumes claim: "claim_job (wk_locked env) (wk_claim_time env) (sync_jobs db) = (Some job, rows)"
    and run: "run_once pages env post cfg (db, s) = Some (Inr True, db', s')"
    and ok: "inventory_ok db" and ids: "distinct (map row_id (sync_jobs db))"
  obtains (completed) seen changed where
      "find (\<lambda>j. row_id j = row_id job) (sync_jobs db') = Some (complete_job (wk_complete_time env) seen changed job)"
      "clock_ahead env db \<longrightarrow> changed = seen"
  | (failed) e j0 where
      "find (\<lambda>j. row_id j = row_id job) (sync_jobs db') = Some (fail_job (wk_fail_time env) e j0)"
proof -
  obtain f where jobs: "sync_jobs db' = upd_first (\<lambda>j. row_id j = row_id job) f rows"
    and f: "(\<exists>seen changed. f = complete_job (wk_complete_time env) seen changed \<and> (clock_ahead env db \<longrightarrow> changed = seen))
      \<or> (\<exists>e. f = fail_job (wk_fail_time env) e)
      \<or> (\<exists>e seen changed. f = fail_job (wk_fail_time env) e \<circ> complete_job (wk_complete_time env) seen changed)"
    using run_once_tables [OF claim run ok] by blast
  obtain r where r: "r \<in> set (sync_jobs db)" "job = start_job (wk_claim_time env) r"
      "rows = upd_first (\<lambda>x. row_id x = row_id r) (start_job (wk_claim_time env)) (sync_jobs db)"
    using claim unfolding claim_job_def by (rule sync_queue.claim_Some)
  have "find (\<lambda>j. row_id j = row_id job) rows = Some job"
    unfolding r(3) using find_unique [OF ids r(1) refl]
    by (simp add: row_simps r(2) start_job_def)
  then have found: "find (\<lambda>j. row_id j = row_id job) (sync_jobs db') = Some (f job)"
    using f unfolding jobs by (subst find_upd_first_same) (auto simp: complete_job_def fail_job_def)
  from f show ?thesis
  proof (elim disjE exE conjE)
    fix seen changed
    assume "f = complete_job (wk_complete_time env) seen changed" "clock_ahead env db \<longrightarrow> changed = seen"
    with found show ?thesis by (intro completed [of seen changed]) simp_all
  next
    fix e
    assume "f = fail_job (wk_fail_time env) e"
    with found show ?thesis by (intro failed [of e job]) simp
  next
    fix e seen changed
    assume "f = fail_job (wk_fail_time env) e \<circ> complete_job (wk_complete_time env) seen changed"
    with found show ?thesis by (intro failed [of e "complete_job (wk_complete_time env) seen changed job"]) simp
  qed
qed

lemma run_once_others:
  assumes claim: "claim_job (wk_locked env) (wk_claim_time env) (sync_jobs db) = (Some job, rows)"
    and run: "run_once pages env post cfg (db, s) = Some (Inr True, db', s')" and ok: "inventory_ok db"
  shows "filter (\<lambda>j. row_id j \<noteq> row_id job) (sync_jobs db') = filter (\<lambda>j. row_id j \<noteq> row_id job) (sync_jobs db)"
proof -
  obtain f where jobs: "sync_jobs db' = upd_first (\<lambda>j. row_id j = row_id job) f rows"
      and f: "row_id (f j) = row_id j" for j
    using run_once_tables [OF claim run ok] by (auto simp: complete_job_def fail_job_def)
  obtain r where "job = start_job (wk_claim_time env) r"
      and r: "rows = upd_first (\<lambda>x. row_id x = row_id r) (start_job (wk_claim_time env)) (sync_jobs db)"
    using claim unfolding claim_job_def by (rule sync_queue.claim_Some)
  then have "row_id r = row_id job" by (simp add: start_job_def)
  with f show ?thesis
    unfolding jobs r by (simp add: filter_upd_first_other start_job_def)
qed

text \<open>
  The claimed job and the others after \<open>run_job\<close>, whatever it returned; then what the report of a
  failure makes of them.
\<close>

lemma claimed_rows:
  assumes "claim_job locked now js = (Some job, rows)" "distinct (map row_id js)"
  shows "find (\<lambda>j. row_id j = row_id job) rows = Some job"
    "filter (\<lambda>j. row_id j \<noteq> row_id job) rows = filter (\<lambda>j. row_id j \<noteq> row_id job) js"
    "map job_key rows = map job_key js"
proof -
  obtain r where r: "r \<in> set js" "job = start_job now r" "rows = upd_first (\<lambda>x. row_id x = row_id r) (start_job now) js"
    using assms(1) unfolding claim_job_def by (rule sync_queue.claim_Some)
  show "find (\<lambda>j. row_id j = row_id job) rows = Some job"
    unfolding r(3) using find_unique [OF assms(2) r(1) refl] by (simp add: row_simps r(2) start_job_def)
  show "filter (\<lambda>j. row_id j \<noteq> row_id job) rows = filter (\<lambda>j. row_id j \<noteq> row_id job) js"
    unfolding r(3) by (simp add: filter_upd_first_other r(2) start_job_def)
  show "map job_key rows = map job_key js" unfolding r(3) by (simp add: map_upd_first start_job_def)
qed

lemma run_job_rows:
  assumes "run_job pages env post cfg job (db, s) = Some (r, db', s')" "inventory_ok db"
    and "find (\<lambda>j. row_id j = row_id job) (sync_jobs db) = Some job"
  shows "\<exists>j. find (\<lambda>j. row_id j = row_id job) (sync_jobs db') = Some j
      \<and> (r = Inr () \<longrightarrow> jb_status j = ''completed'' \<and> jb_completed_at j = Some (wk_complete_time env)
          \<and> jb_error_summary j = jb_error_summary job)"
    "filter (\<lambda>j. row_id j \<noteq> row_id job) (sync_jobs db') = filter (\<lambda>j. row_id j \<noteq> row_id job) (sync_jobs db)"
proof -
  from run_job_tables [OF assms(1,2)] consider (kept) "r \<noteq> Inr ()" "sync_jobs db' = sync_jobs db"
    | (finished) seen changed where "sync_jobs db' = upd_first (\<lambda>j. row_id j = row_id job)
        (complete_job (wk_complete_time env) seen changed) (sync_jobs db)" by auto
  note cases = this
  show "\<exists>j. find (\<lambda>j. row_id j = row_id job) (sync_jobs db') = Some j
      \<and> (r = Inr () \<longrightarrow> jb_status j = ''completed'' \<and> jb_completed_at j = Some (wk_complete_time env)
          \<and> jb_error_summary j = jb_error_summary job)"
    using cases
  proof cases
    case finished
    then show ?thesis using assms(3) by (simp add: find_upd_first_same complete_job_def)
  qed (use assms(3) in simp)
  show "filter (\<lambda>j. row_id j \<noteq> row_id job) (sync_jobs db') = filter (\<lambda>j. row_id j \<noteq> row_id job) (sync_jobs db)"
    using cases by cases (simp_all add: filter_upd_first_other complete_job_def)
qed

lemma failure_rows:
  assumes "find (\<lambda>j. row_id j = i) (sync_jobs db) = Some j" "inventory_ok db"
  shows "find (\<lambda>j. row_id j = i) (sync_jobs (update_job i (fail_job now e) db)) = Some (fail_job now e j)"
    "filter (\<lambda>j. row_id j \<noteq> i) (sync_jobs (update_job i (fail_job now e) db)) = filter (\<lambda>j. row_id j \<noteq> i) (sync_jobs db)"
    "inventory_ok (update_job i (fail_job now e) db)"
  using assms by (simp_all add: update_job_def find_upd_first_same filter_upd_first_other fail_job_def update_job_ok [unfolded update_job_def])

lemma run_once_runs:
  assumes "claim_job (wk_locked env) (wk_claim_time env) (sync_jobs db) = (Some job, rows)" "wk_claim_commit env = None"
  shows "run_once pages env post cfg (db, s) =
    (case run_job pages env post cfg job (db\<lparr>sync_jobs := rows\<rparr>, s) of
       None \<Rightarrow> None
     | Some (Inr _, db1, s1) \<Rightarrow> Some (Inr True, db1, s1)
     | Some (Inl e, db1, s1) \<Rightarrow>
         (case wk_fail_commit env of
            None \<Rightarrow> Some (Inr True, update_job (row_id job) (fail_job (wk_fail_time env) e) db1, s1)
          | Some x \<Rightarrow> Some (Inl x, db1, s1)))"
  using assms by (auto simp: run_once_def transaction_def split: option.splits sum.splits)

lemma run_job_returns:
  assumes "\<forall>ids. query_resources pages (wk_graph env) ids \<noteq> None"
  shows "\<exists>r db' s'. run_job pages env post cfg job st = Some (r, db', s')"
proof -
  have ends: "\<And>ids. query_resources pages (wk_graph env) ids = None \<Longrightarrow> False" using assms by blast
  have "run_job pages env post cfg job st \<noteq> None"
    by (auto simp: run_job_def Let_def split: prod.splits sum.splits option.splits dest: ends)
  then show ?thesis by (metis option.exhaust prod_cases3)
qed

section \<open>Properties\<close>

text \<open>Values for the witnesses: one subscription, one resource, services that answer 200.\<close>

definition sample_item :: dict where
  "sample_item = [(''id'', JStr ''/A''), (''subscriptionId'', JStr (uuid_str 7))]"

definition sample_worker :: "azure_item list \<Rightarrow> worker_env" where
  "sample_worker items = \<lparr>wk_locked = {}, wk_claim_time = 5, wk_claim_commit = None, wk_listed = Inr items,
     wk_subscription_id = of_nat, wk_subscription_clock = instant 6, wk_subscription_commit = None,
     wk_graph = (\<lambda>_. Inr (Some [sample_item], None)), wk_resource_id = of_nat, wk_group_id = of_nat,
     wk_resource_clock = (\<lambda>k. instant (7 + int k)), wk_complete_time = 8, wk_resource_commit = None,
     wk_fail_time = 9, wk_fail_commit = None\<rparr>"

definition sample_azure :: azure_item where
  "sample_azure = \<lparr>ai_subscription_id = Some (uuid_str 7), ai_display_name = None, ai_state = None\<rparr>"

definition one_job :: inventory_db where
  "one_job = empty_inventory\<lparr>sync_jobs := [sample_job 1 ''12345678'']\<rparr>"

lemma one_job_claim: "claim_job {} 5 (sync_jobs one_job) = (Some (start_job 5 (sample_job 1 ''12345678'')), [start_job 5 (sample_job 1 ''12345678'')])"
  by (simp add: claim_job_def claim_row_def select_first_def one_job_def job_queued_def sample_job_def new_job_def)

lemma one_job_ok: "inventory_ok one_job" "distinct (map row_id (sync_jobs one_job))"
  by (simp_all add: inventory_ok_def one_job_def empty_inventory_def)

lemma sample_scope: "job_scope_ids (start_job 5 (sample_job 1 k)) = Inr ([7], 3)"
  by (simp add: job_scope_ids_def start_job_def sample_job_def new_job_def dict_item_def)

lemma sample_run_fails:
  "\<exists>db'. run_once 1 (sample_worker []) (\<lambda>_ _ _ s. (Inr 200, s)) default_settings (one_job, ()) = Some (Inr True, db', ())"
proof -
  let ?j = "start_job 5 (sample_job 1 ''12345678'')"
  have "register_job_scope (sample_worker []) ?j db = (Inl (not_accessible 7), db)" for db
    by (simp add: register_job_scope_def sample_scope sample_worker_def list_azure_subscriptions_def)
  then show ?thesis
    using one_job_claim by (simp add: run_once_def run_job_def transaction_def sample_worker_def)
qed

lemma sample_run_completes:
  "\<exists>db'. run_once 1 (sample_worker [sample_azure]) (\<lambda>_ _ _ s. (Inr 200, s)) default_settings (one_job, ()) = Some (Inr True, db', ())"
proof -
  let ?j = "start_job 5 (sample_job 1 ''12345678'')" and ?env = "sample_worker [sample_azure]"
  have az: "list_azure_subscriptions (Inr [sample_azure])
      = Inr [\<lparr>az_subscription_id = 7, az_display_name = uuid_str 7, az_state = ''Unknown''\<rparr>]"
  proof -
    have "uuid_str 7 \<noteq> []" using length_uuid_str [of 7] by (cases "uuid_str 7") simp_all
    then show ?thesis
      by (simp add: list_azure_subscriptions_def sample_azure_def azure_subscription_of_def present_def)
  qed
  have reg: "\<exists>x db1. register_job_scope ?env ?j db = (Inr ([7], [7 \<mapsto> x]), db1)" for db
    by (simp add: register_job_scope_def sample_scope sample_worker_def az transaction_def split: prod.splits) blast
  have st: "\<exists>ps db2. store_job_resources ?env ?j [7 \<mapsto> x] [sample_item] db = (Inr ps, db2)" for x db
    by (simp add: store_job_resources_def transaction_def sample_worker_def subscription_of_def sample_item_def dict_item_def
        upsert_resource_def resource_values_of_def dict_get_def column_text_def split: prod.splits)
  have pub: "publish_projections (\<lambda>_ _ _ s. (Inr 200, s)) default_settings t ps () = (Inr (), ())" for t ps
  proof -
    have "post_projections (\<lambda>_ _ _ s. (Inr 200, s)) default_settings ps () = (Inr (), ())"
      by (induction ps) (simp_all add: raise_for_status_def success_status_def)
    then show ?thesis by (simp add: publish_projections_def post_rebuild_def raise_for_status_def success_status_def)
  qed
  obtain x db1 where r: "register_job_scope ?env ?j (one_job\<lparr>sync_jobs := [?j]\<rparr>) = (Inr ([7], [7 \<mapsto> x]), db1)" using reg by blast
  obtain ps db2 where s: "store_job_resources ?env ?j [7 \<mapsto> x] [sample_item] db1 = (Inr ps, db2)" using st by blast
  have q: "query_resources 1 (wk_graph ?env) [7] = Some (Inr [sample_item])"
    by (simp add: query_resources_def sample_worker_def page_data_def present_def)
  have "run_job 1 ?env (\<lambda>_ _ _ s. (Inr 200, s)) default_settings ?j (one_job\<lparr>sync_jobs := [?j]\<rparr>, ()) = Some (Inr (), db2, ())"
    by (simp add: run_job_def r s q pub del: One_nat_def)
  then show ?thesis
    using one_job_claim by (simp add: run_once_def transaction_def) (simp add: sample_worker_def)
qed

text \<open>C21: When the claim of a job is committed and the pages of the resource graph end, a run of the
  worker returns and settles the job. If the work succeeds, the job is completed; if it raises,
  whatever Azure, the second commit or the relationship service did, the job is failed with the
  class and the message of that very error, or, when not even this report can be committed, the
  error of the commit leaves the run and the tables are as the work left them. Every other job
  is as before, and the unique keys of the inventory hold.\<close>

theorem sync_run_settles_job:
  assumes "claim_job (wk_locked env) (wk_claim_time env) (sync_jobs db) = (Some job, rows)"
    and "wk_claim_commit env = None" "\<forall>ids. query_resources pages (wk_graph env) ids \<noteq> None"
    and "inventory_ok db" "distinct (map row_id (sync_jobs db))"
  shows "\<exists>r db1 out db' s' j. run_job pages env post cfg job (db\<lparr>sync_jobs := rows\<rparr>, s) = Some (r, db1, s')
    \<and> run_once pages env post cfg (db, s) = Some (out, db', s')
    \<and> inventory_ok db'
    \<and> filter (\<lambda>j. row_id j \<noteq> row_id job) (sync_jobs db') = filter (\<lambda>j. row_id j \<noteq> row_id job) (sync_jobs db)
    \<and> find (\<lambda>j. row_id j = row_id job) (sync_jobs db') = Some j
    \<and> (case (r, wk_fail_commit env) of
         (Inr _, _) \<Rightarrow> out = Inr True \<and> jb_status j = ''completed'' \<and> jb_error_summary j = jb_error_summary job
           \<and> jb_completed_at j = Some (wk_complete_time env)
       | (Inl e, None) \<Rightarrow> out = Inr True \<and> jb_status j = ''failed'' \<and> jb_error_summary j = Some (error_summary e)
           \<and> jb_completed_at j = Some (wk_fail_time env)
       | (Inl e, Some x) \<Rightarrow> out = Inl x \<and> db' = db1)"
proof -
  obtain r db1 s' where job: "run_job pages env post cfg job (db\<lparr>sync_jobs := rows\<rparr>, s) = Some (r, db1, s')"
    using run_job_returns [OF assms(3), of post cfg job "(db\<lparr>sync_jobs := rows\<rparr>, s)"] by blast
  note rows = claimed_rows [OF assms(1,5)]
  have ok: "inventory_ok (db\<lparr>sync_jobs := rows\<rparr>)" using assms(4) rows(3) by (simp add: inventory_ok_def)
  from run_job_rows [OF job ok] rows(1,2) obtain j where
      j: "find (\<lambda>j. row_id j = row_id job) (sync_jobs db1) = Some j"
      "r = Inr () \<Longrightarrow> jb_status j = ''completed'' \<and> jb_completed_at j = Some (wk_complete_time env)
          \<and> jb_error_summary j = jb_error_summary job"
    and others: "filter (\<lambda>j. row_id j \<noteq> row_id job) (sync_jobs db1) = filter (\<lambda>j. row_id j \<noteq> row_id job) (sync_jobs db)" by auto
  have ok1: "inventory_ok db1" using run_job_tables [OF job ok] by blast
  note once = run_once_runs [OF assms(1,2), of pages post cfg s] and fails = failure_rows [OF j(1) ok1]
  show ?thesis
  proof (cases r)
    case (Inr u)
    with once job ok1 others j show ?thesis by simp
  next
    case (Inl e)
    with once job ok1 others j fails show ?thesis
      by (cases "wk_fail_commit env") (simp_all add: fail_job_def)
  qed
qed

lemma sync_run_settles_job_witness:
  "\<exists>db' j. run_once 1 (sample_worker []) (\<lambda>_ _ _ s. (Inr 200, s)) default_settings (one_job, ()) = Some (Inr True, db', ())
     \<and> find (\<lambda>j. row_id j = 1) (sync_jobs db') = Some j
     \<and> jb_status j = ''failed'' \<and> jb_error_summary j = Some (error_summary (not_accessible 7))"
proof -
  let ?env = "sample_worker []" and ?job = "start_job 5 (sample_job 1 ''12345678'')"
  have claim: "claim_job (wk_locked ?env) (wk_claim_time ?env) (sync_jobs one_job) = (Some ?job, [?job])"
    using one_job_claim by (simp add: sample_worker_def)
  have commit: "wk_claim_commit ?env = None" "wk_fail_commit ?env = None" by (simp_all add: sample_worker_def)
  have ends: "\<forall>ids. query_resources 1 (wk_graph ?env) ids \<noteq> None"
    by (simp add: query_resources_def sample_worker_def present_def)
  have work: "run_job 1 ?env (\<lambda>_ _ _ s. (Inr 200, s)) default_settings ?job st = Some (Inl (not_accessible 7), st)" for st
    by (simp add: run_job_def register_job_scope_def sample_scope sample_worker_def list_azure_subscriptions_def split: prod.splits)
  have "row_id ?job = 1" by (simp add: start_job_def sample_job_def new_job_def)
  with sync_run_settles_job [OF claim commit(1) ends one_job_ok, of "\<lambda>_ _ _ s. (Inr 200, s)" default_settings "()"]
  show ?thesis by (auto simp: work commit(2) simp del: One_nat_def)
qed

text \<open>A completed run reports every resource it saw as changed: the repository compares the moment
  the resource was last seen with the current one, so when the clock has moved on since,
  resources_changed is resources_seen, even if nothing in Azure changed.\<close>

theorem sync_reports_everything_changed:
  assumes "claim_job (wk_locked env) (wk_claim_time env) (sync_jobs db) = (Some job, rows)"
    and "run_once pages env post cfg (db, s) = Some (Inr True, db', s')"
    and "inventory_ok db" "distinct (map row_id (sync_jobs db))" "clock_ahead env db"
  shows "\<exists>j. find (\<lambda>j. row_id j = row_id job) (sync_jobs db') = Some j
    \<and> (if jb_status j = ''completed'' then jb_resources_changed j = jb_resources_seen j else jb_status j = ''failed'')"
proof (rule run_once_job [OF assms(1-4)])
  fix e j0
  assume "find (\<lambda>j. row_id j = row_id job) (sync_jobs db') = Some (fail_job (wk_fail_time env) e j0)"
  then show ?thesis by (simp add: fail_job_def)
qed (use assms(5) in \<open>auto simp: complete_job_def\<close>)

lemma sync_reports_everything_changed_witness:
  "\<exists>db'. run_once 1 (sample_worker [sample_azure]) (\<lambda>_ _ _ s. (Inr 200, s)) default_settings (one_job, ()) = Some (Inr True, db', ())
     \<and> (\<exists>j. find (\<lambda>j. row_id j = 1) (sync_jobs db') = Some j)"
proof -
  let ?env = "sample_worker [sample_azure]"
  obtain db' where run: "run_once 1 ?env (\<lambda>_ _ _ s. (Inr 200, s)) default_settings (one_job, ()) = Some (Inr True, db', ())"
    using sample_run_completes by blast
  have claim: "claim_job (wk_locked ?env) (wk_claim_time ?env) (sync_jobs one_job)
      = (Some (start_job 5 (sample_job 1 ''12345678'')), [start_job 5 (sample_job 1 ''12345678'')])"
    using one_job_claim by (simp add: sample_worker_def)
  have "clock_ahead ?env one_job"
    by (simp add: clock_ahead_def strict_mono_def sample_worker_def instant_def one_job_def empty_inventory_def)
  from sync_reports_everything_changed [OF claim run one_job_ok this] have
    "\<exists>j. find (\<lambda>j. row_id j = 1) (sync_jobs db') = Some j"
    by (auto simp: start_job_def sample_job_def new_job_def)
  with run show ?thesis by blast
qed

text \<open>C40: The query of the resource graph follows every page: when the service serves a chain of pages,
  the loop ends after as many requests as there are pages and returns all their rows in
  order.\<close>

theorem graph_query_complete:
  assumes "serves client (map uuid_str ids) None ps" "length ps \<le> pages"
  shows "query_resources pages client ids = Some (Inr (concat ps))"
  using query_pages_serves [OF assms] by (simp add: query_resources_def)

lemma graph_query_complete_witness:
  "query_resources 2 (\<lambda>q. Inr (Some [sample_item], if gq_skip_token q = None then Some ''t'' else None)) [7]
   = Some (Inr [sample_item, sample_item])"
proof -
  have "serves (\<lambda>q. Inr (Some [sample_item], if gq_skip_token q = None then Some ''t'' else None)) (map uuid_str [7]) None
      [[sample_item], [sample_item]]"
    by (simp add: page_data_def present_def)
  from graph_query_complete [OF this, of 2] show ?thesis by simp
qed

end
