(* ===== verification/Schemas.thy ===== *)
theory Schemas
  imports AuditLog IdentityMain InventoryWorker
begin

text \<open>
  The response models (\<open>schemas.py\<close> of the identity, inventory and audit services): what a
  client may rely on of the shape of an answer. A model is a schema; \<open>conforms\<close> decides
  whether a value has that shape. The models of the other services are in \<open>Services\<close>.
\<close>

section \<open>Schemas\<close>

datatype schema =
    S_str
  | S_uuid
  | S_int
  | S_bool
  | S_float
  | S_decimal
  | S_datetime
  | S_none
  | S_object
  | S_nullable schema
  | S_list schema
  | S_dict schema
  | S_model "(string \<times> schema) list"

text \<open>The text of a moment: year, month and day, hour, minute and second, a fraction, and \<open>Z\<close>.\<close>

definition is_number :: "string \<Rightarrow> bool" where
  "is_number s = (s \<noteq> [] \<and> list_all (\<lambda>c. CHR ''0'' \<le> c \<and> c \<le> CHR ''9'') s)"

definition is_datetime :: "string \<Rightarrow> bool" where
  "is_datetime s = (case split_on CHR ''T'' s of
       [day, clk] \<Rightarrow>
         (case split_on CHR ''-'' day of [y, m, d] \<Rightarrow> is_number y \<and> is_number m \<and> is_number d | _ \<Rightarrow> False)
         \<and> (case split_on CHR '':'' clk of
              [h, m, r] \<Rightarrow> is_number h \<and> is_number m \<and> r \<noteq> [] \<and> last r = CHR ''Z''
                \<and> list_all is_number (split_on CHR ''.'' (butlast r))
            | _ \<Rightarrow> False)
     | _ \<Rightarrow> False)"

definition is_decimal :: "string \<Rightarrow> bool" where
  "is_decimal s = (case split_on CHR ''.'' s of [whole, fraction] \<Rightarrow> is_number whole \<and> is_number fraction | _ \<Rightarrow> False)"

fun conforms :: "schema \<Rightarrow> json \<Rightarrow> bool" and conforms_fields :: "(string \<times> schema) list \<Rightarrow> (string \<times> json) list \<Rightarrow> bool" where
  "conforms S_str v = (case v of JStr _ \<Rightarrow> True | _ \<Rightarrow> False)"
| "conforms S_uuid v = (case v of JUuid _ \<Rightarrow> True | JStr s \<Rightarrow> (case uuid_parse s of Inr u \<Rightarrow> uuid_str u = s | Inl _ \<Rightarrow> False)
     | _ \<Rightarrow> False)"
| "conforms S_int v = (case v of JInt _ \<Rightarrow> True | _ \<Rightarrow> False)"
| "conforms S_bool v = (case v of JBool _ \<Rightarrow> True | _ \<Rightarrow> False)"
| "conforms S_float v = (case v of JFloat s \<Rightarrow> is_decimal s | _ \<Rightarrow> False)"
| "conforms S_decimal v = (case v of JStr s \<Rightarrow> is_decimal s | _ \<Rightarrow> False)"
| "conforms S_none v = (v = JNull)"
| "conforms S_datetime v = (case v of JStr s \<Rightarrow> is_datetime s | _ \<Rightarrow> False)"
| "conforms S_object v = (case v of JDict _ \<Rightarrow> True | _ \<Rightarrow> False)"
| "conforms (S_nullable s) v = (v = JNull \<or> conforms s v)"
| "conforms (S_list s) v = (case v of JList xs \<Rightarrow> list_all (conforms s) xs | _ \<Rightarrow> False)"
| "conforms (S_dict s) v = (case v of JDict d \<Rightarrow> list_all (\<lambda>p. conforms s (snd p)) d | _ \<Rightarrow> False)"
| "conforms (S_model fs) v = (case v of JDict d \<Rightarrow> conforms_fields fs d | _ \<Rightarrow> False)"
| "conforms_fields [] [] = True"
| "conforms_fields ((k, s) # fs) ((k', v) # d) = (k = k' \<and> conforms s v \<and> conforms_fields fs d)"
| "conforms_fields _ _ = False"

section \<open>The response models\<close>

definition PermissionResponse :: schema where
  "PermissionResponse = S_model [(''name'', S_str), (''description'', S_str)]"

definition RoleResponse :: schema where
  "RoleResponse = S_model [(''id'', S_uuid), (''name'', S_str), (''description'', S_nullable S_str),
     (''permissions'', S_list S_str)]"

definition ProfileResponse :: schema where
  "ProfileResponse = S_model [(''user_id'', S_uuid), (''tenant_id'', S_uuid), (''entra_tenant_id'', S_uuid),
     (''entra_object_id'', S_uuid), (''display_name'', S_str), (''principal_name'', S_nullable S_str),
     (''roles'', S_list S_str), (''permissions'', S_list S_str)]"

definition LoginResponse :: schema where
  "LoginResponse = S_model [(''authorization_url'', S_str)]"

definition AzureAccessTokenResponse :: schema where
  "AzureAccessTokenResponse = S_model [(''access_token'', S_str), (''expires_in'', S_int)]"

definition Page :: schema where
  "Page = S_model [(''next_cursor'', S_nullable S_str), (''limit'', S_int)]"

definition ResourceResponse :: schema where
  "ResourceResponse = S_model [(''id'', S_uuid), (''subscription_id'', S_uuid), (''azure_resource_id'', S_str),
     (''resource_type'', S_str), (''name'', S_str), (''resource_group'', S_str), (''location'', S_nullable S_str),
     (''kind'', S_nullable S_str), (''sku'', S_nullable S_str), (''tags'', S_dict S_str), (''properties'', S_object),
     (''provisioning_state'', S_nullable S_str), (''state'', S_str), (''last_seen_at'', S_datetime)]"

definition ResourcePage :: schema where
  "ResourcePage = S_model [(''items'', S_list ResourceResponse), (''page'', Page)]"

definition SubscriptionResponse :: schema where
  "SubscriptionResponse = S_model [(''id'', S_uuid), (''azure_subscription_id'', S_uuid), (''display_name'', S_str),
     (''state'', S_str), (''last_sync_at'', S_nullable S_datetime)]"

definition ResourceGroupResponse :: schema where
  "ResourceGroupResponse = S_model [(''id'', S_uuid), (''subscription_id'', S_uuid), (''name'', S_str),
     (''location'', S_nullable S_str), (''tags'', S_dict S_str), (''state'', S_str)]"

definition SyncJobResponse :: schema where
  "SyncJobResponse = S_model [(''id'', S_uuid), (''mode'', S_str), (''status'', S_str), (''resources_seen'', S_int),
     (''resources_changed'', S_int), (''requested_at'', S_datetime), (''started_at'', S_nullable S_datetime),
     (''completed_at'', S_nullable S_datetime), (''error_summary'', S_nullable S_object)]"

definition AuditLogResponse :: schema where
  "AuditLogResponse = S_model [(''id'', S_uuid), (''event_id'', S_uuid), (''occurred_at'', S_datetime),
     (''actor_type'', S_str), (''actor_id'', S_str), (''action'', S_str), (''entity_type'', S_str),
     (''entity_id'', S_nullable S_str), (''outcome'', S_str), (''source_service'', S_str), (''correlation_id'', S_uuid),
     (''metadata_json'', S_object), (''record_hash'', S_str)]"

text \<open>The bodies that the identity service builds from a login URL and from a delegated token.\<close>

definition login_body :: "string \<times> cookie list \<Rightarrow> json" where
  "login_body answer = JDict [(''authorization_url'', JStr (fst answer))]"

definition token_body :: "string \<times> int \<Rightarrow> json" where
  "token_body answer = JDict [(''access_token'', JStr (fst answer)), (''expires_in'', JInt (snd answer))]"

section \<open>The texts of UUIDs and of moments\<close>

lemma number_digits: "is_number (nat_str n)"
proof (induction n rule: nat_str.induct)
  case (1 n)
  have digit: "CHR ''0'' \<le> digit_char k \<and> digit_char k \<le> CHR ''9''" if "k < 10" for k
  proof -
    have "k \<in> {0, 1, 2, 3, 4, 5, 6, 7, 8, 9}" using that by auto
    then show ?thesis by (auto simp: digit_char_def less_eq_char_def)
  qed
  show ?case
  proof (cases "n < 10")
    case True
    with digit show ?thesis by (simp add: is_number_def nat_str.simps [of n])
  next
    case False
    with 1 digit [of "n mod 10"] show ?thesis by (simp add: is_number_def nat_str.simps [of n])
  qed
qed

lemma number_pad: "is_number (pad_num w n)"
  using number_digits [of n] by (auto simp: is_number_def pad_num_def Let_def list_all_iff less_eq_char_def)

lemma number_free: "is_number s \<Longrightarrow> c \<notin> {CHR ''0''..CHR ''9''} \<Longrightarrow> c \<notin> set s"
  by (auto simp: is_number_def list_all_iff)

lemma dump_time_datetime: "is_datetime (dump_time t)"
proof -
  obtain y m d where ymd: "civil_from_days (day_of t) = (y, m, d)" by (cases "civil_from_days (day_of t)") auto
  let ?s = "second_of_day t" and ?us = "t mod 1000000"
  let ?day = "pad_num 4 (nat y) @ CHR ''-'' # pad2 m @ CHR ''-'' # pad2 d"
  let ?sec = "pad2 (?s mod 60)" and ?frac = "if ?us = 0 then [] else CHR ''.'' # pad_num 6 (nat ?us)"
  let ?clk = "pad2 (?s div 3600) @ CHR '':'' # pad2 (?s div 60 mod 60) @ CHR '':'' # ?sec @ ?frac @ ''Z''"
  have iso: "isoformat t = (?day @ CHR ''T'' # pad2 (?s div 3600) @ CHR '':'' # pad2 (?s div 60 mod 60) @ CHR '':'' # ?sec @ ?frac) @ ''+00:00''"
    by (simp add: isoformat_def ymd Let_def)
  have dump: "dump_time t = ?day @ CHR ''T'' # ?clk"
  proof -
    have trim: "take (length (x @ ''+00:00'') - 6) (x @ ''+00:00'') = x" for x by simp
    show ?thesis unfolding dump_time_def iso Let_def trim by simp
  qed
  have num: "is_number (pad2 k)" for k by (simp add: pad2_def number_pad)
  have free: "c \<notin> set (pad2 k)" "c \<notin> set (pad_num w n)" if "c \<notin> {CHR ''0''..CHR ''9''}" for c k w n
    using number_free [OF num that] number_free [OF number_pad that] by simp_all
  have chars: "CHR ''T'' \<notin> {CHR ''0''..CHR ''9''}" "CHR ''-'' \<notin> {CHR ''0''..CHR ''9''}" "CHR '':'' \<notin> {CHR ''0''..CHR ''9''}"
    "CHR ''.'' \<notin> {CHR ''0''..CHR ''9''}"
    by (simp_all add: less_eq_char_def)
  have "split_on CHR ''T'' (dump_time t) = [?day, ?clk]"
    unfolding dump by (subst split_on_app, use free chars in simp) (subst split_on_plain, use free chars in \<open>simp_all\<close>)
  moreover have "split_on CHR ''-'' ?day = [pad_num 4 (nat y), pad2 m, pad2 d]"
    using free chars by (simp add: split_on_app split_on_plain)
  moreover have "split_on CHR '':'' ?clk = [pad2 (?s div 3600), pad2 (?s div 60 mod 60), ?sec @ ?frac @ ''Z'']"
    using free chars by (simp add: split_on_app split_on_plain)
  moreover have "split_on CHR ''.'' (?sec @ ?frac) = (if ?us = 0 then [?sec] else [?sec, pad_num 6 (nat ?us)])"
    using free chars by (simp add: split_on_app split_on_plain)
  moreover have "butlast (?sec @ ?frac @ ''Z'') = ?sec @ ?frac" by (simp add: butlast_append)
  ultimately show ?thesis
    unfolding is_datetime_def by (simp add: num number_pad)
qed

section \<open>Answers\<close>

definition answer_conforms :: "schema \<Rightarrow> json result \<Rightarrow> bool" where
  "answer_conforms s r = (case r of Inl _ \<Rightarrow> True | Inr v \<Rightarrow> conforms s v)"

definition answers_conform :: "schema \<Rightarrow> json list result \<Rightarrow> bool" where
  "answers_conform s r = (case r of Inl _ \<Rightarrow> True | Inr vs \<Rightarrow> conforms (S_list s) (JList vs))"

lemmas model_defs = PermissionResponse_def RoleResponse_def ProfileResponse_def LoginResponse_def AzureAccessTokenResponse_def
  Page_def ResourceResponse_def ResourcePage_def SubscriptionResponse_def ResourceGroupResponse_def SyncJobResponse_def
  AuditLogResponse_def

lemma conforms_opt_str [simp]: "conforms (S_nullable S_str) (opt_str x)"
  by (cases x) (simp_all add: opt_str_def)

lemma conforms_opt_time [simp]: "conforms (S_nullable S_datetime) (opt_time x)"
  by (cases x) (simp_all add: opt_time_def dump_time_datetime)

lemma conforms_opt_object [simp]: "conforms (S_nullable S_object) (case x of None \<Rightarrow> JNull | Some d \<Rightarrow> JDict d)"
  by (cases x) simp_all

lemma conforms_texts [simp]: "conforms (S_list S_str) (JList (map JStr xs))"
  by (simp add: list_all_iff)

lemma conforms_tags [simp]: "text_dict v \<Longrightarrow> conforms (S_dict S_str) v"
  by (auto simp: text_dict_def list_all_iff split: json.splits)

lemma conforms_object [simp]: "is_dict v \<Longrightarrow> conforms S_object v"
  by (simp add: is_dict_def split: json.splits)

lemma answer_conforms_bindr: "(\<And>x. m = Inr x \<Longrightarrow> answer_conforms s (f x)) \<Longrightarrow> answer_conforms s (bindr m f)"
  by (cases m) (simp_all add: answer_conforms_def)

lemma answers_conform_bindr: "(\<And>x. m = Inr x \<Longrightarrow> answers_conform s (f x)) \<Longrightarrow> answers_conform s (bindr m f)"
  by (cases m) (simp_all add: answers_conform_def)

lemma answers_conform_each: "(\<And>x. answer_conforms s (f x)) \<Longrightarrow> answers_conform s (each_result f xs)"
proof (induction xs)
  case (Cons x xs)
  then show ?case
    using Cons.prems [of x] by (cases "f x"; cases "each_result f xs") (simp_all add: answers_conform_def answer_conforms_def)
qed (simp add: answers_conform_def)

lemma answers_conform_map: "(\<And>x. conforms s (f x)) \<Longrightarrow> answers_conform s (Inr (map f xs))"
  by (simp add: answers_conform_def list_all_iff)

lemma conforms_resource: "answer_conforms ResourceResponse (resource_response r)"
  by (simp add: resource_response_def answer_conforms_def guardr_def model_defs dump_time_datetime del: conforms.simps(9-12))

lemma conforms_group: "answer_conforms ResourceGroupResponse (resource_group_response g)"
  by (simp add: resource_group_response_def answer_conforms_def guardr_def model_defs del: conforms.simps(9-12))

lemma conforms_subscription: "conforms SubscriptionResponse (subscription_response s)"
  by (simp add: subscription_response_def model_defs del: conforms.simps(9-12))

lemma conforms_job: "conforms SyncJobResponse (job_response j)"
  by (simp add: job_response_def model_defs dump_time_datetime del: conforms.simps(9-12))

lemma conforms_audit_log: "conforms AuditLogResponse (audit_log_response r)"
  by (simp add: audit_log_response_def model_defs dump_time_datetime del: conforms.simps(10-12))

lemma conforms_profile: "conforms ProfileResponse (profile_response ri)"
  by (simp add: profile_response_def model_defs del: conforms.simps(9-12))

lemma conforms_permission: "conforms PermissionResponse (permission_response p)"
  by (simp add: permission_response_def model_defs)

lemma conforms_role: "conforms RoleResponse (role_response rp)"
  by (cases rp) (simp add: role_response_def model_defs del: conforms.simps(9-12))

lemma list_resources_conforms:
  "answer_conforms ResourcePage (list_resources_endpoint actor f cursor limit db)"
  unfolding list_resources_endpoint_def
proof (intro answer_conforms_bindr)
  fix a u and y :: "resource list \<times> string option"
  obtain rows next_cursor where y: "y = (rows, next_cursor)" by (cases y)
  have "answers_conform ResourceResponse (each_result resource_response rows)"
    by (rule answers_conform_each) (rule conforms_resource)
  then show "answer_conforms ResourcePage (case y of (rows, next_cursor) \<Rightarrow> bindr (each_result resource_response rows)
      (\<lambda>items. Inr (JDict [(''items'', JList items),
        (''page'', JDict [(''next_cursor'', opt_str next_cursor), (''limit'', JInt limit)])])))"
    unfolding y prod.case
    by (intro answer_conforms_bindr) (simp add: answers_conform_def answer_conforms_def ResourcePage_def Page_def del: conforms.simps(10))
qed

lemma get_resource_conforms:
  "answer_conforms ResourceResponse (get_resource_endpoint actor i db)"
  unfolding get_resource_endpoint_def by (intro answer_conforms_bindr conforms_resource)

lemma subscriptions_conform:
  "answers_conform SubscriptionResponse (subscriptions_endpoint splan actor db)"
  unfolding subscriptions_endpoint_def by (intro answers_conform_bindr answers_conform_map conforms_subscription)

lemma discover_subscriptions_conform:
  "answers_conform SubscriptionResponse (fst (discover_subscriptions new_id clk fault listed actor db))"
  by (auto simp: discover_subscriptions_def unit_of_work_transaction transaction_def answers_conform_def list_all_iff
      conforms_subscription split: sum.splits option.splits prod.splits)

lemma resource_groups_conform:
  "answers_conform ResourceGroupResponse (resource_groups_endpoint gplan actor db)"
  unfolding resource_groups_endpoint_def by (intro answers_conform_bindr answers_conform_each conforms_group)

lemma create_sync_job_conforms:
  "answer_conforms SyncJobResponse (fst (create_sync_job_endpoint senv actor q db))"
  by (auto simp: create_sync_job_endpoint_def answer_conforms_def conforms_job split: sum.splits prod.splits)

lemma events_conform:
  "answers_conform AuditLogResponse (events aplan actor af alimit adb)"
  unfolding events_def by (intro answers_conform_bindr answers_conform_map conforms_audit_log)

lemma operation_timeline_conform:
  "answers_conform AuditLogResponse (operation_timeline aplan actor operation_id adb)"
  unfolding operation_timeline_def by (intro answers_conform_bindr answers_conform_map conforms_audit_log)

end
