(* ===== verification/Routing.thy ===== *)
theory Routing
  imports Schemas
begin

text \<open>
  How a service composes its endpoints (the decorators and \<open>Depends\<close> of the \<open>main.py\<close> files):
  a table of routes behind the middleware of \<open>create_app\<close>. FastAPI is a parameter: which
  template a request matches, what it answers where none does, how it reads the
  \<open>Authorization\<close> header and writes \<open>Set-Cookie\<close>, and whether a body is JSON at all. As documented, routes are tried
  in the order of their registration, dependencies run before the parameters are validated,
  and an \<open>HTTPException\<close> becomes a response. The locales \<open>guarded\<close> and \<open>gateway\<close> state what a
  table must keep, and carry it over to the whole service.
\<close>

section \<open>Routes\<close>

record framework =
  fw_match :: "string \<Rightarrow> string \<Rightarrow> request \<Rightarrow> (string \<rightharpoonup> string) option"
  fw_unrouted :: "request \<Rightarrow> response"
  fw_credentials :: "request \<Rightarrow> (string \<times> string) option"
  fw_malformed :: "request \<Rightarrow> bool"
  fw_cookie :: "cookie \<Rightarrow> string"

text \<open>What a route asks of a request: a profile, a profile with a permission, the internal token.\<close>

datatype guard = Signed_in | Needs string | Internal

text \<open>
  The decorator (method, path, the status of a normal answer and the response model), the
  guard, and the handler, which is given the texts of its path parameters.
\<close>

record ('g, 's) route =
  rt_method :: string
  rt_path :: string
  rt_guard :: 'g
  rt_status :: nat
  rt_model :: schema
  rt_run :: "(string \<rightharpoonup> string) \<Rightarrow> 's endpoint"

definition http_exceptions :: "response result \<Rightarrow> response result" where
  "http_exceptions r = (case r of
       Inl (HTTPException st detail) \<Rightarrow> Inr (json_response st (JDict [(''detail'', detail)]))
     | _ \<Rightarrow> r)"

definition matching :: "framework \<Rightarrow> request \<Rightarrow> ('g, 's) route \<Rightarrow> bool" where
  "matching fw req r \<longleftrightarrow> fw_match fw (rt_method r) (rt_path r) req \<noteq> None"

definition serve :: "framework \<Rightarrow> ('g, 's) route list \<Rightarrow> 's endpoint" where
  "serve fw table req cid s = (case find (matching fw req) table of
       None \<Rightarrow> (Inr (fw_unrouted fw req), s)
     | Some r \<Rightarrow> (let (x, s') = rt_run r (the (fw_match fw (rt_method r) (rt_path r) req)) req cid s
                 in (http_exceptions x, s')))"

section \<open>Calls to the outside\<close>

text \<open>A failure outside (of a transport, of the database) is an exception of its own class and message.\<close>

type_synonym 'a outcome = "(string \<times> string) + 'a"

definition raised :: "string \<times> string \<Rightarrow> exn" where
  "raised f = Exn (fst f) (snd f)"

definition from_outside :: "'a outcome \<Rightarrow> 'a result" where
  "from_outside x = (case x of Inl f \<Rightarrow> Inl (raised f) | Inr y \<Rightarrow> Inr y)"

type_synonym profile_client = "string \<Rightarrow> (string \<times> string) list \<Rightarrow> (nat \<times> json) outcome"

definition http_of :: "profile_client \<Rightarrow> http_get" where
  "http_of client url hs = from_outside (client url hs)"

section \<open>Dependencies\<close>

definition signed_in ::
  "framework \<Rightarrow> profile_client \<Rightarrow> settings \<Rightarrow> (actor_context \<Rightarrow> 's \<Rightarrow> response result \<times> 's) \<Rightarrow> 's endpoint" where
  "signed_in fw client cfg run req cid s =
     (case get_actor (http_of client) cfg req cid (fw_credentials fw req) of
        Inl e \<Rightarrow> (Inl e, s)
      | Inr actor \<Rightarrow> run actor s)"

definition permitted ::
  "framework \<Rightarrow> profile_client \<Rightarrow> settings \<Rightarrow> string \<Rightarrow> (actor_context \<Rightarrow> 's \<Rightarrow> response result \<times> 's) \<Rightarrow> 's endpoint" where
  "permitted fw client cfg permission run =
     signed_in fw client cfg (\<lambda>actor s. case require_permission permission actor of
        Inl e \<Rightarrow> (Inl e, s)
      | Inr actor \<Rightarrow> run actor s)"

text \<open>
  A parameter that pydantic cannot read (\<open>None\<close>) is answered with 422; so is, before the
  dependencies, a body that is not JSON.
\<close>

definition parsed :: "'a option \<Rightarrow> ('a \<Rightarrow> 's \<Rightarrow> response result \<times> 's) \<Rightarrow> 's \<Rightarrow> response result \<times> 's" where
  "parsed m run s = (case m of None \<Rightarrow> (Inl request_validation, s) | Some x \<Rightarrow> run x s)"

definition with_body :: "framework \<Rightarrow> 's endpoint \<Rightarrow> 's endpoint" where
  "with_body fw run req cid s = (if fw_malformed fw req then (Inl request_validation, s) else run req cid s)"

definition path_uuid :: "(string \<Rightarrow> uuid option) \<Rightarrow> (string \<rightharpoonup> string) \<Rightarrow> string \<Rightarrow> uuid option" where
  "path_uuid read params name = Option.bind (params name) read"

definition reply :: "nat \<Rightarrow> ('a \<Rightarrow> json) \<Rightarrow> 'a result \<times> 's \<Rightarrow> response result \<times> 's" where
  "reply st f = (\<lambda>(r, s). (bindr r (\<lambda>x. Inr (json_response st (f x))), s))"

text \<open>A unit of work that only reads.\<close>

definition reading :: "string option \<Rightarrow> actor_context \<Rightarrow> ('s \<Rightarrow> 'a result) \<Rightarrow> 's \<Rightarrow> 'a result \<times> 's" where
  "reading fault actor reader =
     unit_of_work (db_fault fault) (ac_tenant_id actor) (ac_actor_id actor)
       (on_tables (\<lambda>s. bindr (reader s) (\<lambda>x. Inr (x, s))))"

section \<open>Admission\<close>

definition admitted :: "framework \<Rightarrow> profile_client \<Rightarrow> settings \<Rightarrow> guard \<Rightarrow> request \<Rightarrow> uuid \<Rightarrow> bool" where
  "admitted fw client cfg g req cid =
     (let actor = get_actor (http_of client) cfg req cid (fw_credentials fw req) in
      case g of
        Signed_in \<Rightarrow> (case actor of Inl _ \<Rightarrow> False | Inr _ \<Rightarrow> True)
      | Needs permission \<Rightarrow> (case actor of Inl _ \<Rightarrow> False | Inr a \<Rightarrow> permission \<in> ac_permissions a)
      | Internal \<Rightarrow> present (internal_api_token cfg) \<and> header req ''X-Internal-Token'' = internal_api_token cfg)"

definition refusal :: "exn \<Rightarrow> bool" where
  "refusal e \<longleftrightarrow> \<not> success_status (status_of e)"

text \<open>What a handler may answer under its decorator, and that all it raises are refusals.\<close>

definition sound_answer :: "nat \<Rightarrow> schema \<Rightarrow> response result \<Rightarrow> bool" where
  "sound_answer st m r = (case r of
       Inl e \<Rightarrow> refusal e
     | Inr resp \<Rightarrow> resp_status resp = st \<and> conforms m (resp_body resp))"

definition sound_result :: "('a \<Rightarrow> bool) \<Rightarrow> 'a result \<Rightarrow> bool" where
  "sound_result P r = (case r of Inl e \<Rightarrow> refusal e | Inr x \<Rightarrow> P x)"

named_theorems sound "what handlers answer and raise"

lemma refusal_simps [simp]:
  "refusal (HTTPException st d) \<longleftrightarrow> \<not> success_status st"
  "refusal (Exn c m)"
  by (simp_all add: refusal_def status_of_def success_status_def)

lemma success_numerals [simp]:
  "success_status 200" "success_status 201" "success_status 202" "success_status 204"
  "\<not> success_status 400" "\<not> success_status 401" "\<not> success_status 403" "\<not> success_status 404"
  "\<not> success_status 409" "\<not> success_status 422" "\<not> success_status 500" "\<not> success_status 503"
  by (simp_all add: success_status_def)

lemma refusal_raised [simp]: "refusal (raised f)"
  by (simp add: raised_def)

lemma refusal_validation [simp]: "refusal request_validation"
  by (simp add: request_validation_def)

lemma sound_result_simps [simp]:
  "sound_result P (Inl e) = refusal e"
  "sound_result P (Inr x) = P x"
  by (simp_all add: sound_result_def)

lemma sound_answer_simps [simp]:
  "sound_answer st m (Inl e) = refusal e"
  "sound_answer st m (Inr resp) \<longleftrightarrow> resp_status resp = st \<and> conforms m (resp_body resp)"
  by (simp_all add: sound_answer_def)

lemma sound_bindr:
  "sound_result Q m \<Longrightarrow> (\<And>x. m = Inr x \<Longrightarrow> Q x \<Longrightarrow> sound_result P (f x)) \<Longrightarrow> sound_result P (bindr m f)"
  by (cases m) simp_all

lemma sound_bind [sound]:
  "sound_result (\<lambda>_. True) m \<Longrightarrow> (\<And>x. sound_result P (f x)) \<Longrightarrow> sound_result P (bindr m f)"
  by (rule sound_bindr)

lemma sound_guardr [sound]: "refusal e \<Longrightarrow> sound_result (\<lambda>_. True) (guardr b e)"
  by (simp add: guardr_def)

lemma sound_of_option [sound]: "refusal e \<Longrightarrow> sound_result (\<lambda>_. True) (of_option e m)"
  by (cases m) simp_all

lemma sound_permission [sound]: "sound_result (\<lambda>_. True) (require_permission p a)"
  by (simp add: require_permission_def)

lemma sound_each:
  "(\<And>x. sound_result P (f x)) \<Longrightarrow> sound_result (list_all P) (each_result f xs)"
proof (induction xs)
  case (Cons x xs)
  then show ?case
    using Cons.prems [of x] by (cases "f x"; cases "each_result f xs") simp_all
qed simp

lemma sound_True: "sound_result P r \<Longrightarrow> sound_result (\<lambda>_. True) r"
  by (cases r) simp_all

lemma sound_from_outside [sound]: "sound_result (\<lambda>_. True) (from_outside x)"
  by (cases x) (simp_all add: from_outside_def)

lemma sound_uuid_parse [sound]: "sound_result (\<lambda>_. True) (uuid_parse s)"
  by (cases "uuid_parse s") (auto simp: uuid_parse_def bad_uuid_def Let_def split: if_splits option.splits)

lemma sound_dict_item [sound]: "sound_result (\<lambda>_. True) (dict_item d k)"
  by (simp add: dict_item_def sound_of_option)

lemma sound_as_dict [sound]: "sound_result (\<lambda>_. True) (as_dict v)"
  by (simp add: as_dict_def split: json.split)

lemma sound_as_text [sound]: "sound_result (\<lambda>_. True) (as_text v)"
  by (simp add: as_text_def split: json.split)

lemma sound_as_opt_text [sound]: "sound_result (\<lambda>_. True) (as_opt_text v)"
  by (simp add: as_opt_text_def split: json.split)

lemma sound_as_text_list [sound]: "sound_result (\<lambda>_. True) (as_text_list v)"
proof -
  have "sound_result (\<lambda>_. True) (as_texts xs)" for xs
    by (induction xs) (auto intro!: sound)
  then show ?thesis by (simp add: as_text_list_def split: json.split)
qed

lemma sound_actor_of_profile: "sound_result (\<lambda>_. True) (actor_of_profile cid v)"
  unfolding actor_of_profile_def uuid_field_def by (intro sound) simp

lemma sound_resolve_profile: "sound_result (\<lambda>_. True) (resolve_profile (http_of client) cfg cid c a)"
  unfolding resolve_profile_def http_of_def raise_for_status_def
  by (rule sound_bindr [OF sound_from_outside]) (auto split: prod.split intro!: sound)

lemma sound_get_actor: "sound_result (\<lambda>_. True) (get_actor (http_of client) cfg req cid credentials)"
  unfolding get_actor_def by (intro sound_bindr [OF sound_resolve_profile]) (rule sound_actor_of_profile)

lemma sound_transaction:
  assumes "sound_result (\<lambda>p. P (fst p)) (body db)" "\<And>e. fault = Some e \<Longrightarrow> refusal e"
  shows "sound_result P (fst (transaction fault body db))"
  using assms by (cases "body db"; cases fault) (auto simp: transaction_def)

lemma sound_reading: "sound_result P (reader s) \<Longrightarrow> sound_result P (fst (reading fault actor reader s))"
  unfolding reading_def unit_of_work_transaction
  by (rule sound_transaction) (auto simp: db_fault_def sound_result_def bindr_def split: sum.splits)

lemma sound_reply:
  "sound_result (\<lambda>x. conforms m (f x)) (fst rs) \<Longrightarrow> sound_answer st m (fst (reply st f rs))"
  by (cases rs; cases "fst rs") (auto simp: reply_def json_response_def)

lemma sound_signed_in:
  "(\<And>actor. sound_answer st m (fst (run actor s))) \<Longrightarrow> sound_answer st m (fst (signed_in fw client cfg run req cid s))"
  using sound_get_actor [of client cfg req cid "fw_credentials fw req"]
  by (auto simp: signed_in_def sound_result_def split: sum.split)

lemma sound_permitted:
  "(\<And>actor. sound_answer st m (fst (run actor s))) \<Longrightarrow> sound_answer st m (fst (permitted fw client cfg p run req cid s))"
  unfolding permitted_def by (rule sound_signed_in) (simp add: require_permission_def)

lemma sound_parsed:
  "(\<And>x. y = Some x \<Longrightarrow> sound_answer st m (fst (run x s))) \<Longrightarrow> sound_answer st m (fst (parsed y run s))"
  by (cases y) (simp_all add: parsed_def)

lemma sound_with_body:
  "sound_answer st m (fst (run req cid s)) \<Longrightarrow> sound_answer st m (fst (with_body fw run req cid s))"
  by (simp add: with_body_def)

lemmas sound_route = sound_permitted sound_signed_in sound_parsed sound_with_body sound_reply

text \<open>A handler whose guard does not admit the request raises, and changes nothing.\<close>

definition denied :: "'s \<Rightarrow> response result \<times> 's \<Rightarrow> bool" where
  "denied s rs \<longleftrightarrow> (\<exists>e. fst rs = Inl e) \<and> snd rs = s"

lemma denied_signed_in:
  "\<not> admitted fw client cfg Signed_in req cid \<Longrightarrow> denied s (signed_in fw client cfg run req cid s)"
  by (auto simp: admitted_def signed_in_def denied_def Let_def split: sum.splits)

lemma denied_permitted:
  "\<not> admitted fw client cfg (Needs p) req cid \<Longrightarrow> denied s (permitted fw client cfg p run req cid s)"
  by (auto simp: admitted_def permitted_def signed_in_def denied_def require_permission_def Let_def split: sum.splits)

lemma denied_parsed:
  "(\<And>x. y = Some x \<Longrightarrow> denied s (run x s)) \<Longrightarrow> denied s (parsed y run s)"
  by (cases y) (simp_all add: parsed_def denied_def)

lemma denied_with_body:
  "denied s (run req cid s) \<Longrightarrow> denied s (with_body fw run req cid s)"
  by (simp add: with_body_def denied_def)

lemma denied_reply: "fst rs = Inl e \<Longrightarrow> snd rs = s \<Longrightarrow> denied s (reply st f rs)"
  by (cases rs) (simp add: reply_def denied_def)

lemmas denied_route = denied_permitted denied_signed_in denied_parsed denied_with_body

section \<open>The contract of a table\<close>

lemma set_header_answer [simp]:
  "resp_status (set_header n v resp) = resp_status resp" "resp_body (set_header n v resp) = resp_body resp"
  by (simp_all add: set_header_def)

definition health_paths :: "string list" where
  "health_paths = [''/health/live'', ''/health/ready'', ''/version'']"

text \<open>The pages that FastAPI adds of its own, where they are not switched off.\<close>

definition own_pages :: "string list" where
  "own_pages = [''/openapi.json'', ''/docs'', ''/docs/oauth2-redirect'']"

text \<open>Documented of the framework: where no route matches, other than for these, it refuses (404, 405, 307).\<close>

definition refuses_unrouted :: "framework \<Rightarrow> bool" where
  "refuses_unrouted fw \<longleftrightarrow>
     (\<forall>req. req_path req \<notin> set own_pages \<longrightarrow> \<not> success_status (resp_status (fw_unrouted fw req)))"

lemma app_routes_service: "req_path req \<notin> set health_paths \<Longrightarrow> app_routes cfg ping routes req cid s = routes req cid s"
  by (simp add: app_routes_def health_paths_def)

lemma app_routes_health: "app_routes cfg ping routes req cid s = routes req cid s \<or> snd (app_routes cfg ping routes req cid s) = s"
  by (simp add: app_routes_def)

text \<open>A request is from an allowed site, unless it has no session cookie or changes nothing.\<close>

definition site_allowed :: "(string \<Rightarrow> bool) \<Rightarrow> settings \<Rightarrow> request \<Rightarrow> bool" where
  "site_allowed bracket_ok cfg req \<longleftrightarrow> (cookie_mutation cfg req \<longrightarrow>
     (case csrf_candidate bracket_ok req of Inl _ \<Rightarrow> False | Inr origin \<Rightarrow> origin \<in> allowed_origins cfg))"

lemma app_cases:
  assumes "create_app bracket_ok cfg ping fresh elapsed routes req s = (x, s')"
  obtains (rejected) "s' = s" "\<not> (\<exists>resp. x = Inr resp \<and> success_status (resp_status resp))"
  | (routed) y where "site_allowed bracket_ok cfg req"
      "app_routes cfg ping routes req (correlation_id_of fresh req) s = (y, s')"
      "\<And>resp. x = Inr resp \<Longrightarrow> \<exists>z. y = Inr z \<and> resp_status resp = resp_status z \<and> resp_body resp = resp_body z"
proof (cases "site_allowed bracket_ok cfg req")
  case False
  then have "cookie_mutation cfg req" "\<forall>c. csrf_candidate bracket_ok req = Inr c \<longrightarrow> c \<notin> allowed_origins cfg"
    by (simp_all add: site_allowed_def split: sum.splits)
  note blocked = csrf_blocked [OF this]
  have "\<not> success_status (resp_status resp)" if "x = Inr resp" for resp
  proof -
    have "resp = csrf_rejection" using blocked(2) assms that by (metis create_app_def fst_conv)
    then show ?thesis by (simp add: csrf_rejection_def detail_response_def json_response_def)
  qed
  moreover have "s' = s" using blocked(1) assms by (metis create_app_def snd_conv)
  ultimately show ?thesis by (intro rejected) blast+
next
  case True
  then have pass: "\<exists>c. csrf_candidate bracket_ok req = Inr c \<and> c \<in> allowed_origins cfg" if "cookie_mutation cfg req"
    using that by (auto simp: site_allowed_def split: sum.splits)
  have dispatch: "correlation_dispatch fresh elapsed (app_routes cfg ping routes) req s = (x, s')"
    using assms by (simp add: create_app_def csrf_passes [OF pass, where call_next = "correlation_dispatch fresh elapsed (app_routes cfg ping routes)" and s = s])
  obtain y t where y: "app_routes cfg ping routes req (correlation_id_of fresh req) s = (y, t)" by (rule prod.exhaust)
  have "t = s'" using dispatch y by (simp add: correlation_dispatch_def)
  moreover have "\<exists>z. y = Inr z \<and> resp_status resp = resp_status z \<and> resp_body resp = resp_body z" if "x = Inr resp" for resp
    using dispatch y that by (auto simp: correlation_dispatch_def bindr_Inr_iff)
  ultimately show ?thesis using True y by (intro routed) simp_all
qed

text \<open>
  A table whose guards hold, and what that means for the service: a request that changes the
  state reached the first route that it matches, was admitted by the guard of that route, and
  did not come from a foreign site under the session cookie.
\<close>

definition changes_admitted ::
  "framework \<Rightarrow> settings \<Rightarrow> ('g, 's) route list \<Rightarrow> ('g \<Rightarrow> request \<Rightarrow> uuid \<Rightarrow> 's \<Rightarrow> bool) \<Rightarrow> bool" where
  "changes_admitted fw cfg table admits \<longleftrightarrow>
     (\<forall>bracket_ok ping fresh elapsed req s x s'.
        create_app bracket_ok cfg ping fresh elapsed (serve fw table) req s = (x, s') \<longrightarrow> s' \<noteq> s
        \<longrightarrow> site_allowed bracket_ok cfg req
            \<and> (\<exists>r. find (matching fw req) table = Some r \<and> admits (rt_guard r) req (correlation_id_of fresh req) s))"

locale guarded =
  fixes fw :: framework and cfg :: settings and table :: "('g, 's) route list"
    and admits :: "'g \<Rightarrow> request \<Rightarrow> uuid \<Rightarrow> 's \<Rightarrow> bool"
  assumes denies: "r \<in> set table \<Longrightarrow> \<not> admits (rt_guard r) req cid s \<Longrightarrow> denied s (rt_run r params req cid s)"
begin

lemma serve_denied:
  assumes "find (matching fw req) table = Some r" "\<not> admits (rt_guard r) req cid s"
  obtains e where "fst (rt_run r (the (fw_match fw (rt_method r) (rt_path r) req)) req cid s) = Inl e"
    "serve fw table req cid s = (http_exceptions (Inl e), s)"
proof -
  have "r \<in> set table" using assms(1) by (auto dest: find_Some_in)
  from denies [OF this assms(2), of "the (fw_match fw (rt_method r) (rt_path r) req)"] obtain e where
    "fst (rt_run r (the (fw_match fw (rt_method r) (rt_path r) req)) req cid s) = Inl e"
    "snd (rt_run r (the (fw_match fw (rt_method r) (rt_path r) req)) req cid s) = s"
    by (auto simp: denied_def)
  with assms(1) show ?thesis by (intro that) (auto simp: serve_def split: prod.split)
qed

lemma serve_change:
  assumes "snd (serve fw table req cid s) \<noteq> s"
  obtains r where "find (matching fw req) table = Some r" "admits (rt_guard r) req cid s"
proof (cases "find (matching fw req) table")
  case None
  with assms show ?thesis by (simp add: serve_def)
next
  case (Some r)
  show ?thesis
  proof (rule that [OF Some], rule ccontr)
    assume "\<not> admits (rt_guard r) req cid s"
    from serve_denied [OF Some this] assms show False by (metis snd_conv)
  qed
qed

lemma changes_admitted: "changes_admitted fw cfg table admits"
  unfolding changes_admitted_def
proof (intro allI impI)
  fix bracket_ok ping fresh elapsed req s x s'
  assume app: "create_app bracket_ok cfg ping fresh elapsed (serve fw table) req s = (x, s')" and change: "s' \<noteq> s"
  from app show "site_allowed bracket_ok cfg req
      \<and> (\<exists>r. find (matching fw req) table = Some r \<and> admits (rt_guard r) req (correlation_id_of fresh req) s)"
  proof (cases rule: app_cases)
    case rejected
    with change show ?thesis by simp
  next
    case (routed y)
    have "snd (serve fw table req (correlation_id_of fresh req) s) \<noteq> s"
      using app_routes_health [of cfg ping "serve fw table" req "correlation_id_of fresh req" s] routed(2) change
      by (metis snd_conv)
    from serve_change [OF this] routed(1) show ?thesis by metis
  qed
qed

end

text \<open>
  A table whose handlers also answer as their decorators declare. Then a request that is
  answered with success, by other than the health endpoints and the framework's own pages, was
  admitted too, and the answer has the status and the model of its route.
\<close>

definition serves_admitted ::
  "framework \<Rightarrow> settings \<Rightarrow> ('g, 's) route list \<Rightarrow> ('g \<Rightarrow> request \<Rightarrow> uuid \<Rightarrow> 's \<Rightarrow> bool) \<Rightarrow> bool" where
  "serves_admitted fw cfg table admits \<longleftrightarrow>
     (\<forall>bracket_ok ping fresh elapsed req s resp s'.
        create_app bracket_ok cfg ping fresh elapsed (serve fw table) req s = (Inr resp, s')
        \<longrightarrow> success_status (resp_status resp) \<longrightarrow> req_path req \<notin> set (health_paths @ own_pages)
        \<longrightarrow> site_allowed bracket_ok cfg req
            \<and> (\<exists>r. find (matching fw req) table = Some r \<and> admits (rt_guard r) req (correlation_id_of fresh req) s
                 \<and> resp_status resp = rt_status r \<and> conforms (rt_model r) (resp_body resp)))"

locale gateway = guarded fw cfg table admits
  for fw and cfg and table :: "('g, 's) route list" and admits +
  assumes answers: "r \<in> set table \<Longrightarrow> sound_answer (rt_status r) (rt_model r) (fst (rt_run r params req cid s))"
begin

lemma serve_success:
  assumes "fst (serve fw table req cid s) = Inr resp" "success_status (resp_status resp)"
    and "\<not> success_status (resp_status (fw_unrouted fw req))"
  obtains r where "find (matching fw req) table = Some r" "admits (rt_guard r) req cid s"
    "resp_status resp = rt_status r" "conforms (rt_model r) (resp_body resp)"
proof (cases "find (matching fw req) table")
  case None
  with assms show ?thesis by (simp add: serve_def)
next
  case (Some r)
  then have "r \<in> set table" by (auto dest: find_Some_in)
  let ?x = "fst (rt_run r (the (fw_match fw (rt_method r) (rt_path r) req)) req cid s)"
  have answer: "sound_answer (rt_status r) (rt_model r) ?x" using \<open>r \<in> set table\<close> by (rule answers)
  have served: "http_exceptions ?x = Inr resp" using assms(1) Some by (simp add: serve_def split: prod.splits)
  have returned: "?x = Inr resp"
  proof (cases ?x)
    case (Inl e)
    with answer served assms(2) show ?thesis by (auto simp: http_exceptions_def json_response_def split: exn.splits)
  next
    case (Inr z)
    with served show ?thesis by (simp add: http_exceptions_def)
  qed
  show ?thesis
  proof (rule that [OF Some])
    show "admits (rt_guard r) req cid s"
      using serve_denied [OF Some, of cid s] returned by fastforce
  qed (use answer returned in simp_all)
qed

lemma serves_admitted:
  assumes "refuses_unrouted fw"
  shows "serves_admitted fw cfg table admits"
  unfolding serves_admitted_def
proof (intro allI impI)
  fix bracket_ok ping fresh elapsed req s resp s'
  assume app: "create_app bracket_ok cfg ping fresh elapsed (serve fw table) req s = (Inr resp, s')"
    and success: "success_status (resp_status resp)" and paths: "req_path req \<notin> set (health_paths @ own_pages)"
  have path: "req_path req \<notin> set health_paths" and unrouted: "\<not> success_status (resp_status (fw_unrouted fw req))"
    using paths assms by (simp_all add: refuses_unrouted_def)
  from app show "site_allowed bracket_ok cfg req
      \<and> (\<exists>r. find (matching fw req) table = Some r \<and> admits (rt_guard r) req (correlation_id_of fresh req) s
           \<and> resp_status resp = rt_status r \<and> conforms (rt_model r) (resp_body resp))"
  proof (cases rule: app_cases)
    case rejected
    with success show ?thesis by blast
  next
    case (routed y)
    then obtain z where "fst (serve fw table req (correlation_id_of fresh req) s) = Inr z"
      and z: "resp_status resp = resp_status z" "resp_body resp = resp_body z"
      by (auto simp: app_routes_service [OF path])
    from serve_success [OF this(1) _ unrouted] success z routed(1) show ?thesis by metis
  qed
qed

end

end
