(* ===== verification/IdentityRoutes.thy ===== *)
theory IdentityRoutes
  imports Routing
begin

text \<open>
  The identity service as a table of routes (the decorators of \<open>sentinel_identity/main.py\<close>), and
  the identity service as the profile client of the other services: what their \<open>get_actor\<close>
  is answered.
\<close>

section \<open>Routes\<close>

text \<open>
  Who may use a route: anybody, a browser that returns to its own login, a user that
  \<open>get_identity\<close> resolves, such a user with a permission, a service with the internal token.
\<close>

datatype identity_guard = Anybody | Own_login | Resolved | Resolved_with string | Service_token

text \<open>
  What the outside decides of one request: what pydantic reads in it, the random texts of
  \<open>secrets.token_urlsafe\<close>, and the environments of the endpoints.
\<close>

record identity_call =
  hc_uuid :: "string \<Rightarrow> uuid option"
  hc_tenant :: "uuid option option"
  hc_callback :: "(string \<times> string) option"
  hc_state :: string
  hc_verifier :: string
  hc_env :: request_env
  hc_blob :: blob_env

type_synonym identity_state = "identity_db \<times> blob_recorder option"

definition with_cookies :: "framework \<Rightarrow> cookie list \<Rightarrow> response \<Rightarrow> response" where
  "with_cookies fw cookies resp =
     resp\<lparr>resp_headers := resp_headers resp @ map (\<lambda>c. (''set-cookie'', fw_cookie fw c)) cookies\<rparr>"

definition redirect_response :: "framework \<Rightarrow> redirect \<Rightarrow> response" where
  "redirect_response fw rd = with_cookies fw (rd_cookies rd)
     \<lparr>resp_status = rd_status rd, resp_body = JNull, resp_headers = [(''location'', rd_url rd)]\<rparr>"

text \<open>A handler that works on the tables only.\<close>

definition on_identity ::
  "(identity_db \<Rightarrow> response result \<times> identity_db) \<Rightarrow> identity_state \<Rightarrow> response result \<times> identity_state" where
  "on_identity f = (\<lambda>(db, recorder). (let (r, db') = f db in (r, (db', recorder))))"

definition login_route ::
  "string \<Rightarrow> (string \<Rightarrow> string) \<Rightarrow> framework \<Rightarrow> settings \<Rightarrow> identity_call \<Rightarrow> (identity_guard, identity_state) route" where
  "login_route path s256 fw cfg call =
     \<lparr>rt_method = ''GET'', rt_path = path, rt_guard = Anybody, rt_status = 200, rt_model = LoginResponse,
      rt_run = (\<lambda>params req cid. parsed (hc_tenant call) (\<lambda>tenant st.
        (bindr (login s256 cfg (hc_state call) (hc_verifier call) tenant) (\<lambda>(url, cookies).
           Inr (with_cookies fw cookies (json_response 200 (login_body (url, cookies))))), st)))\<rparr>"

definition callback_route ::
  "string \<Rightarrow> framework \<Rightarrow> ('k, 'f) identity_deps \<Rightarrow> identity_call \<Rightarrow> (identity_guard, identity_state) route" where
  "callback_route path fw deps call =
     \<lparr>rt_method = ''GET'', rt_path = path, rt_guard = Own_login, rt_status = 302, rt_model = S_none,
      rt_run = (\<lambda>params req cid. parsed (hc_callback call) (\<lambda>(auth_code, state) st.
        (case callback deps (hc_env call) (hc_blob call) req cid auth_code state st of
           (r, st') \<Rightarrow> (bindr r (\<lambda>rd. Inr (redirect_response fw rd)), st'))))\<rparr>"

definition logout_route :: "string \<Rightarrow> framework \<Rightarrow> settings \<Rightarrow> (identity_guard, identity_state) route" where
  "logout_route path fw cfg =
     \<lparr>rt_method = ''POST'', rt_path = path, rt_guard = Anybody, rt_status = 200, rt_model = S_dict S_str,
      rt_run = (\<lambda>params req cid st. (case logout cfg of (body, cookies) \<Rightarrow>
        (Inr (with_cookies fw cookies (json_response 200 body)), st)))\<rparr>"

definition azure_token_route ::
  "(string \<Rightarrow> int option) \<Rightarrow> ('k, 'f) identity_deps \<Rightarrow> identity_call \<Rightarrow> (identity_guard, identity_state) route" where
  "azure_token_route int_of_text deps call =
     \<lparr>rt_method = ''POST'', rt_path = ''/api/v1/internal/azure-token/{tenant_id}/{user_id}'', rt_guard = Service_token,
      rt_status = 200, rt_model = AzureAccessTokenResponse,
      rt_run = (\<lambda>params req cid.
        parsed (path_uuid (hc_uuid call) params ''tenant_id'') (\<lambda>t.
        parsed (path_uuid (hc_uuid call) params ''user_id'') (\<lambda>u. on_identity (\<lambda>db.
        reply 200 token_body
          (delegated_azure_token int_of_text deps (hc_env call) t u (header req ''X-Internal-Token'') db)))))\<rparr>"

definition profile_route ::
  "string \<Rightarrow> framework \<Rightarrow> ('k, 'f) identity_deps \<Rightarrow> identity_call \<Rightarrow> (identity_guard, identity_state) route" where
  "profile_route path fw deps call =
     \<lparr>rt_method = ''GET'', rt_path = path, rt_guard = Resolved, rt_status = 200, rt_model = ProfileResponse,
      rt_run = (\<lambda>params req cid. on_identity (\<lambda>db.
        reply 200 id (profile deps (hc_env call) req cid (fw_credentials fw req) db)))\<rparr>"

definition permissions_route ::
  "framework \<Rightarrow> ('k, 'f) identity_deps \<Rightarrow> identity_call \<Rightarrow> (identity_guard, identity_state) route" where
  "permissions_route fw deps call =
     \<lparr>rt_method = ''GET'', rt_path = ''/api/v1/auth/permissions'', rt_guard = Resolved, rt_status = 200,
      rt_model = S_list PermissionResponse,
      rt_run = (\<lambda>params req cid. on_identity (\<lambda>db.
        reply 200 JList (permissions_endpoint deps (hc_env call) req (fw_credentials fw req) db)))\<rparr>"

definition roles_route ::
  "framework \<Rightarrow> ('k, 'f) identity_deps \<Rightarrow> identity_call \<Rightarrow> (identity_guard, identity_state) route" where
  "roles_route fw deps call =
     \<lparr>rt_method = ''GET'', rt_path = ''/api/v1/auth/roles'', rt_guard = Resolved_with ''identity.roles.read'',
      rt_status = 200, rt_model = S_list RoleResponse,
      rt_run = (\<lambda>params req cid. on_identity (\<lambda>db.
        reply 200 JList (roles_endpoint deps (hc_env call) req (fw_credentials fw req) db)))\<rparr>"

text \<open>Of the decorators on one function the lowest registers first.\<close>

definition identity_routes ::
  "(string \<Rightarrow> string) \<Rightarrow> (string \<Rightarrow> int option) \<Rightarrow> framework \<Rightarrow> ('k, 'f) identity_deps \<Rightarrow> identity_call
     \<Rightarrow> (identity_guard, identity_state) route list" where
  "identity_routes s256 int_of_text fw deps call =
     [login_route ''/api/v1/auth/login'' s256 fw (id_settings deps) call,
      login_route ''/auth/login'' s256 fw (id_settings deps) call,
      callback_route ''/api/v1/auth/callback'' fw deps call, callback_route ''/auth/callback'' fw deps call,
      logout_route ''/api/v1/auth/logout'' fw (id_settings deps), logout_route ''/auth/logout'' fw (id_settings deps),
      azure_token_route int_of_text deps call,
      profile_route ''/api/v1/auth/profile'' fw deps call, profile_route ''/auth/profile'' fw deps call,
      profile_route ''/api/v1/auth/me'' fw deps call, profile_route ''/auth/me'' fw deps call,
      permissions_route fw deps call, roles_route fw deps call]"

lemmas identity_route_defs = login_route_def callback_route_def logout_route_def azure_token_route_def profile_route_def
  permissions_route_def roles_route_def

lemma identity_route_guards [simp]:
  "rt_guard (login_route path s256 fw cfg call) = Anybody" "rt_guard (callback_route path fw deps call) = Own_login"
  "rt_guard (logout_route path fw cfg) = Anybody" "rt_guard (azure_token_route int_of_text deps call) = Service_token"
  "rt_guard (profile_route path fw deps call) = Resolved" "rt_guard (permissions_route fw deps call) = Resolved"
  "rt_guard (roles_route fw deps call) = Resolved_with ''identity.roles.read''"
  by (simp_all add: identity_route_defs)

section \<open>Admission\<close>

definition identity_admits ::
  "framework \<Rightarrow> ('k, 'f) identity_deps \<Rightarrow> identity_call \<Rightarrow> identity_guard \<Rightarrow> request \<Rightarrow> uuid \<Rightarrow> identity_state \<Rightarrow> bool" where
  "identity_admits fw deps call g req cid st =
     (let resolved = get_identity deps (hc_env call) req (fw_credentials fw req) (fst st) in
      case g of
        Anybody \<Rightarrow> True
      | Own_login \<Rightarrow> (case hc_callback call of None \<Rightarrow> False
          | Some (_, state) \<Rightarrow> (case callback_guard req state of Inl _ \<Rightarrow> False | Inr _ \<Rightarrow> True))
      | Resolved \<Rightarrow> (case resolved of Inl _ \<Rightarrow> False | Inr _ \<Rightarrow> True)
      | Resolved_with permission \<Rightarrow> (case resolved of Inl _ \<Rightarrow> False
          | Inr (ri, _) \<Rightarrow> permission \<in> pm_name ` set (ri_permissions ri))
      | Service_token \<Rightarrow> (case delegated_guard (id_settings deps) (header req ''X-Internal-Token'') of
            Inl _ \<Rightarrow> False | Inr _ \<Rightarrow> True))"

lemma denied_on_identity: "denied (fst st) (f (fst st)) \<Longrightarrow> denied st (on_identity f st)"
  by (cases st) (auto simp: on_identity_def denied_def split: prod.split)

interpretation identity_guarded: guarded fw cfg "identity_routes s256 int_of_text fw deps call" "identity_admits fw deps call"
  for fw cfg s256 int_of_text deps call
proof
  fix r :: "(identity_guard, identity_state) route" and req cid s params
  assume r: "r \<in> set (identity_routes s256 int_of_text fw deps call)"
    and refused: "\<not> identity_admits fw deps call (rt_guard r) req cid s"
  obtain db recorder where s: "s = (db, recorder)" by (cases s)
  have own: "denied s (rt_run (callback_route path fw deps call) params req cid s)"
    if "\<not> identity_admits fw deps call Own_login req cid s" for path
    using that by (auto simp: callback_route_def identity_admits_def callback_def s denied_def parsed_def Let_def
        split: option.splits sum.splits prod.splits)
  have token: "denied s (rt_run (azure_token_route int_of_text deps call) params req cid s)"
    if "\<not> identity_admits fw deps call Service_token req cid s"
    using that by (auto simp: azure_token_route_def identity_admits_def delegated_azure_token_def Let_def
        intro!: denied_parsed denied_on_identity denied_reply split: sum.splits)
  have user: "denied s (rt_run (profile_route path fw deps call) params req cid s)"
    "denied s (rt_run (permissions_route fw deps call) params req cid s)"
    if "\<not> identity_admits fw deps call Resolved req cid s" for path
    using that by (auto simp: profile_route_def permissions_route_def identity_admits_def profile_def permissions_endpoint_def
        Let_def intro!: denied_on_identity denied_reply split: sum.splits)
  have reader: "denied s (rt_run (roles_route fw deps call) params req cid s)"
    if "\<not> identity_admits fw deps call (Resolved_with ''identity.roles.read'') req cid s"
    using that by (auto simp: roles_route_def identity_admits_def roles_endpoint_def may_read_roles_def transaction_def
        Let_def intro!: denied_on_identity denied_reply split: sum.splits prod.splits)
  have "identity_admits fw deps call Anybody req cid s" by (simp add: identity_admits_def Let_def)
  with r refused own token user reader show "denied s (rt_run r params req cid s)"
    by (auto simp: identity_routes_def)
qed

section \<open>The identity service as the profile client\<close>

text \<open>
  What another service is answered when it asks for the profile of a request: the identity
  service in the state \<open>st\<close>, behind its own middleware. The request carries the headers that
  \<open>IdentityProfileClient.resolve\<close> sends; \<open>read_cookies\<close> is the framework's reading of a
  \<open>Cookie\<close> header. An exception that nothing handles is answered with 500.
\<close>

definition profile_request :: "(string \<Rightarrow> (string \<times> string) list) \<Rightarrow> (string \<times> string) list \<Rightarrow> request" where
  "profile_request read_cookies hs =
     \<lparr>req_method = ''GET'', req_path = ''/api/v1/auth/profile'', req_headers = map (\<lambda>(n, v). (lower n, v)) hs,
      req_cookies = (case map_of hs ''Cookie'' of None \<Rightarrow> [] | Some c \<Rightarrow> read_cookies c)\<rparr>"

definition identity_client ::
  "(string \<Rightarrow> (string \<times> string) list) \<Rightarrow> (request \<Rightarrow> identity_state \<Rightarrow> response result \<times> identity_state)
     \<Rightarrow> identity_state \<Rightarrow> profile_client" where
  "identity_client read_cookies app st url hs =
     Inr (case fst (app (profile_request read_cookies hs) st) of
            Inl _ \<Rightarrow> (500, JStr ''Internal Server Error'')
          | Inr resp \<Rightarrow> (resp_status resp, resp_body resp))"

definition sent_headers :: "framework \<Rightarrow> request \<Rightarrow> uuid \<Rightarrow> (string \<times> string) list" where
  "sent_headers fw req cid =
     (''X-Correlation-ID'', uuid_str cid) # opt_header ''Cookie'' (header req ''cookie'')
       @ opt_header ''Authorization'' (map_option (\<lambda>(scheme, cred). scheme @ '' '' @ cred) (fw_credentials fw req))"

text \<open>
  Documented of the framework: a template matches only requests of its method, and one without
  parameters only its own path. (A path that ends in a line break is left out: the pattern
  that Starlette compiles matches it too.)
\<close>

definition literal_matching :: "framework \<Rightarrow> bool" where
  "literal_matching fw \<longleftrightarrow>
     (\<forall>m p req. fw_match fw m p req \<noteq> None \<longrightarrow> req_method req = m)
     \<and> (\<forall>m p req. CHR ''{'' \<notin> set p \<longrightarrow> CHR 0x0A \<notin> set (req_path req) \<longrightarrow> (fw_match fw m p req \<noteq> None) = (req_method req = m \<and> req_path req = p))"

lemma matching_literal:
  "literal_matching fw \<Longrightarrow> CHR ''{'' \<notin> set (rt_path r) \<Longrightarrow> CHR 0x0A \<notin> set (req_path req) \<Longrightarrow>
     matching fw req r \<longleftrightarrow> req_method req = rt_method r \<and> req_path req = rt_path r"
  by (simp add: literal_matching_def matching_def)

lemma matching_method: "literal_matching fw \<Longrightarrow> req_method req \<noteq> rt_method r \<Longrightarrow> \<not> matching fw req r"
  unfolding literal_matching_def matching_def by metis

lemma find_profile_route:
  assumes "literal_matching fw"
  shows "find (matching fw (profile_request read_cookies hs)) (identity_routes s256 int_of_text fw deps call)
    = Some (profile_route ''/api/v1/auth/profile'' fw deps call)"
proof -
  let ?req = "profile_request read_cookies hs"
  have other: "\<not> matching fw ?req r" if "CHR ''{'' \<notin> set (rt_path r)" "rt_path r \<noteq> ''/api/v1/auth/profile''"
    for r :: "(identity_guard, identity_state) route"
    using matching_literal [OF assms that(1), of ?req] that(2) by (simp add: profile_request_def)
  have "\<not> matching fw ?req (login_route p s256 fw (id_settings deps) call)"
    "\<not> matching fw ?req (callback_route p fw deps call)" "\<not> matching fw ?req (logout_route p fw (id_settings deps))"
    if "CHR ''{'' \<notin> set p" "p \<noteq> ''/api/v1/auth/profile''" for p
    using that by (intro other; simp add: identity_route_defs)+
  moreover have "\<not> matching fw ?req (azure_token_route int_of_text deps call)"
    by (rule matching_method [OF assms]) (simp add: profile_request_def azure_token_route_def)
  moreover have "matching fw ?req (profile_route ''/api/v1/auth/profile'' fw deps call)"
    by (subst matching_literal [OF assms]) (simp_all add: profile_request_def profile_route_def)
  ultimately show ?thesis by (simp add: identity_routes_def)
qed

lemma serve_profile:
  assumes "literal_matching fw"
  shows "fst (serve fw (identity_routes s256 int_of_text fw deps call) (profile_request read_cookies hs) cid st)
    = http_exceptions (fst (reply 200 id (profile deps (hc_env call) (profile_request read_cookies hs) cid
        (fw_credentials fw (profile_request read_cookies hs)) (fst st))))"
  by (cases st) (simp add: serve_def find_profile_route [OF assms] profile_route_def on_identity_def split: prod.split)

lemma profile_Inr:
  "fst (profile deps env req cid credentials db) = Inr body \<Longrightarrow>
     \<exists>ri db1. get_identity deps env req credentials db = Inr (ri, db1) \<and> body = profile_response ri"
  by (auto simp: profile_def split: sum.splits option.splits prod.splits)

lemma detail_is_no_profile: "actor_of_profile cid (JDict [(''detail'', d)]) \<noteq> Inr a"
  by (simp add: actor_of_profile_def as_dict_def uuid_field_def dict_item_def)

lemma profile_answer:
  assumes "literal_matching fw"
    and answered: "identity_client read_cookies (create_app bracket_ok cfg ping fresh elapsed
        (serve fw (identity_routes s256 int_of_text fw deps call))) st url hs = Inr (status, body)"
    and success: "success_status status" and read: "actor_of_profile cid body = Inr a"
  shows "\<exists>ri db1. get_identity deps (hc_env call) (profile_request read_cookies hs)
        (fw_credentials fw (profile_request read_cookies hs)) (fst st) = Inr (ri, db1)
      \<and> a = actor_of_identity cid ri"
proof -
  let ?req = "profile_request read_cookies hs" and ?table = "identity_routes s256 int_of_text fw deps call"
  let ?profile = "\<lambda>cid. profile deps (hc_env call) ?req cid (fw_credentials fw ?req) (fst st)"
  obtain resp st' where app: "create_app bracket_ok cfg ping fresh elapsed (serve fw ?table) ?req st = (Inr resp, st')"
    and resp: "resp_status resp = status" "resp_body resp = body"
  proof (cases "create_app bracket_ok cfg ping fresh elapsed (serve fw ?table) ?req st")
    case (fields x st')
    with answered success that show ?thesis
      by (cases x) (auto simp: identity_client_def)
  qed
  have path: "req_path ?req \<notin> set health_paths" by (simp add: profile_request_def health_paths_def)
  from app show ?thesis
  proof (cases rule: app_cases)
    case rejected
    with success resp show ?thesis by blast
  next
    case (routed y)
    let ?cid = "correlation_id_of fresh ?req"
    obtain z where served: "fst (serve fw ?table ?req ?cid st) = Inr z" and z: "resp_status z = status" "resp_body z = body"
      using routed(2) routed(3) [OF refl] resp by (auto simp: app_routes_service [OF path])
    from served have "http_exceptions (fst (reply 200 id (?profile ?cid))) = Inr z"
      by (simp add: serve_profile [OF assms(1)])
    moreover obtain r db' where r: "?profile ?cid = (r, db')" by (rule prod.exhaust)
    ultimately have served: "http_exceptions (bindr r (\<lambda>x. Inr (json_response 200 x))) = Inr z" by (simp add: reply_def)
    obtain j where "r = Inr j"
    proof (cases r)
      case (Inl e)
      with served have "\<exists>d. resp_body z = JDict [(''detail'', d)]"
        by (auto simp: http_exceptions_def json_response_def split: exn.splits)
      with read z detail_is_no_profile show ?thesis by metis
    qed
    with served have "j = body" using z by (auto simp: http_exceptions_def json_response_def)
    then obtain ri db1 where "get_identity deps (hc_env call) ?req (fw_credentials fw ?req) (fst st) = Inr (ri, db1)"
      and "body = profile_response ri"
      using profile_Inr [of deps "hc_env call" ?req ?cid "fw_credentials fw ?req" "fst st" j] r \<open>r = Inr j\<close> by auto
    with read show ?thesis by (simp add: actor_of_profile_response)
  qed
qed

end
