(* ===== verification/Relationship.thy ===== *)
theory Relationship
  imports Outbox "HOL-Library.AList"
begin

text \<open>
  The graph of dependencies between resources (\<open>apps/relationship-service\<close>): the tables of
  \<open>sentinel_relationship/models.py\<close>, the extraction of references from the ARM properties of
  a resource (\<open>extractors.py\<close>), and the part of the repository that writes
  (\<open>repository.py\<close>). A confidence is the number of thousandths that the column
  \<open>Numeric(4, 3)\<close> holds.
\<close>

section \<open>Tables\<close>

record resource_node = stamped_row +
  nd_inventory_resource_id :: uuid
  nd_azure_resource_id :: string
  nd_normalized_resource_id :: string
  nd_name :: string
  nd_resource_type :: string
  nd_resource_group :: string
  nd_properties :: dict
  nd_is_active :: bool

record relationship = stamped_row +
  re_source_resource_id :: uuid
  re_target_resource_id :: uuid
  re_relationship_type :: string
  re_source_system :: string
  re_dependency_strength :: string
  re_confidence :: int
  re_evidence :: dict
  re_extractor_name :: string
  re_extractor_version :: string
  re_is_active :: bool
  re_first_observed_at :: timestamp
  re_last_observed_at :: timestamp

record relationship_db = platform_db +
  nodes :: "resource_node list"
  edges :: "relationship list"

section \<open>Extraction\<close>

record edge_candidate =
  cd_target_resource_id :: string
  cd_relationship_type :: string
  cd_dependency_strength :: string
  cd_confidence :: int
  cd_evidence_path :: string

record extractor =
  ex_name :: string
  ex_version :: string
  ex_supports :: "string \<Rightarrow> bool"
  ex_extract :: "dict \<Rightarrow> edge_candidate list"

definition is_reference :: "string \<Rightarrow> bool" where
  "is_reference s \<longleftrightarrow> starts_with ''/subscriptions/'' s \<and> contains ''/providers/'' s
     \<and> \<not> ends_with ''/providers/microsoft.insights/diagnosticsettings'' s"

definition reference_candidate :: "string \<Rightarrow> string \<Rightarrow> edge_candidate" where
  "reference_candidate target path = \<lparr>cd_target_resource_id = target, cd_relationship_type = ''references'',
     cd_dependency_strength = ''hard'', cd_confidence = 1000, cd_evidence_path = path\<rparr>"

type_synonym candidates = "(string \<times> edge_candidate) list"

text \<open>
  The closure \<open>visit\<close>: \<open>visit\<close> on a value, \<open>visit_entries\<close> on the rest of a dictionary and
  \<open>visit_items\<close> on the rest of a list from an index on, at the depth of the value itself.
\<close>

function (sequential) visit :: "json \<Rightarrow> string \<Rightarrow> nat \<Rightarrow> candidates \<Rightarrow> candidates"
  and visit_entries :: "(string \<times> json) list \<Rightarrow> string \<Rightarrow> nat \<Rightarrow> candidates \<Rightarrow> candidates"
  and visit_items :: "json list \<Rightarrow> nat \<Rightarrow> string \<Rightarrow> nat \<Rightarrow> candidates \<Rightarrow> candidates" where
  "visit (JDict d) path depth cs = (if 12 < depth then cs else visit_entries d path depth cs)"
| "visit (JList xs) path depth cs = (if 12 < depth then cs else visit_items xs 0 path depth cs)"
| "visit (JStr s) path depth cs =
     (if 12 < depth then cs
      else (let normalized = lower (strip s)
            in if is_reference normalized then AList.update normalized (reference_candidate normalized path) cs
               else cs))"
| "visit v path depth cs = cs"
| "visit_entries [] path depth cs = cs"
| "visit_entries ((k, v) # d) path depth cs =
     visit_entries d path depth (visit v (path @ ''.'' @ k) (depth + 1) cs)"
| "visit_items [] i path depth cs = cs"
| "visit_items (x # xs) i path depth cs =
     (if 1000 \<le> i then cs
      else visit_items xs (i + 1) path depth (visit x (path @ ''['' @ nat_str i @ '']'') (depth + 1) cs))"
  by pat_completeness auto
termination
  by (relation "measure (case_sum (\<lambda>(v, _). 2 * size v)
      (case_sum (\<lambda>(d, _). 2 * size_list (size_prod (\<lambda>_. 0) size) d + 1) (\<lambda>(xs, _). 2 * size_list size xs + 1)))")
    simp_all

definition extract_references :: "dict \<Rightarrow> edge_candidate list" where
  "extract_references properties = map snd (visit (JDict properties) ''$'' 0 [])"

definition arm_reference :: extractor where
  "arm_reference = \<lparr>ex_name = ''arm-reference'', ex_version = ''1.0.0'',
     ex_supports = starts_with ''microsoft.'', ex_extract = extract_references\<rparr>"

definition DEFAULT_EXTRACTORS :: "extractor list" where
  "DEFAULT_EXTRACTORS = [arm_reference]"

section \<open>Writing nodes and edges\<close>

text \<open>A flush writes a row back, and stamps it, only when one of its values has changed.\<close>

definition flushed :: "timestamp \<Rightarrow> 'a stamped_row_scheme \<Rightarrow> 'a stamped_row_scheme \<Rightarrow> 'a stamped_row_scheme" where
  "flushed now old new = (if new = old then old else new\<lparr>updated_at := now\<rparr>)"

record projection_event =
  pe_tenant_id :: uuid
  pe_inventory_resource_id :: uuid
  pe_azure_resource_id :: string
  pe_name :: string
  pe_resource_type :: string
  pe_resource_group :: string
  pe_properties :: dict

abbreviation node_key :: "'a resource_node_scheme \<Rightarrow> uuid \<times> uuid" where
  "node_key n \<equiv> (tenant_id n, nd_inventory_resource_id n)"

abbreviation node_args_key :: "uuid \<times> timestamp \<times> projection_event \<Rightarrow> uuid \<times> uuid" where
  "node_args_key a \<equiv> (pe_tenant_id (snd (snd a)), pe_inventory_resource_id (snd (snd a)))"

definition new_node :: "uuid \<times> timestamp \<times> projection_event \<Rightarrow> resource_node" where
  "new_node a = (case a of (new_id, now, e) \<Rightarrow>
     \<lparr>row_id = new_id, tenant_id = pe_tenant_id e, created_at = now, updated_at = now,
      nd_inventory_resource_id = pe_inventory_resource_id e, nd_azure_resource_id = pe_azure_resource_id e,
      nd_normalized_resource_id = lower (pe_azure_resource_id e), nd_name = pe_name e,
      nd_resource_type = lower (pe_resource_type e), nd_resource_group = pe_resource_group e,
      nd_properties = pe_properties e, nd_is_active = True\<rparr>)"

text \<open>The ARM id of a known node is not among the values written: it stays.\<close>

definition refresh_node :: "uuid \<times> timestamp \<times> projection_event \<Rightarrow> resource_node \<Rightarrow> resource_node" where
  "refresh_node a n = (case a of (_, now, e) \<Rightarrow>
     flushed now n (n\<lparr>nd_name := pe_name e, nd_resource_type := lower (pe_resource_type e),
       nd_resource_group := pe_resource_group e,
       nd_properties := (if py_eq (JDict (nd_properties n)) (JDict (pe_properties e)) then nd_properties n
         else pe_properties e),
       nd_is_active := True\<rparr>))"

text \<open>A second node with the ARM id of another violates a unique constraint.\<close>

definition upsert_node ::
  "uuid \<Rightarrow> timestamp \<Rightarrow> projection_event \<Rightarrow> relationship_db \<Rightarrow> (resource_node \<times> relationship_db) result" where
  "upsert_node new_id now e db =
     (let (n, created, rows) = get_or_put (\<lambda>n. node_key n = (pe_tenant_id e, pe_inventory_resource_id e))
            (new_node (new_id, now, e)) (refresh_node (new_id, now, e)) (nodes db)
      in if created \<and> find (\<lambda>n. tenant_id n = pe_tenant_id e
              \<and> nd_normalized_resource_id n = lower (pe_azure_resource_id e)) (nodes db) \<noteq> None
         then Inl (Exn ''IntegrityError'' ''uq_node_arm_id'') else Inr (n, db\<lparr>nodes := rows\<rparr>))"

text \<open>The edges that one extractor has written for one source.\<close>

definition written_by :: "uuid \<Rightarrow> uuid \<Rightarrow> string \<Rightarrow> relationship \<Rightarrow> bool" where
  "written_by t source name e \<longleftrightarrow>
     tenant_id e = t \<and> re_source_resource_id e = source \<and> re_extractor_name e = name"

definition new_edge ::
  "uuid \<Rightarrow> clock \<Rightarrow> uuid \<Rightarrow> resource_node \<Rightarrow> extractor \<Rightarrow> edge_candidate \<Rightarrow> resource_node \<Rightarrow> relationship" where
  "new_edge new_id clk t source ex c target =
     \<lparr>row_id = new_id, tenant_id = t, created_at = tx_now clk, updated_at = tx_now clk,
      re_source_resource_id = nd_inventory_resource_id source,
      re_target_resource_id = nd_inventory_resource_id target,
      re_relationship_type = cd_relationship_type c, re_source_system = ''azure-resource-properties'',
      re_dependency_strength = cd_dependency_strength c, re_confidence = cd_confidence c,
      re_evidence = [(''path'', JStr (cd_evidence_path c))], re_extractor_name = ex_name ex,
      re_extractor_version = ex_version ex, re_is_active = True, re_first_observed_at = tx_now clk,
      re_last_observed_at = tx_now clk\<rparr>"

definition observe_edge :: "clock \<Rightarrow> edge_candidate \<Rightarrow> relationship \<Rightarrow> relationship" where
  "observe_edge clk c e = e\<lparr>re_is_active := True, re_last_observed_at := py_now clk,
     re_evidence := [(''path'', JStr (cd_evidence_path c))]\<rparr>"

text \<open>
  The loop over the candidates: \<open>current\<close> is the list read before it, \<open>new_id n\<close> the id of
  the n-th candidate's edge.
\<close>

fun rebuild_loop ::
  "(nat \<Rightarrow> uuid) \<Rightarrow> clock \<Rightarrow> uuid \<Rightarrow> resource_node \<Rightarrow> extractor \<Rightarrow> resource_node list \<Rightarrow> relationship list
     \<Rightarrow> nat \<Rightarrow> edge_candidate list \<Rightarrow> relationship list \<Rightarrow> nat \<times> relationship list" where
  "rebuild_loop new_id clk t source ex known current n [] rows = (0, rows)"
| "rebuild_loop new_id clk t source ex known current n (c # cs) rows =
     (case find (\<lambda>x. tenant_id x = t \<and> nd_normalized_resource_id x = cd_target_resource_id c) known of
        None \<Rightarrow> rebuild_loop new_id clk t source ex known current (Suc n) cs rows
      | Some target \<Rightarrow>
          if nd_inventory_resource_id target = nd_inventory_resource_id source
          then rebuild_loop new_id clk t source ex known current (Suc n) cs rows
          else (case find (\<lambda>e. re_target_resource_id e = nd_inventory_resource_id target
                       \<and> re_relationship_type e = cd_relationship_type c) current of
              None \<Rightarrow> (let (changed, rows) = rebuild_loop new_id clk t source ex known current (Suc n) cs
                            (rows @ [new_edge (new_id n) clk t source ex c target])
                       in (Suc changed, rows))
            | Some e \<Rightarrow> rebuild_loop new_id clk t source ex known current (Suc n) cs
                  (upd_first (\<lambda>x. row_id x = row_id e) (observe_edge clk c) rows)))"

definition flush_edges :: "timestamp \<Rightarrow> relationship list \<Rightarrow> relationship list \<Rightarrow> relationship list" where
  "flush_edges now old new = map (\<lambda>e. case find (\<lambda>x. row_id x = row_id e) old of
       None \<Rightarrow> e | Some x \<Rightarrow> flushed now x e) new"

definition rebuild_edges ::
  "relationship plan \<Rightarrow> (nat \<Rightarrow> uuid) \<Rightarrow> clock \<Rightarrow> uuid \<Rightarrow> resource_node \<Rightarrow> extractor \<Rightarrow> edge_candidate list
     \<Rightarrow> relationship_db \<Rightarrow> nat \<times> relationship_db" where
  "rebuild_edges plan new_id clk t source ex cs db =
     (let mine = written_by t (nd_inventory_resource_id source) (ex_name ex);
          current = scan_rows plan (filter mine (edges db));
          inactive = map (\<lambda>e. if mine e then e\<lparr>re_is_active := False\<rparr> else e) (edges db);
          (changed, rows) = rebuild_loop new_id clk t source ex (nodes db) current 0 cs inactive
      in (changed, db\<lparr>edges := flush_edges (tx_now clk) (edges db) rows\<rparr>))"

text \<open>The service: every extractor that supports the type of the node.\<close>

fun run_extractors ::
  "relationship plan \<Rightarrow> (nat \<Rightarrow> uuid) \<Rightarrow> clock \<Rightarrow> uuid \<Rightarrow> resource_node \<Rightarrow> extractor list \<Rightarrow> relationship_db
     \<Rightarrow> nat \<times> relationship_db" where
  "run_extractors plan new_id clk t node [] db = (0, db)"
| "run_extractors plan new_id clk t node (ex # exs) db =
     (if ex_supports ex (nd_resource_type node)
      then (let (changed, db) = rebuild_edges plan new_id clk t node ex (ex_extract ex (nd_properties node)) db;
                (more, db) = run_extractors plan new_id clk t node exs db
            in (changed + more, db))
      else run_extractors plan new_id clk t node exs db)"

definition project_and_extract ::
  "relationship plan \<Rightarrow> uuid \<Rightarrow> (nat \<Rightarrow> uuid) \<Rightarrow> clock \<Rightarrow> projection_event \<Rightarrow> relationship_db
     \<Rightarrow> (nat \<times> relationship_db) result" where
  "project_and_extract plan node_id new_id clk e db =
     bindr (upsert_node node_id (tx_now clk) e db) (\<lambda>(node, db).
     Inr (run_extractors plan new_id clk (pe_tenant_id e) node DEFAULT_EXTRACTORS db))"

definition list_nodes :: "resource_node plan \<Rightarrow> uuid \<Rightarrow> relationship_db \<Rightarrow> resource_node list" where
  "list_nodes plan t db = scan_rows plan (filter (\<lambda>n. tenant_id n = t \<and> nd_is_active n) (nodes db))"

fun rebuild_nodes ::
  "relationship plan \<Rightarrow> (uuid \<Rightarrow> nat \<Rightarrow> uuid) \<Rightarrow> clock \<Rightarrow> uuid \<Rightarrow> resource_node list \<Rightarrow> relationship_db
     \<Rightarrow> nat \<times> relationship_db" where
  "rebuild_nodes plan new_id clk t [] db = (0, db)"
| "rebuild_nodes plan new_id clk t (n # ns) db =
     (let (changed, db) = run_extractors plan (new_id (row_id n)) clk t n DEFAULT_EXTRACTORS db;
          (more, db) = rebuild_nodes plan new_id clk t ns db
      in (changed + more, db))"

definition rebuild_all ::
  "resource_node plan \<Rightarrow> relationship plan \<Rightarrow> (uuid \<Rightarrow> nat \<Rightarrow> uuid) \<Rightarrow> clock \<Rightarrow> uuid \<Rightarrow> relationship_db
     \<Rightarrow> nat \<times> relationship_db" where
  "rebuild_all node_plan plan new_id clk t db = rebuild_nodes plan new_id clk t (list_nodes node_plan t db) db"

section \<open>What is extracted\<close>

text \<open>
  The specification: \<open>text_at v p n s\<close> says that the value has the text \<open>s\<close> at the path \<open>p\<close>,
  \<open>n\<close> levels down, not counting list elements from the 1000th on.
\<close>

inductive text_at :: "json \<Rightarrow> string \<Rightarrow> nat \<Rightarrow> string \<Rightarrow> bool" where
  here: "text_at (JStr s) [] 0 s"
| entry: "(k, v) \<in> set d \<Longrightarrow> text_at v p n s \<Longrightarrow> text_at (JDict d) (''.'' @ k @ p) (Suc n) s"
| item: "i < length xs \<Longrightarrow> i < 1000 \<Longrightarrow> text_at (xs ! i) p n s
    \<Longrightarrow> text_at (JList xs) (''['' @ nat_str i @ '']'' @ p) (Suc n) s"

inductive_simps text_at_simps [simp]:
  "text_at (JStr x) p n s" "text_at JNull p n s" "text_at (JBool b) p n s" "text_at (JInt i) p n s"
  "text_at (JFloat f) p n s" "text_at (JUuid u) p n s"

inductive_cases text_at_DictE: "text_at (JDict d) p n s"
inductive_cases text_at_ListE: "text_at (JList xs) p n s"

text \<open>The references in a value, with their paths, when the value itself sits at a path and a depth.\<close>

definition refs :: "json \<Rightarrow> string \<Rightarrow> nat \<Rightarrow> (string \<times> string) set" where
  "refs v path depth = {(lower (strip s), path @ p) | p n s.
     text_at v p n s \<and> depth + n \<le> 12 \<and> is_reference (lower (strip s))}"

lemma refs_deep: "12 < depth \<Longrightarrow> refs v path depth = {}"
  by (auto simp: refs_def)

lemma refs_text: "refs (JStr s) path depth =
    (if depth \<le> 12 \<and> is_reference (lower (strip s)) then {(lower (strip s), path)} else {})"
  by (auto simp: refs_def)

lemma refs_dict: "refs (JDict d) path depth = (\<Union>(k, v) \<in> set d. refs v (path @ ''.'' @ k) (depth + 1))"
proof (intro equalityI subsetI)
  fix x
  assume "x \<in> refs (JDict d) path depth"
  then show "x \<in> (\<Union>(k, v) \<in> set d. refs v (path @ ''.'' @ k) (depth + 1))"
    unfolding refs_def by (auto elim!: text_at_DictE) force
next
  fix x
  assume "x \<in> (\<Union>(k, v) \<in> set d. refs v (path @ ''.'' @ k) (depth + 1))"
  then obtain k v p n s where kv: "(k, v) \<in> set d" "text_at v p n s" "depth + 1 + n \<le> 12" "is_reference (lower (strip s))"
      "x = (lower (strip s), (path @ ''.'' @ k) @ p)"
    unfolding refs_def by auto
  then have "text_at (JDict d) (''.'' @ k @ p) (Suc n) s" by (intro text_at.entry)
  with kv show "x \<in> refs (JDict d) path depth" unfolding refs_def by fastforce
qed

definition item_refs :: "json list \<Rightarrow> nat \<Rightarrow> string \<Rightarrow> nat \<Rightarrow> (string \<times> string) set" where
  "item_refs xs i path depth =
     (\<Union>j \<in> {j. j < length xs \<and> i + j < 1000}. refs (xs ! j) (path @ ''['' @ nat_str (i + j) @ '']'') (depth + 1))"

lemma refs_list: "refs (JList xs) path depth = item_refs xs 0 path depth"
proof (intro equalityI subsetI)
  fix x
  assume "x \<in> refs (JList xs) path depth"
  then show "x \<in> item_refs xs 0 path depth"
    unfolding refs_def item_refs_def by (auto elim!: text_at_ListE) force
next
  fix x
  assume "x \<in> item_refs xs 0 path depth"
  then obtain i p n s where i: "i < length xs" "i < 1000" "text_at (xs ! i) p n s" "depth + 1 + n \<le> 12"
      "is_reference (lower (strip s))" "x = (lower (strip s), (path @ ''['' @ nat_str i @ '']'') @ p)"
    unfolding item_refs_def refs_def by auto
  then have "text_at (JList xs) (''['' @ nat_str i @ '']'' @ p) (Suc n) s" by (intro text_at.item)
  with i show "x \<in> refs (JList xs) path depth" unfolding refs_def by fastforce
qed

lemma item_refs_simps:
  "item_refs [] i path depth = {}"
  "1000 \<le> i \<Longrightarrow> item_refs xs i path depth = {}"
  "i < 1000 \<Longrightarrow> item_refs (x # xs) i path depth
     = refs x (path @ ''['' @ nat_str i @ '']'') (depth + 1) \<union> item_refs xs (i + 1) path depth"
proof -
  assume i: "i < 1000"
  have "{j. j < length (x # xs) \<and> i + j < 1000} = insert 0 (Suc ` {j. j < length xs \<and> i + 1 + j < 1000})"
    using i by (auto simp: image_iff gr0_conv_Suc less_Suc_eq_0_disj)
  then show "item_refs (x # xs) i path depth
     = refs x (path @ ''['' @ nat_str i @ '']'') (depth + 1) \<union> item_refs xs (i + 1) path depth"
    by (simp add: item_refs_def)
qed (auto simp: item_refs_def)

definition collects :: "candidates \<Rightarrow> candidates \<Rightarrow> (string \<times> string) set \<Rightarrow> bool" where
  "collects cs cs' R \<longleftrightarrow> (distinct (map fst cs) \<longrightarrow> distinct (map fst cs'))
     \<and> fst ` set cs' = fst ` set cs \<union> fst ` R
     \<and> (\<forall>x \<in> set cs'. x \<in> set cs \<or> (\<exists>(k, p) \<in> R. x = (k, reference_candidate k p)))"

lemma collects_none: "collects cs cs {}"
  by (simp add: collects_def)

lemma collects_one: "collects cs (AList.update k (reference_candidate k p) cs) {(k, p)}"
proof -
  have "x \<in> set (AList.update k v cs) \<Longrightarrow> x \<in> set cs \<or> x = (k, v)" for x v
    by (induction cs) (auto split: if_splits)
  moreover have "fst ` set (AList.update k v cs) = insert k (fst ` set cs)" for v
    using AList.dom_update [of k v cs] by (auto simp: dom_map_of_conv_image_fst)
  ultimately show ?thesis by (auto simp: collects_def distinct_update)
qed

lemma collects_trans:
  assumes "collects cs cs1 R1" "collects cs1 cs2 R2"
  shows "collects cs cs2 (R1 \<union> R2)"
proof -
  have "\<exists>(k, p) \<in> R1 \<union> R2. x = (k, reference_candidate k p)" if "x \<in> set cs2" "x \<notin> set cs" for x
    using assms that unfolding collects_def by (metis (no_types, lifting) Un_iff)
  then show ?thesis using assms by (auto simp: collects_def image_Un)
qed

lemma visit_collects:
  "collects cs (visit v path depth cs) (refs v path depth)"
  "depth \<le> 12 \<Longrightarrow> collects cs (visit_entries d path depth cs) (\<Union>(k, v) \<in> set d. refs v (path @ ''.'' @ k) (depth + 1))"
  "depth \<le> 12 \<Longrightarrow> collects cs (visit_items xs i path depth cs) (item_refs xs i path depth)"
proof (induction v path depth cs and d path depth cs and xs i path depth cs
    rule: visit_visit_entries_visit_items.induct)
  case (1 d path depth cs)
  then show ?case by (cases "12 < depth") (simp_all add: refs_deep refs_dict collects_none)
next
  case (2 xs path depth cs)
  then show ?case
  proof (cases "12 < depth")
    case False
    with 2 show ?thesis by (simp add: refs_list)
  qed (simp add: refs_deep collects_none)
next
  case (3 s path depth cs)
  then show ?case by (auto simp: refs_text Let_def collects_none collects_one)
next
  case (6 k v d path depth cs)
  have "collects cs (visit_entries d path depth (visit v (path @ ''.'' @ k) (depth + 1) cs))
      (refs v (path @ ''.'' @ k) (depth + 1) \<union> (\<Union>(k, v) \<in> set d. refs v (path @ ''.'' @ k) (depth + 1)))"
    by (rule collects_trans [OF 6(1) 6(2) [OF 6(3)]])
  then show ?case by (simp add: case_prod_unfold)
next
  case (8 x xs i path depth cs)
  show ?case
  proof (cases "1000 \<le> i")
    case False
    have "collects cs (visit_items xs (i + 1) path depth (visit x (path @ ''['' @ nat_str i @ '']'') (depth + 1) cs))
        (refs x (path @ ''['' @ nat_str i @ '']'') (depth + 1) \<union> item_refs xs (i + 1) path depth)"
      using False 8 by (intro collects_trans [OF 8(1) 8(2)]) simp_all
    with False show ?thesis by (simp add: item_refs_simps)
  qed (simp add: item_refs_simps collects_none)
qed (simp_all add: refs_def item_refs_simps collects_none)

lemma extract_candidates:
  "distinct (map cd_target_resource_id (extract_references d))"
  "cd_target_resource_id ` set (extract_references d) = fst ` refs (JDict d) ''$'' 0"
  "c \<in> set (extract_references d) \<Longrightarrow> \<exists>(k, p) \<in> refs (JDict d) ''$'' 0. c = reference_candidate k p"
proof -
  let ?cs = "visit (JDict d) ''$'' 0 []"
  have cs: "distinct (map fst ?cs)" "fst ` set ?cs = fst ` refs (JDict d) ''$'' 0"
      "x \<in> set ?cs \<Longrightarrow> \<exists>(k, p) \<in> refs (JDict d) ''$'' 0. x = (k, reference_candidate k p)" for x
    using visit_collects(1) [of "[]" "JDict d" "''$''" 0] by (simp_all add: collects_def)
  have "cd_target_resource_id (snd x) = fst x" if "x \<in> set ?cs" for x
    using cs(3) [OF that] by (auto simp: reference_candidate_def)
  then have "map cd_target_resource_id (extract_references d) = map fst ?cs" by (simp add: extract_references_def)
  then show "distinct (map cd_target_resource_id (extract_references d))"
    "cd_target_resource_id ` set (extract_references d) = fst ` refs (JDict d) ''$'' 0"
    using cs(1,2) by (simp_all flip: set_map)
  show "c \<in> set (extract_references d) \<Longrightarrow> \<exists>(k, p) \<in> refs (JDict d) ''$'' 0. c = reference_candidate k p"
    using cs(3) by (fastforce simp: extract_references_def)
qed

section \<open>What a rebuild leaves\<close>

interpretation node_table: keyed_upsert node_key node_args_key new_node refresh_node
  by unfold_locales (auto simp: new_node_def refresh_node_def flushed_def split: prod.splits)

abbreviation edge_key :: "'a relationship_scheme \<Rightarrow> uuid \<times> uuid \<times> uuid \<times> string \<times> string" where
  "edge_key e \<equiv> (tenant_id e, re_source_resource_id e, re_target_resource_id e, re_relationship_type e, re_source_system e)"

text \<open>What no operation on an edge changes.\<close>

definition edge_view :: "relationship \<Rightarrow> uuid \<times> (uuid \<times> uuid \<times> uuid \<times> string \<times> string) \<times> string" where
  "edge_view e = (row_id e, edge_key e, re_extractor_name e)"

lemma edge_view_iff: "edge_view x = edge_view y \<longleftrightarrow> row_id x = row_id y \<and> tenant_id x = tenant_id y
    \<and> re_source_resource_id x = re_source_resource_id y \<and> re_target_resource_id x = re_target_resource_id y
    \<and> re_relationship_type x = re_relationship_type y \<and> re_source_system x = re_source_system y
    \<and> re_extractor_name x = re_extractor_name y"
  by (auto simp: edge_view_def)

definition active_targets :: "(relationship \<Rightarrow> bool) \<Rightarrow> relationship list \<Rightarrow> uuid set" where
  "active_targets mine rows = re_target_resource_id ` {e \<in> set rows. mine e \<and> re_is_active e}"

text \<open>The resource that a candidate of a source leads to: a known node other than the source.\<close>

definition aim :: "resource_node list \<Rightarrow> uuid \<Rightarrow> resource_node \<Rightarrow> edge_candidate \<Rightarrow> uuid option" where
  "aim known t source c =
     (case find (\<lambda>x. tenant_id x = t \<and> nd_normalized_resource_id x = cd_target_resource_id c) known of
        None \<Rightarrow> None
      | Some n \<Rightarrow> if nd_inventory_resource_id n = nd_inventory_resource_id source then None
          else Some (nd_inventory_resource_id n))"

definition loop_inv ::
  "uuid \<Rightarrow> uuid \<Rightarrow> string \<Rightarrow> relationship list \<Rightarrow> uuid set \<Rightarrow> relationship list \<Rightarrow> bool" where
  "loop_inv t src name current seen rows \<longleftrightarrow> distinct (map row_id rows) \<and> distinct (map edge_key rows)
     \<and> edge_view ` set current \<subseteq> edge_view ` set rows \<and> (\<forall>e \<in> set current. written_by t src name e)
     \<and> (\<forall>x \<in> set rows. tenant_id x = t \<and> re_source_resource_id x = src \<longrightarrow>
          re_extractor_name x = name \<and>
          ((\<exists>e \<in> set current. re_target_resource_id e = re_target_resource_id x
              \<and> re_relationship_type e = re_relationship_type x)
           \<or> re_target_resource_id x \<in> seen))"

lemma set_upd_first_unique:
  assumes "distinct (map row_id rows)" "x \<in> set rows" "row_id x = i"
  shows "set (upd_first (\<lambda>r. row_id r = i) f rows) = insert (f x) (set rows - {x})"
  using assms
proof (induction rows)
  case (Cons a rows)
  show ?case
  proof (cases "a = x")
    case True
    then have "x \<notin> set rows" using Cons.prems(1) by auto
    with True Cons.prems(3) show ?thesis by simp
  next
    case False
    with Cons.prems have x: "x \<in> set rows" by simp
    then have "row_id a \<noteq> i" using Cons.prems by (metis distinct.simps(2) image_eqI list.simps(9) set_map)
    with False Cons x show ?thesis by auto
  qed
qed simp

lemma observe_view [simp]: "edge_view (observe_edge clk c e) = edge_view e"
  by (simp add: edge_view_def observe_edge_def)

lemma written_by_view: "edge_view x = edge_view y \<Longrightarrow> written_by t src name x = written_by t src name y"
  by (simp add: edge_view_iff written_by_def)

lemma image_replace:
  assumes "f x = i" "f y = i" "P y"
  shows "f ` {e \<in> insert y (S - {x}). P e} = insert i (f ` {e \<in> S. P e})"
proof -
  have "{e \<in> insert y (S - {x}). P e} = insert y {e \<in> S - {x}. P e}" using assms(3) by blast
  moreover have "insert i (f ` {e \<in> S - {x}. P e}) = insert i (f ` {e \<in> S. P e})" using assms(1) by blast
  ultimately show ?thesis using assms(2) by simp
qed

lemma observe_step:
  assumes inv: "loop_inv t src name current seen rows" and e: "e \<in> set current"
    and rows': "rows' = upd_first (\<lambda>x. row_id x = row_id e) (observe_edge clk c) rows"
  shows "loop_inv t src name current seen rows'"
    "active_targets (written_by t src name) rows' = insert (re_target_resource_id e) (active_targets (written_by t src name) rows)"
    "filter (\<lambda>x. \<not> written_by t src name x) rows' = filter (\<lambda>x. \<not> written_by t src name x) rows"
    "map row_id rows' = map row_id rows"
proof -
  have views: "map edge_view rows' = map edge_view rows" unfolding rows' by (rule map_upd_first) simp
  then have sets: "edge_view ` set rows' = edge_view ` set rows" by (metis set_map)
  have ids: "map row_id rows' = map row_id rows" "map edge_key rows' = map edge_key rows"
    unfolding rows' by (simp_all add: map_upd_first observe_edge_def)
  then show "map row_id rows' = map row_id rows" by simp
  obtain x where x: "x \<in> set rows" "edge_view x = edge_view e" using inv e by (fastforce simp: loop_inv_def)
  have mine: "written_by t src name x" using inv e x(2) by (auto simp: loop_inv_def dest: written_by_view)
  have keep: "tenant_id x' = t \<and> re_source_resource_id x' = src \<longrightarrow> re_extractor_name x' = name \<and>
      ((\<exists>e \<in> set current. re_target_resource_id e = re_target_resource_id x' \<and> re_relationship_type e = re_relationship_type x')
       \<or> re_target_resource_id x' \<in> seen)" if "x' \<in> set rows'" for x'
  proof -
    have "edge_view x' \<in> edge_view ` set rows" using that sets by blast
    then obtain y where y: "y \<in> set rows" "edge_view x' = edge_view y" by blast
    with inv have "tenant_id y = t \<and> re_source_resource_id y = src \<longrightarrow> re_extractor_name y = name \<and>
        ((\<exists>e \<in> set current. re_target_resource_id e = re_target_resource_id y \<and> re_relationship_type e = re_relationship_type y)
         \<or> re_target_resource_id y \<in> seen)" by (simp add: loop_inv_def)
    with y(2) show ?thesis unfolding edge_view_iff by simp
  qed
  then show "loop_inv t src name current seen rows'"
    using inv by (simp add: loop_inv_def ids sets)
  have set': "set rows' = insert (observe_edge clk c x) (set rows - {x})"
    unfolding rows' using inv x by (intro set_upd_first_unique) (auto simp: loop_inv_def edge_view_iff)
  have act: "written_by t src name (observe_edge clk c x) \<and> re_is_active (observe_edge clk c x)"
    using mine by (simp add: written_by_def observe_edge_def)
  have tgt: "re_target_resource_id x = re_target_resource_id e"
      "re_target_resource_id (observe_edge clk c x) = re_target_resource_id e"
    using x(2) by (simp_all add: observe_edge_def edge_view_iff)
  show "active_targets (written_by t src name) rows'
      = insert (re_target_resource_id e) (active_targets (written_by t src name) rows)"
    unfolding active_targets_def set'
    by (rule image_replace [where P = "\<lambda>e. written_by t src name e \<and> re_is_active e", OF tgt act])
  have "filter (\<lambda>x. \<not> written_by t src name x) (upd_first (\<lambda>x. row_id x = i) f zs) = filter (\<lambda>x. \<not> written_by t src name x) zs"
    if "\<forall>z \<in> set zs. row_id z = i \<longrightarrow> written_by t src name z \<and> written_by t src name (f z)" for i f zs
    using that by (induction zs) auto
  moreover have "\<forall>z \<in> set rows. row_id z = row_id e \<longrightarrow> written_by t src name z \<and> written_by t src name (observe_edge clk c z)"
  proof (intro ballI impI)
    fix z
    assume "z \<in> set rows" "row_id z = row_id e"
    then have "z = x" using inv x inj_onD [of row_id "set rows" z x]
      unfolding loop_inv_def distinct_map edge_view_iff by simp
    with mine show "written_by t src name z \<and> written_by t src name (observe_edge clk c z)"
      by (simp add: written_by_def observe_edge_def)
  qed
  ultimately show "filter (\<lambda>x. \<not> written_by t src name x) rows' = filter (\<lambda>x. \<not> written_by t src name x) rows"
    unfolding rows' by blast
qed

lemma append_step:
  assumes inv: "loop_inv t src name current seen rows"
    and fresh: "new_id \<notin> row_id ` set rows"
    and e: "e = new_edge new_id clk t source ex c target" "nd_inventory_resource_id source = src" "ex_name ex = name"
    and none: "find (\<lambda>e. re_target_resource_id e = nd_inventory_resource_id target
        \<and> re_relationship_type e = cd_relationship_type c) current = None"
    and new: "nd_inventory_resource_id target \<notin> seen"
  shows "loop_inv t src name current (insert (nd_inventory_resource_id target) seen) (rows @ [e])"
    "active_targets (written_by t src name) (rows @ [e])
      = insert (nd_inventory_resource_id target) (active_targets (written_by t src name) rows)"
    "filter (\<lambda>x. \<not> written_by t src name x) (rows @ [e]) = filter (\<lambda>x. \<not> written_by t src name x) rows"
proof -
  have fields: "row_id e = new_id" "tenant_id e = t" "re_source_resource_id e = src" "re_extractor_name e = name"
      "re_target_resource_id e = nd_inventory_resource_id target" "re_relationship_type e = cd_relationship_type c" "re_is_active e"
    using e by (simp_all add: new_edge_def)
  have neq: "edge_key x \<noteq> edge_key e" if "x \<in> set rows" for x
  proof
    assume key: "edge_key x = edge_key e"
    then have "tenant_id x = t" "re_source_resource_id x = src" using fields by simp_all
    then have "(\<exists>y \<in> set current. re_target_resource_id y = re_target_resource_id x \<and> re_relationship_type y = re_relationship_type x)
        \<or> re_target_resource_id x \<in> seen"
      using inv that unfolding loop_inv_def by blast
    then show False using key fields new none by (auto dest: find_None_not)
  qed
  have "edge_key e \<notin> edge_key ` set rows"
  proof
    assume "edge_key e \<in> edge_key ` set rows"
    then obtain x where x: "edge_key e = edge_key x" "x \<in> set rows" by (rule imageE)
    show False using neq [OF x(2)] x(1) [symmetric] by (rule notE)
  qed
  then show "loop_inv t src name current (insert (nd_inventory_resource_id target) seen) (rows @ [e])"
    using inv fresh fields by (auto simp: loop_inv_def)
  show "active_targets (written_by t src name) (rows @ [e])
      = insert (nd_inventory_resource_id target) (active_targets (written_by t src name) rows)"
  proof -
    have "{x \<in> set (rows @ [e]). written_by t src name x \<and> re_is_active x}
        = insert e {x \<in> set rows. written_by t src name x \<and> re_is_active x}"
      using fields by (auto simp: written_by_def)
    then show ?thesis using fields by (simp add: active_targets_def)
  qed
  show "filter (\<lambda>x. \<not> written_by t src name x) (rows @ [e]) = filter (\<lambda>x. \<not> written_by t src name x) rows"
    using fields by (simp add: written_by_def)
qed

definition aims :: "resource_node list \<Rightarrow> uuid \<Rightarrow> resource_node \<Rightarrow> edge_candidate list \<Rightarrow> uuid list" where
  "aims known t source cs = List.map_filter (aim known t source) cs"

lemma aims_simps [simp]:
  "aims known t source [] = []"
  "aims known t source (c # cs) = (case aim known t source c of None \<Rightarrow> aims known t source cs | Some i \<Rightarrow> i # aims known t source cs)"
  by (simp_all add: aims_def map_filter_simps split: option.splits)

lemma rebuild_loop_correct:
  assumes "loop_inv t src name current seen rows" "nd_inventory_resource_id source = src" "ex_name ex = name"
    and "distinct (aims known t source cs)" "set (aims known t source cs) \<inter> seen = {}"
    and "inj_on new_id {n..<n + length cs}" "\<forall>k \<in> {n..<n + length cs}. new_id k \<notin> row_id ` set rows"
    and "rebuild_loop new_id clk t source ex known current n cs rows = (changed, rows')"
  shows "\<exists>seen'. loop_inv t src name current seen' rows'
    \<and> active_targets (written_by t src name) rows'
        = active_targets (written_by t src name) rows \<union> set (aims known t source cs)
    \<and> filter (\<lambda>x. \<not> written_by t src name x) rows' = filter (\<lambda>x. \<not> written_by t src name x) rows"
  using assms
proof (induction cs arbitrary: n seen rows changed)
  case Nil
  then show ?case by auto
next
  case (Cons c cs)
  let ?loop = "rebuild_loop new_id clk t source ex known current (Suc n) cs"
  have later: "\<forall>k \<in> {Suc n..<Suc n + length cs}. new_id k \<notin> row_id ` set rows" using Cons.prems(7) by simp
  have inj: "inj_on new_id {Suc n..<Suc n + length cs}"
    using Cons.prems(6) by (rule inj_on_subset) auto
  show ?case
  proof (cases "aim known t source c")
    case None
    then have "?loop rows = (changed, rows')"
      using Cons.prems(8) by (auto simp: aim_def split: option.splits if_splits)
    from Cons.IH [OF Cons.prems(1-3) _ _ inj later this] Cons.prems(4,5) None
    show ?thesis by simp
  next
    case (Some i)
    then obtain target where target: "find (\<lambda>x. tenant_id x = t \<and> nd_normalized_resource_id x = cd_target_resource_id c) known = Some target"
        "nd_inventory_resource_id target \<noteq> nd_inventory_resource_id source" "i = nd_inventory_resource_id target"
      by (auto simp: aim_def split: option.splits if_splits)
    have aims: "distinct (aims known t source cs)" "i \<notin> set (aims known t source cs)" "i \<notin> seen"
        "set (aims known t source cs) \<inter> seen = {}"
      using Cons.prems(4,5) Some by auto
    let ?hit = "find (\<lambda>e. re_target_resource_id e = nd_inventory_resource_id target
        \<and> re_relationship_type e = cd_relationship_type c) current"
    show ?thesis
    proof (cases ?hit)
      case hit: (Some e)
      let ?rows = "upd_first (\<lambda>x. row_id x = row_id e) (observe_edge clk c) rows"
      have e: "e \<in> set current" "re_target_resource_id e = i" using find_Some_in [OF hit] target(3) by simp_all
      note step = observe_step [OF Cons.prems(1) e(1) refl, of clk c]
      have "?loop ?rows = (changed, rows')" using Cons.prems(8) target hit by simp
      moreover have "\<forall>k \<in> {Suc n..<Suc n + length cs}. new_id k \<notin> row_id ` set ?rows"
        using later step(4) by (metis set_map)
      ultimately have "\<exists>seen'. loop_inv t src name current seen' rows'
          \<and> active_targets (written_by t src name) rows' = active_targets (written_by t src name) ?rows \<union> set (aims known t source cs)
          \<and> filter (\<lambda>x. \<not> written_by t src name x) rows' = filter (\<lambda>x. \<not> written_by t src name x) ?rows"
        using Cons.IH [OF step(1) Cons.prems(2,3) aims(1,4) inj] by blast
      then show ?thesis unfolding step(2,3) e(2) by (simp add: Some)
    next
      case hit: None
      let ?e = "new_edge (new_id n) clk t source ex c target"
      have "new_id n \<notin> row_id ` set rows" using Cons.prems(7) by simp
      note step = append_step [OF Cons.prems(1) this refl Cons.prems(2,3) hit aims(3) [unfolded target(3)]]
      obtain more where "?loop (rows @ [?e]) = (more, rows')"
        using Cons.prems(8) target hit by (auto split: prod.splits)
      moreover have "new_id k \<noteq> new_id n" if "k \<in> {Suc n..<Suc n + length cs}" for k
        using inj_onD [OF Cons.prems(6), of k n] that by auto
      then have "\<forall>k \<in> {Suc n..<Suc n + length cs}. new_id k \<notin> row_id ` set (rows @ [?e])"
        using later by (auto simp: new_edge_def)
      moreover have "set (aims known t source cs) \<inter> insert (nd_inventory_resource_id target) seen = {}"
        using aims target(3) by simp
      ultimately have "\<exists>seen'. loop_inv t src name current seen' rows'
          \<and> active_targets (written_by t src name) rows' = active_targets (written_by t src name) (rows @ [?e]) \<union> set (aims known t source cs)
          \<and> filter (\<lambda>x. \<not> written_by t src name x) rows' = filter (\<lambda>x. \<not> written_by t src name x) (rows @ [?e])"
        using Cons.IH [OF step(1) Cons.prems(2,3) aims(1) _ inj] by blast
      then show ?thesis unfolding step(2,3) target(3) [symmetric] by (simp add: Some)
    qed
  qed
qed

text \<open>The constraints of the schema, and that the one extractor there is has written every edge.\<close>

definition relationship_ok :: "relationship_db \<Rightarrow> bool" where
  "relationship_ok db \<longleftrightarrow> distinct (map row_id (edges db)) \<and> distinct (map edge_key (edges db))
     \<and> distinct (map node_key (nodes db))
     \<and> distinct (map (\<lambda>n. (tenant_id n, nd_normalized_resource_id n)) (nodes db))
     \<and> (\<forall>e \<in> set (edges db). re_extractor_name e = ''arm-reference'')"

lemma flushed_fields:
  "edge_view (flushed now old new) = (if new = old then edge_view old else edge_view new)"
  "re_is_active (flushed now old new) = re_is_active new"
  by (simp_all add: flushed_def edge_view_def)

lemma flush_edges_view: "map edge_view (flush_edges now old new) = map edge_view new"
  by (auto simp: flush_edges_def flushed_fields split: option.splits)

lemma active_targets_map:
  assumes "\<And>e. e \<in> set rows \<Longrightarrow> mine (f e) = mine e \<and> re_is_active (f e) = re_is_active e
      \<and> re_target_resource_id (f e) = re_target_resource_id e"
  shows "active_targets mine (map f rows) = active_targets mine rows"
  unfolding active_targets_def using assms by (force simp: image_iff)

lemma filter_map_if:
  assumes "\<And>x. P (f x) = P x"
  shows "filter (\<lambda>x. \<not> P x) (map (\<lambda>x. if P x then f x else x) xs) = filter (\<lambda>x. \<not> P x) xs"
  by (induction xs) (simp_all add: assms)

lemma aims_distinct:
  assumes "distinct (map node_key known)" "distinct (map cd_target_resource_id cs)"
  shows "distinct (aims known t source cs)"
  using assms(2)
proof (induction cs)
  case (Cons c cs)
  have node: "\<exists>x \<in> set known. tenant_id x = t \<and> nd_normalized_resource_id x = cd_target_resource_id c
      \<and> nd_inventory_resource_id x = i" if "aim known t source c = Some i" for c i
    using that by (auto simp: aim_def split: option.splits if_splits dest!: find_Some_in)
  have "i \<notin> set (aims known t source cs)" if i: "aim known t source c = Some i" for i
  proof
    assume "i \<in> set (aims known t source cs)"
    then obtain d where d: "d \<in> set cs" "aim known t source d = Some i"
      by (auto simp: aims_def map_filter_def)
    obtain x where x: "x \<in> set known" "tenant_id x = t" "nd_normalized_resource_id x = cd_target_resource_id c"
        "nd_inventory_resource_id x = i" using node [OF i] by blast
    obtain y where y: "y \<in> set known" "tenant_id y = t" "nd_normalized_resource_id y = cd_target_resource_id d"
        "nd_inventory_resource_id y = i" using node [OF d(2)] by blast
    have "inj_on node_key (set known)" using assms(1) by (simp add: distinct_map)
    then have "x = y" by (rule inj_onD) (simp_all add: x y)
    then have "cd_target_resource_id c = cd_target_resource_id d" using x(3) y(3) by simp
    then show False using Cons.prems d(1) by (metis distinct.simps(2) image_eqI list.simps(9) set_map)
  qed
  with Cons show ?case by (auto split: option.splits)
qed simp

lemma edge_view_fields:
  assumes "map edge_view xs = map edge_view ys"
  shows "map row_id xs = map row_id ys" "map edge_key xs = map edge_key ys"
    "map re_extractor_name xs = map re_extractor_name ys"
proof -
  have "map fst (map edge_view xs) = map fst (map edge_view ys)"
    "map (fst \<circ> snd) (map edge_view xs) = map (fst \<circ> snd) (map edge_view ys)"
    "map (snd \<circ> snd) (map edge_view xs) = map (snd \<circ> snd) (map edge_view ys)"
    by (simp_all only: assms)
  then show "map row_id xs = map row_id ys" "map edge_key xs = map edge_key ys"
      "map re_extractor_name xs = map re_extractor_name ys"
    by (simp_all add: edge_view_def comp_def)
qed

text \<open>Before the loop the edges of the source are inactive.\<close>

lemma deactivated_rows:
  fixes t src :: uuid
  assumes ok: "relationship_ok db" and ex: "name = ''arm-reference''"
  defines "mine \<equiv> written_by t src name"
  defines "inactive \<equiv> map (\<lambda>e. if mine e then e\<lparr>re_is_active := False\<rparr> else e) (edges db)"
  shows "loop_inv t src name (scan_rows plan (filter mine (edges db))) {} inactive"
    "active_targets mine inactive = {}"
    "filter (\<lambda>x. \<not> mine x) inactive = filter (\<lambda>x. \<not> mine x) (edges db)"
    "row_id ` set inactive = row_id ` set (edges db)"
proof -
  let ?current = "scan_rows plan (filter mine (edges db))"
  have views: "map edge_view inactive = map edge_view (edges db)" by (simp add: inactive_def edge_view_def)
  have mine: "mine (e\<lparr>re_is_active := False\<rparr>) = mine e" for e by (simp add: mine_def written_by_def)
  show "row_id ` set inactive = row_id ` set (edges db)" using edge_view_fields [OF views] by (metis set_map)
  have "\<not> (mine e \<and> re_is_active e)" if "e \<in> set inactive" for e
    using that mine by (auto simp: inactive_def)
  then show "active_targets mine inactive = {}" by (simp add: active_targets_def)
  show "filter (\<lambda>x. \<not> mine x) inactive = filter (\<lambda>x. \<not> mine x) (edges db)"
    unfolding inactive_def by (rule filter_map_if) (rule mine)
  have "\<exists>y \<in> set ?current. re_target_resource_id y = re_target_resource_id x \<and> re_relationship_type y = re_relationship_type x"
    if x: "x \<in> set inactive" "tenant_id x = t" "re_source_resource_id x = src" for x
  proof -
    obtain e where e: "e \<in> set (edges db)" "x = (if mine e then e\<lparr>re_is_active := False\<rparr> else e)"
      using x(1) by (auto simp: inactive_def)
    then have "mine e" using x ok ex by (auto simp: mine_def written_by_def relationship_ok_def split: if_splits)
    with e show ?thesis by (intro bexI [of _ e]) simp_all
  qed
  moreover have "\<forall>x \<in> set inactive. re_extractor_name x = name"
    using ok ex by (auto simp: inactive_def relationship_ok_def)
  moreover have "edge_view ` set inactive = edge_view ` set (edges db)" using views by (metis set_map)
  then have "edge_view ` set ?current \<subseteq> edge_view ` set inactive" by auto
  ultimately show "loop_inv t src name ?current {} inactive"
    using ok edge_view_fields [OF views] by (auto simp: loop_inv_def relationship_ok_def mine_def)
qed

text \<open>After the loop the changed rows are flushed, which changes nothing that matters here.\<close>

lemma flush_edges_keeps:
  fixes t src :: uuid and name :: string
  defines "mine \<equiv> written_by t src name"
  shows "active_targets mine (flush_edges now old rows) = active_targets mine rows"
    "distinct (map row_id old) \<Longrightarrow> filter (\<lambda>x. \<not> mine x) rows = filter (\<lambda>x. \<not> mine x) old \<Longrightarrow>
      filter (\<lambda>x. \<not> mine x) (flush_edges now old rows) = filter (\<lambda>x. \<not> mine x) old"
proof -
  define f where "f e = (case find (\<lambda>x. row_id x = row_id e) old of None \<Rightarrow> e | Some x \<Rightarrow> flushed now x e)" for e
  have view: "edge_view (f e) = edge_view e" "re_is_active (f e) = re_is_active e" for e
    by (auto simp: f_def flushed_fields split: option.splits)
  have f: "mine (f e) = mine e" "re_target_resource_id (f e) = re_target_resource_id e" for e
    unfolding mine_def using written_by_view [OF view(1)] view(1) by (simp_all add: edge_view_iff)
  have flush: "flush_edges now old rows = map f rows" by (simp add: flush_edges_def f_def)
  show "active_targets mine (flush_edges now old rows) = active_targets mine rows"
    unfolding flush by (rule active_targets_map) (simp add: f view)
  assume old: "distinct (map row_id old)" and rows: "filter (\<lambda>x. \<not> mine x) rows = filter (\<lambda>x. \<not> mine x) old"
  have "f e = e" if "e \<in> set old" for e
    using find_unique [where key = row_id, OF _ that refl] old by (simp add: f_def flushed_def)
  then have "map f (filter (\<lambda>x. \<not> mine x) old) = filter (\<lambda>x. \<not> mine x) old" by (intro map_idI) simp
  then show "filter (\<lambda>x. \<not> mine x) (flush_edges now old rows) = filter (\<lambda>x. \<not> mine x) old"
    unfolding flush using rows by (simp add: filter_map comp_def f)
qed

lemma rebuild_edges_correct:
  assumes ok: "relationship_ok db" and ex: "ex_name ex = ''arm-reference''"
    and cs: "distinct (map cd_target_resource_id cs)"
    and ids: "inj_on new_id {..<length cs}" "\<forall>k < length cs. new_id k \<notin> row_id ` set (edges db)"
    and run: "rebuild_edges plan new_id clk t source ex cs db = (changed, db')"
  shows "relationship_ok db' \<and> nodes db' = nodes db \<and> outbox db' = outbox db
    \<and> active_targets (written_by t (nd_inventory_resource_id source) (ex_name ex)) (edges db') = set (aims (nodes db) t source cs)
    \<and> filter (\<lambda>x. \<not> written_by t (nd_inventory_resource_id source) (ex_name ex) x) (edges db')
      = filter (\<lambda>x. \<not> written_by t (nd_inventory_resource_id source) (ex_name ex) x) (edges db)"
proof -
  let ?src = "nd_inventory_resource_id source"
  define mine where "mine = written_by t ?src (ex_name ex)"
  define current where "current = scan_rows plan (filter mine (edges db))"
  define inactive where "inactive = map (\<lambda>e. if mine e then e\<lparr>re_is_active := False\<rparr> else e) (edges db)"
  obtain rows where loop: "rebuild_loop new_id clk t source ex (nodes db) current 0 cs inactive = (changed, rows)"
    and db': "db' = db\<lparr>edges := flush_edges (tx_now clk) (edges db) rows\<rparr>"
    using run unfolding rebuild_edges_def Let_def mine_def current_def inactive_def by (auto split: prod.splits)
  note start = deactivated_rows [OF ok ex, where t = t and src = ?src, folded mine_def, folded inactive_def]
  have inv: "loop_inv t ?src (ex_name ex) current {} inactive" unfolding current_def by (rule start(1))
  have fresh: "\<forall>k \<in> {0..<0 + length cs}. new_id k \<notin> row_id ` set inactive" using ids(2) start(4) by simp
  have inj: "inj_on new_id {0..<0 + length cs}" using ids(1) by (simp add: atLeast0LessThan)
  have keys: "distinct (map node_key (nodes db))" and eids: "distinct (map row_id (edges db))"
    using ok by (simp_all add: relationship_ok_def)
  obtain seen where r: "loop_inv t ?src (ex_name ex) current seen rows"
      "active_targets mine rows = active_targets mine inactive \<union> set (aims (nodes db) t source cs)"
      "filter (\<lambda>x. \<not> mine x) rows = filter (\<lambda>x. \<not> mine x) inactive"
    using rebuild_loop_correct [OF inv refl refl aims_distinct [OF keys cs] Int_empty_right inj fresh loop]
    unfolding mine_def by blast
  note flush = flush_edges_keeps [where t = t and src = ?src and name = "ex_name ex", folded mine_def]
  have rest: "filter (\<lambda>x. \<not> mine x) (edges db') = filter (\<lambda>x. \<not> mine x) (edges db)"
    using flush(2) [OF eids] r(3) start(3) by (simp add: db')
  have "re_extractor_name e = ''arm-reference''" if "e \<in> set (edges db')" for e
  proof (cases "mine e")
    case True
    then show ?thesis using ex by (simp add: mine_def written_by_def)
  next
    case False
    with that have "e \<in> set (filter (\<lambda>x. \<not> mine x) (edges db'))" by simp
    then have "e \<in> set (edges db)" unfolding rest by simp
    then show ?thesis using ok by (simp add: relationship_ok_def)
  qed
  moreover have "distinct (map row_id (edges db'))" "distinct (map edge_key (edges db'))"
    using r(1) edge_view_fields(1,2) [OF flush_edges_view [of "tx_now clk" "edges db" rows]] by (simp_all add: db' loop_inv_def)
  ultimately have "relationship_ok db'" using ok by (simp add: relationship_ok_def db')
  then show ?thesis
    using flush(1) r(2) start(2) rest by (simp add: db' mine_def)
qed

lemma extract_targets:
  "cd_target_resource_id ` set (extract_references d)
   = {lower (strip s) | p n s. text_at (JDict d) p n s \<and> n \<le> 12 \<and> is_reference (lower (strip s))}"
proof -
  have "fst ` {(f s, g p) | p n s. Q p n s} = {f s | p n s. Q p n s}" for f :: "string \<Rightarrow> string" and g :: "string \<Rightarrow> string" and Q
    unfolding image_def by fastforce
  then show ?thesis unfolding extract_candidates(2) refs_def by simp
qed

lemma aims_set:
  assumes "distinct (map (\<lambda>n. (tenant_id n, nd_normalized_resource_id n)) known)"
  shows "set (aims known t source cs) = {nd_inventory_resource_id x | x. x \<in> set known \<and> tenant_id x = t
    \<and> nd_inventory_resource_id x \<noteq> nd_inventory_resource_id source
    \<and> nd_normalized_resource_id x \<in> cd_target_resource_id ` set cs}"
proof -
  have found: "find (\<lambda>x. tenant_id x = t \<and> nd_normalized_resource_id x = k) known = Some x
      \<longleftrightarrow> x \<in> set known \<and> tenant_id x = t \<and> nd_normalized_resource_id x = k" for k x
    using find_unique [where key = "\<lambda>n. (tenant_id n, nd_normalized_resource_id n)" and xs = known and k = "(t, k)"]
      assms find_Some_in by fastforce
  have "aim known t source c = Some i \<longleftrightarrow> (\<exists>x. find (\<lambda>x. tenant_id x = t \<and> nd_normalized_resource_id x = cd_target_resource_id c) known = Some x
      \<and> nd_inventory_resource_id x \<noteq> nd_inventory_resource_id source \<and> i = nd_inventory_resource_id x)" for c i
    by (auto simp: aim_def split: option.splits)
  then have aim: "aim known t source c = Some i \<longleftrightarrow> (\<exists>x. (x \<in> set known \<and> tenant_id x = t \<and> nd_normalized_resource_id x = cd_target_resource_id c)
      \<and> nd_inventory_resource_id x \<noteq> nd_inventory_resource_id source \<and> i = nd_inventory_resource_id x)" for c i
    unfolding found .
  have "i \<in> set (aims known t source cs) \<longleftrightarrow> (\<exists>c \<in> set cs. aim known t source c = Some i)" for i
    by (induction cs) (auto split: option.splits)
  then show ?thesis unfolding set_eq_iff aim by blast
qed

section \<open>Properties\<close>

text \<open>C37: The extraction finds exactly the references in a resource: the candidates are the texts of the
  properties that name an ARM resource (trimmed and lowered, diagnostic settings excepted), at
  most twelve levels deep and among the first thousand elements of their lists, each target
  once and with the path of one of its occurrences as evidence.\<close>

theorem references_extracted_exactly:
  "distinct (map cd_target_resource_id (extract_references d))
   \<and> cd_target_resource_id ` set (extract_references d)
     = {lower (strip s) | p n s. text_at (JDict d) p n s \<and> n \<le> 12 \<and> is_reference (lower (strip s))}
   \<and> set (extract_references d)
     \<subseteq> {reference_candidate (lower (strip s)) (''$'' @ p) | p n s.
          text_at (JDict d) p n s \<and> n \<le> 12 \<and> is_reference (lower (strip s))}"
proof (intro conjI)
  show "set (extract_references d) \<subseteq> {reference_candidate (lower (strip s)) (''$'' @ p) | p n s.
      text_at (JDict d) p n s \<and> n \<le> 12 \<and> is_reference (lower (strip s))}"
    using extract_candidates(3) [of _ d] unfolding refs_def by fastforce
qed (rule extract_candidates(1), rule extract_targets)

text \<open>C17: Rebuilding the edges of a resource makes its active edges exactly the references in its
  properties that lead to another known resource of the tenant: new ones are added, old ones
  that are gone become inactive, ones seen before are active again; no other edge changes, and
  no edge is ever stored twice.\<close>

theorem rebuilt_edges_are_references:
  assumes "relationship_ok db" "inj_on new_id {..<length (extract_references (nd_properties source))}"
    and "\<forall>k < length (extract_references (nd_properties source)). new_id k \<notin> row_id ` set (edges db)"
    and "rebuild_edges plan new_id clk t source arm_reference (extract_references (nd_properties source)) db = (changed, db')"
  shows "relationship_ok db'
    \<and> re_target_resource_id ` {e \<in> set (edges db'). tenant_id e = t \<and> re_is_active e
          \<and> re_source_resource_id e = nd_inventory_resource_id source}
      = {nd_inventory_resource_id x | x p n s. x \<in> set (nodes db) \<and> tenant_id x = t
          \<and> nd_inventory_resource_id x \<noteq> nd_inventory_resource_id source
          \<and> text_at (JDict (nd_properties source)) p n s \<and> n \<le> 12
          \<and> nd_normalized_resource_id x = lower (strip s) \<and> is_reference (lower (strip s))}
    \<and> filter (\<lambda>e. \<not> (tenant_id e = t \<and> re_source_resource_id e = nd_inventory_resource_id source)) (edges db')
      = filter (\<lambda>e. \<not> (tenant_id e = t \<and> re_source_resource_id e = nd_inventory_resource_id source)) (edges db)"
proof -
  let ?cs = "extract_references (nd_properties source)" and ?src = "nd_inventory_resource_id source"
  let ?mine = "written_by t ?src ''arm-reference''"
  have name: "ex_name arm_reference = ''arm-reference''" by (simp add: arm_reference_def)
  note r = rebuild_edges_correct [OF assms(1) name extract_candidates(1) assms(2-4), unfolded name]
  have mine: "?mine e \<longleftrightarrow> tenant_id e = t \<and> re_source_resource_id e = ?src" if "e \<in> set (edges x)" "relationship_ok x" for e x
    using that by (auto simp: written_by_def relationship_ok_def)
  have "active_targets ?mine (edges db') = re_target_resource_id ` {e \<in> set (edges db'). tenant_id e = t \<and> re_is_active e
      \<and> re_source_resource_id e = ?src}"
    unfolding active_targets_def using mine r by (intro arg_cong [where f = "(`) re_target_resource_id"]) blast
  moreover have "set (aims (nodes db) t source ?cs) = {nd_inventory_resource_id x | x p n s. x \<in> set (nodes db) \<and> tenant_id x = t
      \<and> nd_inventory_resource_id x \<noteq> ?src \<and> text_at (JDict (nd_properties source)) p n s \<and> n \<le> 12
      \<and> nd_normalized_resource_id x = lower (strip s) \<and> is_reference (lower (strip s))}"
  proof -
    have "distinct (map (\<lambda>n. (tenant_id n, nd_normalized_resource_id n)) (nodes db))"
      using assms(1) by (simp add: relationship_ok_def)
    from aims_set [OF this, of t source ?cs] show ?thesis unfolding extract_targets by blast
  qed
  moreover have "filter (\<lambda>e. \<not> (tenant_id e = t \<and> re_source_resource_id e = ?src)) (edges x) = filter (\<lambda>e. \<not> ?mine e) (edges x)"
    if "relationship_ok x" for x
    using mine [OF _ that] by (intro filter_cong) auto
  ultimately show ?thesis using r assms(1) by simp
qed

definition sample_node :: "uuid \<Rightarrow> string \<Rightarrow> dict \<Rightarrow> resource_node" where
  "sample_node i arm_id properties = new_node (i, 0, \<lparr>pe_tenant_id = 2, pe_inventory_resource_id = i,
     pe_azure_resource_id = arm_id, pe_name = [], pe_resource_type = ''microsoft.web/sites'', pe_resource_group = [],
     pe_properties = properties\<rparr>)"

definition sample_reference :: string where
  "sample_reference = ''/subscriptions/s/providers/p''"

definition sample_source :: resource_node where
  "sample_source = sample_node 1 ''/a'' [(''x'', JStr sample_reference)]"

definition sample_graph :: relationship_db where
  "sample_graph = \<lparr>outbox = [], nodes = [sample_source, sample_node 2 sample_reference []], edges = []\<rparr>"

lemma lower_sample: "lower ''/a'' = ''/a''" "lower sample_reference = sample_reference" "strip sample_reference = sample_reference"
  by code_simp+

lemma sample_graph_ok: "relationship_ok sample_graph"
proof -
  have "sample_reference \<noteq> ''/a''" by (simp add: sample_reference_def)
  then show ?thesis
    by (simp add: relationship_ok_def sample_graph_def sample_source_def sample_node_def new_node_def lower_sample)
qed

lemma sample_reference_found: "text_at (JDict (nd_properties sample_source)) ''.x'' 1 sample_reference" "is_reference sample_reference"
proof -
  have "text_at (JDict [(''x'', JStr sample_reference)]) (''.'' @ ''x'' @ []) (Suc 0) sample_reference"
    by (rule text_at.entry [OF _ text_at.here]) simp
  then show "text_at (JDict (nd_properties sample_source)) ''.x'' 1 sample_reference"
    by (simp add: sample_source_def sample_node_def new_node_def)
  show "is_reference sample_reference" by code_simp
qed

lemma rebuilt_edges_are_references_witness:
  "\<exists>changed db'. rebuild_edges (\<lambda>_. 0) (\<lambda>n. 9) (instant 0) 2 sample_source arm_reference
      (extract_references (nd_properties sample_source)) sample_graph = (changed, db')
    \<and> 2 \<in> re_target_resource_id ` {e \<in> set (edges db'). tenant_id e = 2 \<and> re_is_active e \<and> re_source_resource_id e = 1}"
proof -
  obtain changed db' where run: "rebuild_edges (\<lambda>_. 0) (\<lambda>n. 9) (instant 0) 2 sample_source arm_reference
      (extract_references (nd_properties sample_source)) sample_graph = (changed, db')" by force
  have len: "length (extract_references (nd_properties sample_source)) = 1"
    by (simp add: extract_references_def sample_source_def sample_node_def new_node_def Let_def lower_sample sample_reference_found)
  have inj: "inj_on (\<lambda>n::nat. 9 :: uuid) {..<length (extract_references (nd_properties sample_source))}"
    by (simp add: len lessThan_Suc)
  have fresh: "\<forall>k < length (extract_references (nd_properties sample_source)). (\<lambda>n::nat. 9 :: uuid) k \<notin> row_id ` set (edges sample_graph)"
    by (simp add: sample_graph_def)
  have src: "nd_inventory_resource_id sample_source = 1" by (simp add: sample_source_def sample_node_def new_node_def)
  let ?x = "sample_node 2 sample_reference []"
  have x: "?x \<in> set (nodes sample_graph)" "tenant_id ?x = 2" "nd_inventory_resource_id ?x = 2"
      "nd_normalized_resource_id ?x = lower (strip sample_reference)"
    by (simp_all add: sample_graph_def sample_node_def new_node_def lower_sample)
  have two: "\<exists>x p n s. 2 = nd_inventory_resource_id x \<and> x \<in> set (nodes sample_graph) \<and> tenant_id x = 2
      \<and> nd_inventory_resource_id x \<noteq> nd_inventory_resource_id sample_source
      \<and> text_at (JDict (nd_properties sample_source)) p n s \<and> n \<le> 12
      \<and> nd_normalized_resource_id x = lower (strip s) \<and> is_reference (lower (strip s))"
    using x src sample_reference_found
    by (intro exI [of _ ?x] exI [of _ "''.x''"] exI [of _ 1] exI [of _ sample_reference]) (simp add: lower_sample)
  from rebuilt_edges_are_references [OF sample_graph_ok inj fresh run] two
  have "2 \<in> re_target_resource_id ` {e \<in> set (edges db'). tenant_id e = 2 \<and> re_is_active e \<and> re_source_resource_id e = 1}"
    unfolding src by simp
  with run show ?thesis by blast
qed

end
