(* ===== verification/RelationshipGraph.thy ===== *)
theory RelationshipGraph
  imports Relationship AuditLog
begin

text \<open>
  Reading the dependency graph (\<open>apps/relationship-service\<close>): the queries of
  \<open>sentinel_relationship/repository.py\<close>, the level-by-level search \<open>RelationshipService.graph\<close>
  of \<open>service.py\<close> with its limits of depth and size, and the endpoints of \<open>main.py\<close>. The
  search is proved against plain reachability in the relation of the active edges. A handler
  sees one state of the tables throughout.
\<close>

section \<open>Queries\<close>

text \<open>
  The lower bound of a confidence is the decimal that \<open>str\<close> prints of the float: \<open>(m, e)\<close>
  stands for \<open>m / 10 ^ e\<close>.
\<close>

type_synonym decimal = "nat \<times> nat"

definition confidence_at_least :: "decimal \<Rightarrow> int \<Rightarrow> bool" where
  "confidence_at_least bound thousandths \<longleftrightarrow> int (fst bound) * 1000 \<le> thousandths * 10 ^ snd bound"

definition edge_at :: "uuid option \<Rightarrow> string \<Rightarrow> relationship \<Rightarrow> bool" where
  "edge_at resource_id direction e = (case resource_id of
       None \<Rightarrow> True
     | Some i \<Rightarrow> if direction = ''upstream'' then re_target_resource_id e = i
         else if direction = ''downstream'' then re_source_resource_id e = i
         else re_source_resource_id e = i \<or> re_target_resource_id e = i)"

definition list_edges ::
  "uuid \<Rightarrow> uuid option \<Rightarrow> string \<Rightarrow> string option \<Rightarrow> decimal \<Rightarrow> relationship_db \<Rightarrow> relationship list" where
  "list_edges t resource_id direction relationship_type minimum_confidence db =
     take 2000 (sort_key row_id (filter (\<lambda>e. tenant_id e = t \<and> re_is_active e
       \<and> confidence_at_least minimum_confidence (re_confidence e)
       \<and> edge_at resource_id direction e
       \<and> (present relationship_type \<longrightarrow> Some (re_relationship_type e) = relationship_type)) (edges db)))"

definition get_nodes :: "resource_node plan \<Rightarrow> uuid \<Rightarrow> uuid set \<Rightarrow> relationship_db \<Rightarrow> resource_node list" where
  "get_nodes plan t ids db = (if ids = {} then []
     else scan_rows plan (filter (\<lambda>n. tenant_id n = t \<and> nd_inventory_resource_id n \<in> ids) (nodes db)))"

text \<open>The end of an edge at which the query enters it, when it does.\<close>

definition enters :: "string \<Rightarrow> uuid set \<Rightarrow> relationship \<Rightarrow> bool" where
  "enters direction frontier e \<longleftrightarrow>
     (if direction = ''downstream'' then re_source_resource_id e \<in> frontier
      else if direction = ''upstream'' then re_target_resource_id e \<in> frontier
      else re_source_resource_id e \<in> frontier \<or> re_target_resource_id e \<in> frontier)"

definition edges_for_frontier ::
  "relationship plan \<Rightarrow> uuid \<Rightarrow> uuid set \<Rightarrow> string \<Rightarrow> relationship_db \<Rightarrow> relationship list" where
  "edges_for_frontier plan t frontier direction db =
     scan_rows plan (filter (\<lambda>e. tenant_id e = t \<and> re_is_active e \<and> enters direction frontier e) (edges db))"

section \<open>The search\<close>

record graph_query =
  gq_root_resource_id :: uuid
  gq_direction :: string
  gq_max_depth :: int
  gq_max_nodes :: int
  gq_relationship_types :: "string list"

record graph_node =
  gn_id :: uuid
  gn_label :: string
  gn_resource_type :: string
  gn_resource_group :: string
  gn_azure_resource_id :: string

record graph_edge =
  ge_id :: uuid
  ge_source :: uuid
  ge_target :: uuid
  ge_relationship_type :: string
  ge_confidence :: int

record graph_response =
  gr_root_resource_id :: uuid
  gr_truncated :: bool
  gr_nodes :: "graph_node list"
  gr_edges :: "graph_edge list"

type_synonym edge_dict = "(uuid \<times> relationship) list"

definition wanted :: "string list \<Rightarrow> relationship \<Rightarrow> bool" where
  "wanted types e \<longleftrightarrow> types = [] \<or> re_relationship_type e \<in> set types"

definition ends :: "relationship \<Rightarrow> uuid set" where
  "ends e = {re_source_resource_id e, re_target_resource_id e}"

text \<open>The inner loop: one level's edges, left early when the limit of nodes is met.\<close>

fun scan_level ::
  "string list \<Rightarrow> int \<Rightarrow> uuid set \<Rightarrow> relationship list \<Rightarrow> uuid set \<Rightarrow> edge_dict \<Rightarrow> uuid set \<times> edge_dict \<times> bool" where
  "scan_level types max_nodes visited [] next edges_by_id = (next, edges_by_id, False)"
| "scan_level types max_nodes visited (e # es) next edges_by_id =
     (if \<not> wanted types e then scan_level types max_nodes visited es next edges_by_id
      else (let edges_by_id = AList.update (row_id e) e edges_by_id;
                next = next \<union> ends e
            in if max_nodes \<le> int (card (visited \<union> next)) then (next, edges_by_id, True)
               else scan_level types max_nodes visited es next edges_by_id))"

text \<open>The outer loop, \<open>for _ in range(max_depth)\<close>; the plan is that of the level's query.\<close>

fun explore ::
  "(nat \<Rightarrow> relationship plan) \<Rightarrow> uuid \<Rightarrow> graph_query \<Rightarrow> relationship_db \<Rightarrow> nat \<Rightarrow> uuid set \<Rightarrow> uuid set \<Rightarrow> edge_dict
     \<Rightarrow> uuid set \<times> edge_dict \<times> bool" where
  "explore plan t q db 0 frontier visited edges_by_id = (visited, edges_by_id, False)"
| "explore plan t q db (Suc n) frontier visited edges_by_id =
     (let found = edges_for_frontier (plan n) t frontier (gq_direction q) db;
          (next, edges_by_id, truncated) =
            scan_level (gq_relationship_types q) (gq_max_nodes q) visited found {} edges_by_id;
          next = next - visited;
          visited = visited \<union> next
      in if truncated \<or> next = {} then (visited, edges_by_id, truncated)
         else explore plan t q db n next visited edges_by_id)"

definition graph_node_of :: "resource_node \<Rightarrow> graph_node" where
  "graph_node_of n = \<lparr>gn_id = nd_inventory_resource_id n, gn_label = nd_name n,
     gn_resource_type = nd_resource_type n, gn_resource_group = nd_resource_group n,
     gn_azure_resource_id = nd_azure_resource_id n\<rparr>"

definition graph_edge_of :: "relationship \<Rightarrow> graph_edge" where
  "graph_edge_of e = \<lparr>ge_id = row_id e, ge_source = re_source_resource_id e, ge_target = re_target_resource_id e,
     ge_relationship_type = re_relationship_type e, ge_confidence = re_confidence e\<rparr>"

definition graph ::
  "(nat \<Rightarrow> relationship plan) \<Rightarrow> resource_node plan \<Rightarrow> uuid \<Rightarrow> graph_query \<Rightarrow> relationship_db \<Rightarrow> graph_response" where
  "graph plan node_plan t q db =
     (let root = gq_root_resource_id q;
          (visited, edges_by_id, truncated) = explore plan t q db (nat (gq_max_depth q)) {root} {root} []
      in \<lparr>gr_root_resource_id = root, gr_truncated = truncated,
          gr_nodes = map graph_node_of (get_nodes node_plan t visited db),
          gr_edges = map graph_edge_of (filter (\<lambda>e. ends e \<subseteq> visited) (map snd edges_by_id))\<rparr>)"

section \<open>Endpoints\<close>

record relationship_response =
  rr_id :: uuid
  rr_source_resource_id :: uuid
  rr_target_resource_id :: uuid
  rr_relationship_type :: string
  rr_dependency_strength :: string
  rr_confidence :: int
  rr_evidence :: dict

definition relationship_response_of :: "relationship \<Rightarrow> relationship_response" where
  "relationship_response_of e = \<lparr>rr_id = row_id e, rr_source_resource_id = re_source_resource_id e,
     rr_target_resource_id = re_target_resource_id e, rr_relationship_type = re_relationship_type e,
     rr_dependency_strength = re_dependency_strength e, rr_confidence = re_confidence e, rr_evidence = re_evidence e\<rparr>"

definition direction_known :: "string \<Rightarrow> bool" where
  "direction_known d \<longleftrightarrow> d \<in> {''upstream'', ''downstream'', ''both''}"

definition graph_query_valid :: "graph_query \<Rightarrow> bool" where
  "graph_query_valid q \<longleftrightarrow> direction_known (gq_direction q) \<and> 1 \<le> gq_max_depth q \<and> gq_max_depth q \<le> 10
     \<and> 1 \<le> gq_max_nodes q \<and> gq_max_nodes q \<le> 2000 \<and> length (gq_relationship_types q) \<le> 25"

definition relationships_endpoint ::
  "actor_context \<Rightarrow> uuid option \<Rightarrow> string \<Rightarrow> string option \<Rightarrow> decimal \<Rightarrow> relationship_db
     \<Rightarrow> relationship_response list result" where
  "relationships_endpoint actor resource_id direction relationship_type minimum_confidence db =
     bindr (require_permission ''relationships.read'' actor) (\<lambda>actor.
     bindr (guardr (direction_known direction \<and> fst minimum_confidence \<le> 10 ^ snd minimum_confidence)
              request_validation) (\<lambda>_.
     Inr (map relationship_response_of
       (list_edges (ac_tenant_id actor) resource_id direction relationship_type minimum_confidence db))))"

record graph_env =
  gv_plan :: "nat \<Rightarrow> relationship plan"
  gv_node_plan :: "resource_node plan"
  gv_event_id :: uuid
  gv_outbox_id :: uuid
  gv_clock :: clock
  gv_commit :: "exn option"

definition graph_event :: "graph_env \<Rightarrow> actor_context \<Rightarrow> graph_query \<Rightarrow> graph_response \<Rightarrow> audit_event" where
  "graph_event env actor q r =
     \<lparr>ev_specversion = ''1.0'', ev_id = gv_event_id env, ev_source = ''relationship-service'',
      ev_type = ''relationships.graph-queried.v1'',
      ev_subject = ''resource/'' @ uuid_str (gq_root_resource_id q),
      ev_time = py_now (gv_clock env), ev_datacontenttype = ''application/json'',
      ev_tenant_id = ac_tenant_id actor, ev_correlation_id = ac_correlation_id actor,
      ev_data = [(''node_count'', JInt (int (length (gr_nodes r)))), (''edge_count'', JInt (int (length (gr_edges r))))],
      ev_actor_type = ''user'', ev_actor_id = uuid_str (ac_actor_id actor),
      ev_action = ''relationships.graph.read'', ev_entity_type = ''resource'',
      ev_entity_id = Some (uuid_str (gq_root_resource_id q)), ev_outcome = ''succeeded''\<rparr>"

definition graph_endpoint ::
  "graph_env \<Rightarrow> actor_context \<Rightarrow> graph_query \<Rightarrow> relationship_db \<Rightarrow> graph_response result \<times> relationship_db" where
  "graph_endpoint env actor q db =
     (case bindr (require_permission ''relationships.read'' actor) (\<lambda>actor.
             bindr (guardr (graph_query_valid q) request_validation) (\<lambda>_. Inr actor)) of
        Inl e \<Rightarrow> (Inl e, db)
      | Inr actor \<Rightarrow> unit_of_work (gv_commit env) (ac_tenant_id actor) (ac_actor_id actor)
          (on_tables (\<lambda>db. let r = graph (gv_plan env) (gv_node_plan env) (ac_tenant_id actor) q db
             in Inr (r, enqueue_audit (gv_outbox_id env) (py_now (gv_clock env)) (graph_event env actor q r) db))) db)"

text \<open>The query of \<open>GET\<close> has no relationship types, and leaves no trace.\<close>

definition graph_get ::
  "graph_env \<Rightarrow> actor_context \<Rightarrow> uuid \<Rightarrow> string \<Rightarrow> int \<Rightarrow> int \<Rightarrow> relationship_db \<Rightarrow> graph_response result" where
  "graph_get env actor root direction max_depth max_nodes db =
     bindr (require_permission ''relationships.read'' actor) (\<lambda>actor.
     (let q = \<lparr>gq_root_resource_id = root, gq_direction = direction, gq_max_depth = max_depth,
                gq_max_nodes = max_nodes, gq_relationship_types = []\<rparr>
      in bindr (guardr (graph_query_valid q) request_validation) (\<lambda>_.
         Inr (graph (gv_plan env) (gv_node_plan env) (ac_tenant_id actor) q db))))"

record project_env =
  pv_plan :: "relationship plan"
  pv_node_plan :: "resource_node plan"
  pv_node_id :: uuid
  pv_edge_id :: "uuid \<Rightarrow> nat \<Rightarrow> uuid"
  pv_clock :: clock
  pv_commit :: "string option"

definition project_resource_endpoint ::
  "project_env \<Rightarrow> settings \<Rightarrow> string option \<Rightarrow> projection_event \<Rightarrow> relationship_db \<Rightarrow> unit result \<times> relationship_db" where
  "project_resource_endpoint env cfg x_internal_token e db =
     (case internal_guard cfg x_internal_token of
        Inl err \<Rightarrow> (Inl err, db)
      | Inr _ \<Rightarrow> unit_of_work (db_fault (pv_commit env)) (pe_tenant_id e) (pe_inventory_resource_id e)
          (on_tables (\<lambda>db. bindr (project_and_extract (pv_plan env) (pv_node_id env) (pv_edge_id env 0) (pv_clock env) e db)
             (\<lambda>(_, db). Inr ((), db)))) db)"

definition rebuild_relationships_endpoint ::
  "project_env \<Rightarrow> settings \<Rightarrow> string option \<Rightarrow> uuid \<Rightarrow> relationship_db \<Rightarrow> unit result \<times> relationship_db" where
  "rebuild_relationships_endpoint env cfg x_internal_token t db =
     (case internal_guard cfg x_internal_token of
        Inl err \<Rightarrow> (Inl err, db)
      | Inr _ \<Rightarrow> unit_of_work (db_fault (pv_commit env)) t t
          (on_tables (\<lambda>db. Inr ((), snd (rebuild_all (pv_node_plan env) (pv_plan env) (pv_edge_id env) (pv_clock env) t db)))) db)"

section \<open>Reachability\<close>

text \<open>
  The specification: the edges a query may follow, the steps they allow in its direction, and
  the resources within a number of steps.
\<close>

definition usable :: "uuid \<Rightarrow> graph_query \<Rightarrow> relationship_db \<Rightarrow> relationship set" where
  "usable t q db = {e \<in> set (edges db). tenant_id e = t \<and> re_is_active e \<and> wanted (gq_relationship_types q) e}"

definition steps :: "uuid \<Rightarrow> graph_query \<Rightarrow> relationship_db \<Rightarrow> (uuid \<times> uuid) set" where
  "steps t q db = {(a, b). \<exists>e \<in> usable t q db. enters (gq_direction q) {a} e \<and> b \<in> ends e}"

definition within :: "(uuid \<times> uuid) set \<Rightarrow> nat \<Rightarrow> uuid set \<Rightarrow> uuid set" where
  "within E n S = {x. \<exists>k \<le> n. \<exists>a \<in> S. (a, x) \<in> E ^^ k}"

lemma within_0 [simp]: "within E 0 S = S"
  by (auto simp: within_def)

lemma within_Suc: "within E (Suc n) S = within E n (S \<union> E `` S)"
proof (intro equalityI subsetI)
  fix x
  assume "x \<in> within E (Suc n) S"
  then obtain k a where k: "k \<le> Suc n" "a \<in> S" "(a, x) \<in> E ^^ k" by (auto simp: within_def)
  show "x \<in> within E n (S \<union> E `` S)"
  proof (cases k)
    case 0
    with k show ?thesis by (auto simp: within_def)
  next
    case (Suc m)
    with k obtain b where "(a, b) \<in> E" "(b, x) \<in> E ^^ m" by (meson relpow_Suc_E2)
    with k Suc show ?thesis by (auto simp: within_def)
  qed
next
  fix x
  assume "x \<in> within E n (S \<union> E `` S)"
  then obtain k a where k: "k \<le> n" "a \<in> S \<union> E `` S" "(a, x) \<in> E ^^ k" by (auto simp: within_def)
  from k(2) show "x \<in> within E (Suc n) S"
  proof
    assume "a \<in> S"
    with k show ?thesis by (auto simp: within_def intro: le_SucI)
  next
    assume "a \<in> E `` S"
    then obtain b where "b \<in> S" "(b, a) \<in> E" by blast
    with k have "(b, x) \<in> E ^^ Suc k" by (meson relpow_Suc_I2)
    with k \<open>b \<in> S\<close> show ?thesis unfolding within_def by (intro CollectI exI [of _ "Suc k"]) auto
  qed
qed

lemma within_closed: "E `` S \<subseteq> S \<Longrightarrow> within E n S = S"
  by (induction n) (simp_all add: within_Suc Un_absorb2)

lemma within_start: "S \<subseteq> within E n S"
  unfolding within_def by (intro subsetI CollectI exI [of _ "0::nat"]) auto

lemma within_mono: "m \<le> n \<Longrightarrow> within E m S \<subseteq> within E n S"
  unfolding within_def by (auto intro: le_trans)

lemma steps_from: "steps t q db `` S = \<Union> (ends ` {e \<in> usable t q db. enters (gq_direction q) S e})"
  by (auto simp: steps_def enters_def)

lemma enters_Un: "enters d (S \<union> T) e \<longleftrightarrow> enters d S e \<or> enters d T e"
  by (auto simp: enters_def)

lemma enters_mono: "S \<subseteq> T \<Longrightarrow> enters d S e \<Longrightarrow> enters d T e"
  by (auto simp: enters_def)

lemma enters_ends: "enters d S e \<Longrightarrow> ends e \<inter> S \<noteq> {}"
  by (auto simp: enters_def ends_def split: if_splits)

section \<open>One level\<close>

definition dict_ok :: "relationship_db \<Rightarrow> edge_dict \<Rightarrow> bool" where
  "dict_ok db ids \<longleftrightarrow> distinct (map fst ids) \<and> (\<forall>p \<in> set ids. fst p = row_id (snd p) \<and> snd p \<in> set (edges db))"

lemma set_update_same:
  "(\<And>p. p \<in> set xs \<Longrightarrow> fst p = k \<Longrightarrow> snd p = v) \<Longrightarrow> set (AList.update k v xs) = insert (k, v) (set xs)"
proof (induction xs)
  case (Cons p xs)
  obtain k' v' where p: "p = (k', v')" by (cases p)
  show ?case
  proof (cases "k' = k")
    case True
    with Cons.prems [of p] p show ?thesis by simp
  next
    case False
    have "set (AList.update k v xs) = insert (k, v) (set xs)" by (rule Cons.IH) (simp add: Cons.prems)
    with False p show ?thesis by auto
  qed
qed simp

lemma dict_put:
  assumes "distinct (map row_id (edges db))" "dict_ok db ids" "e \<in> set (edges db)"
  shows "dict_ok db (AList.update (row_id e) e ids)"
    and "snd ` set (AList.update (row_id e) e ids) = insert e (snd ` set ids)"
proof -
  have "inj_on row_id (set (edges db))" using assms(1) by (simp add: distinct_map)
  then have "snd p = e" if "p \<in> set ids" "fst p = row_id e" for p
    using that assms(2,3) unfolding dict_ok_def by (metis inj_onD)
  then have "set (AList.update (row_id e) e ids) = insert (row_id e, e) (set ids)"
    by (rule set_update_same)
  with assms show "dict_ok db (AList.update (row_id e) e ids)"
    "snd ` set (AList.update (row_id e) e ids) = insert e (snd ` set ids)"
    by (simp_all add: dict_ok_def distinct_update)
qed

lemma card_ends:
  assumes "finite S" "ends e \<inter> S \<noteq> {}"
  shows "card (S \<union> ends e) \<le> Suc (card S)"
proof -
  obtain a where "S \<union> ends e = insert a S" using assms(2) by (auto simp: ends_def)
  with assms(1) show ?thesis by (simp add: card_insert_if)
qed

text \<open>What a level has gathered: of all its wanted edges unless the limit stopped it.\<close>

definition gathered :: "bool \<Rightarrow> 'a set \<Rightarrow> 'a set \<Rightarrow> bool" where
  "gathered truncated all got \<longleftrightarrow> got \<subseteq> all \<and> (truncated \<or> got = all)"

lemma scan_level_spec:
  assumes "scan_level types m visited es nx ids = (nx', ids', truncated)"
    and db: "distinct (map row_id (edges db))" and "dict_ok db ids" "set es \<subseteq> set (edges db)"
  shows "dict_ok db ids' \<and> (\<exists>got. gathered truncated {e \<in> set es. wanted types e} got
    \<and> nx' = nx \<union> \<Union> (ends ` got) \<and> snd ` set ids' = snd ` set ids \<union> got)"
  using assms(1,3,4)
proof (induction es arbitrary: nx ids)
  case Nil
  then show ?case by (simp add: gathered_def)
next
  case (Cons e es)
  show ?case
  proof (cases "wanted types e")
    case False
    then have "{x \<in> set (e # es). wanted types x} = {x \<in> set es. wanted types x}" by auto
    with False Cons show ?thesis by simp
  next
    case True
    then have all: "{x \<in> set (e # es). wanted types x} = insert e {x \<in> set es. wanted types x}" by auto
    have e: "e \<in> set (edges db)" using Cons.prems(3) by simp
    note put = dict_put [OF db Cons.prems(2) e]
    show ?thesis
    proof (cases "m \<le> int (card (visited \<union> (nx \<union> ends e)))")
      case limit: True
      then have r: "nx' = nx \<union> ends e" "ids' = AList.update (row_id e) e ids" truncated
        using Cons.prems(1) True by (simp_all add: Let_def)
      show ?thesis
        using put r unfolding all gathered_def by (intro conjI exI [of _ "{e}"]) auto
    next
      case False
      then have "scan_level types m visited es (nx \<union> ends e) (AList.update (row_id e) e ids) = (nx', ids', truncated)"
        using Cons.prems(1) True by (simp add: Let_def)
      from Cons.IH [OF this put(1)] Cons.prems(3) obtain got where
        got: "dict_ok db ids'" "gathered truncated {x \<in> set es. wanted types x} got"
          "nx' = nx \<union> ends e \<union> \<Union> (ends ` got)" "snd ` set ids' = insert e (snd ` set ids) \<union> got"
        unfolding put(2) by auto
      then show ?thesis
        unfolding all by (intro conjI exI [of _ "insert e got"]) (auto simp: gathered_def)
    qed
  qed
qed

lemma scan_level_card:
  assumes "scan_level types m visited es nx ids = (nx', ids', truncated)"
    and "finite visited" "finite nx" "int (card (visited \<union> nx)) < max m 2" "\<forall>e \<in> set es. ends e \<inter> visited \<noteq> {}"
  shows "finite nx' \<and> int (card (visited \<union> nx')) \<le> max m 2
    \<and> (if truncated then m \<le> int (card (visited \<union> nx')) else int (card (visited \<union> nx')) < max m 2)"
  using assms
proof (induction es arbitrary: nx ids)
  case (Cons e es)
  have fin: "finite (nx \<union> ends e)" using Cons.prems(3) by (simp add: ends_def)
  have "card (visited \<union> nx \<union> ends e) \<le> Suc (card (visited \<union> nx))"
    using Cons.prems by (intro card_ends) auto
  then have more: "int (card (visited \<union> (nx \<union> ends e))) \<le> max m 2"
    using Cons.prems(4) by (simp add: Un_assoc)
  show ?case
  proof (cases "wanted types e \<and> m \<le> int (card (visited \<union> (nx \<union> ends e)))")
    case True
    then show ?thesis using Cons.prems(1) fin more by (auto simp: Let_def)
  next
    case False
    show ?thesis
    proof (cases "wanted types e")
      case True
      with False have small: "int (card (visited \<union> (nx \<union> ends e))) < max m 2" by simp
      have "scan_level types m visited es (nx \<union> ends e) (AList.update (row_id e) e ids) = (nx', ids', truncated)"
        using Cons.prems(1) True False by (simp add: Let_def)
      from Cons.IH [OF this Cons.prems(2) fin small] Cons.prems(5) show ?thesis by simp
    next
      case False
      then have "scan_level types m visited es nx ids = (nx', ids', truncated)" using Cons.prems(1) by simp
      from Cons.IH [OF this Cons.prems(2-4)] Cons.prems(5) show ?thesis by simp
    qed
  qed
qed auto

section \<open>All levels\<close>

lemma found_usable:
  "{e \<in> set (edges_for_frontier plan t frontier (gq_direction q) db). wanted (gq_relationship_types q) e}
   = {e \<in> usable t q db. enters (gq_direction q) frontier e}"
  by (auto simp: edges_for_frontier_def usable_def)

text \<open>Between two levels: every step from a node before the frontier has been taken.\<close>

definition explored :: "uuid \<Rightarrow> graph_query \<Rightarrow> relationship_db \<Rightarrow> uuid set \<Rightarrow> uuid set \<Rightarrow> edge_dict \<Rightarrow> bool" where
  "explored t q db frontier visited ids \<longleftrightarrow> dict_ok db ids \<and> frontier \<subseteq> visited
     \<and> steps t q db `` (visited - frontier) \<subseteq> visited
     \<and> snd ` set ids = {e \<in> usable t q db. enters (gq_direction q) (visited - frontier) e}"

lemma explored_level:
  assumes inv: "explored t q db frontier visited ids" and db: "distinct (map row_id (edges db))"
    and run: "scan_level (gq_relationship_types q) m visited
      (edges_for_frontier plan t frontier (gq_direction q) db) {} ids = (nx, ids', truncated)"
  shows "dict_ok db ids' \<and> visited \<union> nx \<subseteq> visited \<union> steps t q db `` visited
    \<and> snd ` set ids' \<subseteq> {e \<in> usable t q db. ends e \<subseteq> visited \<union> nx}
    \<and> (truncated \<or> (explored t q db (nx - visited) (visited \<union> nx) ids' \<and> visited \<union> nx = visited \<union> steps t q db `` visited))"
proof -
  let ?U = "usable t q db" and ?d = "gq_direction q" and ?E = "steps t q db"
  have "set (edges_for_frontier plan t frontier ?d db) \<subseteq> set (edges db)" by (auto simp: edges_for_frontier_def)
  moreover have "dict_ok db ids" using inv by (simp add: explored_def)
  ultimately obtain got where got: "dict_ok db ids'" "gathered truncated {e \<in> ?U. enters ?d frontier e} got"
      "nx = \<Union> (ends ` got)" "snd ` set ids' = snd ` set ids \<union> got"
    using scan_level_spec [OF run db] unfolding found_usable by auto
  have old: "snd ` set ids = {e \<in> ?U. enters ?d (visited - frontier) e}" "frontier \<subseteq> visited"
      "?E `` (visited - frontier) \<subseteq> visited"
    using inv by (simp_all add: explored_def)
  have old_ends: "ends e \<subseteq> visited" if "e \<in> snd ` set ids" for e
    using that old(1,3) unfolding steps_from by blast
  have sub: "got \<subseteq> {e \<in> ?U. enters ?d frontier e}" using got(2) by (simp add: gathered_def)
  then have "nx \<subseteq> ?E `` frontier" unfolding got(3) steps_from by blast
  also have "\<dots> \<subseteq> ?E `` visited" using old(2) by blast
  finally have up: "visited \<union> nx \<subseteq> visited \<union> ?E `` visited" by blast
  have "snd ` set ids' \<subseteq> {e \<in> ?U. ends e \<subseteq> visited \<union> nx}"
    using sub old_ends unfolding got(4) using old(1) got(3) by blast
  moreover have "explored t q db (nx - visited) (visited \<union> nx) ids' \<and> visited \<union> nx = visited \<union> ?E `` visited"
    if "\<not> truncated"
  proof -
    have all: "got = {e \<in> ?U. enters ?d frontier e}" using got(2) that by (simp add: gathered_def)
    have nx: "nx = ?E `` frontier" unfolding got(3) all steps_from ..
    have vis: "visited = (visited - frontier) \<union> frontier" using old(2) by blast
    have "?E `` visited = ?E `` (visited - frontier) \<union> ?E `` frontier" by (subst vis) blast
    then have next_visited: "visited \<union> nx = visited \<union> ?E `` visited" using old(3) nx by blast
    have "enters ?d visited e \<longleftrightarrow> enters ?d (visited - frontier) e \<or> enters ?d frontier e" for e
      by (subst vis) (rule enters_Un)
    then have "snd ` set ids' = {e \<in> ?U. enters ?d visited e}" unfolding got(4) old(1) all by blast
    moreover have "visited \<union> nx - (nx - visited) = visited" by blast
    ultimately show ?thesis using got(1) next_visited by (auto simp: explored_def)
  qed
  ultimately show ?thesis using got(1) up by blast
qed

lemma explore_spec:
  assumes "explore plan t q db n frontier visited ids = (visited', ids', truncated)"
    and db: "distinct (map row_id (edges db))" and "explored t q db frontier visited ids"
  shows "dict_ok db ids' \<and> visited \<subseteq> visited' \<and> visited' \<subseteq> within (steps t q db) n visited
    \<and> snd ` set ids' \<subseteq> {e \<in> usable t q db. ends e \<subseteq> visited'}
    \<and> (truncated \<or> (visited' = within (steps t q db) n visited
      \<and> snd ` set ids' = {e \<in> usable t q db. enters (gq_direction q)
          (case n of 0 \<Rightarrow> visited - frontier | Suc k \<Rightarrow> within (steps t q db) k visited) e}))"
  using assms(1,3)
proof (induction n arbitrary: frontier visited ids)
  case 0
  then have "dict_ok db ids" "snd ` set ids = {e \<in> usable t q db. enters (gq_direction q) (visited - frontier) e}"
      "steps t q db `` (visited - frontier) \<subseteq> visited"
    by (simp_all add: explored_def)
  with 0 show ?case unfolding steps_from by auto
next
  case (Suc n)
  let ?E = "steps t q db" and ?U = "usable t q db" and ?d = "gq_direction q"
  obtain nx ids1 cut where run: "scan_level (gq_relationship_types q) (gq_max_nodes q) visited
      (edges_for_frontier (plan n) t frontier (gq_direction q) db) {} ids = (nx, ids1, cut)" by (metis prod_cases3)
  note level = explored_level [OF Suc.prems(2) db run]
  have union: "visited \<union> (nx - visited) = visited \<union> nx" by blast
  have reach: "visited \<union> nx \<subseteq> within ?E (Suc n) visited"
    using level within_start [of "visited \<union> ?E `` visited" ?E n] unfolding within_Suc by blast
  consider (cut) cut | (closed) "\<not> cut" "nx \<subseteq> visited" | (on) "\<not> cut" "\<not> nx \<subseteq> visited" by blast
  then show ?case
  proof cases
    case cut
    with Suc.prems(1) run have "visited' = visited \<union> nx" "ids' = ids1" truncated by (simp_all add: union)
    with level reach show ?thesis by auto
  next
    case closed
    then have r: "visited' = visited" "ids' = ids1" "\<not> truncated"
      using Suc.prems(1) run by (auto simp: Diff_eq_empty_iff)
    have "visited \<union> nx = visited" using closed by blast
    with level closed have e: "explored t q db (nx - visited) visited ids1" "?E `` visited \<subseteq> visited" by auto
    have "nx - visited = {}" using closed by blast
    with e(1) have "snd ` set ids1 = {e \<in> ?U. enters ?d visited e}" by (simp add: explored_def)
    moreover have "within ?E k visited = visited" for k by (rule within_closed [OF e(2)])
    ultimately show ?thesis using level r \<open>visited \<union> nx = visited\<close> by simp
  next
    case on
    then have rest: "explore plan t q db n (nx - visited) (visited \<union> nx) ids1 = (visited', ids', truncated)"
      using Suc.prems(1) run by (simp add: union Diff_eq_empty_iff)
    have e: "explored t q db (nx - visited) (visited \<union> nx) ids1" "visited \<union> nx = visited \<union> ?E `` visited"
      using level on by auto
    have w: "within ?E k (visited \<union> nx) = within ?E (Suc k) visited" for k unfolding e(2) within_Suc ..
    have "visited \<union> nx - (nx - visited) = visited" by blast
    then have "(case n of 0 \<Rightarrow> visited \<union> nx - (nx - visited) | Suc k \<Rightarrow> within ?E k (visited \<union> nx)) = within ?E n visited"
      by (simp add: w split: nat.split)
    with Suc.IH [OF rest e(1)] show ?thesis unfolding w by auto
  qed
qed

lemma explore_card:
  assumes "explore plan t q db n frontier visited ids = (visited', ids', truncated)"
    and "finite visited" "frontier \<subseteq> visited" "int (card visited) < max (gq_max_nodes q) 2"
  shows "finite visited' \<and> int (card visited') \<le> max (gq_max_nodes q) 2
    \<and> (if truncated then gq_max_nodes q \<le> int (card visited') else int (card visited') < max (gq_max_nodes q) 2)"
  using assms
proof (induction n arbitrary: frontier visited ids)
  case (Suc n)
  let ?found = "edges_for_frontier (plan n) t frontier (gq_direction q) db"
  obtain nx ids1 cut where run: "scan_level (gq_relationship_types q) (gq_max_nodes q) visited ?found {} ids = (nx, ids1, cut)"
    by (metis prod_cases3)
  have "ends e \<inter> visited \<noteq> {}" if "e \<in> set ?found" for e
    using that Suc.prems(3) enters_ends by (fastforce simp: edges_for_frontier_def)
  then have level: "finite nx" "int (card (visited \<union> nx)) \<le> max (gq_max_nodes q) 2"
      "if cut then gq_max_nodes q \<le> int (card (visited \<union> nx)) else int (card (visited \<union> nx)) < max (gq_max_nodes q) 2"
    using scan_level_card [OF run Suc.prems(2) finite.emptyI] Suc.prems(4) by simp_all
  have union: "visited \<union> (nx - visited) = visited \<union> nx" by blast
  show ?case
  proof (cases "cut \<or> nx - visited = {}")
    case True
    then have "visited' = visited \<union> nx" "truncated = cut" using Suc.prems(1) run by (auto simp: union)
    with level Suc.prems(2) show ?thesis by simp
  next
    case False
    then have "explore plan t q db n (nx - visited) (visited \<union> nx) ids1 = (visited', ids', truncated)"
      using Suc.prems(1) run by (simp add: union)
    from Suc.IH [OF this] show ?thesis using level Suc.prems(2) False by (simp add: Diff_subset_conv)
  qed
qed simp

section \<open>The answer\<close>

lemma get_nodes_set: "set (get_nodes plan t ids db) = {n \<in> set (nodes db). tenant_id n = t \<and> nd_inventory_resource_id n \<in> ids}"
  by (auto simp: get_nodes_def)

lemma get_nodes_length:
  assumes "distinct (map node_key (nodes db))" "finite ids"
  shows "length (get_nodes plan t ids db) \<le> card ids"
proof -
  let ?rows = "filter (\<lambda>n. tenant_id n = t \<and> nd_inventory_resource_id n \<in> ids) (nodes db)"
  have "distinct (map node_key ?rows)" using assms(1) by (simp add: distinct_map_filter)
  then have "inj_on node_key (set ?rows)" "distinct ?rows" by (simp_all add: distinct_map)
  then have "inj_on nd_inventory_resource_id (set ?rows)" by (auto simp: inj_on_def)
  then have "card (set ?rows) \<le> card ids" using assms(2) by (intro card_inj_on_le) auto
  then show ?thesis using \<open>distinct ?rows\<close> distinct_card [of ?rows] by (simp add: get_nodes_def)
qed

lemma explored_root: "explored t q db {r} {r} []"
  by (simp add: explored_def dict_ok_def enters_def)

text \<open>The resources that a query can reach in a number of steps.\<close>

definition reachable_within :: "uuid \<Rightarrow> graph_query \<Rightarrow> relationship_db \<Rightarrow> nat \<Rightarrow> uuid set" where
  "reachable_within t q db n = {x. \<exists>k \<le> n. (gq_root_resource_id q, x) \<in> steps t q db ^^ k}"

lemma within_root: "within (steps t q db) n {gq_root_resource_id q} = reachable_within t q db n"
  by (simp add: within_def reachable_within_def)

lemma graph_search:
  assumes "relationship_ok db" "graph_query_valid q"
  obtains visited ids truncated where
    "graph plan node_plan t q db = \<lparr>gr_root_resource_id = gq_root_resource_id q, gr_truncated = truncated,
       gr_nodes = map graph_node_of (get_nodes node_plan t visited db), gr_edges = map (graph_edge_of \<circ> snd) ids\<rparr>"
    "dict_ok db ids" "finite visited" "int (card visited) \<le> max (gq_max_nodes q) 2"
    "truncated \<Longrightarrow> gq_max_nodes q \<le> int (card visited)"
    "gq_root_resource_id q \<in> visited" "visited \<subseteq> reachable_within t q db (nat (gq_max_depth q))"
    "snd ` set ids \<subseteq> {e \<in> usable t q db. ends e \<subseteq> visited}"
    "\<not> truncated \<Longrightarrow> visited = reachable_within t q db (nat (gq_max_depth q))"
    "\<not> truncated \<Longrightarrow> snd ` set ids = {e \<in> usable t q db. enters (gq_direction q) (reachable_within t q db (nat (gq_max_depth q - 1))) e}"
proof -
  let ?r = "gq_root_resource_id q"
  obtain visited ids truncated where run: "explore plan t q db (nat (gq_max_depth q)) {?r} {?r} [] = (visited, ids, truncated)"
    by (metis prod_cases3)
  have depth: "nat (gq_max_depth q) = Suc (nat (gq_max_depth q - 1))"
    using assms(2) by (simp add: graph_query_valid_def nat_diff_distrib)
  have db: "distinct (map row_id (edges db))" using assms(1) by (simp add: relationship_ok_def)
  note spec = explore_spec [OF run db explored_root]
  have card: "finite visited \<and> int (card visited) \<le> max (gq_max_nodes q) 2 \<and> (if truncated then gq_max_nodes q \<le> int (card visited)
      else int (card visited) < max (gq_max_nodes q) 2)"
    by (rule explore_card [OF run]) simp_all
  have sub: "snd ` set ids \<subseteq> {e \<in> usable t q db. ends e \<subseteq> visited}" using spec by blast
  then have "filter (\<lambda>e. ends e \<subseteq> visited) (map snd ids) = map snd ids" by (intro filter_True) auto
  then have "graph plan node_plan t q db = \<lparr>gr_root_resource_id = ?r, gr_truncated = truncated,
       gr_nodes = map graph_node_of (get_nodes node_plan t visited db), gr_edges = map (graph_edge_of \<circ> snd) ids\<rparr>"
    by (simp add: graph_def Let_def run)
  then show ?thesis
  proof (rule that)
    show "dict_ok db ids" "finite visited" "int (card visited) \<le> max (gq_max_nodes q) 2" "?r \<in> visited"
      using spec card by auto
    show "truncated \<Longrightarrow> gq_max_nodes q \<le> int (card visited)" using card by simp
    show "visited \<subseteq> reachable_within t q db (nat (gq_max_depth q))" using spec by (simp add: within_root)
    show "snd ` set ids \<subseteq> {e \<in> usable t q db. ends e \<subseteq> visited}" by (rule sub)
    show "\<not> truncated \<Longrightarrow> visited = reachable_within t q db (nat (gq_max_depth q))" using spec by (simp add: within_root)
    show "\<not> truncated \<Longrightarrow> snd ` set ids = {e \<in> usable t q db. enters (gq_direction q) (reachable_within t q db (nat (gq_max_depth q - 1))) e}"
      using spec by (simp add: depth within_root)
  qed
qed

section \<open>Properties\<close>

text \<open>C16: A dependency graph that is not marked as truncated is complete: its nodes are exactly the known
  resources of the tenant that the root reaches along active edges of the wanted types, in the
  direction asked for, in at most \<open>max_depth\<close> steps; its edges are exactly those edges that
  such a walk can take.\<close>

theorem graph_complete_unless_truncated:
  assumes "relationship_ok db" "graph_query_valid q" "\<not> gr_truncated (graph plan node_plan t q db)"
  shows "set (gr_nodes (graph plan node_plan t q db))
      = graph_node_of ` {n \<in> set (nodes db). tenant_id n = t
          \<and> nd_inventory_resource_id n \<in> reachable_within t q db (nat (gq_max_depth q))}
    \<and> set (gr_edges (graph plan node_plan t q db))
      = graph_edge_of ` {e \<in> usable t q db.
          enters (gq_direction q) (reachable_within t q db (nat (gq_max_depth q - 1))) e}"
proof (rule graph_search [OF assms(1,2), where plan = plan and node_plan = node_plan and t = t])
  fix visited ids truncated
  assume g: "graph plan node_plan t q db = \<lparr>gr_root_resource_id = gq_root_resource_id q,
       gr_truncated = truncated, gr_nodes = map graph_node_of (get_nodes node_plan t visited db),
       gr_edges = map (graph_edge_of \<circ> snd) ids\<rparr>"
    and v: "\<not> truncated \<Longrightarrow> visited = reachable_within t q db (nat (gq_max_depth q))"
    and i: "\<not> truncated \<Longrightarrow> snd ` set ids = {e \<in> usable t q db. enters (gq_direction q) (reachable_within t q db (nat (gq_max_depth q - 1))) e}"
  have cut: "\<not> truncated" using assms(3) by (simp add: g)
  show ?thesis unfolding i [OF cut, symmetric] by (simp add: g get_nodes_set v [OF cut] image_comp)
qed

text \<open>C33: A dependency graph never exceeds its limits and never shows what the query does not cover: it
  has at most \<open>max_nodes\<close> nodes (two when one was asked for), all within \<open>max_depth\<close> steps of
  the root, and its edges, each once, are active edges of the tenant and of the wanted types.\<close>

theorem graph_stays_in_bounds:
  assumes "relationship_ok db" "graph_query_valid q"
  shows "int (length (gr_nodes (graph plan node_plan t q db))) \<le> max (gq_max_nodes q) 2
    \<and> set (gr_nodes (graph plan node_plan t q db))
      \<subseteq> graph_node_of ` {n \<in> set (nodes db). tenant_id n = t
          \<and> nd_inventory_resource_id n \<in> reachable_within t q db (nat (gq_max_depth q))}
    \<and> distinct (map ge_id (gr_edges (graph plan node_plan t q db)))
    \<and> set (gr_edges (graph plan node_plan t q db)) \<subseteq> graph_edge_of ` {e \<in> set (edges db). tenant_id e = t
        \<and> re_is_active e \<and> (gq_relationship_types q = [] \<or> re_relationship_type e \<in> set (gq_relationship_types q))}"
proof (rule graph_search [OF assms, where plan = plan and node_plan = node_plan and t = t])
  fix visited ids truncated
  assume g: "graph plan node_plan t q db = \<lparr>gr_root_resource_id = gq_root_resource_id q,
       gr_truncated = truncated, gr_nodes = map graph_node_of (get_nodes node_plan t visited db),
       gr_edges = map (graph_edge_of \<circ> snd) ids\<rparr>"
    and d: "dict_ok db ids" and v: "finite visited" "int (card visited) \<le> max (gq_max_nodes q) 2"
      "visited \<subseteq> reachable_within t q db (nat (gq_max_depth q))"
    and i: "snd ` set ids \<subseteq> {e \<in> usable t q db. ends e \<subseteq> visited}"
  have "distinct (map node_key (nodes db))" using assms(1) by (simp add: relationship_ok_def)
  from get_nodes_length [OF this v(1), of node_plan t] v(2)
  have len: "int (length (get_nodes node_plan t visited db)) \<le> max (gq_max_nodes q) 2" by linarith
  have "map ge_id (map (graph_edge_of \<circ> snd) ids) = map fst ids"
    using d by (auto simp: dict_ok_def graph_edge_of_def)
  then have "distinct (map ge_id (map (graph_edge_of \<circ> snd) ids))" using d by (simp only: dict_ok_def)
  moreover have "set (map (graph_edge_of \<circ> snd) ids) \<subseteq> graph_edge_of ` {e \<in> set (edges db). tenant_id e = t \<and> re_is_active e
      \<and> (gq_relationship_types q = [] \<or> re_relationship_type e \<in> set (gq_relationship_types q))}"
    using i by (fastforce simp: usable_def wanted_def)
  moreover have "set (map graph_node_of (get_nodes node_plan t visited db)) \<subseteq> graph_node_of ` {n \<in> set (nodes db). tenant_id n = t
      \<and> nd_inventory_resource_id n \<in> reachable_within t q db (nat (gq_max_depth q))}"
    using v(3) by (auto simp: get_nodes_set)
  ultimately show ?thesis using len by (simp add: g)
qed

definition sample_edge :: "uuid \<Rightarrow> resource_node \<Rightarrow> resource_node \<Rightarrow> relationship" where
  "sample_edge i a b = new_edge i (instant 0) 2 a arm_reference (reference_candidate [] []) b"

definition sample_links :: relationship_db where
  "sample_links = (let a = sample_node 1 ''/a'' []; b = sample_node 2 ''/b'' []
     in \<lparr>outbox = [], nodes = [a, b], edges = [sample_edge 5 a b]\<rparr>)"

definition sample_query :: "int \<Rightarrow> graph_query" where
  "sample_query n = \<lparr>gq_root_resource_id = 1, gq_direction = ''downstream'', gq_max_depth = 3, gq_max_nodes = n,
     gq_relationship_types = []\<rparr>"

lemmas sample_link_simps = sample_links_def sample_node_def new_node_def sample_edge_def new_edge_def arm_reference_def
  reference_candidate_def sample_query_def instant_def Let_def

lemma sample_links_ok: "relationship_ok sample_links"
proof -
  have "lower ''/a'' \<noteq> lower ''/b''" by code_simp
  then show ?thesis by (simp add: relationship_ok_def sample_link_simps)
qed

lemma sample_query_valid: "1 \<le> n \<Longrightarrow> n \<le> 2000 \<Longrightarrow> graph_query_valid (sample_query n)"
  by (simp add: graph_query_valid_def sample_query_def direction_known_def)

lemma sample_search:
  "explore (\<lambda>_ _. 0) 2 (sample_query 10) sample_links 3 {1} {1} [] = ({1, 2}, [(5, hd (edges sample_links))], False)"
  "explore (\<lambda>_ _. 0) 2 (sample_query 2) sample_links 3 {1} {1} [] = ({1, 2}, [(5, hd (edges sample_links))], True)"
  "explore (\<lambda>_ _. 0) 2 (sample_query 1) sample_links 3 {1} {1} [] = ({1, 2}, [(5, hd (edges sample_links))], True)"
  by (simp_all add: numeral_3_eq_3 edges_for_frontier_def scan_rows_def sample_link_simps enters_def wanted_def ends_def
      insert_commute insert_Diff_if)

lemma sample_reached: "2 \<in> reachable_within 2 (sample_query n) sample_links 3"
proof -
  have "(1, 2) \<in> steps 2 (sample_query n) sample_links"
    by (simp add: steps_def usable_def sample_link_simps wanted_def enters_def ends_def)
  then have "(1, 2) \<in> steps 2 (sample_query n) sample_links ^^ 1" by simp
  then show ?thesis by (auto simp: reachable_within_def sample_query_def intro!: exI [of _ 1])
qed

lemma graph_complete_unless_truncated_witness:
  "\<exists>n \<in> set (gr_nodes (graph (\<lambda>_ _. 0) (\<lambda>_. 0) 2 (sample_query 10) sample_links)). gn_id n = 2"
proof -
  let ?g = "graph (\<lambda>_ _. 0) (\<lambda>_. 0) 2 (sample_query 10) sample_links" and ?b = "sample_node 2 ''/b'' []"
  have depth: "nat (gq_max_depth (sample_query 10)) = 3" by (simp add: sample_query_def)
  have "\<not> gr_truncated ?g" using sample_search(1) by (simp add: graph_def Let_def depth) (simp add: sample_query_def)
  then have "set (gr_nodes ?g) = graph_node_of ` {n \<in> set (nodes sample_links). tenant_id n = 2
      \<and> nd_inventory_resource_id n \<in> reachable_within 2 (sample_query 10) sample_links 3}"
    using graph_complete_unless_truncated [OF sample_links_ok sample_query_valid, of 10 "\<lambda>_ _. 0" "\<lambda>_. 0" 2] by (simp add: depth)
  moreover have "?b \<in> set (nodes sample_links)" "tenant_id ?b = 2" "nd_inventory_resource_id ?b = 2"
    by (simp_all add: sample_links_def Let_def sample_node_def new_node_def)
  ultimately have "graph_node_of ?b \<in> set (gr_nodes ?g)" using sample_reached by simp
  moreover have "gn_id (graph_node_of ?b) = 2" by (simp add: graph_node_of_def sample_node_def new_node_def)
  ultimately show ?thesis by blast
qed

lemma graph_stays_in_bounds_witness:
  "int (length (gr_nodes (graph (\<lambda>_ _. 0) (\<lambda>_. 0) 2 (sample_query 10) sample_links))) \<le> 10"
  using graph_stays_in_bounds [OF sample_links_ok sample_query_valid, of 10 "\<lambda>_ _. 0" "\<lambda>_. 0" 2]
  by (simp add: sample_query_def)

text \<open>
  The limit as it is: of two connected resources a query for two is answered in full and yet
  marked as truncated, and a query for one is answered with two.
\<close>

lemma graph_limit_off_by_one:
  "gr_truncated (graph (\<lambda>_ _. 0) (\<lambda>_. 0) 2 (sample_query 2) sample_links)
   \<and> map gn_id (gr_nodes (graph (\<lambda>_ _. 0) (\<lambda>_. 0) 2 (sample_query 2) sample_links)) = [1, 2]
   \<and> map gn_id (gr_nodes (graph (\<lambda>_ _. 0) (\<lambda>_. 0) 2 (sample_query 1) sample_links)) = [1, 2]"
proof -
  have depth: "nat (gq_max_depth (sample_query n)) = 3" "gq_root_resource_id (sample_query n) = 1" for n
    by (simp_all add: sample_query_def)
  have "map gn_id (map graph_node_of (get_nodes (\<lambda>_. 0) 2 {1, 2} sample_links)) = [1, 2]"
    by (simp add: get_nodes_def scan_rows_def sample_link_simps graph_node_of_def)
  with sample_search(2,3) show ?thesis by (simp add: graph_def Let_def depth)
qed

section \<open>Queries of one tenant\<close>

interpretation edge_query: tenant_query edges tenant_id
  "\<lambda>(resource_id, direction, ty, bound) t db. list_edges t resource_id direction ty bound db"
proof
  fix q :: "uuid option \<times> string \<times> string option \<times> decimal" and t db and r :: relationship
  assume "r \<in> set ((\<lambda>(resource_id, direction, ty, bound) t db. list_edges t resource_id direction ty bound db) q t db)"
  then show "r \<in> set (edges db) \<and> tenant_id r = t"
    by (auto simp: list_edges_def split: prod.splits dest!: in_set_takeD)
next
  fix q :: "uuid option \<times> string \<times> string option \<times> decimal" and t and db db' :: relationship_db
  assume eq: "filter (\<lambda>r. tenant_id r = t) (edges db) = filter (\<lambda>r. tenant_id r = t) (edges db')"
  have "filter (\<lambda>e. tenant_id e = t \<and> P e) (edges db) = filter (\<lambda>e. tenant_id e = t \<and> P e) (edges db')" for P
    by (rule filter_cong_filter [OF eq]) simp
  then show "(\<lambda>(resource_id, direction, ty, bound) t db. list_edges t resource_id direction ty bound db) q t db
      = (\<lambda>(resource_id, direction, ty, bound) t db. list_edges t resource_id direction ty bound db) q t db'"
    by (simp add: list_edges_def split: prod.split)
qed

end
