(* ===== verification/Intelligence.thy ===== *)
theory Intelligence
  imports Outbox
begin

text \<open>
  Change intelligence (\<open>apps/change-intelligence-service\<close>): the risk engine of
  \<open>sentinel_intelligence/domain.py\<close>, the tables of \<open>models.py\<close>, and the endpoints of
  \<open>main.py\<close> that record an assessment with the digest of its canonical input. The digest's
  SHA-256 is an argument.
\<close>

section \<open>The risk engine\<close>

record assessment_input =
  ai_action_type :: string
  ai_target_resource_id :: string
  ai_parameters :: dict
  ai_dependency_count :: int
  ai_environment :: "string option"
  ai_recoverable :: bool

record risk_finding =
  rf_rule_id :: string
  rf_score :: int
  rf_severity :: string
  rf_title :: string
  rf_description :: string
  rf_evidence :: dict
  rf_remediation :: "string option"

record risk_rule =
  rl_rule_id :: string
  rl_version :: string
  rl_supports :: "assessment_input \<Rightarrow> bool"
  rl_evaluate :: "assessment_input \<Rightarrow> risk_finding option"

record risk_engine =
  en_rules :: "risk_rule list"
  en_rule_set_version :: string

definition risk_engine_init :: "risk_rule list \<Rightarrow> string \<Rightarrow> risk_engine result" where
  "risk_engine_init rules rule_set_version =
     (if rules = [] then Inl (Exn ''ValueError'' ''At least one reviewed risk rule is required'')
      else Inr \<lparr>en_rules = rules, en_rule_set_version = rule_set_version\<rparr>)"

definition level_of :: "int \<Rightarrow> string" where
  "level_of score = (if score < 30 then ''low'' else if score < 70 then ''medium'' else ''high'')"

definition rule_finding :: "assessment_input \<Rightarrow> risk_rule \<Rightarrow> risk_finding option" where
  "rule_finding a rule = (if rl_supports rule a then rl_evaluate rule a else None)"

definition evaluate :: "risk_engine \<Rightarrow> assessment_input \<Rightarrow> int \<times> string \<times> risk_finding list" where
  "evaluate engine a =
     (let findings = List.map_filter (rule_finding a) (en_rules engine);
          score = min 100 (sum_list (map rf_score findings))
      in (score, level_of score, findings))"

section \<open>Tables\<close>

record change_assessment = stamped_row +
  ca_requested_by :: uuid
  ca_target_resource_id :: uuid
  ca_action_type :: string
  ca_parameters :: dict
  ca_status :: string
  ca_risk_score :: "int option"
  ca_risk_level :: "string option"
  ca_approval_required :: "bool option"
  ca_rule_set_version :: "string option"
  ca_inventory_snapshot_id :: "uuid option"
  ca_graph_snapshot_id :: "uuid option"
  ca_target_etag :: "string option"
  ca_canonical_input :: json
  ca_input_sha256 :: string
  ca_assessed_at :: "timestamp option"
  ca_expires_at :: "timestamp option"
  ca_failure_code :: "string option"
  ca_correlation_id :: uuid
  ca_version :: int

record assessment_finding = tenant_row +
  af_assessment_id :: uuid
  af_rule_id :: string
  af_severity :: string
  af_title :: string
  af_description :: string
  af_evidence :: dict
  af_remediation :: "string option"

record intelligence_db = platform_db +
  assessments :: "change_assessment list"
  assessment_findings :: "assessment_finding list"

section \<open>Endpoints\<close>

record assessment_create =
  aq_action_type :: string
  aq_target_resource_id :: uuid
  aq_parameters :: dict

definition assessment_create_valid :: "assessment_create \<Rightarrow> bool" where
  "assessment_create_valid q \<longleftrightarrow> 3 \<le> length (aq_action_type q) \<and> length (aq_action_type q) \<le> 255"

definition canonical_input :: "assessment_create \<Rightarrow> json" where
  "canonical_input q = JDict [(''action_type'', JStr (aq_action_type q)),
     (''target_resource_id'', JStr (uuid_str (aq_target_resource_id q))), (''parameters'', JDict (aq_parameters q))]"

definition input_digest :: "(string \<Rightarrow> string) \<Rightarrow> assessment_create \<Rightarrow> string" where
  "input_digest sha q = ''sha256:'' @ sha (json_text (canonical_input q))"

record assessment_env =
  as_row_id :: uuid
  as_event_id :: uuid
  as_outbox_id :: uuid
  as_clock :: clock
  as_commit :: "exn option"

definition new_assessment ::
  "(string \<Rightarrow> string) \<Rightarrow> assessment_env \<Rightarrow> actor_context \<Rightarrow> assessment_create \<Rightarrow> change_assessment" where
  "new_assessment sha env actor q =
     \<lparr>row_id = as_row_id env, tenant_id = ac_tenant_id actor, created_at = tx_now (as_clock env),
      updated_at = tx_now (as_clock env), ca_requested_by = ac_actor_id actor,
      ca_target_resource_id = aq_target_resource_id q, ca_action_type = aq_action_type q,
      ca_parameters = aq_parameters q, ca_status = ''draft'', ca_risk_score = None, ca_risk_level = None,
      ca_approval_required = None, ca_rule_set_version = None, ca_inventory_snapshot_id = None,
      ca_graph_snapshot_id = None, ca_target_etag = None, ca_canonical_input = canonical_input q,
      ca_input_sha256 = input_digest sha q, ca_assessed_at = None, ca_expires_at = None, ca_failure_code = None,
      ca_correlation_id = ac_correlation_id actor, ca_version = 1\<rparr>"

definition assessment_event :: "assessment_env \<Rightarrow> actor_context \<Rightarrow> change_assessment \<Rightarrow> audit_event" where
  "assessment_event env actor a =
     \<lparr>ev_specversion = ''1.0'', ev_id = as_event_id env, ev_source = ''change-intelligence-service'',
      ev_type = ''intelligence.assessment-requested.v1'', ev_subject = ''assessment/'' @ uuid_str (row_id a),
      ev_time = py_now (as_clock env), ev_datacontenttype = ''application/json'',
      ev_tenant_id = ac_tenant_id actor, ev_correlation_id = ac_correlation_id actor,
      ev_data = [(''action_type'', JStr (ca_action_type a)), (''input_sha256'', JStr (ca_input_sha256 a))],
      ev_actor_type = ''user'', ev_actor_id = uuid_str (ac_actor_id actor), ev_action = ''assessment.create'',
      ev_entity_type = ''assessment'', ev_entity_id = Some (uuid_str (row_id a)), ev_outcome = ''accepted''\<rparr>"

record assessment_response =
  ar_id :: uuid
  ar_target_resource_id :: uuid
  ar_action_type :: string
  ar_status :: string
  ar_risk_score :: "int option"
  ar_risk_level :: "string option"
  ar_approval_required :: "bool option"
  ar_rule_set_version :: "string option"
  ar_input_sha256 :: string
  ar_assessed_at :: "timestamp option"
  ar_expires_at :: "timestamp option"
  ar_failure_code :: "string option"

definition assessment_response_of :: "change_assessment \<Rightarrow> assessment_response" where
  "assessment_response_of a =
     \<lparr>ar_id = row_id a, ar_target_resource_id = ca_target_resource_id a, ar_action_type = ca_action_type a,
      ar_status = ca_status a, ar_risk_score = ca_risk_score a, ar_risk_level = ca_risk_level a,
      ar_approval_required = ca_approval_required a, ar_rule_set_version = ca_rule_set_version a,
      ar_input_sha256 = ca_input_sha256 a, ar_assessed_at = ca_assessed_at a, ar_expires_at = ca_expires_at a,
      ar_failure_code = ca_failure_code a\<rparr>"

definition record_assessment ::
  "(string \<Rightarrow> string) \<Rightarrow> assessment_env \<Rightarrow> actor_context \<Rightarrow> assessment_create \<Rightarrow> intelligence_db
     \<Rightarrow> assessment_response \<times> intelligence_db" where
  "record_assessment sha env actor q db =
     (let a = new_assessment sha env actor q
      in (assessment_response_of a,
          enqueue_audit (as_outbox_id env) (py_now (as_clock env)) (assessment_event env actor a)
            (db\<lparr>assessments := assessments db @ [a]\<rparr>)))"

definition create_assessment ::
  "(string \<Rightarrow> string) \<Rightarrow> assessment_env \<Rightarrow> actor_context \<Rightarrow> assessment_create \<Rightarrow> intelligence_db
     \<Rightarrow> assessment_response result \<times> intelligence_db" where
  "create_assessment sha env actor q db =
     (case bindr (require_permission ''analysis.create'' actor) (\<lambda>actor.
             bindr (guardr (assessment_create_valid q) request_validation) (\<lambda>_. Inr actor)) of
        Inl e \<Rightarrow> (Inl e, db)
      | Inr actor \<Rightarrow> unit_of_work (as_commit env) (ac_tenant_id actor) (ac_actor_id actor)
          (on_tables (\<lambda>db. Inr (record_assessment sha env actor q db))) db)"

text \<open>
  The path parameter is a text that the database driver reads as a UUID (\<open>read_uuid\<close>); a text
  it cannot read is an error of the driver.
\<close>

definition get_assessment ::
  "(string \<Rightarrow> uuid option) \<Rightarrow> actor_context \<Rightarrow> string \<Rightarrow> intelligence_db \<Rightarrow> assessment_response result" where
  "get_assessment read_uuid actor assessment_id db =
     bindr (require_permission ''analysis.read'' actor) (\<lambda>actor.
     bindr (of_option (Exn ''DBAPIError'' ''invalid UUID'') (read_uuid assessment_id)) (\<lambda>i.
     bindr (of_option (http_error 404 ''Assessment not found'')
       (find (\<lambda>a. tenant_id a = ac_tenant_id actor \<and> row_id a = i) (assessments db))) (\<lambda>a.
     Inr (assessment_response_of a))))"

section \<open>Lemmas\<close>

lemma level_of_mono:
  "s \<le> s' \<Longrightarrow> (level_of s = ''high'' \<longrightarrow> level_of s' = ''high'') \<and> (level_of s \<noteq> ''low'' \<longrightarrow> level_of s' \<noteq> ''low'')"
  by (auto simp: level_of_def split: if_splits)

lemma map_filter_mset: "mset (List.map_filter f xs) = image_mset (the \<circ> f) (filter_mset (\<lambda>x. f x \<noteq> None) (mset xs))"
  by (simp add: map_filter_def comp_def)

lemma map_filter_mono:
  "mset xs \<subseteq># mset ys \<Longrightarrow> mset (List.map_filter f xs) \<subseteq># mset (List.map_filter f ys)"
  unfolding map_filter_mset by (intro image_mset_subseteq_mono multiset_filter_mono)

lemma sum_mset_mono_nonneg:
  fixes A B :: "int multiset"
  assumes "A \<subseteq># B" "\<And>x. x \<in># B \<Longrightarrow> 0 \<le> x"
  shows "sum_mset A \<le> sum_mset B"
proof -
  obtain C where C: "B = A + C" using assms(1) by (auto simp: mset_subset_eq_exists_conv)
  have "(\<And>x. x \<in># D \<Longrightarrow> 0 \<le> x) \<Longrightarrow> 0 \<le> sum_mset D" for D :: "int multiset" by (induction D) auto
  then have "0 \<le> sum_mset C" using assms(2) by (simp add: C)
  then show ?thesis by (simp add: C)
qed

lemma canonical_input_wf: "wf_json (JDict (aq_parameters q)) \<Longrightarrow> wf_json (canonical_input q)"
  by (simp add: canonical_input_def)

lemma canonical_input_canon:
  "canon (canonical_input q) = canon (canonical_input q') \<longleftrightarrow> aq_action_type q = aq_action_type q'
     \<and> aq_target_resource_id q = aq_target_resource_id q' \<and> canon (JDict (aq_parameters q)) = canon (JDict (aq_parameters q'))"
proof -
  have less: "(''action_type'' :: string) \<le> ''parameters''" "(''parameters'' :: string) \<le> ''target_resource_id''"
      "(''action_type'' :: string) \<le> ''target_resource_id''" "\<not> (''target_resource_id'' :: string) \<le> ''parameters''"
    by code_simp+
  have "canon (canonical_input q) = JDict [(''action_type'', JStr (aq_action_type q)),
      (''parameters'', canon (JDict (aq_parameters q))), (''target_resource_id'', JStr (uuid_str (aq_target_resource_id q)))]" for q
    by (simp add: canonical_input_def less)
  then show ?thesis using uuid_str_inject by auto
qed

section \<open>Properties\<close>

text \<open>The risk of a change depends on the set of rules alone and grows with it: reordering the rules
  changes neither the score nor the level, and a rule more, when no rule lowers the score,
  can drop neither a finding nor the level; the score never exceeds 100.\<close>

theorem risk_grows_with_rules:
  assumes "mset (en_rules engine) \<subseteq># mset (en_rules engine')"
    and "evaluate engine a = (score, level, findings)" "evaluate engine' a = (score', level', findings')"
    and "\<forall>f \<in> set findings'. 0 \<le> rf_score f"
  shows "score \<le> score' \<and> score' \<le> 100 \<and> mset findings \<subseteq># mset findings'
    \<and> (if level = ''high'' then level' = ''high'' else if level = ''medium'' then level' \<noteq> ''low'' else True)
    \<and> (if mset (en_rules engine) = mset (en_rules engine') then score' = score \<and> level' = level else True)"
proof -
  have f: "findings = List.map_filter (rule_finding a) (en_rules engine)"
      "findings' = List.map_filter (rule_finding a) (en_rules engine')"
    and s: "score = min 100 (sum_list (map rf_score findings))" "score' = min 100 (sum_list (map rf_score findings'))"
    and l: "level = level_of score" "level' = level_of score'"
    using assms(2,3) by (auto simp: evaluate_def Let_def)
  have sub: "mset findings \<subseteq># mset findings'" unfolding f using assms(1) by (rule map_filter_mono)
  then have "mset (map rf_score findings) \<subseteq># mset (map rf_score findings')" by (simp add: image_mset_subseteq_mono)
  then have "sum_mset (mset (map rf_score findings)) \<le> sum_mset (mset (map rf_score findings'))"
    using assms(4) by (intro sum_mset_mono_nonneg) auto
  then have "sum_list (map rf_score findings) \<le> sum_list (map rf_score findings')" by (simp only: sum_mset_sum_list)
  then have le: "score \<le> score'" using s by linarith
  have "score' = score" if "mset (en_rules engine) = mset (en_rules engine')"
  proof -
    have "mset findings' = mset findings" unfolding f map_filter_mset that ..
    then have "sum_mset (mset (map rf_score findings')) = sum_mset (mset (map rf_score findings))" by simp
    then show ?thesis unfolding s sum_mset_sum_list by simp
  qed
  with le sub level_of_mono [OF le] show ?thesis by (auto simp: l s(2))
qed

definition sample_rule :: "int \<Rightarrow> risk_rule" where
  "sample_rule n = \<lparr>rl_rule_id = ''r'', rl_version = ''1'', rl_supports = (\<lambda>_. True),
     rl_evaluate = (\<lambda>_. Some \<lparr>rf_rule_id = ''r'', rf_score = n, rf_severity = [], rf_title = [], rf_description = [],
       rf_evidence = [], rf_remediation = None\<rparr>)\<rparr>"

definition sample_engine :: "int list \<Rightarrow> risk_engine" where
  "sample_engine ns = \<lparr>en_rules = map sample_rule ns, en_rule_set_version = ''1''\<rparr>"

definition sample_change :: assessment_input where
  "sample_change = \<lparr>ai_action_type = [], ai_target_resource_id = [], ai_parameters = [], ai_dependency_count = 0,
     ai_environment = None, ai_recoverable = True\<rparr>"

lemma risk_grows_with_rules_witness:
  "fst (evaluate (sample_engine [40]) sample_change) \<le> fst (evaluate (sample_engine [35, 40]) sample_change)"
proof -
  obtain s l f s' l' f' where e: "evaluate (sample_engine [40]) sample_change = (s, l, f)"
      "evaluate (sample_engine [35, 40]) sample_change = (s', l', f')" by (metis prod_cases3)
  have "mset (en_rules (sample_engine [40])) \<subseteq># mset (en_rules (sample_engine [35, 40]))" by (simp add: sample_engine_def)
  moreover have "\<forall>x \<in> set f'. 0 \<le> rf_score x"
    using e(2) by (auto simp: evaluate_def sample_engine_def rule_finding_def sample_rule_def Let_def map_filter_simps)
  ultimately show ?thesis using risk_grows_with_rules [OF _ e] e by simp
qed

text \<open>C32: The digest of an assessment identifies its input: two requests have the same digest exactly when
  they name the same action and target and their parameters differ at most in the order of
  keys, provided the hash tells their two canonical texts apart.\<close>

theorem assessment_digest_identifies_input:
  assumes "wf_json (JDict (aq_parameters q))" "wf_json (JDict (aq_parameters q'))"
    and "sha (json_text (canonical_input q)) = sha (json_text (canonical_input q'))
      \<Longrightarrow> json_text (canonical_input q) = json_text (canonical_input q')"
  shows "input_digest sha q = input_digest sha q' \<longleftrightarrow> aq_action_type q = aq_action_type q'
    \<and> aq_target_resource_id q = aq_target_resource_id q'
    \<and> canon (JDict (aq_parameters q)) = canon (JDict (aq_parameters q'))"
proof -
  have "input_digest sha q = input_digest sha q' \<longleftrightarrow> json_text (canonical_input q) = json_text (canonical_input q')"
    unfolding input_digest_def using assms(3) by auto
  also have "\<dots> \<longleftrightarrow> canon (canonical_input q) = canon (canonical_input q')"
    using assms(1,2) by (intro json_text_inject canonical_input_wf)
  finally show ?thesis unfolding canonical_input_canon .
qed

definition sample_assessment :: "dict \<Rightarrow> assessment_create" where
  "sample_assessment parameters = \<lparr>aq_action_type = ''azure.vm.stop'', aq_target_resource_id = 7, aq_parameters = parameters\<rparr>"

lemma assessment_digest_identifies_input_witness:
  "input_digest (\<lambda>s. s) (sample_assessment [(''b'', JInt 1), (''a'', JNull)])
     = input_digest (\<lambda>s. s) (sample_assessment [(''a'', JNull), (''b'', JInt 1)])
   \<and> input_digest (\<lambda>s. s) (sample_assessment [(''a'', JInt 1)]) \<noteq> input_digest (\<lambda>s. s) (sample_assessment [(''a'', JInt 2)])"
proof
  have less: "(''a'' :: string) \<le> ''b''" "\<not> (''b'' :: string) \<le> ''a''" by code_simp+
  show "input_digest (\<lambda>s. s) (sample_assessment [(''b'', JInt 1), (''a'', JNull)])
      = input_digest (\<lambda>s. s) (sample_assessment [(''a'', JNull), (''b'', JInt 1)])"
    by (subst assessment_digest_identifies_input) (simp_all add: sample_assessment_def less)
  show "input_digest (\<lambda>s. s) (sample_assessment [(''a'', JInt 1)]) \<noteq> input_digest (\<lambda>s. s) (sample_assessment [(''a'', JInt 2)])"
    by (subst assessment_digest_identifies_input) (simp_all add: sample_assessment_def)
qed

text \<open>A recorded assessment is a draft that only its tenant can read: creating one stores it, with its
  digest and exactly one audit event, beside the older ones; a reader of the tenant then gets
  the very answer of the creation, a reader of another tenant gets 404.\<close>

theorem assessment_read_by_its_tenant:
  assumes "create_assessment sha env actor q db = (Inr answer, db')"
    and "as_row_id env \<notin> row_id ` set (assessments db)"
    and "read_uuid (uuid_str (as_row_id env)) = Some (as_row_id env)" "''analysis.read'' \<in> ac_permissions reader"
  shows "ar_status answer = ''draft'' \<and> ar_input_sha256 answer = input_digest sha q
    \<and> (\<exists>a. assessments db' = assessments db @ [a])
    \<and> (\<exists>row. outbox db' = outbox db @ [row] \<and> tenant_id row = ac_tenant_id actor)
    \<and> get_assessment read_uuid reader (uuid_str (ar_id answer)) db' = (if ac_tenant_id reader = ac_tenant_id actor
        then Inr answer else Inl (http_error 404 ''Assessment not found''))"
proof -
  let ?a = "new_assessment sha env actor q"
  have r: "answer = assessment_response_of ?a" "assessments db' = assessments db @ [?a]"
      "outbox db' = outbox db @ [outbox_record (as_outbox_id env) (py_now (as_clock env)) (assessment_event env actor ?a)]"
    using assms(1) by (auto simp: create_assessment_def unit_of_work_transaction transaction_Inr record_assessment_def
        enqueue_audit_def result_iff Let_def split: sum.splits)
  have a: "row_id ?a = as_row_id env" "tenant_id ?a = ac_tenant_id actor" by (simp_all add: new_assessment_def)
  have "find (\<lambda>a. tenant_id a = ac_tenant_id reader \<and> row_id a = as_row_id env) (assessments db) = None"
    using assms(2) by (auto simp: find_None_iff image_iff)
  then have "find (\<lambda>a. tenant_id a = ac_tenant_id reader \<and> row_id a = as_row_id env) (assessments db')
      = (if ac_tenant_id reader = ac_tenant_id actor then Some ?a else None)"
    by (simp add: r(2) find_append a)
  moreover have "ar_id answer = as_row_id env" by (simp add: r(1) assessment_response_of_def a)
  ultimately have get: "get_assessment read_uuid reader (uuid_str (ar_id answer)) db'
      = (if ac_tenant_id reader = ac_tenant_id actor then Inr answer else Inl (http_error 404 ''Assessment not found''))"
    using assms(3,4) by (simp add: get_assessment_def require_permission_def r(1))
  have "ar_status answer = ''draft''" "ar_input_sha256 answer = input_digest sha q"
    by (simp_all add: r(1) assessment_response_of_def new_assessment_def)
  moreover have "tenant_id (outbox_record (as_outbox_id env) (py_now (as_clock env)) (assessment_event env actor ?a)) = ac_tenant_id actor"
    by (simp add: outbox_record_def assessment_event_def)
  ultimately show ?thesis using get r(2,3) by blast
qed

definition sample_assessment_env :: assessment_env where
  "sample_assessment_env = \<lparr>as_row_id = 9, as_event_id = 8, as_outbox_id = 8, as_clock = instant 5, as_commit = None\<rparr>"

lemma assessment_read_by_its_tenant_witness:
  "\<exists>answer db'. create_assessment (\<lambda>s. s) sample_assessment_env (sample_actor 2 {''analysis.create''}) (sample_assessment [])
      \<lparr>outbox = [], assessments = [], assessment_findings = []\<rparr> = (Inr answer, db')
    \<and> get_assessment (\<lambda>s. Some 9) (sample_actor 2 {''analysis.read''}) (uuid_str (ar_id answer)) db' = Inr answer"
proof -
  let ?a = "sample_actor 2 {''analysis.create''}" and ?b = "sample_actor 2 {''analysis.read''}" and ?q = "sample_assessment []"
    and ?db = "\<lparr>outbox = [], assessments = [], assessment_findings = []\<rparr> :: intelligence_db"
  have "assessment_create_valid ?q" by (simp add: assessment_create_valid_def sample_assessment_def)
  then obtain answer db' where c: "create_assessment (\<lambda>s. s) sample_assessment_env ?a ?q ?db = (Inr answer, db')"
    by (simp add: create_assessment_def require_permission_def sample_actor_def unit_of_work_transaction transaction_def
        record_assessment_def Let_def sample_assessment_env_def)
  have "get_assessment (\<lambda>s. Some 9) ?b (uuid_str (ar_id answer)) db' = Inr answer"
    using assessment_read_by_its_tenant [OF c, where reader = ?b and read_uuid = "\<lambda>s. Some 9"]
    by (simp add: sample_actor_def sample_assessment_env_def)
  with c show ?thesis by blast
qed

end
