(* ===== verification/Operations.thy ===== *)
theory Operations
  imports Outbox
begin

text \<open>
  Operations (\<open>apps/operations-service\<close>): the action catalog of
  \<open>sentinel_operations/domain.py\<close>, the table of \<open>models.py\<close>, and the endpoints of
  \<open>main.py\<close>, of which the one that would execute an operation always refuses.
\<close>

section \<open>The action catalog\<close>

record action_definition =
  ad_action_type :: string
  ad_display_name :: string
  ad_required_permission :: string
  ad_azure_permissions :: "string list"
  ad_destructive :: bool
  ad_enabled :: bool
  ad_parameter_schema :: dict

definition object_schema :: "dict \<Rightarrow> dict" where
  "object_schema constraints =
     (''type'', JStr ''object'') # constraints @ [(''additionalProperties'', JBool False)]"

abbreviation typed :: "string \<Rightarrow> json" where
  "typed ty \<equiv> JDict [(''type'', JStr ty)]"

definition catalog_action :: "string \<Rightarrow> string \<Rightarrow> string \<Rightarrow> dict \<Rightarrow> action_definition" where
  "catalog_action action_type display_name azure_permission constraints =
     \<lparr>ad_action_type = action_type, ad_display_name = display_name,
      ad_required_permission = ''operations.execute'', ad_azure_permissions = [azure_permission],
      ad_destructive = False, ad_enabled = False, ad_parameter_schema = object_schema constraints\<rparr>"

definition ACTION_CATALOG :: "action_definition list" where
  "ACTION_CATALOG =
     [catalog_action ''azure.vm.start'' ''Start virtual machine'' ''Microsoft.Compute/virtualMachines/start/action'' [],
      catalog_action ''azure.vm.stop'' ''Stop virtual machine'' ''Microsoft.Compute/virtualMachines/deallocate/action'' [],
      catalog_action ''azure.vm.restart'' ''Restart virtual machine'' ''Microsoft.Compute/virtualMachines/restart/action'' [],
      catalog_action ''kubernetes.deployment.restart'' ''Restart AKS deployment'' ''kubernetes:apps/deployments/patch''
        [(''required'', JList [JStr ''namespace'', JStr ''deployment'']),
         (''properties'', JDict [(''namespace'', typed ''string''), (''deployment'', typed ''string'')])],
      catalog_action ''kubernetes.deployment.scale'' ''Scale AKS deployment'' ''kubernetes:apps/deployments/scale/patch''
        [(''required'', JList [JStr ''namespace'', JStr ''deployment'', JStr ''replicas'']),
         (''properties'', JDict [(''namespace'', typed ''string''), (''deployment'', typed ''string''),
            (''replicas'', JDict [(''type'', JStr ''integer''), (''minimum'', JInt 0)])])],
      catalog_action ''azure.keyvault.secret.rotate'' ''Rotate Key Vault secret''
        ''Microsoft.KeyVault/vaults/secrets/setSecret/action'' [(''required'', JList [JStr ''secret_name''])],
      catalog_action ''azure.resource.tags.patch'' ''Update resource tags'' ''Microsoft.Resources/tags/write''
        [(''required'', JList [JStr ''tags''])]]"

section \<open>Table\<close>

record operation = stamped_row +
  op_assessment_id :: uuid
  op_assessment_input_sha256 :: string
  op_action_type :: string
  op_target_resource_id :: uuid
  op_requested_by :: uuid
  op_reason :: string
  op_status :: string
  op_idempotency_key :: string
  op_policy_snapshot :: dict
  op_parameters_snapshot :: dict
  op_scheduled_for :: "timestamp option"
  op_started_at :: "timestamp option"
  op_completed_at :: "timestamp option"
  op_result_summary :: "dict option"
  op_failure_code :: "string option"
  op_correlation_id :: uuid
  op_version :: int

record operations_db = platform_db +
  operations :: "operation list"

section \<open>Endpoints\<close>

definition action_catalog :: "actor_context \<Rightarrow> action_definition list" where
  "action_catalog actor = ACTION_CATALOG"

record operation_create =
  oq_assessment_id :: uuid
  oq_assessment_input_hash :: string
  oq_action_type :: string
  oq_target_resource_id :: uuid
  oq_parameters :: dict
  oq_reason :: string

text \<open>The pattern \<open>^sha256:[a-f0-9]{64}$\<close> and the lengths of the reason and the header.\<close>

definition digest_text :: "string \<Rightarrow> bool" where
  "digest_text s \<longleftrightarrow> starts_with ''sha256:'' s \<and> length s = 71 \<and> set (drop 7 s) \<subseteq> set ''0123456789abcdef''"

definition operation_create_valid :: "string \<Rightarrow> operation_create \<Rightarrow> bool" where
  "operation_create_valid idempotency_key q \<longleftrightarrow> digest_text (oq_assessment_input_hash q)
     \<and> 10 \<le> length (oq_reason q) \<and> length (oq_reason q) \<le> 2000
     \<and> 8 \<le> length idempotency_key \<and> length idempotency_key \<le> 255"

record operation_env =
  oe_row_id :: uuid
  oe_event_id :: uuid
  oe_outbox_id :: uuid
  oe_clock :: clock
  oe_commit :: "exn option"

abbreviation operation_key :: "'a operation_scheme \<Rightarrow> uuid \<times> string" where
  "operation_key o' \<equiv> (tenant_id o', op_idempotency_key o')"

definition new_operation ::
  "operation_env \<Rightarrow> actor_context \<Rightarrow> string \<Rightarrow> action_definition \<Rightarrow> operation_create \<Rightarrow> operation" where
  "new_operation env actor idempotency_key action q =
     \<lparr>row_id = oe_row_id env, tenant_id = ac_tenant_id actor, created_at = tx_now (oe_clock env),
      updated_at = tx_now (oe_clock env), op_assessment_id = oq_assessment_id q,
      op_assessment_input_sha256 = oq_assessment_input_hash q, op_action_type = oq_action_type q,
      op_target_resource_id = oq_target_resource_id q, op_requested_by = ac_actor_id actor,
      op_reason = oq_reason q, op_status = ''draft'', op_idempotency_key = idempotency_key,
      op_policy_snapshot = [(''executor_enabled'', JBool (ad_enabled action))],
      op_parameters_snapshot = oq_parameters q, op_scheduled_for = None, op_started_at = None,
      op_completed_at = None, op_result_summary = None, op_failure_code = None,
      op_correlation_id = ac_correlation_id actor, op_version = 1\<rparr>"

definition operation_event :: "operation_env \<Rightarrow> actor_context \<Rightarrow> operation \<Rightarrow> audit_event" where
  "operation_event env actor op =
     \<lparr>ev_specversion = ''1.0'', ev_id = oe_event_id env, ev_source = ''operations-service'',
      ev_type = ''operations.created.v1'', ev_subject = ''operation/'' @ uuid_str (row_id op),
      ev_time = py_now (oe_clock env), ev_datacontenttype = ''application/json'',
      ev_tenant_id = ac_tenant_id actor, ev_correlation_id = ac_correlation_id actor,
      ev_data = [(''action_type'', JStr (op_action_type op)), (''status'', JStr (op_status op))],
      ev_actor_type = ''user'', ev_actor_id = uuid_str (ac_actor_id actor), ev_action = ''operation.create'',
      ev_entity_type = ''operation'', ev_entity_id = Some (uuid_str (row_id op)), ev_outcome = ''created''\<rparr>"

record operation_response =
  or_id :: uuid
  or_assessment_id :: uuid
  or_action_type :: string
  or_target_resource_id :: uuid
  or_status :: string
  or_reason :: string
  or_version :: int

definition operation_response_of :: "operation \<Rightarrow> operation_response" where
  "operation_response_of op = \<lparr>or_id = row_id op, or_assessment_id = op_assessment_id op,
     or_action_type = op_action_type op, or_target_resource_id = op_target_resource_id op,
     or_status = op_status op, or_reason = op_reason op, or_version = op_version op\<rparr>"

text \<open>The body of the unit of work: the lookup by key, else the row and its audit event.\<close>

definition record_operation ::
  "operation_env \<Rightarrow> actor_context \<Rightarrow> string \<Rightarrow> action_definition \<Rightarrow> operation_create \<Rightarrow> operations_db
     \<Rightarrow> operation_response \<times> operations_db" where
  "record_operation env actor idempotency_key action q db =
     (case find (\<lambda>r. operation_key r = (ac_tenant_id actor, idempotency_key)) (operations db) of
        Some existing \<Rightarrow> (operation_response_of existing, db)
      | None \<Rightarrow> (let op = new_operation env actor idempotency_key action q
                 in (operation_response_of op,
                     enqueue_audit (oe_outbox_id env) (py_now (oe_clock env)) (operation_event env actor op)
                       (db\<lparr>operations := operations db @ [op]\<rparr>))))"

definition find_action :: "string \<Rightarrow> action_definition option" where
  "find_action action_type = find (\<lambda>item. ad_action_type item = action_type) ACTION_CATALOG"

definition create_operation ::
  "operation_env \<Rightarrow> actor_context \<Rightarrow> string \<Rightarrow> operation_create \<Rightarrow> operations_db
     \<Rightarrow> operation_response result \<times> operations_db" where
  "create_operation env actor idempotency_key q db =
     (case bindr (require_permission ''operations.create'' actor) (\<lambda>actor.
             bindr (guardr (operation_create_valid idempotency_key q) request_validation) (\<lambda>_.
             of_option (http_error 422 ''Unsupported operation action'') (find_action (oq_action_type q)))) of
        Inl e \<Rightarrow> (Inl e, db)
      | Inr action \<Rightarrow> unit_of_work (oe_commit env) (ac_tenant_id actor) (ac_actor_id actor)
          (on_tables (\<lambda>db. Inr (record_operation env actor idempotency_key action q db))) db)"

definition execute_operation :: "actor_context \<Rightarrow> string \<Rightarrow> unit result" where
  "execute_operation actor operation_id =
     bindr (require_permission ''operations.execute'' actor) (\<lambda>_.
     Inl (http_error 409 ''Execution is disabled until reviewed Azure executors and approval validation are deployed''))"

text \<open>What clients can ask of the service, and a run of requests.\<close>

datatype operations_call =
    Create operation_env actor_context string operation_create
  | Execute actor_context string

definition operations_serve ::
  "operations_call \<Rightarrow> operations_db \<Rightarrow> operation_response option result \<times> operations_db" where
  "operations_serve call db = (case call of
       Create env actor key q \<Rightarrow>
         (case create_operation env actor key q db of
            (Inl e, db') \<Rightarrow> (Inl e, db')
          | (Inr r, db') \<Rightarrow> (Inr (Some r), db'))
     | Execute actor i \<Rightarrow> (bindr (execute_operation actor i) (\<lambda>_. Inr None), db))"

fun operations_run ::
  "operations_call list \<Rightarrow> operations_db \<Rightarrow> (operation_response option result) list \<times> operations_db" where
  "operations_run [] db = ([], db)"
| "operations_run (call # calls) db =
     (let (r, db) = operations_serve call db; (rs, db) = operations_run calls db in (r # rs, db))"

section \<open>Lemmas\<close>

text \<open>A draft as the catalog allows it, never started.\<close>

definition inert :: "operation \<Rightarrow> bool" where
  "inert op \<longleftrightarrow> op_status op = ''draft'' \<and> op_started_at op = None \<and> op_completed_at op = None
     \<and> op_result_summary op = None \<and> op_policy_snapshot op = [(''executor_enabled'', JBool False)]
     \<and> op_action_type op \<in> ad_action_type ` set ACTION_CATALOG \<and> digest_text (op_assessment_input_sha256 op)"

definition operations_ok :: "operations_db \<Rightarrow> bool" where
  "operations_ok db \<longleftrightarrow> distinct (map operation_key (operations db)) \<and> (\<forall>op \<in> set (operations db). inert op)"

lemma catalog_disabled: "x \<in> set ACTION_CATALOG \<Longrightarrow> \<not> ad_enabled x \<and> \<not> ad_destructive x"
  by (auto simp: ACTION_CATALOG_def catalog_action_def)

lemma create_operation_cases:
  obtains (refused) e where "create_operation env actor key q db = (Inl e, db)"
  | (stored) action r db' where "create_operation env actor key q db = (Inr r, db')"
      "record_operation env actor key action q db = (r, db')" "find_action (oq_action_type q) = Some action"
      "''operations.create'' \<in> ac_permissions actor" "operation_create_valid key q"
proof -
  let ?pre = "bindr (require_permission ''operations.create'' actor) (\<lambda>actor.
      bindr (guardr (operation_create_valid key q) request_validation) (\<lambda>_.
      of_option (http_error 422 ''Unsupported operation action'') (find_action (oq_action_type q))))"
  show ?thesis
  proof (cases ?pre)
    case (Inl e)
    then show ?thesis by (intro refused [of e]) (simp add: create_operation_def)
  next
    case (Inr action)
    then have pre: "''operations.create'' \<in> ac_permissions actor" "operation_create_valid key q"
        "find_action (oq_action_type q) = Some action"
      by (auto simp: result_iff)
    have run: "create_operation env actor key q db
        = transaction (oe_commit env) (\<lambda>db. Inr (record_operation env actor key action q db)) db"
      using Inr by (simp add: create_operation_def unit_of_work_transaction)
    show ?thesis
    proof (rule transaction_cases [of "oe_commit env" "\<lambda>db. Inr (record_operation env actor key action q db)" db])
      fix e
      assume "transaction (oe_commit env) (\<lambda>db. Inr (record_operation env actor key action q db)) db = (Inl e, db)"
      then show ?thesis using refused run by metis
    next
      fix r db'
      assume "Inr (record_operation env actor key action q db) = Inr (r, db')"
        and "transaction (oe_commit env) (\<lambda>db. Inr (record_operation env actor key action q db)) db = (Inr r, db')"
      then show ?thesis using stored [of r db' action] run pre by simp
    qed
  qed
qed

lemma record_operation_found:
  assumes "record_operation env actor key action q db = (r, db')"
  obtains op where "find (\<lambda>r. operation_key r = (ac_tenant_id actor, key)) (operations db') = Some op"
    "r = operation_response_of op"
proof (cases "find (\<lambda>r. operation_key r = (ac_tenant_id actor, key)) (operations db)")
  case None
  then show ?thesis using assms that [of "new_operation env actor key action q"]
    by (auto simp: record_operation_def Let_def enqueue_audit_def find_append new_operation_def)
next
  case (Some op)
  then show ?thesis using assms that [of op] by (simp add: record_operation_def)
qed

lemma record_operation_ok:
  assumes "record_operation env actor key action q db = (r, db')" "operations_ok db"
    and "find_action (oq_action_type q) = Some action" "operation_create_valid key q"
  shows "operations_ok db'"
proof (cases "find (\<lambda>r. operation_key r = (ac_tenant_id actor, key)) (operations db)")
  case None
  let ?op = "new_operation env actor key action q"
  have "action \<in> set ACTION_CATALOG" "ad_action_type action = oq_action_type q"
    using find_Some_in assms(3) unfolding find_action_def by fast+
  then have "oq_action_type q \<in> ad_action_type ` set ACTION_CATALOG" "\<not> ad_enabled action"
    using catalog_disabled [of action] by (auto intro: rev_image_eqI)
  then have "inert ?op" using assms(4) by (simp add: inert_def new_operation_def operation_create_valid_def)
  moreover have "operation_key ?op \<notin> operation_key ` set (operations db)"
    using find_None_key [OF None] by (simp add: new_operation_def)
  moreover have "operations db' = operations db @ [?op]"
    using assms(1) None by (auto simp: record_operation_def Let_def enqueue_audit_def)
  ultimately show ?thesis using assms(2) by (simp add: operations_ok_def)
next
  case (Some op)
  then show ?thesis using assms(1,2) by (simp add: record_operation_def)
qed

lemma create_operation_ok: "operations_ok db \<Longrightarrow> operations_ok (snd (create_operation env actor key q db))"
  by (rule create_operation_cases [of env actor key q db]) (auto dest: record_operation_ok)

lemma serve_ok: "operations_ok db \<Longrightarrow> operations_ok (snd (operations_serve call db))"
proof (cases call)
  case (Create env actor key q)
  then have "snd (operations_serve call db) = snd (create_operation env actor key q db)"
    by (simp add: operations_serve_def split: prod.split sum.split)
  moreover assume "operations_ok db"
  ultimately show ?thesis by (simp only: create_operation_ok)
qed (simp add: operations_serve_def)

lemma run_ok: "operations_run calls db = (rs, db') \<Longrightarrow> operations_ok db \<Longrightarrow> operations_ok db'"
proof (induction calls arbitrary: db rs)
  case (Cons call calls)
  obtain r db1 where one: "operations_serve call db = (r, db1)" by force
  obtain rs1 where "operations_run calls db1 = (rs1, db')"
    using Cons.prems(1) one by (auto split: prod.splits)
  then show ?case using Cons.IH serve_ok [OF Cons.prems(2), of call] one by simp
qed simp

definition answered :: "operations_call \<Rightarrow> operation_response option result \<Rightarrow> bool" where
  "answered call r = (case call of
       Execute _ _ \<Rightarrow> (case r of Inl e \<Rightarrow> status_of e \<in> {403, 409} | Inr _ \<Rightarrow> False)
     | Create _ _ _ _ \<Rightarrow> (case r of Inr None \<Rightarrow> False | _ \<Rightarrow> True))"

lemma serve_answered: "answered call (fst (operations_serve call db))"
  by (cases call) (auto simp: answered_def operations_serve_def execute_operation_def require_permission_def status_of_def
      split: prod.split sum.split)

lemma run_answered: "list_all2 answered calls (fst (operations_run calls db))"
proof (induction calls arbitrary: db)
  case (Cons call calls)
  obtain r db1 where one: "operations_serve call db = (r, db1)" by force
  obtain rs1 db2 where rest: "operations_run calls db1 = (rs1, db2)" by force
  show ?case using Cons.IH [of db1] serve_answered [of call db] by (simp add: one rest)
qed simp

section \<open>Properties\<close>

text \<open>Creating an operation is idempotent: a second request of the tenant with the same key is
  answered with the operation of the first and changes nothing, not even the audit trail,
  whatever action, target and parameters it names.\<close>

theorem operation_created_once:
  assumes "create_operation env actor key q db = (Inr r, db1)"
    and "ac_tenant_id actor2 = ac_tenant_id actor" "''operations.create'' \<in> ac_permissions actor2"
    and "operation_create_valid key q2" "find_action (oq_action_type q2) \<noteq> None" "oe_commit env2 = None"
  shows "create_operation env2 actor2 key q2 db1 = (Inr r, db1)"
proof -
  obtain action where "record_operation env actor key action q db = (r, db1)"
    using assms(1) by (cases rule: create_operation_cases [of env actor key q db]) auto
  then obtain op where op: "find (\<lambda>r. operation_key r = (ac_tenant_id actor2, key)) (operations db1) = Some op"
      "r = operation_response_of op"
    unfolding assms(2) by (rule record_operation_found)
  obtain action2 where "find_action (oq_action_type q2) = Some action2" using assms(5) by auto
  moreover have "record_operation env2 actor2 key action2 q2 db1 = (r, db1)"
    by (simp only: record_operation_def op option.case)
  ultimately show ?thesis using assms(3,4,6)
    by (simp add: create_operation_def require_permission_def unit_of_work_transaction transaction_def)
qed

definition sample_operation :: operation_create where
  "sample_operation = \<lparr>oq_assessment_id = 7, oq_assessment_input_hash = ''sha256:'' @ replicate 64 (CHR ''a''),
     oq_action_type = ''azure.vm.stop'', oq_target_resource_id = 8, oq_parameters = [], oq_reason = ''maintenance''\<rparr>"

definition sample_operation_env :: operation_env where
  "sample_operation_env = \<lparr>oe_row_id = 9, oe_event_id = 8, oe_outbox_id = 8, oe_clock = instant 5, oe_commit = None\<rparr>"

definition no_operations :: operations_db where
  "no_operations = \<lparr>outbox = [], operations = []\<rparr>"

lemma sample_operation_valid: "operation_create_valid ''12345678'' sample_operation"
  by (simp add: operation_create_valid_def sample_operation_def digest_text_def starts_with_def)

lemma sample_operation_action: "find_action (oq_action_type sample_operation) \<noteq> None"
  by (simp add: find_action_def sample_operation_def ACTION_CATALOG_def catalog_action_def)

lemma operation_created_once_witness:
  "\<exists>r db1. create_operation sample_operation_env (sample_actor 2 {''operations.create''}) ''12345678'' sample_operation no_operations
       = (Inr r, db1) \<and> create_operation sample_operation_env (sample_actor 2 {''operations.create''}) ''12345678''
            (sample_operation\<lparr>oq_reason := ''another reason''\<rparr>) db1 = (Inr r, db1)"
proof -
  let ?a = "sample_actor 2 {''operations.create''}" and ?q2 = "sample_operation\<lparr>oq_reason := ''another reason''\<rparr>"
  obtain action where "find_action (oq_action_type sample_operation) = Some action" using sample_operation_action by auto
  then obtain r db1 where c: "create_operation sample_operation_env ?a ''12345678'' sample_operation no_operations = (Inr r, db1)"
    using sample_operation_valid
    by (cases "record_operation sample_operation_env ?a ''12345678'' action sample_operation no_operations")
      (simp add: create_operation_def require_permission_def sample_actor_def unit_of_work_transaction transaction_def
        sample_operation_env_def)
  have "operation_create_valid ''12345678'' ?q2" using sample_operation_valid by (simp add: operation_create_valid_def)
  moreover have "find_action (oq_action_type ?q2) \<noteq> None" using sample_operation_action by simp
  moreover have "''operations.create'' \<in> ac_permissions ?a" "oe_commit sample_operation_env = None"
    by (simp_all add: sample_actor_def sample_operation_env_def)
  ultimately have "create_operation sample_operation_env ?a ''12345678'' ?q2 db1 = (Inr r, db1)"
    by (intro operation_created_once [OF c]) simp_all
  with c show ?thesis by blast
qed

text \<open>C31: Nothing is ever executed: whatever requests the service gets, in any order, every operation it
  holds is a draft of a catalogued action that was never started, with a well-formed digest
  and a disabled executor, keys are unique per tenant, and every request to execute is
  refused with 403 or 409.\<close>

theorem operations_never_run:
  assumes "operations_ok db" "operations_run calls db = (rs, db')"
  shows "distinct (map operation_key (operations db')) \<and> (\<forall>op \<in> set (operations db'). inert op)
    \<and> list_all2 answered calls rs"
  using run_ok [OF assms(2,1)] run_answered [of calls db] by (simp add: operations_ok_def assms(2))

lemma operations_never_run_witness:
  "list_all2 answered [Execute (sample_actor 2 {''operations.execute''}) ''9'']
     (fst (operations_run [Execute (sample_actor 2 {''operations.execute''}) ''9''] no_operations))"
proof -
  obtain rs db' where run: "operations_run [Execute (sample_actor 2 {''operations.execute''}) ''9''] no_operations = (rs, db')" by force
  have "operations_ok no_operations" by (simp add: operations_ok_def no_operations_def)
  from operations_never_run [OF this run] show ?thesis unfolding run fst_conv by blast
qed

end
