(* ===== verification/Services.thy ===== *)
theory Services
  imports Routing RelationshipGraph Intelligence Operations
begin

text \<open>
  The five services behind the identity service, as tables of routes: what each \<open>main.py\<close>
  declares in its decorators and dependencies, with the response models of \<open>schemas.py\<close>
  of relationships, assessments and operations. A record of each service holds what the outside
  decides of one request: what pydantic reads in it (\<open>None\<close> where it cannot), ids, clocks,
  plans and the outcome of the commit.
\<close>

section \<open>Inventory\<close>

record inventory_call =
  vc_uuid :: "string \<Rightarrow> uuid option"
  vc_query :: "(resource_filter \<times> string option \<times> int) option"
  vc_sync_body :: "(uuid list \<times> string) option"
  vc_subscription_plan :: "subscription plan"
  vc_group_plan :: "resource_group plan"
  vc_listed :: "actor_context \<Rightarrow> azure_item list outcome"
  vc_new_id :: "nat \<Rightarrow> uuid"
  vc_clock :: clock
  vc_sync_env :: sync_env
  vc_commit :: "string option"

definition list_resources_route :: "framework \<Rightarrow> profile_client \<Rightarrow> settings \<Rightarrow> inventory_call \<Rightarrow> (guard, inventory_db) route" where
  "list_resources_route fw client cfg call =
     \<lparr>rt_method = ''GET'', rt_path = ''/api/v1/inventory/resources'', rt_guard = Needs ''inventory.resources.read'',
      rt_status = 200, rt_model = ResourcePage,
      rt_run = (\<lambda>params. permitted fw client cfg ''inventory.resources.read'' (\<lambda>actor.
        parsed (vc_query call) (\<lambda>(f, cursor, limit) db.
        reply 200 id (reading (vc_commit call) actor (list_resources_endpoint actor f cursor limit) db))))\<rparr>"

definition get_resource_route :: "framework \<Rightarrow> profile_client \<Rightarrow> settings \<Rightarrow> inventory_call \<Rightarrow> (guard, inventory_db) route" where
  "get_resource_route fw client cfg call =
     \<lparr>rt_method = ''GET'', rt_path = ''/api/v1/inventory/resources/{resource_id}'',
      rt_guard = Needs ''inventory.resources.read'', rt_status = 200, rt_model = ResourceResponse,
      rt_run = (\<lambda>params. permitted fw client cfg ''inventory.resources.read'' (\<lambda>actor.
        parsed (path_uuid (vc_uuid call) params ''resource_id'') (\<lambda>i db.
        reply 200 id (reading (vc_commit call) actor (get_resource_endpoint actor i) db))))\<rparr>"

definition subscriptions_route :: "framework \<Rightarrow> profile_client \<Rightarrow> settings \<Rightarrow> inventory_call \<Rightarrow> (guard, inventory_db) route" where
  "subscriptions_route fw client cfg call =
     \<lparr>rt_method = ''GET'', rt_path = ''/api/v1/inventory/subscriptions'', rt_guard = Needs ''inventory.resources.read'',
      rt_status = 200, rt_model = S_list SubscriptionResponse,
      rt_run = (\<lambda>params. permitted fw client cfg ''inventory.resources.read'' (\<lambda>actor db.
        reply 200 JList (reading (vc_commit call) actor (subscriptions_endpoint (vc_subscription_plan call) actor) db)))\<rparr>"

definition discover_route :: "framework \<Rightarrow> profile_client \<Rightarrow> settings \<Rightarrow> inventory_call \<Rightarrow> (guard, inventory_db) route" where
  "discover_route fw client cfg call =
     \<lparr>rt_method = ''POST'', rt_path = ''/api/v1/inventory/subscriptions/discover'', rt_guard = Needs ''inventory.sync.execute'',
      rt_status = 200, rt_model = S_list SubscriptionResponse,
      rt_run = (\<lambda>params. permitted fw client cfg ''inventory.sync.execute'' (\<lambda>actor db.
        reply 200 JList (discover_subscriptions (vc_new_id call) (vc_clock call) (db_fault (vc_commit call))
          (from_outside (vc_listed call actor)) actor db)))\<rparr>"

definition resource_groups_route :: "framework \<Rightarrow> profile_client \<Rightarrow> settings \<Rightarrow> inventory_call \<Rightarrow> (guard, inventory_db) route" where
  "resource_groups_route fw client cfg call =
     \<lparr>rt_method = ''GET'', rt_path = ''/api/v1/inventory/resource-groups'', rt_guard = Needs ''inventory.resources.read'',
      rt_status = 200, rt_model = S_list ResourceGroupResponse,
      rt_run = (\<lambda>params. permitted fw client cfg ''inventory.resources.read'' (\<lambda>actor db.
        reply 200 JList (reading (vc_commit call) actor (resource_groups_endpoint (vc_group_plan call) actor) db)))\<rparr>"

text \<open>The body (scope and mode) and the header, without which the request is not valid.\<close>

definition sync_request_of :: "(uuid list \<times> string) option \<Rightarrow> string option \<Rightarrow> sync_request option" where
  "sync_request_of body key = (case (body, key) of
       (Some (ids, mode), Some k) \<Rightarrow> Some \<lparr>sq_subscription_ids = ids, sq_mode = mode, sq_idempotency_key = k\<rparr>
     | _ \<Rightarrow> None)"

definition create_sync_job_route :: "framework \<Rightarrow> profile_client \<Rightarrow> settings \<Rightarrow> inventory_call \<Rightarrow> (guard, inventory_db) route" where
  "create_sync_job_route fw client cfg call =
     \<lparr>rt_method = ''POST'', rt_path = ''/api/v1/inventory/sync-jobs'', rt_guard = Needs ''inventory.sync.execute'',
      rt_status = 202, rt_model = SyncJobResponse,
      rt_run = (\<lambda>params. with_body fw (\<lambda>req. permitted fw client cfg ''inventory.sync.execute'' (\<lambda>actor.
        parsed (sync_request_of (vc_sync_body call) (header req ''Idempotency-Key'')) (\<lambda>q db.
        reply 202 id (create_sync_job_endpoint (vc_sync_env call\<lparr>sy_commit := db_fault (vc_commit call)\<rparr>) actor q db))) req))\<rparr>"

definition inventory_routes :: "framework \<Rightarrow> profile_client \<Rightarrow> settings \<Rightarrow> inventory_call \<Rightarrow> (guard, inventory_db) route list" where
  "inventory_routes fw client cfg call =
     [list_resources_route fw client cfg call, get_resource_route fw client cfg call,
      subscriptions_route fw client cfg call, discover_route fw client cfg call,
      resource_groups_route fw client cfg call, create_sync_job_route fw client cfg call]"

lemmas inventory_route_defs = list_resources_route_def get_resource_route_def subscriptions_route_def discover_route_def
  resource_groups_route_def create_sync_job_route_def

subsection \<open>The contract\<close>

lemma sound_json: "answer_conforms m r \<Longrightarrow> sound_result (\<lambda>_. True) r \<Longrightarrow> sound_result (conforms m) r"
  by (cases r) (simp_all add: answer_conforms_def)

lemma sound_jsons: "answers_conform m r \<Longrightarrow> sound_result (\<lambda>_. True) r \<Longrightarrow> sound_result (\<lambda>xs. conforms (S_list m) (JList xs)) r"
  by (cases r) (simp_all add: answers_conform_def)

lemma sound_decode_cursor [sound]: "sound_result (\<lambda>_. True) (decode_cursor c)"
  by (auto simp: decode_cursor_def sound_uuid_parse split: option.split)

lemma sound_list_resources [sound]: "sound_result (\<lambda>_. True) (list_resources t f cursor limit db)"
  unfolding list_resources_def by (auto intro!: sound simp: Let_def)

lemma sound_resource_response [sound]: "sound_result (\<lambda>_. True) (resource_response r)"
  unfolding resource_response_def response_error_def by (intro sound) simp_all

lemma sound_group_response [sound]: "sound_result (\<lambda>_. True) (resource_group_response g)"
  unfolding resource_group_response_def response_error_def by (intro sound) simp_all

lemma sound_each_True [sound]: "(\<And>x. sound_result (\<lambda>_. True) (f x)) \<Longrightarrow> sound_result (\<lambda>_. True) (each_result f xs)"
  using sound_each [of "\<lambda>_. True" f xs] by (rule sound_True)

lemma sound_list_resources_endpoint [sound]: "sound_result (\<lambda>_. True) (list_resources_endpoint actor f cursor limit db)"
  unfolding list_resources_endpoint_def by (auto intro!: sound split: prod.split)

lemma sound_get_resource_endpoint [sound]: "sound_result (\<lambda>_. True) (get_resource_endpoint actor i db)"
  unfolding get_resource_endpoint_def resource_or_404_def by (intro sound) simp

lemma sound_subscriptions_endpoint [sound]: "sound_result (\<lambda>_. True) (subscriptions_endpoint plan actor db)"
  unfolding subscriptions_endpoint_def by (intro sound) simp

lemma sound_resource_groups_endpoint [sound]: "sound_result (\<lambda>_. True) (resource_groups_endpoint plan actor db)"
  unfolding resource_groups_endpoint_def by (intro sound)

lemma refusal_db_fault: "db_fault f = Some e \<Longrightarrow> refusal e"
  by (auto simp: db_fault_def)

lemma sound_discover:
  "sound_result (\<lambda>_. True) (fst (discover_subscriptions new_id clk (db_fault fault) (from_outside listed) actor db))"
proof -
  have "sound_result (\<lambda>_. True) (azure_subscription_of i)" for i
    unfolding azure_subscription_of_def by (intro sound) simp
  then have "sound_result (\<lambda>_. True) (bindr (require_permission ''inventory.sync.execute'' actor)
      (\<lambda>_. list_azure_subscriptions (from_outside listed)))"
    unfolding list_azure_subscriptions_def by (intro sound)
  then show ?thesis
    by (auto simp: discover_subscriptions_def unit_of_work_transaction split: sum.split prod.split
        intro!: sound_transaction dest: refusal_db_fault)
qed

lemma sound_create_sync_job:
  "sound_result (\<lambda>_. True) (fst (create_sync_job_endpoint (env\<lparr>sy_commit := db_fault fault\<rparr>) actor q db))"
proof -
  have "sound_result (\<lambda>_. True) (request_sync env actor q db)" for env
    by (auto simp: request_sync_def Let_def split: prod.split)
  then have "sound_result (\<lambda>_. True) (fst (unit_of_work (db_fault fault) (ac_tenant_id actor) (ac_actor_id actor)
      (on_tables (request_sync (env\<lparr>sy_commit := db_fault fault\<rparr>) actor q)) db))"
    unfolding unit_of_work_transaction by (intro sound_transaction refusal_db_fault)
  then show ?thesis
    by (auto simp: create_sync_job_endpoint_def require_permission_def guardr_def sound_result_def split: prod.splits sum.splits)
qed

interpretation inventory_gateway: gateway fw cfg "inventory_routes fw client cfg call"
  "\<lambda>g req cid db. admitted fw client cfg g req cid" for fw client cfg call
proof
  fix r :: "(guard, inventory_db) route" and req cid s params
  assume r: "r \<in> set (inventory_routes fw client cfg call)"
  show "denied s (rt_run r params req cid s)" if "\<not> admitted fw client cfg (rt_guard r) req cid"
    using r that by (auto simp: inventory_routes_def inventory_route_defs intro!: denied_route)
  show "sound_answer (rt_status r) (rt_model r) (fst (rt_run r params req cid s))"
    using r
    by (auto simp: inventory_routes_def inventory_route_defs intro!: sound_route sound_reading sound_json sound_jsons
      list_resources_conforms get_resource_conforms subscriptions_conform discover_subscriptions_conform
      resource_groups_conform create_sync_job_conforms sound_discover sound_create_sync_job sound)
qed

section \<open>Audit\<close>

record audit_call =
  xc_uuid :: "string \<Rightarrow> uuid option"
  xc_query :: "(audit_filter \<times> int) option"
  xc_event :: "audit_event option"
  xc_plan :: "audit_row plan"
  xc_ingest_env :: ingest_env
  xc_commit :: "string option"

definition ingest_route :: "(string \<Rightarrow> string) \<Rightarrow> framework \<Rightarrow> settings \<Rightarrow> audit_call \<Rightarrow> (guard, audit_db) route" where
  "ingest_route sha fw cfg call =
     \<lparr>rt_method = ''POST'', rt_path = ''/api/v1/internal/events'', rt_guard = Internal, rt_status = 204, rt_model = S_none,
      rt_run = (\<lambda>params. with_body fw (\<lambda>req cid. parsed (xc_event call) (\<lambda>e db.
        reply 204 (\<lambda>_. JNull) (ingest_event sha cfg (xc_ingest_env call) (header req ''X-Internal-Token'') e db))))\<rparr>"

definition events_route :: "framework \<Rightarrow> profile_client \<Rightarrow> settings \<Rightarrow> audit_call \<Rightarrow> (guard, audit_db) route" where
  "events_route fw client cfg call =
     \<lparr>rt_method = ''GET'', rt_path = ''/api/v1/audit/events'', rt_guard = Needs ''audit.read'', rt_status = 200,
      rt_model = S_list AuditLogResponse,
      rt_run = (\<lambda>params. permitted fw client cfg ''audit.read'' (\<lambda>actor. parsed (xc_query call) (\<lambda>(f, limit) db.
        reply 200 JList (reading (xc_commit call) actor (events (xc_plan call) actor f limit) db))))\<rparr>"

definition operation_timeline_route :: "framework \<Rightarrow> profile_client \<Rightarrow> settings \<Rightarrow> audit_call \<Rightarrow> (guard, audit_db) route" where
  "operation_timeline_route fw client cfg call =
     \<lparr>rt_method = ''GET'', rt_path = ''/api/v1/audit/operations/{operation_id}'', rt_guard = Needs ''audit.read'',
      rt_status = 200, rt_model = S_list AuditLogResponse,
      rt_run = (\<lambda>params. permitted fw client cfg ''audit.read'' (\<lambda>actor.
        parsed (path_uuid (xc_uuid call) params ''operation_id'') (\<lambda>i db.
        reply 200 JList (reading (xc_commit call) actor (operation_timeline (xc_plan call) actor i) db))))\<rparr>"

definition audit_routes ::
  "(string \<Rightarrow> string) \<Rightarrow> framework \<Rightarrow> profile_client \<Rightarrow> settings \<Rightarrow> audit_call \<Rightarrow> (guard, audit_db) route list" where
  "audit_routes sha fw client cfg call =
     [ingest_route sha fw cfg call, events_route fw client cfg call, operation_timeline_route fw client cfg call]"

lemmas audit_route_defs = ingest_route_def events_route_def operation_timeline_route_def

lemma internal_guard_cases:
  "internal_guard cfg (header req ''X-Internal-Token'') =
     (if admitted fw client cfg Internal req cid then Inr () else Inl (http_error 401 ''Invalid internal credential''))"
  by (simp add: internal_guard_def admitted_def guardr_def)

lemma sound_events [sound]: "sound_result (\<lambda>_. True) (events plan actor f limit db)"
  unfolding events_def by (intro sound) simp_all

lemma sound_operation_timeline [sound]: "sound_result (\<lambda>_. True) (operation_timeline plan actor i db)"
  unfolding operation_timeline_def by (intro sound) simp

lemma sound_activity_user [sound]: "sound_result (\<lambda>_. True) (activity_user e)"
  by (auto simp: activity_user_def intro!: sound)

lemma sound_ingest [sound]: "sound_result (\<lambda>_. True) (ingest sha i a clk e db)"
  by (auto simp: ingest_def append_record_def Let_def split: option.split intro!: sound)

lemma sound_ingest_event: "sound_result (\<lambda>_. True) (fst (ingest_event sha cfg env tok e db))"
proof (cases "internal_guard cfg tok")
  case (Inl err)
  then have "err = http_error 401 ''Invalid internal credential''" by (simp add: internal_guard_def result_iff)
  with Inl show ?thesis by (simp add: ingest_event_def)
next
  case (Inr u)
  then show ?thesis unfolding ingest_event_def Inr sum.case unit_of_work_transaction
    by (intro sound_transaction refusal_db_fault) (auto intro!: sound split: prod.split)
qed

interpretation audit_gateway: gateway fw cfg "audit_routes sha fw client cfg call"
  "\<lambda>g req cid db. admitted fw client cfg g req cid" for fw client cfg call sha
proof
  fix r :: "(guard, audit_db) route" and req cid s params
  assume r: "r \<in> set (audit_routes sha fw client cfg call)"
  show "denied s (rt_run r params req cid s)" if "\<not> admitted fw client cfg (rt_guard r) req cid"
    using r that by (auto simp: audit_routes_def audit_route_defs ingest_event_def internal_guard_cases [where cid = cid and client = client and fw = fw]
      intro!: denied_route denied_reply)
  show "sound_answer (rt_status r) (rt_model r) (fst (rt_run r params req cid s))"
    using r
    by (auto simp: audit_routes_def audit_route_defs intro!: sound_route sound_reading sound_jsons
      events_conform operation_timeline_conform sound_ingest_event sound)
qed

section \<open>Relationships\<close>

text \<open>
  A confidence is a decimal of three places, \<open>numeric(4, 3)\<close>; a \<open>Decimal\<close> is written with all of
  them, a \<open>float\<close> without trailing zeros.
\<close>

definition decimal_text :: "int \<Rightarrow> string" where
  "decimal_text thousandths = nat_str (nat thousandths div 1000) @ ''.'' @ pad_num 3 (nat thousandths mod 1000)"

definition float_text :: "int \<Rightarrow> string" where
  "float_text thousandths = (let m = nat thousandths mod 1000 in
     nat_str (nat thousandths div 1000) @ ''.'' @
     (if m mod 100 = 0 then nat_str (m div 100) else if m mod 10 = 0 then pad_num 2 (m div 10) else pad_num 3 m))"

definition RelationshipResponse :: schema where
  "RelationshipResponse = S_model [(''id'', S_uuid), (''source_resource_id'', S_uuid), (''target_resource_id'', S_uuid),
     (''relationship_type'', S_str), (''dependency_strength'', S_str), (''confidence'', S_decimal), (''evidence'', S_object)]"

definition GraphNode :: schema where
  "GraphNode = S_model [(''id'', S_uuid), (''label'', S_str), (''resource_type'', S_str), (''resource_group'', S_str),
     (''azure_resource_id'', S_str)]"

definition GraphEdge :: schema where
  "GraphEdge = S_model [(''id'', S_uuid), (''source'', S_uuid), (''target'', S_uuid), (''relationship_type'', S_str),
     (''confidence'', S_float)]"

definition GraphResponse :: schema where
  "GraphResponse = S_model [(''root_resource_id'', S_uuid), (''truncated'', S_bool), (''nodes'', S_list GraphNode),
     (''edges'', S_list GraphEdge)]"

definition relationship_json :: "relationship_response \<Rightarrow> json" where
  "relationship_json r = JDict [(''id'', JUuid (rr_id r)), (''source_resource_id'', JUuid (rr_source_resource_id r)),
     (''target_resource_id'', JUuid (rr_target_resource_id r)), (''relationship_type'', JStr (rr_relationship_type r)),
     (''dependency_strength'', JStr (rr_dependency_strength r)), (''confidence'', JStr (decimal_text (rr_confidence r))),
     (''evidence'', JDict (rr_evidence r))]"

definition graph_node_json :: "graph_node \<Rightarrow> json" where
  "graph_node_json n = JDict [(''id'', JUuid (gn_id n)), (''label'', JStr (gn_label n)),
     (''resource_type'', JStr (gn_resource_type n)), (''resource_group'', JStr (gn_resource_group n)),
     (''azure_resource_id'', JStr (gn_azure_resource_id n))]"

definition graph_edge_json :: "graph_edge \<Rightarrow> json" where
  "graph_edge_json e = JDict [(''id'', JUuid (ge_id e)), (''source'', JUuid (ge_source e)), (''target'', JUuid (ge_target e)),
     (''relationship_type'', JStr (ge_relationship_type e)), (''confidence'', JFloat (float_text (ge_confidence e)))]"

definition graph_json :: "graph_response \<Rightarrow> json" where
  "graph_json g = JDict [(''root_resource_id'', JUuid (gr_root_resource_id g)), (''truncated'', JBool (gr_truncated g)),
     (''nodes'', JList (map graph_node_json (gr_nodes g))), (''edges'', JList (map graph_edge_json (gr_edges g)))]"

record relationship_call =
  lc_uuid :: "string \<Rightarrow> uuid option"
  lc_filter :: "(uuid option \<times> string \<times> string option \<times> decimal) option"
  lc_query :: "graph_query option"
  lc_get_query :: "(uuid \<times> string \<times> int \<times> int) option"
  lc_event :: "projection_event option"
  lc_graph_env :: graph_env
  lc_project_env :: project_env
  lc_commit :: "string option"

definition relationships_route :: "framework \<Rightarrow> profile_client \<Rightarrow> settings \<Rightarrow> relationship_call \<Rightarrow> (guard, relationship_db) route" where
  "relationships_route fw client cfg call =
     \<lparr>rt_method = ''GET'', rt_path = ''/api/v1/relationships'', rt_guard = Needs ''relationships.read'', rt_status = 200,
      rt_model = S_list RelationshipResponse,
      rt_run = (\<lambda>params. permitted fw client cfg ''relationships.read'' (\<lambda>actor.
        parsed (lc_filter call) (\<lambda>(resource_id, direction, relationship_type, minimum_confidence) db.
        reply 200 (\<lambda>rs. JList (map relationship_json rs)) (reading (lc_commit call) actor
          (relationships_endpoint actor resource_id direction relationship_type minimum_confidence) db))))\<rparr>"

definition graph_route ::
  "string \<Rightarrow> framework \<Rightarrow> profile_client \<Rightarrow> settings \<Rightarrow> relationship_call \<Rightarrow> (guard, relationship_db) route" where
  "graph_route path fw client cfg call =
     \<lparr>rt_method = ''POST'', rt_path = path, rt_guard = Needs ''relationships.read'', rt_status = 200, rt_model = GraphResponse,
      rt_run = (\<lambda>params. with_body fw (permitted fw client cfg ''relationships.read'' (\<lambda>actor. parsed (lc_query call) (\<lambda>q db.
        reply 200 graph_json
          (graph_endpoint (lc_graph_env call\<lparr>gv_commit := db_fault (lc_commit call)\<rparr>) actor q db)))))\<rparr>"

definition graph_get_route :: "framework \<Rightarrow> profile_client \<Rightarrow> settings \<Rightarrow> relationship_call \<Rightarrow> (guard, relationship_db) route" where
  "graph_get_route fw client cfg call =
     \<lparr>rt_method = ''GET'', rt_path = ''/api/v1/relationships/graph'', rt_guard = Needs ''relationships.read'', rt_status = 200,
      rt_model = GraphResponse,
      rt_run = (\<lambda>params. permitted fw client cfg ''relationships.read'' (\<lambda>actor.
        parsed (lc_get_query call) (\<lambda>(root, direction, max_depth, max_nodes) db.
        reply 200 graph_json (reading (lc_commit call) actor
          (graph_get (lc_graph_env call) actor root direction max_depth max_nodes) db))))\<rparr>"

definition project_resource_route :: "framework \<Rightarrow> settings \<Rightarrow> relationship_call \<Rightarrow> (guard, relationship_db) route" where
  "project_resource_route fw cfg call =
     \<lparr>rt_method = ''POST'', rt_path = ''/api/v1/internal/resources'', rt_guard = Internal, rt_status = 204, rt_model = S_none,
      rt_run = (\<lambda>params. with_body fw (\<lambda>req cid. parsed (lc_event call) (\<lambda>e db.
        reply 204 (\<lambda>_. JNull) (project_resource_endpoint (lc_project_env call) cfg (header req ''X-Internal-Token'') e db))))\<rparr>"

definition rebuild_route :: "settings \<Rightarrow> relationship_call \<Rightarrow> (guard, relationship_db) route" where
  "rebuild_route cfg call =
     \<lparr>rt_method = ''POST'', rt_path = ''/api/v1/internal/rebuild/{tenant_id}'', rt_guard = Internal, rt_status = 204,
      rt_model = S_none,
      rt_run = (\<lambda>params req cid. parsed (path_uuid (lc_uuid call) params ''tenant_id'') (\<lambda>t db.
        reply 204 (\<lambda>_. JNull)
          (rebuild_relationships_endpoint (lc_project_env call) cfg (header req ''X-Internal-Token'') t db)))\<rparr>"

text \<open>Of two decorators on one function the lower registers first.\<close>

definition relationship_routes ::
  "framework \<Rightarrow> profile_client \<Rightarrow> settings \<Rightarrow> relationship_call \<Rightarrow> (guard, relationship_db) route list" where
  "relationship_routes fw client cfg call =
     [relationships_route fw client cfg call,
      graph_route ''/api/v1/relationships/graph-queries'' fw client cfg call,
      graph_route ''/api/v1/relationships/graph'' fw client cfg call,
      graph_get_route fw client cfg call, project_resource_route fw cfg call, rebuild_route cfg call]"

lemmas relationship_route_defs = relationships_route_def graph_route_def graph_get_route_def project_resource_route_def
  rebuild_route_def

lemma decimal_parts: "is_number w \<Longrightarrow> is_number f \<Longrightarrow> is_decimal (w @ CHR ''.'' # f)"
proof -
  assume w: "is_number w" and f: "is_number f"
  have "CHR ''.'' \<notin> {CHR ''0''..CHR ''9''}" by (simp add: less_eq_char_def)
  with number_free [OF w] number_free [OF f] show ?thesis
    by (simp add: is_decimal_def split_on_app split_on_plain w f)
qed

lemma decimal_texts [simp]: "is_decimal (decimal_text c)" "is_decimal (float_text c)"
  by (simp_all add: decimal_text_def float_text_def decimal_parts number_digits number_pad Let_def)

lemma conforms_none: "conforms S_none JNull"
  by simp

lemma conforms_graph: "conforms GraphResponse (graph_json g)"
  by (simp add: GraphResponse_def graph_json_def GraphNode_def graph_node_json_def GraphEdge_def graph_edge_json_def list_all_iff)

lemma conforms_relationships: "conforms (S_list RelationshipResponse) (JList (map relationship_json rs))"
  by (simp add: RelationshipResponse_def relationship_json_def list_all_iff)

lemma sound_relationships_endpoint [sound]:
  "sound_result (\<lambda>_. True) (relationships_endpoint actor i d ty m db)"
  unfolding relationships_endpoint_def by (intro sound) simp_all

lemma sound_graph_get [sound]: "sound_result (\<lambda>_. True) (graph_get env actor root d depth limit db)"
  unfolding graph_get_def Let_def by (intro sound) simp_all

lemma sound_graph_endpoint:
  "sound_result (\<lambda>_. True) (fst (graph_endpoint (env\<lparr>gv_commit := db_fault fault\<rparr>) actor q db))"
  by (auto simp: graph_endpoint_def unit_of_work_transaction require_permission_def guardr_def Let_def
      intro!: sound_transaction dest: refusal_db_fault)

lemma sound_internal:
  "sound_result (\<lambda>_. True) (fst (run db)) \<Longrightarrow>
     sound_result (\<lambda>_. True) (fst (case internal_guard cfg tok of Inl e \<Rightarrow> (Inl e, db) | Inr _ \<Rightarrow> run db))"
  by (auto simp: internal_guard_def guardr_def)

lemma sound_project_resource: "sound_result (\<lambda>_. True) (fst (project_resource_endpoint env cfg tok e db))"
proof -
  have "sound_result (\<lambda>_. True) (upsert_node i now e db)" for i now db
    by (auto simp: upsert_node_def Let_def split: prod.split)
  then have "sound_result (\<lambda>_. True) (bindr (project_and_extract plan i new_id clk e db) (\<lambda>(_, db). Inr ((), db)))"
    for plan i new_id clk db
    unfolding project_and_extract_def by (auto intro!: sound split: prod.split)
  then show ?thesis
    unfolding project_resource_endpoint_def unit_of_work_transaction
    by (intro sound_internal sound_transaction refusal_db_fault)
qed

lemma sound_rebuild: "sound_result (\<lambda>_. True) (fst (rebuild_relationships_endpoint env cfg tok t db))"
  unfolding rebuild_relationships_endpoint_def unit_of_work_transaction
  by (intro sound_internal sound_transaction refusal_db_fault) simp_all

interpretation relationship_gateway: gateway fw cfg "relationship_routes fw client cfg call"
  "\<lambda>g req cid db. admitted fw client cfg g req cid" for fw client cfg call
proof
  fix r :: "(guard, relationship_db) route" and req cid s params
  assume r: "r \<in> set (relationship_routes fw client cfg call)"
  show "denied s (rt_run r params req cid s)" if "\<not> admitted fw client cfg (rt_guard r) req cid"
    using r that by (auto simp: relationship_routes_def relationship_route_defs project_resource_endpoint_def
      rebuild_relationships_endpoint_def internal_guard_cases [where cid = cid and client = client and fw = fw]
      intro!: denied_route denied_reply)
  show "sound_answer (rt_status r) (rt_model r) (fst (rt_run r params req cid s))"
    using r
    by (auto simp: relationship_routes_def relationship_route_defs conforms_graph conforms_relationships conforms_none
      simp del: conforms.simps intro!: sound_route sound_reading sound_graph_endpoint sound_project_resource sound_rebuild sound)
qed

section \<open>Change intelligence\<close>

definition opt_int :: "int option \<Rightarrow> json" where
  "opt_int x = (case x of None \<Rightarrow> JNull | Some i \<Rightarrow> JInt i)"

definition opt_bool :: "bool option \<Rightarrow> json" where
  "opt_bool x = (case x of None \<Rightarrow> JNull | Some b \<Rightarrow> JBool b)"

definition AssessmentResponse :: schema where
  "AssessmentResponse = S_model [(''id'', S_uuid), (''target_resource_id'', S_uuid), (''action_type'', S_str), (''status'', S_str),
     (''risk_score'', S_nullable S_int), (''risk_level'', S_nullable S_str), (''approval_required'', S_nullable S_bool),
     (''rule_set_version'', S_nullable S_str), (''input_sha256'', S_str), (''assessed_at'', S_nullable S_datetime),
     (''expires_at'', S_nullable S_datetime), (''failure_code'', S_nullable S_str)]"

definition assessment_json :: "assessment_response \<Rightarrow> json" where
  "assessment_json a = JDict [(''id'', JUuid (ar_id a)), (''target_resource_id'', JUuid (ar_target_resource_id a)),
     (''action_type'', JStr (ar_action_type a)), (''status'', JStr (ar_status a)), (''risk_score'', opt_int (ar_risk_score a)),
     (''risk_level'', opt_str (ar_risk_level a)), (''approval_required'', opt_bool (ar_approval_required a)),
     (''rule_set_version'', opt_str (ar_rule_set_version a)), (''input_sha256'', JStr (ar_input_sha256 a)),
     (''assessed_at'', opt_time (ar_assessed_at a)), (''expires_at'', opt_time (ar_expires_at a)),
     (''failure_code'', opt_str (ar_failure_code a))]"

record assessment_call =
  nc_uuid :: "string \<Rightarrow> uuid option"
  nc_body :: "assessment_create option"
  nc_env :: assessment_env
  nc_commit :: "string option"

definition create_assessment_route ::
  "string \<Rightarrow> (string \<Rightarrow> string) \<Rightarrow> framework \<Rightarrow> profile_client \<Rightarrow> settings \<Rightarrow> assessment_call \<Rightarrow> (guard, intelligence_db) route" where
  "create_assessment_route path sha fw client cfg call =
     \<lparr>rt_method = ''POST'', rt_path = path, rt_guard = Needs ''analysis.create'', rt_status = 202, rt_model = AssessmentResponse,
      rt_run = (\<lambda>params. with_body fw (permitted fw client cfg ''analysis.create'' (\<lambda>actor. parsed (nc_body call) (\<lambda>q db.
        reply 202 assessment_json
          (create_assessment sha (nc_env call\<lparr>as_commit := db_fault (nc_commit call)\<rparr>) actor q db)))))\<rparr>"

text \<open>The path parameter is a text here, which only the database reads as a UUID.\<close>

definition get_assessment_route :: "framework \<Rightarrow> profile_client \<Rightarrow> settings \<Rightarrow> assessment_call \<Rightarrow> (guard, intelligence_db) route" where
  "get_assessment_route fw client cfg call =
     \<lparr>rt_method = ''GET'', rt_path = ''/api/v1/analysis/assessments/{assessment_id}'', rt_guard = Needs ''analysis.read'',
      rt_status = 200, rt_model = AssessmentResponse,
      rt_run = (\<lambda>params. permitted fw client cfg ''analysis.read'' (\<lambda>actor. parsed (params ''assessment_id'') (\<lambda>i db.
        reply 200 assessment_json (reading (nc_commit call) actor (get_assessment (nc_uuid call) actor i) db))))\<rparr>"

definition intelligence_routes ::
  "(string \<Rightarrow> string) \<Rightarrow> framework \<Rightarrow> profile_client \<Rightarrow> settings \<Rightarrow> assessment_call \<Rightarrow> (guard, intelligence_db) route list" where
  "intelligence_routes sha fw client cfg call =
     [create_assessment_route ''/api/v1/analysis/risk'' sha fw client cfg call,
      create_assessment_route ''/api/v1/analysis/impact'' sha fw client cfg call,
      create_assessment_route ''/api/v1/analysis/assessments'' sha fw client cfg call,
      get_assessment_route fw client cfg call]"

lemmas intelligence_route_defs = create_assessment_route_def get_assessment_route_def

lemma conforms_optional [simp]:
  "conforms (S_nullable S_int) (opt_int i)" "conforms (S_nullable S_bool) (opt_bool b)"
  by (cases i; cases b; simp add: opt_int_def opt_bool_def)+

lemma conforms_assessment: "conforms AssessmentResponse (assessment_json a)"
  by (simp add: AssessmentResponse_def assessment_json_def del: conforms.simps(10))

lemma sound_get_assessment [sound]: "sound_result (\<lambda>_. True) (get_assessment read actor i db)"
  unfolding get_assessment_def by (intro sound) simp_all

lemma sound_create_assessment:
  "sound_result (\<lambda>_. True) (fst (create_assessment sha (env\<lparr>as_commit := db_fault fault\<rparr>) actor q db))"
  by (auto simp: create_assessment_def unit_of_work_transaction require_permission_def guardr_def
      intro!: sound_transaction dest: refusal_db_fault)

interpretation intelligence_gateway: gateway fw cfg "intelligence_routes sha fw client cfg call"
  "\<lambda>g req cid db. admitted fw client cfg g req cid" for fw client cfg call sha
proof
  fix r :: "(guard, intelligence_db) route" and req cid s params
  assume r: "r \<in> set (intelligence_routes sha fw client cfg call)"
  show "denied s (rt_run r params req cid s)" if "\<not> admitted fw client cfg (rt_guard r) req cid"
    using r that by (auto simp: intelligence_routes_def intelligence_route_defs intro!: denied_route)
  show "sound_answer (rt_status r) (rt_model r) (fst (rt_run r params req cid s))"
    using r
    by (auto simp: intelligence_routes_def intelligence_route_defs conforms_assessment simp del: conforms.simps
      intro!: sound_route sound_reading sound_create_assessment sound)
qed

section \<open>Operations\<close>

definition ActionResponse :: schema where
  "ActionResponse = S_model [(''action_type'', S_str), (''display_name'', S_str), (''required_permission'', S_str),
     (''azure_permissions'', S_list S_str), (''destructive'', S_bool), (''enabled'', S_bool), (''parameter_schema'', S_object)]"

definition OperationResponse :: schema where
  "OperationResponse = S_model [(''id'', S_uuid), (''assessment_id'', S_uuid), (''action_type'', S_str),
     (''target_resource_id'', S_uuid), (''status'', S_str), (''reason'', S_str), (''version'', S_int)]"

definition action_json :: "action_definition \<Rightarrow> json" where
  "action_json a = JDict [(''action_type'', JStr (ad_action_type a)), (''display_name'', JStr (ad_display_name a)),
     (''required_permission'', JStr (ad_required_permission a)),
     (''azure_permissions'', JList (map JStr (ad_azure_permissions a))), (''destructive'', JBool (ad_destructive a)),
     (''enabled'', JBool (ad_enabled a)), (''parameter_schema'', JDict (ad_parameter_schema a))]"

definition operation_json :: "operation_response \<Rightarrow> json" where
  "operation_json r = JDict [(''id'', JUuid (or_id r)), (''assessment_id'', JUuid (or_assessment_id r)),
     (''action_type'', JStr (or_action_type r)), (''target_resource_id'', JUuid (or_target_resource_id r)),
     (''status'', JStr (or_status r)), (''reason'', JStr (or_reason r)), (''version'', JInt (or_version r))]"

record operation_call =
  oc_body :: "operation_create option"
  oc_env :: operation_env
  oc_commit :: "string option"

definition action_catalog_route :: "framework \<Rightarrow> profile_client \<Rightarrow> settings \<Rightarrow> (guard, operations_db) route" where
  "action_catalog_route fw client cfg =
     \<lparr>rt_method = ''GET'', rt_path = ''/api/v1/operations/action-catalog'', rt_guard = Signed_in, rt_status = 200,
      rt_model = S_list ActionResponse,
      rt_run = (\<lambda>params. signed_in fw client cfg (\<lambda>actor db.
        reply 200 (\<lambda>items. JList (map action_json items)) (Inr (action_catalog actor), db)))\<rparr>"

definition create_operation_route ::
  "framework \<Rightarrow> profile_client \<Rightarrow> settings \<Rightarrow> operation_call \<Rightarrow> (guard, operations_db) route" where
  "create_operation_route fw client cfg call =
     \<lparr>rt_method = ''POST'', rt_path = ''/api/v1/operations'', rt_guard = Needs ''operations.create'', rt_status = 201,
      rt_model = OperationResponse,
      rt_run = (\<lambda>params. with_body fw (\<lambda>req. permitted fw client cfg ''operations.create'' (\<lambda>actor.
        parsed (oc_body call) (\<lambda>q. parsed (header req ''Idempotency-Key'') (\<lambda>key db.
        reply 201 operation_json
          (create_operation (oc_env call\<lparr>oe_commit := db_fault (oc_commit call)\<rparr>) actor key q db)))) req))\<rparr>"

definition execute_operation_route :: "framework \<Rightarrow> profile_client \<Rightarrow> settings \<Rightarrow> (guard, operations_db) route" where
  "execute_operation_route fw client cfg =
     \<lparr>rt_method = ''POST'', rt_path = ''/api/v1/operations/{operation_id}/execute'', rt_guard = Needs ''operations.execute'',
      rt_status = 409, rt_model = S_none,
      rt_run = (\<lambda>params. permitted fw client cfg ''operations.execute'' (\<lambda>actor. parsed (params ''operation_id'') (\<lambda>i db.
        reply 409 (\<lambda>_. JNull) (execute_operation actor i, db))))\<rparr>"

definition operations_routes ::
  "framework \<Rightarrow> profile_client \<Rightarrow> settings \<Rightarrow> operation_call \<Rightarrow> (guard, operations_db) route list" where
  "operations_routes fw client cfg call =
     [action_catalog_route fw client cfg, create_operation_route fw client cfg call, execute_operation_route fw client cfg]"

lemmas operations_route_defs = action_catalog_route_def create_operation_route_def execute_operation_route_def

lemma conforms_actions: "conforms (S_list ActionResponse) (JList (map action_json items))"
  by (simp add: ActionResponse_def action_json_def list_all_iff)

lemma conforms_operation: "conforms OperationResponse (operation_json r)"
  by (simp add: OperationResponse_def operation_json_def)

lemma sound_execute [sound]: "sound_result (\<lambda>_. True) (execute_operation actor i)"
  unfolding execute_operation_def by (intro sound) simp

lemma sound_create_operation:
  "sound_result (\<lambda>_. True) (fst (create_operation (env\<lparr>oe_commit := db_fault fault\<rparr>) actor key q db))"
  by (auto simp: create_operation_def unit_of_work_transaction require_permission_def guardr_def of_option_def
      intro!: sound_transaction dest: refusal_db_fault split: option.split)

interpretation operations_gateway: gateway fw cfg "operations_routes fw client cfg call"
  "\<lambda>g req cid db. admitted fw client cfg g req cid" for fw client cfg call
proof
  fix r :: "(guard, operations_db) route" and req cid s params
  assume r: "r \<in> set (operations_routes fw client cfg call)"
  show "denied s (rt_run r params req cid s)" if "\<not> admitted fw client cfg (rt_guard r) req cid"
    using r that by (auto simp: operations_routes_def operations_route_defs intro!: denied_route)
  show "sound_answer (rt_status r) (rt_model r) (fst (rt_run r params req cid s))"
    using r
    by (auto simp: operations_routes_def operations_route_defs conforms_actions conforms_operation conforms_none
      simp del: conforms.simps intro!: sound_route sound_create_operation sound)
qed

end
