(* ===== verification/GraphSync.thy ===== *)
theory GraphSync
  imports InventoryWorker RelationshipGraph
begin

text \<open>
  The inventory worker and the relationship service together: the service as the worker's
  HTTP client sees it, and what the worker's projections leave in the graph.
\<close>

section \<open>The relationship service as a target\<close>

text \<open>\<open>ResourceProjectionEvent\<close> read from the body of a request.\<close>

definition load_projection :: "pydantic_lib \<Rightarrow> json \<Rightarrow> projection_event result" where
  "load_projection px body =
     (case body of JDict d \<Rightarrow>
       bindr (parsed_field (px_uuid px) d ''tenant_id'') (\<lambda>tenant.
       bindr (parsed_field (px_uuid px) d ''inventory_resource_id'') (\<lambda>inventory_id.
       bindr (text_field d ''azure_resource_id'') (\<lambda>arm_id.
       bindr (text_field d ''name'') (\<lambda>name.
       bindr (text_field d ''resource_type'') (\<lambda>ty.
       bindr (text_field d ''resource_group'') (\<lambda>group.
       bindr (dict_field d ''properties'') (\<lambda>properties.
       Inr \<lparr>pe_tenant_id = tenant, pe_inventory_resource_id = inventory_id, pe_azure_resource_id = arm_id,
            pe_name = name, pe_resource_type = ty, pe_resource_group = group, pe_properties = properties\<rparr>)))))))
     | _ \<Rightarrow> Inl validation_error)"

definition served :: "unit result \<times> relationship_db \<Rightarrow> nat \<Rightarrow> nat result \<times> relationship_db \<times> nat" where
  "served answer n = (case answer of
       (Inr _, db) \<Rightarrow> (Inr 204, db, Suc n)
     | (Inl e, db) \<Rightarrow> (Inr (status_of e), db, Suc n))"

text \<open>
  The two internal routes below \<open>base\<close>; the state counts the requests, so that \<open>env\<close> decides
  each one anew.
\<close>

definition relationship_post ::
  "pydantic_lib \<Rightarrow> settings \<Rightarrow> string \<Rightarrow> (nat \<Rightarrow> project_env) \<Rightarrow> (relationship_db \<times> nat) http_post" where
  "relationship_post px cfg base env url hs body st =
     (let (db, n) = st;
          token = map_of hs ''X-Internal-Token'';
          rebuild = base @ ''/api/v1/internal/rebuild/'';
          tenant = drop (length rebuild) url
      in if url = base @ ''/api/v1/internal/resources''
         then (case load_projection px body of
                 Inl _ \<Rightarrow> (Inr 422, db, Suc n)
               | Inr e \<Rightarrow> served (project_resource_endpoint (env n) cfg token e db) n)
         else if starts_with rebuild url \<and> tenant \<noteq> [] \<and> CHR ''/'' \<notin> set tenant
         then (case px_uuid px tenant of
                 None \<Rightarrow> (Inr 422, db, Suc n)
               | Some t \<Rightarrow> served (rebuild_relationships_endpoint (env n) cfg token t db) n)
         else (Inr 404, db, Suc n))"

section \<open>Nodes\<close>

lemma rebuild_edges_nodes [simp]: "nodes (snd (rebuild_edges plan new_id clk t source ex cs db)) = nodes db"
  by (simp add: rebuild_edges_def Let_def split: prod.split)

lemma run_extractors_nodes [simp]: "nodes (snd (run_extractors plan new_id clk t n exs db)) = nodes db"
proof (induction exs arbitrary: db)
  case (Cons ex exs)
  have "nodes (snd (run_extractors plan new_id clk t n exs (snd (rebuild_edges plan new_id clk t n ex cs db)))) = nodes db" for cs
    by (simp add: Cons.IH)
  with Cons.IH [of db] show ?case by (simp add: Let_def case_prod_beta)
qed simp

lemma rebuild_nodes_nodes [simp]: "nodes (snd (rebuild_nodes plan new_id clk t ns db)) = nodes db"
proof (induction ns arbitrary: db)
  case (Cons n ns)
  have "nodes (snd (rebuild_nodes plan new_id clk t ns (snd (run_extractors plan (new_id (row_id n)) clk t n DEFAULT_EXTRACTORS db)))) = nodes db"
    by (simp add: Cons.IH)
  then show ?case by (simp add: Let_def case_prod_beta)
qed simp

lemma project_and_extract_nodes:
  assumes "project_and_extract plan node_id new_id clk e db = Inr (c, db')"
  shows "nodes db' = node_table.put (node_id, tx_now clk, e) (nodes db)"
proof -
  obtain n db1 where up: "upsert_node node_id (tx_now clk) e db = Inr (n, db1)"
      and "db' = snd (run_extractors plan new_id clk (pe_tenant_id e) n DEFAULT_EXTRACTORS db1)"
    using assms by (auto simp: project_and_extract_def result_iff)
  then have "nodes db' = nodes db1" by simp
  moreover have "nodes db1 = node_table.put (node_id, tx_now clk, e) (nodes db)"
    using up by (auto simp: upsert_node_def Let_def split: prod.splits if_splits dest: get_or_put_upsert)
  ultimately show ?thesis by simp
qed

lemma project_endpoint_nodes:
  assumes "project_resource_endpoint env cfg token e db = (r, db')"
  shows "case r of Inl _ \<Rightarrow> db' = db | Inr _ \<Rightarrow> nodes db' = node_table.put (pv_node_id env, tx_now (pv_clock env), e) (nodes db)"
  using assms
  by (auto simp: project_resource_endpoint_def unit_of_work_transaction transaction_Inr result_iff
      split: sum.splits dest: transaction_Inl) (drule project_and_extract_nodes, simp)

lemma rebuild_endpoint_nodes:
  "nodes (snd (rebuild_relationships_endpoint env cfg token t db)) = nodes db"
  by (auto simp: rebuild_relationships_endpoint_def unit_of_work_transaction transaction_def rebuild_all_def
      split: sum.split option.split)

text \<open>What the graph shows of a resource.\<close>

definition shows_resource :: "uuid \<Rightarrow> resource \<Rightarrow> relationship_db \<Rightarrow> bool" where
  "shows_resource t r db \<longleftrightarrow> (\<exists>n. find (\<lambda>n. node_key n = (t, row_id r)) (nodes db) = Some n
     \<and> nd_is_active n \<and> nd_name n = rs_name r \<and> nd_resource_type n = lower (rs_resource_type r)
     \<and> nd_resource_group n = rs_resource_group r \<and> py_eq (JDict (nd_properties n)) (rs_properties r))"

definition projected :: "uuid \<Rightarrow> resource \<Rightarrow> dict \<Rightarrow> projection_event" where
  "projected t r properties = \<lparr>pe_tenant_id = t, pe_inventory_resource_id = row_id r,
     pe_azure_resource_id = rs_azure_resource_id r, pe_name = rs_name r, pe_resource_type = rs_resource_type r,
     pe_resource_group = rs_resource_group r, pe_properties = properties\<rparr>"

lemma load_projection_projection:
  assumes "reads_uuids px"
  shows "load_projection px (projection t r) = (case rs_properties r of
      JDict d \<Rightarrow> Inr (projected t r d) | _ \<Rightarrow> Inl validation_error)"
  using assms
  by (simp add: load_projection_def projection_def parsed_field_def text_field_def dict_field_def reads_uuids_def projected_def
      split: json.split)

lemma flushed_node:
  "nd_name (flushed now old new) = nd_name new" "nd_resource_type (flushed now old new) = nd_resource_type new"
  "nd_resource_group (flushed now old new) = nd_resource_group new" "nd_is_active (flushed now old new) = nd_is_active new"
  "nd_properties (flushed now old new) = nd_properties new"
  by (auto simp: flushed_def)

lemma put_shows:
  assumes "nodes db' = node_table.put (i, now, projected t r d) (nodes db)" "rs_properties r = JDict d"
  shows "shows_resource t r db'"
proof -
  have key: "node_args_key (i, now, projected t r d) = (t, row_id r)" by (simp add: projected_def)
  have "find (\<lambda>n. node_key n = (t, row_id r)) (nodes db')
      = Some (case find (\<lambda>n. node_key n = (t, row_id r)) (nodes db) of
          None \<Rightarrow> new_node (i, now, projected t r d) | Some n \<Rightarrow> refresh_node (i, now, projected t r d) n)"
    using node_table.find_put_same [of "(i, now, projected t r d)" "nodes db"] unfolding assms(1) key .
  then show ?thesis using assms(2)
    by (auto simp: shows_resource_def new_node_def refresh_node_def projected_def flushed_node py_eq_def split: option.split)
qed

lemma put_keeps_shown:
  assumes "nodes db' = node_table.put (i, now, projected t r d) (nodes db)" "row_id x \<noteq> row_id r" "shows_resource t x db"
  shows "shows_resource t x db'"
proof -
  have "(t, row_id x) \<noteq> node_args_key (i, now, projected t r d)" using assms(2) by (simp add: projected_def)
  from node_table.find_put_other [OF this, of "nodes db"] show ?thesis
    using assms(1,3) by (simp add: shows_resource_def)
qed

section \<open>Publishing the projections\<close>

lemma internal_guard_error: "internal_guard cfg token = Inl e \<Longrightarrow> status_of e = 401"
  by (auto simp: internal_guard_def result_iff status_of_def)

lemma transaction_error:
  assumes "transaction (db_fault fault) f db = (Inl e, db')" "\<And>x. f db = Inl x \<Longrightarrow> status_of x = 500"
  shows "status_of e = 500"
  using assms by (auto simp: transaction_def db_fault_def status_of_def split: sum.splits option.splits)

lemma project_endpoint_error:
  assumes "project_resource_endpoint env cfg token e db = (Inl err, db')"
  shows "status_of err \<in> {401, 500}"
proof (cases "internal_guard cfg token")
  case (Inl x)
  with assms internal_guard_error [OF Inl] show ?thesis by (auto simp: project_resource_endpoint_def)
next
  case (Inr u)
  let ?f = "\<lambda>db. bindr (project_and_extract (pv_plan env) (pv_node_id env) (pv_edge_id env 0) (pv_clock env) e db)
      (\<lambda>(_, db). Inr ((), db))"
  have "transaction (db_fault (pv_commit env)) ?f db = (Inl err, db')"
    using assms Inr by (simp add: project_resource_endpoint_def unit_of_work_transaction)
  moreover have "status_of x = 500" if "?f db = Inl x" for x
    using that by (auto simp: result_iff project_and_extract_def upsert_node_def Let_def status_of_def
        split: prod.splits if_splits)
  ultimately have "status_of err = 500" by (rule transaction_error)
  then show ?thesis by simp
qed

definition resources_url :: "settings \<Rightarrow> string" where
  "resources_url cfg = rstrip_slash (relationship_service_url cfg) @ ''/api/v1/internal/resources''"

text \<open>One accepted projection.\<close>

lemma post_projection_shows:
  assumes "relationship_post px cfg base env (base @ ''/api/v1/internal/resources'') hs (projection t r) (db, n) = (Inr st, db', n')"
    and "success_status st" "reads_uuids px"
  shows "shows_resource t r db' \<and> (\<forall>x. shows_resource t x db \<longrightarrow> row_id x \<noteq> row_id r \<longrightarrow> shows_resource t x db')"
proof -
  obtain d where d: "rs_properties r = JDict d"
    using assms by (cases "rs_properties r")
      (auto simp: relationship_post_def load_projection_projection Let_def success_status_def)
  then have load: "load_projection px (projection t r) = Inr (projected t r d)"
    using load_projection_projection [OF assms(3)] by simp
  obtain a db1 where p: "project_resource_endpoint (env n) cfg (map_of hs ''X-Internal-Token'') (projected t r d) db = (a, db1)"
    by fastforce
  with assms(1) load have s: "served (a, db1) n = (Inr st, db', n')" by (simp add: relationship_post_def Let_def)
  have "\<exists>u. a = Inr u"
  proof (cases a)
    case (Inl err)
    with s have "st = status_of err" by (simp add: served_def)
    with project_endpoint_error [OF p [unfolded Inl]] assms(2) show ?thesis by (auto simp: success_status_def)
  qed simp
  then have "nodes db' = node_table.put (pv_node_id (env n), tx_now (pv_clock (env n)), projected t r d) (nodes db)"
    using project_endpoint_nodes [OF p] s by (auto simp: served_def)
  from put_shows [OF this d] put_keeps_shown [OF this] show ?thesis by blast
qed

lemma post_projections_show:
  assumes "post_projections (relationship_post px scfg (rstrip_slash (relationship_service_url cfg)) env) cfg
      (map (projection t) rs) (db, n) = (Inr u, db', n')"
    and "reads_uuids px" "distinct (map row_id rs)"
  shows "(\<forall>r \<in> set rs. shows_resource t r db')
    \<and> (\<forall>x. shows_resource t x db \<longrightarrow> row_id x \<notin> row_id ` set rs \<longrightarrow> shows_resource t x db')"
  using assms(1,3)
proof (induction rs arbitrary: db n)
  case (Cons r rs)
  let ?post = "relationship_post px scfg (rstrip_slash (relationship_service_url cfg)) env"
  obtain a db1 n1 where one: "?post (rstrip_slash (relationship_service_url cfg) @ ''/api/v1/internal/resources'')
      (internal_headers cfg) (projection t r) (db, n) = (a, db1, n1)" by (metis prod_cases3)
  with Cons.prems(1) obtain st where st: "a = Inr st" "success_status st"
      and rest: "post_projections ?post cfg (map (projection t) rs) (db1, n1) = (Inr u, db', n')"
    by (cases a) (auto simp: raise_for_status_def guardr_def split: if_splits)
  note here = post_projection_shows [OF one [unfolded st(1)] st(2) assms(2)]
  note later = Cons.IH [OF rest]
  show ?case using here later Cons.prems(2) by auto
qed simp

lemma publish_shows:
  assumes "publish_projections (relationship_post px scfg (rstrip_slash (relationship_service_url cfg)) env) cfg t
      (map (projection t) rs) (db, n) = (Inr u, db', n')"
    and "reads_uuids px" "distinct (map row_id rs)" "r \<in> set rs"
  shows "shows_resource t r db'"
proof -
  let ?post = "relationship_post px scfg (rstrip_slash (relationship_service_url cfg)) env"
  obtain u1 db1 n1 where p: "post_projections ?post cfg (map (projection t) rs) (db, n) = (Inr u1, db1, n1)"
      and b: "post_rebuild ?post cfg t (db1, n1) = (Inr u, db', n')"
    using assms(1) by (auto simp: publish_projections_def split: prod.splits sum.splits)
  have "nodes (fst (snd (?post url hs body (db1, n1)))) = nodes db1" if "url \<noteq> resources_url cfg" for url hs body
    using that rebuild_endpoint_nodes
    by (auto simp: relationship_post_def resources_url_def served_def Let_def split: prod.split sum.split option.split) (metis snd_conv)+
  then have "nodes (fst (snd (?post (rstrip_slash (relationship_service_url cfg) @ ''/api/v1/internal/rebuild/'' @ uuid_str t)
      (internal_headers cfg) JNull (db1, n1)))) = nodes db1" by (simp add: resources_url_def)
  then have "nodes db' = nodes db1" using b by (auto simp: post_rebuild_def split: prod.splits)
  then show ?thesis using post_projections_show [OF p assms(2,3)] assms(4) by (simp add: shows_resource_def)
qed

section \<open>A run of the worker\<close>

abbreviation item_key :: "dict \<Rightarrow> string" where
  "item_key item \<equiv> lower (py_str (dict_get item ''id''))"

lemma upsert_resource_found:
  assumes "upsert_resource i g clk t sub item db = Inr ((r, changed), db')"
  shows "find (\<lambda>x. resource_key x = (t, item_key item)) (resources db') = Some r"
    and "k \<noteq> item_key item \<Longrightarrow> find (\<lambda>x. resource_key x = (t, k)) (resources db') = find (\<lambda>x. resource_key x = (t, k)) (resources db)"
proof -
  obtain v where v: "resource_values_of (py_now clk) item = Inr v"
      and put: "put_resource \<lparr>xa_id = i, xa_group_id = g, xa_clock = clk, xa_tenant_id = t,
        xa_subscription_id = row_id sub, xa_values = v\<rparr> db = ((r, changed), db')"
    using assms by (auto simp: upsert_resource_def result_iff)
  have norm: "rv_normalized_resource_id v = item_key item" using resource_values_normal [OF v] by simp
  note rows = put_resource_rows [OF put, simplified, unfolded norm]
  show "find (\<lambda>x. resource_key x = (t, item_key item)) (resources db') = Some r" using rows(2) by simp
  show "find (\<lambda>x. resource_key x = (t, k)) (resources db') = find (\<lambda>x. resource_key x = (t, k)) (resources db)"
    if "k \<noteq> item_key item"
    unfolding put_resource_rows(1) [OF put] using that norm by (intro resource_table.find_put_other) simp
qed

lemma store_resources_rows:
  assumes "store_resources env t subs n items db = Inr ((changed, ps), db')" "distinct (map item_key items)"
  shows "\<exists>rs. ps = map (projection t) rs
    \<and> list_all2 (\<lambda>item r. find (\<lambda>x. resource_key x = (t, item_key item)) (resources db') = Some r) items rs
    \<and> (\<forall>k. k \<notin> item_key ` set items \<longrightarrow>
        find (\<lambda>x. resource_key x = (t, k)) (resources db') = find (\<lambda>x. resource_key x = (t, k)) (resources db))"
  using assms
proof (induction items arbitrary: n db changed ps)
  case (Cons item items)
  obtain sub r w db1 c ps1 where up: "upsert_resource (wk_resource_id env n) (wk_group_id env n) (wk_resource_clock env n) t sub item db
        = Inr ((r, w), db1)"
      and rest: "store_resources env t subs (Suc n) items db1 = Inr ((c, ps1), db')" and ps: "ps = projection t r # ps1"
    using Cons.prems(1) by (auto simp: result_iff)
  obtain rs where rs: "ps1 = map (projection t) rs"
      "list_all2 (\<lambda>item r. find (\<lambda>x. resource_key x = (t, item_key item)) (resources db') = Some r) items rs"
      "\<And>k. k \<notin> item_key ` set items \<Longrightarrow>
        find (\<lambda>x. resource_key x = (t, k)) (resources db') = find (\<lambda>x. resource_key x = (t, k)) (resources db1)"
    using Cons.IH [OF rest] Cons.prems(2) by auto
  have "item_key item \<notin> item_key ` set items" using Cons.prems(2) by simp
  from rs(3) [OF this] upsert_resource_found(1) [OF up]
  have "find (\<lambda>x. resource_key x = (t, item_key item)) (resources db') = Some r" by simp
  with rs(2) have "list_all2 (\<lambda>item r. find (\<lambda>x. resource_key x = (t, item_key item)) (resources db') = Some r)
      (item # items) (r # rs)" by simp
  moreover have "find (\<lambda>x. resource_key x = (t, k)) (resources db') = find (\<lambda>x. resource_key x = (t, k)) (resources db)"
    if "k \<notin> item_key ` set (item # items)" for k
    using that rs(3) [of k] upsert_resource_found(2) [OF up, of k] by simp
  ultimately show ?case using rs(1) ps by (intro exI [of _ "r # rs"]) simp
qed simp

lemma found_distinct:
  assumes "list_all2 (\<lambda>item r. find (\<lambda>x. resource_key x = (t, item_key item)) rows = Some r) items rs"
    and "distinct (map item_key items)" "distinct (map row_id rows)"
  shows "distinct (map row_id rs)"
  using assms(1,2)
proof (induction rule: list_all2_induct)
  case (Cons item items r rs)
  have in_rows: "r \<in> set rows \<and> resource_key r = (t, item_key item)" using Cons.hyps(1) find_Some_in by force
  have "row_id r \<noteq> row_id x" if x: "x \<in> set rs" for x
  proof
    assume same: "row_id r = row_id x"
    obtain j where j: "j < length rs" "rs ! j = x" using x by (auto simp: in_set_conv_nth)
    then have "find (\<lambda>x. resource_key x = (t, item_key (items ! j))) rows = Some x" "j < length items"
      using Cons.hyps(2) by (auto simp: list_all2_conv_all_nth)
    then have "x \<in> set rows \<and> resource_key x = (t, item_key (items ! j))" "items ! j \<in> set items"
      using find_Some_in by (force, simp)
    moreover have "inj_on row_id (set rows)" using assms(3) by (simp add: distinct_map)
    ultimately have "r = x" using in_rows same by (meson inj_onD)
    then have same_key: "item_key (items ! j) = item_key item" using in_rows \<open>x \<in> set rows \<and> _\<close> by simp
    have "item_key (items ! j) \<in> item_key ` set items" using \<open>items ! j \<in> set items\<close> by (rule imageI)
    then have "item_key item \<in> item_key ` set items" unfolding same_key .
    then show False using Cons.prems by simp
  qed
  with Cons show ?case by auto
qed simp

section \<open>Properties\<close>

text \<open>C3: After a synchronization that ended well, the graph knows what Azure reported: every row that
  Azure returned has its resource in the inventory, and the relationship service has an active
  node for that resource with its name, type, group and properties.\<close>

theorem synced_resources_in_graph:
  assumes "run_job pages env (relationship_post px scfg (rstrip_slash (relationship_service_url cfg)) renv) cfg job (db, g, n)
      = Some (Inr (), db', g', n')"
    and "\<And>u. px_uuid px (uuid_str u) = Some u"
    and "job_scope_ids job = Inr (ids, user)" "query_resources pages (wk_graph env) ids = Some (Inr items)"
    and "distinct (map (\<lambda>item. lower (py_str (dict_get item ''id''))) items)" "distinct (map row_id (resources db'))"
  shows "\<forall>item \<in> set items. \<exists>r \<in> set (resources db'). tenant_id r = tenant_id job
    \<and> rs_normalized_resource_id r = lower (py_str (dict_get item ''id'')) \<and> shows_resource (tenant_id job) r g'"
proof
  fix item
  assume item: "item \<in> set items"
  let ?t = "tenant_id job" and ?post = "relationship_post px scfg (rstrip_slash (relationship_service_url cfg)) renv"
  obtain subs db1 ps where "store_job_resources env job subs items db1 = (Inr ps, db')"
      and pub: "publish_projections ?post cfg ?t ps (g, n) = (Inr (), g', n')"
    using assms(1,3,4) by (auto simp: run_job_def register_job_scope_def transaction_Inr result_iff
        split: prod.splits sum.splits option.splits)
  then obtain c db2 where st: "store_resources env ?t subs 0 items db1 = Inr ((c, ps), db2)"
      and "db' = update_job (row_id job) (complete_job (wk_complete_time env) (length items) c) db2"
    by (auto simp: store_job_resources_def transaction_Inr result_iff)
  then have same: "resources db' = resources db2" by (simp add: update_job_def)
  obtain rs where ps: "ps = map (projection ?t) rs"
      and rs: "list_all2 (\<lambda>item r. find (\<lambda>x. resource_key x = (?t, item_key item)) (resources db') = Some r) items rs"
    using store_resources_rows [OF st assms(5)] unfolding same by blast
  have dist: "distinct (map row_id rs)" using found_distinct [OF rs assms(5,6)] .
  obtain i where i: "i < length items" "items ! i = item" using item by (auto simp: in_set_conv_nth)
  define r where "r = rs ! i"
  have r: "r \<in> set rs" "find (\<lambda>x. resource_key x = (?t, item_key item)) (resources db') = Some r"
    using list_all2_nthD [OF rs i(1)] list_all2_lengthD [OF rs] i by (simp_all add: r_def)
  have "reads_uuids px" using assms(2) by (simp add: reads_uuids_def)
  with dist r(1) have "shows_resource ?t r g'" using publish_shows [OF pub [unfolded ps]] by blast
  moreover have "r \<in> set (resources db') \<and> resource_key r = (?t, item_key item)" using find_Some_in [OF r(2)] by blast
  ultimately show "\<exists>r \<in> set (resources db'). tenant_id r = ?t \<and> rs_normalized_resource_id r = item_key item
      \<and> shows_resource ?t r g'" by auto
qed

text \<open>Values for the witness: the worker of one job, and an empty graph.\<close>

definition sync_settings :: settings where
  "sync_settings = default_settings\<lparr>internal_api_token := Some ''token''\<rparr>"

definition sync_px :: pydantic_lib where
  "sync_px = \<lparr>px_uuid = (\<lambda>s. case uuid_parse s of Inr u \<Rightarrow> Some u | Inl _ \<Rightarrow> None), px_time = (\<lambda>_. Some 0)\<rparr>"

definition sync_project_env :: project_env where
  "sync_project_env = \<lparr>pv_plan = (\<lambda>_. 0), pv_node_plan = (\<lambda>_. 0), pv_node_id = 1, pv_edge_id = (\<lambda>_ _. 1),
     pv_clock = instant 0, pv_commit = None\<rparr>"

definition empty_graph :: relationship_db where
  "empty_graph = \<lparr>outbox = [], nodes = [], edges = []\<rparr>"

lemma sync_guard: "internal_guard sync_settings (map_of (internal_headers sync_settings) ''X-Internal-Token'') = Inr ()"
  by (simp add: internal_guard_def internal_headers_def sync_settings_def present_def)

lemma sample_project: "\<exists>g. project_resource_endpoint sync_project_env sync_settings
    (map_of (internal_headers sync_settings) ''X-Internal-Token'') e empty_graph = (Inr (), g)"
  unfolding project_resource_endpoint_def sync_guard
  by (simp add: unit_of_work_transaction transaction_def db_fault_def sync_project_env_def project_and_extract_def
      upsert_node_def get_or_put_def empty_graph_def split: prod.split)

lemma sample_rebuild: "\<exists>g'. rebuild_relationships_endpoint sync_project_env sync_settings
    (map_of (internal_headers sync_settings) ''X-Internal-Token'') t g = (Inr (), g')"
  unfolding rebuild_relationships_endpoint_def sync_guard
  by (simp add: unit_of_work_transaction transaction_def db_fault_def sync_project_env_def)

lemma uuid_no_slash: "CHR ''/'' \<notin> set (uuid_str u)" "uuid_str u \<noteq> []"
proof -
  show "CHR ''/'' \<notin> set (uuid_str u)" using uuid_str_code [of "CHR ''/''" u] by auto
  show "uuid_str u \<noteq> []" using length_uuid_str [of u] by (cases "uuid_str u") simp_all
qed

lemma sample_publish:
  assumes "rs_properties r = JDict d"
  shows "\<exists>g n. publish_projections (relationship_post sync_px sync_settings
      (rstrip_slash (relationship_service_url sync_settings)) (\<lambda>_. sync_project_env)) sync_settings t [projection t r] (empty_graph, 0)
    = (Inr (), g, n)"
proof -
  let ?base = "rstrip_slash (relationship_service_url sync_settings)" and ?h = "internal_headers sync_settings"
  let ?post = "relationship_post sync_px sync_settings ?base (\<lambda>_. sync_project_env)"
  have "reads_uuids sync_px" by (simp add: reads_uuids_def sync_px_def)
  then have load: "load_projection sync_px (projection t r) = Inr (projected t r d)"
    using load_projection_projection assms by simp
  obtain g1 where "project_resource_endpoint sync_project_env sync_settings (map_of ?h ''X-Internal-Token'') (projected t r d) empty_graph
      = (Inr (), g1)" using sample_project by blast
  then have one: "?post (?base @ ''/api/v1/internal/resources'') ?h (projection t r) (empty_graph, 0) = (Inr 204, g1, 1)"
    by (simp add: relationship_post_def Let_def load served_def)
  obtain g2 where "rebuild_relationships_endpoint sync_project_env sync_settings (map_of ?h ''X-Internal-Token'') t g1 = (Inr (), g2)"
    using sample_rebuild by blast
  moreover have "drop (length (?base @ ''/api/v1/internal/rebuild/'')) (?base @ ''/api/v1/internal/rebuild/'' @ uuid_str t) = uuid_str t"
    "starts_with (?base @ ''/api/v1/internal/rebuild/'') (?base @ ''/api/v1/internal/rebuild/'' @ uuid_str t)"
    by (simp_all add: starts_with_def)
  ultimately have two: "?post (?base @ ''/api/v1/internal/rebuild/'' @ uuid_str t) ?h JNull (g1, 1) = (Inr 204, g2, 2)"
    using uuid_no_slash [of t] by (simp add: relationship_post_def Let_def served_def sync_px_def)
  show ?thesis
    using one two by (simp add: publish_projections_def post_rebuild_def raise_for_status_def success_status_def)
qed

lemma sample_upsert:
  assumes "resources db = []"
  shows "\<exists>r w db'. upsert_resource i g clk t sub sample_item db = Inr ((r, w), db')
    \<and> rs_properties r = JDict [] \<and> resources db' = [r]"
proof -
  obtain v where v: "resource_values_of (py_now clk) sample_item = Inr v" "rv_properties v = JDict []"
    by (simp add: resource_values_of_def sample_item_def dict_item_def dict_get_def column_text_def py_or_def)
  have group: "resources (upsert_group a d) = resources d" for a d by (simp add: upsert_group_def)
  show ?thesis
    using assms by (simp add: upsert_resource_def v put_resource_def get_or_put_def group)
      (simp add: new_resource_def v Let_def, rule exI [of _ True], simp)
qed

lemma synced_resources_in_graph_witness:
  "\<exists>db' g' n'. run_job 1 (sample_worker [sample_azure]) (relationship_post sync_px sync_settings
        (rstrip_slash (relationship_service_url sync_settings)) (\<lambda>_. sync_project_env)) sync_settings
      (start_job 5 (sample_job 1 ''12345678'')) (empty_inventory, empty_graph, 0) = Some (Inr (), db', g', n')
    \<and> (\<exists>r \<in> set (resources db'). shows_resource 2 r g')"
proof -
  let ?j = "start_job 5 (sample_job 1 ''12345678'')" and ?env = "sample_worker [sample_azure]"
  let ?post = "relationship_post sync_px sync_settings (rstrip_slash (relationship_service_url sync_settings)) (\<lambda>_. sync_project_env)"
  have t: "tenant_id ?j = 2" by (simp add: start_job_def sample_job_def new_job_def)
  have az: "list_azure_subscriptions (Inr [sample_azure])
      = Inr [\<lparr>az_subscription_id = 7, az_display_name = uuid_str 7, az_state = ''Unknown''\<rparr>]"
    using uuid_no_slash(2) [of 7]
    by (simp add: list_azure_subscriptions_def sample_azure_def azure_subscription_of_def present_def)
  obtain x db1 where reg: "register_job_scope ?env ?j empty_inventory = (Inr ([7], [7 \<mapsto> x]), db1)" and db1: "resources db1 = []"
    by (simp add: register_job_scope_def sample_scope sample_worker_def az transaction_def upsert_subscription_def
        empty_inventory_def get_or_put_def Let_def)
  obtain r w db2 where up: "upsert_resource (wk_resource_id ?env 0) (wk_group_id ?env 0) (wk_resource_clock ?env 0) 2 x sample_item db1
      = Inr ((r, w), db2)" and r: "rs_properties r = JDict []" and db2: "resources db2 = [r]"
    using sample_upsert [OF db1] by metis
  let ?db' = "update_job (row_id ?j) (complete_job (wk_complete_time ?env) 1 (of_bool w)) db2"
  have sub: "subscription_of [7 \<mapsto> x] sample_item = Inr x"
    by (simp add: subscription_of_def sample_item_def dict_item_def)
  have st: "store_job_resources ?env ?j [7 \<mapsto> x] [sample_item] db1 = (Inr [projection 2 r], ?db')"
    unfolding store_job_resources_def t
    by (simp add: sub up transaction_def) (simp add: sample_worker_def)
  obtain g n where pub: "publish_projections ?post sync_settings 2 [projection 2 r] (empty_graph, 0) = (Inr (), g, n)"
    using sample_publish [OF r] by blast
  have q: "query_resources 1 (wk_graph ?env) [7] = Some (Inr [sample_item])"
    by (simp add: query_resources_def sample_worker_def page_data_def present_def)
  have run: "run_job 1 ?env ?post sync_settings ?j (empty_inventory, empty_graph, 0) = Some (Inr (), ?db', g, n)"
    by (simp add: run_job_def reg q st t pub del: One_nat_def)
  have "px_uuid sync_px (uuid_str u) = Some u" for u by (simp add: sync_px_def)
  moreover have "distinct (map row_id (resources ?db'))" by (simp add: update_job_def db2)
  ultimately have "\<forall>item \<in> set [sample_item]. \<exists>r \<in> set (resources ?db'). tenant_id r = tenant_id ?j
      \<and> rs_normalized_resource_id r = lower (py_str (dict_get item ''id'')) \<and> shows_resource (tenant_id ?j) r g"
    by (intro synced_resources_in_graph [OF run _ sample_scope q]) simp_all
  then show ?thesis using run unfolding t by auto
qed

end
