(* ===== verification/Platform.thy ===== *)
theory Platform
  imports IdentityRoutes Services GraphSync
begin

text \<open>
  The five services with the identity service as their profile client: on whose behalf they
  change anything or answer with success.
\<close>

section \<open>Who a service acts for\<close>

text \<open>
  The guard of a route, read in the tables of the identity service: the cookie or bearer of this
  very request resolves to an active user of an active tenant whose roles grant the permission
  of the route; or the request carries the internal token.
\<close>

definition resolves ::
  "framework \<Rightarrow> ('k, 'f) identity_deps \<Rightarrow> identity_call \<Rightarrow> (string \<Rightarrow> (string \<times> string) list) \<Rightarrow> identity_state
     \<Rightarrow> request \<Rightarrow> uuid \<Rightarrow> resolved_identity option" where
  "resolves fw deps call read_cookies st req cid =
     (let asked = profile_request read_cookies (sent_headers fw req cid) in
      case get_identity deps (hc_env call) asked (fw_credentials fw asked) (fst st) of
        Inl _ \<Rightarrow> None
      | Inr (ri, _) \<Rightarrow> if us_is_active (ri_user ri) \<and> tn_status (ri_tenant ri) = ''active'' then Some ri else None)"

definition vouched ::
  "framework \<Rightarrow> ('k, 'f) identity_deps \<Rightarrow> identity_call \<Rightarrow> (string \<Rightarrow> (string \<times> string) list) \<Rightarrow> settings \<Rightarrow> identity_state
     \<Rightarrow> guard \<Rightarrow> request \<Rightarrow> uuid \<Rightarrow> 's \<Rightarrow> bool" where
  "vouched fw deps call read_cookies cfg st g req cid s =
     (case g of
        Signed_in \<Rightarrow> resolves fw deps call read_cookies st req cid \<noteq> None
      | Needs permission \<Rightarrow> (case resolves fw deps call read_cookies st req cid of None \<Rightarrow> False
          | Some ri \<Rightarrow> permission \<in> pm_name ` set (ri_permissions ri))
      | Internal \<Rightarrow> present (internal_api_token cfg) \<and> header req ''X-Internal-Token'' = internal_api_token cfg)"

lemma resolve_and_sync_active:
  assumes "resolve_and_sync i clk p db = Inr (ri, db1)"
  shows "us_is_active (ri_user ri) \<and> tn_status (ri_tenant ri) = ''active''"
proof -
  obtain t where t: "get_tenant_by_scope_key (identity_scope_key (tp_entra_tenant_id p) (tp_entra_object_id p)) db = Some t"
    using assms by (auto simp: resolve_and_sync_def split: option.splits)
  with assms have status: "tn_status t = ''active''" by (simp add: resolve_and_sync_def split: if_splits)
  with assms t obtain a where sync: "(case synchronize_user a db of (u, db) \<Rightarrow>
      if \<not> us_is_active u then Inl (http_error 403 ''User is disabled'') else Inr (resolved (py_now clk) t u db, db)) = Inr (ri, db1)"
    by (auto simp: resolve_and_sync_def bindr_Inr_iff)
  then have "\<exists>u db2. us_is_active u \<and> ri = resolved (py_now clk) t u db2"
    by (cases "synchronize_user a db") (auto split: if_splits)
  with status show ?thesis by (auto simp: resolved_def)
qed

lemma get_identity_active:
  assumes "get_identity deps env req credentials db = Inr (ri, db1)"
  shows "us_is_active (ri_user ri) \<and> tn_status (ri_tenant ri) = ''active''"
proof (cases "present (cookie_value req (session_cookie_name (id_settings deps)))")
  case True
  with assms show ?thesis by (auto simp: get_identity_def Let_def bindr_Inr_iff resolve_session_Inr)
next
  case False
  with assms obtain p where "resolve_and_sync (oi_user (rq_ids env)) (rq_clock env) p db = Inr (ri, db1)"
    by (auto simp: get_identity_def Let_def bindr_Inr_iff split: option.splits)
  then show ?thesis by (rule resolve_and_sync_active)
qed

lemma actor_resolved:
  assumes "literal_matching fw"
    and "get_actor (http_of (identity_client read_cookies (create_app bracket_ok (id_settings deps) ping fresh elapsed
        (serve fw (identity_routes s256 int_of_text fw deps call))) st)) cfg req cid (fw_credentials fw req) = Inr a"
  shows "\<exists>ri. resolves fw deps call read_cookies st req cid = Some ri \<and> a = actor_of_identity cid ri"
proof -
  let ?client = "identity_client read_cookies (create_app bracket_ok (id_settings deps) ping fresh elapsed
        (serve fw (identity_routes s256 int_of_text fw deps call))) st"
  obtain body where body: "resolve_profile (http_of ?client) cfg cid (header req ''cookie'')
      (map_option (\<lambda>(scheme, cred). scheme @ '' '' @ cred) (fw_credentials fw req)) = Inr body"
    and read: "actor_of_profile cid body = Inr a"
    using assms(2) by (auto simp: get_actor_def bindr_Inr_iff)
  obtain status where "?client (profile_url cfg) (sent_headers fw req cid) = Inr (status, body)" "success_status status"
    using body by (auto simp: resolve_profile_def raise_for_status_def http_of_def from_outside_def sent_headers_def
        bindr_Inr_iff guardr_Inr_iff split: sum.splits if_splits)
  from profile_answer [OF assms(1) this read] obtain ri db1 where
    ri: "get_identity deps (hc_env call) (profile_request read_cookies (sent_headers fw req cid))
        (fw_credentials fw (profile_request read_cookies (sent_headers fw req cid))) (fst st) = Inr (ri, db1)"
    and a: "a = actor_of_identity cid ri" by blast
  from ri get_identity_active [OF ri] have "resolves fw deps call read_cookies st req cid = Some ri"
    by (simp add: resolves_def)
  with a show ?thesis by blast
qed

lemma admitted_vouched:
  assumes "literal_matching fw"
    and "admitted fw (identity_client read_cookies (create_app bracket_ok (id_settings deps) ping fresh elapsed
        (serve fw (identity_routes s256 int_of_text fw deps call))) st) cfg g req cid"
  shows "vouched fw deps call read_cookies cfg st g req cid s"
proof -
  let ?client = "identity_client read_cookies (create_app bracket_ok (id_settings deps) ping fresh elapsed
        (serve fw (identity_routes s256 int_of_text fw deps call))) st"
  note known = actor_resolved [OF assms(1), of read_cookies bracket_ok deps ping fresh elapsed s256 int_of_text call st cfg req cid]
  show ?thesis
  proof (cases g)
    case Signed_in
    with assms(2) obtain a where "get_actor (http_of ?client) cfg req cid (fw_credentials fw req) = Inr a"
      by (auto simp: admitted_def Let_def split: sum.splits)
    from known [OF this] Signed_in show ?thesis by (auto simp: vouched_def)
  next
    case (Needs permission)
    with assms(2) obtain a where "get_actor (http_of ?client) cfg req cid (fw_credentials fw req) = Inr a"
      and granted: "permission \<in> ac_permissions a"
      by (auto simp: admitted_def Let_def split: sum.splits)
    from known [OF this(1)] Needs granted show ?thesis by (auto simp: vouched_def actor_of_identity_def)
  next
    case Internal
    with assms(2) show ?thesis by (simp add: admitted_def vouched_def)
  qed
qed

text \<open>Conversely, where the identity service can commit, it does answer with the profile.\<close>

lemma profile_served:
  assumes "literal_matching fw" "rq_commit (hc_env call) = None" "rq_audit_commit (hc_env call) = None"
    and who: "get_identity deps (hc_env call) (profile_request read_cookies hs)
        (fw_credentials fw (profile_request read_cookies hs)) (fst st) = Inr (ri, db1)"
  shows "identity_client read_cookies (create_app bracket_ok cfg ping fresh elapsed
      (serve fw (identity_routes s256 int_of_text fw deps call))) st url hs = Inr (200, profile_response ri)"
proof -
  let ?req = "profile_request read_cookies hs" and ?table = "identity_routes s256 int_of_text fw deps call"
  have path: "req_path ?req \<notin> set health_paths" by (simp add: profile_request_def health_paths_def)
  have get: "\<not> cookie_mutation cfg ?req" by (simp add: cookie_mutation_def safe_methods_def profile_request_def)
  have "fst (profile deps (hc_env call) ?req cid (fw_credentials fw ?req) (fst st)) = Inr (profile_response ri)" for cid
    using assms(2,3) who by (simp add: profile_def transaction_def)
  moreover have "fst (reply 200 id rs) = Inr (json_response 200 v)" if "fst rs = Inr v" for rs :: "json result \<times> identity_db" and v
    using that by (cases rs) (simp add: reply_def)
  ultimately have "fst (reply 200 id (profile deps (hc_env call) ?req cid (fw_credentials fw ?req) (fst st)))
      = Inr (json_response 200 (profile_response ri))" for cid
    by blast
  then have "fst (serve fw ?table ?req cid st) = Inr (json_response 200 (profile_response ri))" for cid
    by (simp add: serve_profile [OF assms(1)] http_exceptions_def)
  then have answer: "fst (serve fw ?table ?req (correlation_id_of fresh ?req) st) = Inr (json_response 200 (profile_response ri))" .
  obtain x st' where "serve fw ?table ?req (correlation_id_of fresh ?req) st = (x, st')" by (rule prod.exhaust)
  with answer show ?thesis
    by (simp add: identity_client_def create_app_def csrf_dispatch_def get correlation_dispatch_def
        app_routes_service [OF path] json_response_def)
qed

lemma resolved_actor:
  assumes "literal_matching fw" "rq_commit (hc_env call) = None" "rq_audit_commit (hc_env call) = None"
    and "resolves fw deps call read_cookies st req cid = Some ri"
  shows "get_actor (http_of (identity_client read_cookies (create_app bracket_ok (id_settings deps) ping fresh elapsed
      (serve fw (identity_routes s256 int_of_text fw deps call))) st)) cfg req cid (fw_credentials fw req)
      = Inr (actor_of_identity cid ri)"
proof -
  obtain db1 where "get_identity deps (hc_env call) (profile_request read_cookies (sent_headers fw req cid))
      (fw_credentials fw (profile_request read_cookies (sent_headers fw req cid))) (fst st) = Inr (ri, db1)"
    using assms(4) by (auto simp: resolves_def Let_def split: sum.splits prod.splits if_splits)
  note served = profile_served [OF assms(1-3) this]
  show ?thesis
    using served [of bracket_ok "id_settings deps" ping fresh elapsed s256 int_of_text "profile_url cfg"]
    by (simp add: get_actor_def resolve_profile_def http_of_def from_outside_def sent_headers_def raise_for_status_def
        actor_of_profile_response)
qed

lemma vouched_admitted:
  assumes "literal_matching fw" "rq_commit (hc_env call) = None" "rq_audit_commit (hc_env call) = None"
    and "vouched fw deps call read_cookies cfg st g req cid s"
  shows "admitted fw (identity_client read_cookies (create_app bracket_ok (id_settings deps) ping fresh elapsed
      (serve fw (identity_routes s256 int_of_text fw deps call))) st) cfg g req cid"
proof (cases "resolves fw deps call read_cookies st req cid")
  case None
  with assms(4) show ?thesis by (cases g) (simp_all add: vouched_def admitted_def)
next
  case (Some ri)
  note actor = resolved_actor [OF assms(1-3) Some]
  show ?thesis
    using assms(4) Some by (cases g) (simp_all add: vouched_def admitted_def actor actor_of_identity_def)
qed

lemma changes_admitted_mono:
  "changes_admitted fw cfg table admits \<Longrightarrow> (\<And>g req cid s. admits g req cid s \<Longrightarrow> admits' g req cid s) \<Longrightarrow>
     changes_admitted fw cfg table admits'"
  unfolding changes_admitted_def by blast

lemma serves_admitted_mono:
  "serves_admitted fw cfg table admits \<Longrightarrow> (\<And>g req cid s. admits g req cid s \<Longrightarrow> admits' g req cid s) \<Longrightarrow>
     serves_admitted fw cfg table admits'"
  unfolding serves_admitted_def by blast

text \<open>One service: what its table keeps, read in the tables of the identity service.\<close>

lemma vouched_service:
  assumes "literal_matching fw" "refuses_unrouted fw"
    and client: "client = identity_client read_cookies (create_app bracket_ok (id_settings deps) ping fresh elapsed
      (serve fw (identity_routes s256 int_of_text fw deps call))) st"
    and table: "gateway table (\<lambda>g req cid s. admitted fw client cfg g req cid)"
  shows "changes_admitted fw cfg table (vouched fw deps call read_cookies cfg st)"
    "serves_admitted fw cfg table (vouched fw deps call read_cookies cfg st)"
proof -
  have vouch: "vouched fw deps call read_cookies cfg st g req cid s" if "admitted fw client cfg g req cid" for g req cid and s :: 's
    using that unfolding client by (rule admitted_vouched [OF assms(1)])
  show "changes_admitted fw cfg table (vouched fw deps call read_cookies cfg st)"
    using guarded.changes_admitted [OF gateway.axioms(1) [OF table]] vouch by (rule changes_admitted_mono)
  show "serves_admitted fw cfg table (vouched fw deps call read_cookies cfg st)"
    using gateway.serves_admitted [OF table assms(2)] vouch by (rule serves_admitted_mono)
qed

section \<open>Properties\<close>

text \<open>C2: The platform acts only for whom the identity service vouches: whatever reaches one of the five
  services, if the service changes its state, or answers with success other than from its health
  endpoints and the framework's own pages, then the request came from an allowed site, and the first route it matches was
  open to it: its own cookie or bearer resolves, in the tables of the identity service, to an
  active user of an active tenant with the permission of the route, or it carries the internal
  token. A successful answer has the status and the response model of that route. The identity
  service itself changes only for a user it resolves, for a browser that returns to its own
  login, and for a service with the token.\<close>

theorem platform_acts_for_resolved_users:
  assumes "literal_matching fw" "refuses_unrouted fw"
    and "client = identity_client read_cookies (create_app bracket_ok (id_settings deps) ping fresh elapsed
      (serve fw (identity_routes s256 int_of_text fw deps call))) st"
  shows "changes_admitted fw cfg (inventory_routes fw client cfg ic) (vouched fw deps call read_cookies cfg st)
    \<and> serves_admitted fw cfg (inventory_routes fw client cfg ic) (vouched fw deps call read_cookies cfg st)
    \<and> changes_admitted fw cfg (audit_routes sha fw client cfg ac) (vouched fw deps call read_cookies cfg st)
    \<and> serves_admitted fw cfg (audit_routes sha fw client cfg ac) (vouched fw deps call read_cookies cfg st)
    \<and> changes_admitted fw cfg (relationship_routes fw client cfg rc) (vouched fw deps call read_cookies cfg st)
    \<and> serves_admitted fw cfg (relationship_routes fw client cfg rc) (vouched fw deps call read_cookies cfg st)
    \<and> changes_admitted fw cfg (intelligence_routes sha fw client cfg nc) (vouched fw deps call read_cookies cfg st)
    \<and> serves_admitted fw cfg (intelligence_routes sha fw client cfg nc) (vouched fw deps call read_cookies cfg st)
    \<and> changes_admitted fw cfg (operations_routes fw client cfg oc) (vouched fw deps call read_cookies cfg st)
    \<and> serves_admitted fw cfg (operations_routes fw client cfg oc) (vouched fw deps call read_cookies cfg st)
    \<and> changes_admitted fw (id_settings deps) (identity_routes s256 int_of_text fw deps call) (identity_admits fw deps call)"
proof -
  note service = vouched_service [OF assms]
  show ?thesis
    by (intro conjI service inventory_gateway.gateway_axioms audit_gateway.gateway_axioms relationship_gateway.gateway_axioms
        intelligence_gateway.gateway_axioms operations_gateway.gateway_axioms identity_guarded.changes_admitted)
qed

text \<open>
  Values for the witnesses: a framework that knows literal paths, an identity service with one
  user, and what these decide of a request.
\<close>

definition sample_framework :: framework where
  "sample_framework = \<lparr>fw_match = (\<lambda>m p req. if req_method req = m \<and> req_path req = p then Some Map.empty else None),
     fw_unrouted = (\<lambda>_. detail_response 404 ''Not Found''), fw_credentials = (\<lambda>_. None), fw_malformed = (\<lambda>_. False),
     fw_cookie = ck_name\<rparr>"

lemma sample_framework_laws:
  "literal_matching sample_framework" "refuses_unrouted sample_framework"
  by (simp_all add: literal_matching_def refuses_unrouted_def sample_framework_def detail_response_def json_response_def)

definition sample_identity_deps :: "(unit, unit) identity_deps" where
  "sample_identity_deps = login_deps\<lparr>id_settings := sample_cfg, id_sessions := sample_session_jwt\<rparr>"

definition sample_identity_call :: identity_call where
  "sample_identity_call = \<lparr>hc_uuid = (\<lambda>_. None), hc_tenant = None, hc_callback = None, hc_state = [], hc_verifier = [],
     hc_env = login_env, hc_blob = login_blob\<rparr>"

definition sample_identity :: identity_state where
  "sample_identity = (empty_identity
     \<lparr>tenants := [\<lparr>row_id = sc_tenant_id sample_claims, tn_entra_tenant_id = 3, tn_identity_scope_key = [], tn_account_type = [],
        tn_display_name = [], tn_status = ''active'', tn_consented_at = None, tn_version = 1, tn_created_at = 0, tn_updated_at = 0\<rparr>],
      users := [\<lparr>row_id = sc_user_id sample_claims, tenant_id = sc_tenant_id sample_claims, created_at = 0, updated_at = 0,
        us_entra_object_id = 4, us_principal_name = None, us_display_name = ''Ada'', us_email = None, us_is_active = True,
        us_last_login_at = 0, us_version = 1\<rparr>]\<rparr>, None)"

definition sample_client :: profile_client where
  "sample_client = identity_client (\<lambda>c. [(''sentinel_session'', c)]) (create_app (\<lambda>_. True) (id_settings sample_identity_deps)
     None 1 [] (serve sample_framework (identity_routes (\<lambda>s. s) (\<lambda>_. None) sample_framework sample_identity_deps
     sample_identity_call))) sample_identity"

definition sample_ingest_call :: audit_call where
  "sample_ingest_call = \<lparr>xc_uuid = (\<lambda>_. None), xc_query = None, xc_event = Some (sample_event 9), xc_plan = (\<lambda>_. 0),
     xc_ingest_env = \<lparr>ie_row_id = 1, ie_activity_id = 2, ie_clock = instant 5, ie_commit = None, ie_fresh = 0, ie_lost = False\<rparr>,
     xc_commit = None\<rparr>"

definition sample_internal_request :: request where
  "sample_internal_request = \<lparr>req_method = ''POST'', req_path = ''/api/v1/internal/events'',
     req_headers = [(''x-internal-token'', ''token'')], req_cookies = []\<rparr>"

lemma platform_acts_for_resolved_users_witness:
  "\<exists>r. snd (create_app (\<lambda>_. True) sync_settings None 1 [] (serve sample_framework (audit_routes (\<lambda>s. s) sample_framework
        sample_client sync_settings sample_ingest_call)) sample_internal_request empty_audit) \<noteq> empty_audit
     \<and> find (matching sample_framework sample_internal_request)
        (audit_routes (\<lambda>s. s) sample_framework sample_client sync_settings sample_ingest_call) = Some r
     \<and> vouched sample_framework sample_identity_deps sample_identity_call (\<lambda>c. [(''sentinel_session'', c)]) sync_settings
        sample_identity (rt_guard r) sample_internal_request 1 empty_audit"
proof -
  let ?table = "audit_routes (\<lambda>s. s) sample_framework sample_client sync_settings sample_ingest_call"
  let ?app = "create_app (\<lambda>_. True) sync_settings None 1 [] (serve sample_framework ?table)"
  have token: "header sample_internal_request ''X-Internal-Token'' = Some ''token''"
    by code_simp
  have first: "find (matching sample_framework sample_internal_request) ?table
      = Some (ingest_route (\<lambda>s. s) sample_framework sync_settings sample_ingest_call)"
    by (simp add: audit_routes_def ingest_route_def matching_def sample_framework_def sample_internal_request_def)
  obtain db1 u where stored: "ingest_event (\<lambda>s. s) sync_settings (xc_ingest_env sample_ingest_call) (Some ''token'') (sample_event 9) empty_audit
      = (Inr u, db1)" and changed: "audit_logs db1 \<noteq> []"
    by (auto simp: ingest_event_def internal_guard_def sync_settings_def present_def unit_of_work_transaction
        transaction_def db_fault_def sample_ingest_call_def ingest_def append_record_def find_event_def empty_audit_def
        activity_user_def sample_event_def Let_def)
  have served: "snd (serve sample_framework ?table sample_internal_request cid empty_audit) = db1" for cid
    unfolding serve_def first using stored
    by (simp add: ingest_route_def with_body_def parsed_def reply_def token sample_ingest_call_def sample_framework_def)
  obtain x t where run: "serve sample_framework ?table sample_internal_request (correlation_id_of 1 sample_internal_request) empty_audit
      = (x, t)" by (rule prod.exhaust)
  with served have "t = db1" by (metis snd_conv)
  with run have "snd (?app sample_internal_request empty_audit) = db1"
    by (simp add: create_app_def csrf_dispatch_def cookie_mutation_def correlation_dispatch_def app_routes_def
        sample_internal_request_def)
  then have change: "snd (?app sample_internal_request empty_audit) \<noteq> empty_audit"
    using changed by (auto simp: empty_audit_def)
  have fresh: "correlation_id_of 1 sample_internal_request = 1"
    by code_simp
  have "changes_admitted sample_framework sync_settings ?table
      (vouched sample_framework sample_identity_deps sample_identity_call (\<lambda>c. [(''sentinel_session'', c)]) sync_settings sample_identity)"
    using platform_acts_for_resolved_users [OF sample_framework_laws sample_client_def] by blast
  note admitted = this [unfolded changes_admitted_def, rule_format, OF prod.collapse [symmetric] change]
  from admitted first fresh have "vouched sample_framework sample_identity_deps sample_identity_call (\<lambda>c. [(''sentinel_session'', c)])
      sync_settings sample_identity (rt_guard (ingest_route (\<lambda>s. s) sample_framework sync_settings sample_ingest_call))
      sample_internal_request 1 empty_audit" by auto
  with change first show ?thesis by blast
qed

text \<open>C5: The guards open exactly for them: where the identity service can commit, a guard of the five
  services admits a request if and only if the identity service vouches for it in its own
  tables, and the actor that the handler is given is the resolved user, with exactly the
  permissions that the roles of the user grant.\<close>

theorem guards_open_exactly_when_vouched:
  assumes "literal_matching fw" "rq_commit (hc_env call) = None" "rq_audit_commit (hc_env call) = None"
    and "client = identity_client read_cookies (create_app bracket_ok (id_settings deps) ping fresh elapsed
      (serve fw (identity_routes s256 int_of_text fw deps call))) st"
  shows "admitted fw client cfg g req cid = vouched fw deps call read_cookies cfg st g req cid s
    \<and> (case resolves fw deps call read_cookies st req cid of
         None \<Rightarrow> \<exists>e. get_actor (http_of client) cfg req cid (fw_credentials fw req) = Inl e
       | Some ri \<Rightarrow> get_actor (http_of client) cfg req cid (fw_credentials fw req) = Inr (actor_of_identity cid ri))"
proof
  show "admitted fw client cfg g req cid = vouched fw deps call read_cookies cfg st g req cid s"
    unfolding assms(4)
    by (rule iffI, rule admitted_vouched [OF assms(1)], assumption, rule vouched_admitted [OF assms(1-3)])
  show "case resolves fw deps call read_cookies st req cid of
         None \<Rightarrow> \<exists>e. get_actor (http_of client) cfg req cid (fw_credentials fw req) = Inl e
       | Some ri \<Rightarrow> get_actor (http_of client) cfg req cid (fw_credentials fw req) = Inr (actor_of_identity cid ri)"
  proof (cases "resolves fw deps call read_cookies st req cid")
    case None
    show ?thesis
    proof (cases "get_actor (http_of client) cfg req cid (fw_credentials fw req)")
      case (Inr a)
      from actor_resolved [OF assms(1) this [unfolded assms(4)]] None show ?thesis by simp
    qed (use None in simp)
  next
    case (Some ri)
    then show ?thesis unfolding assms(4) by (simp add: resolved_actor [OF assms(1-3)])
  qed
qed

definition sample_catalog_request :: request where
  "sample_catalog_request = \<lparr>req_method = ''GET'', req_path = ''/api/v1/operations/action-catalog'',
     req_headers = [(''cookie'', ''token'')], req_cookies = [(''sentinel_session'', ''token'')]\<rparr>"

lemma guards_open_exactly_when_vouched_witness:
  "admitted sample_framework sample_client sync_settings Signed_in sample_catalog_request 9
   \<and> \<not> admitted sample_framework sample_client sync_settings (Needs ''operations.create'') sample_catalog_request 9"
proof -
  have commits: "rq_commit (hc_env sample_identity_call) = None" "rq_audit_commit (hc_env sample_identity_call) = None"
    by (simp_all add: sample_identity_call_def login_env_def)
  note exactly = guards_open_exactly_when_vouched [OF sample_framework_laws(1) commits sample_client_def,
      of sync_settings _ sample_catalog_request 9 "()"]
  obtain ri where ri: "resolves sample_framework sample_identity_deps sample_identity_call (\<lambda>c. [(''sentinel_session'', c)])
      sample_identity sample_catalog_request 9 = Some ri" and none: "ri_permissions ri = []"
  proof -
    let ?asked = "profile_request (\<lambda>c. [(''sentinel_session'', c)]) (sent_headers sample_framework sample_catalog_request 9)"
    have "header sample_catalog_request ''cookie'' = Some ''token''" by code_simp
    then have cookie: "cookie_value ?asked (session_cookie_name (id_settings sample_identity_deps)) = Some ''token''"
      by (simp add: cookie_value_def profile_request_def sent_headers_def opt_header_def sample_framework_def
          sample_identity_deps_def sample_cfg_def default_settings_def)
    have claims: "session_decode (id_sessions sample_identity_deps) (id_settings sample_identity_deps) 100 ''token'' = Inr sample_claims"
      by (simp add: session_decode_def session_decode_body_def session_key_def required_setting_def present_def
          sample_identity_deps_def sample_cfg_def sample_session_jwt_def session_payload_def)
    obtain ri where "resolve_session (py_now (rq_clock login_env)) (sc_tenant_id sample_claims) (sc_user_id sample_claims)
        (fst sample_identity) = Inr ri" and ri: "ri_permissions ri = []" "us_is_active (ri_user ri)" "tn_status (ri_tenant ri) = ''active''"
      by (simp add: resolve_session_def get_user_by_id_def get_tenant_by_id_def effective_permissions_def sample_identity_def empty_identity_def)
    then have "resolves sample_framework sample_identity_deps sample_identity_call (\<lambda>c. [(''sentinel_session'', c)])
        sample_identity sample_catalog_request 9 = Some ri"
      using cookie claims
      by (simp add: resolves_def get_identity_def Let_def present_def sample_identity_call_def login_env_def)
    from this ri(1) show ?thesis by (rule that)
  qed
  show ?thesis
    using exactly [of Signed_in] exactly [of "Needs ''operations.create''"] by (simp add: vouched_def ri none)
qed

end
