(* ===== verification/RowSecurity.thy ===== *)
theory RowSecurity
  imports InventoryWorker
begin

text \<open>
  Row-level security of \<open>database/schema.sql\<close>: the policy on \<open>inventory.resources\<close>, the only
  table that has one, and what it does to a transaction. A unit of work sets
  \<open>app.tenant_id\<close> for its transaction (\<open>Db\<close>); the worker's transactions set nothing. The role
  of the connection may bypass the policies (a superuser, or \<open>BYPASSRLS\<close>); the owner of the
  table may not, because the policies are forced. \<open>to_uuid\<close> is PostgreSQL's reading of a text
  as a uuid.
\<close>

section \<open>The policy\<close>

text \<open>\<open>nullif(current_setting('app.tenant_id', true), '')::uuid\<close>; \<open>None\<close> is SQL's null.\<close>

definition tenant_setting ::
  "(string \<Rightarrow> uuid result) \<Rightarrow> (string \<times> string) list \<Rightarrow> uuid option result" where
  "tenant_setting to_uuid config = (case map_of config ''app.tenant_id'' of
       None \<Rightarrow> Inr None
     | Some s \<Rightarrow> if s = [] then Inr None else bindr (to_uuid s) (\<lambda>u. Inr (Some u)))"

text \<open>The condition of \<open>USING\<close> and of \<open>WITH CHECK\<close>; a comparison with null admits no row.\<close>

definition resources_tenant_isolation ::
  "(string \<Rightarrow> uuid result) \<Rightarrow> (string \<times> string) list \<Rightarrow> resource \<Rightarrow> bool result" where
  "resources_tenant_isolation to_uuid config r =
     bindr (tenant_setting to_uuid config) (\<lambda>t. Inr (t = Some (tenant_id r)))"

text \<open>
  The rows that a body left in the place of the visible ones go back among the hidden ones;
  new rows come last.
\<close>

fun put_back :: "('r \<Rightarrow> bool) \<Rightarrow> 'r list \<Rightarrow> 'r list \<Rightarrow> 'r list" where
  "put_back shown [] ys = ys"
| "put_back shown (r # rs) ys =
     (if shown r then (case ys of [] \<Rightarrow> put_back shown rs [] | y # ys \<Rightarrow> y # put_back shown rs ys)
      else r # put_back shown rs ys)"

definition policy_violation :: exn where
  "policy_violation = Exn ''DBAPIError'' ''new row violates row-level security policy for table \"resources\"''"

text \<open>
  The body of a transaction under the policy: it finds and changes only the rows that
  \<open>USING\<close> admits, and every row that it leaves has to pass \<open>WITH CHECK\<close>. The check is made
  once, at the end of the body; PostgreSQL makes it at each statement, which can only bring
  the exception forward.
\<close>

definition row_security ::
  "bool \<Rightarrow> (string \<Rightarrow> uuid result) \<Rightarrow> (string \<times> string) list
     \<Rightarrow> (inventory_db \<Rightarrow> ('a \<times> inventory_db) result) \<Rightarrow> inventory_db \<Rightarrow> ('a \<times> inventory_db) result" where
  "row_security bypass to_uuid config body db =
     (if bypass then body db
      else
        bindr (each_result (resources_tenant_isolation to_uuid config) (resources db)) (\<lambda>_.
        (let shown = (\<lambda>r. resources_tenant_isolation to_uuid config r = Inr True) in
         bindr (body (db\<lparr>resources := filter shown (resources db)\<rparr>)) (\<lambda>(x, db').
         bindr (each_result (resources_tenant_isolation to_uuid config) (resources db')) (\<lambda>checks.
         bindr (guardr (list_all (\<lambda>ok. ok) checks) policy_violation) (\<lambda>_.
         Inr (x, db'\<lparr>resources := put_back shown (resources db) (resources db')\<rparr>)))))))"

text \<open>The body of a unit of work, under the settings of its own session.\<close>

definition secured ::
  "bool \<Rightarrow> (string \<Rightarrow> uuid result) \<Rightarrow> (inventory_db \<Rightarrow> ('a \<times> inventory_db) result)
     \<Rightarrow> inventory_db session \<Rightarrow> 'a result \<times> inventory_db session" where
  "secured bypass to_uuid body s = on_tables (row_security bypass to_uuid (local_config s) body) s"

text \<open>
  The worker's transaction that stores the resources (\<open>worker.py\<close>): \<open>session.begin()\<close> without
  settings.
\<close>

definition store_job_resources_secured ::
  "bool \<Rightarrow> (string \<Rightarrow> uuid result) \<Rightarrow> worker_env \<Rightarrow> sync_job \<Rightarrow> (uuid \<rightharpoonup> subscription) \<Rightarrow> dict list
     \<Rightarrow> inventory_db \<Rightarrow> json list result \<times> inventory_db" where
  "store_job_resources_secured bypass to_uuid env job subs rows db =
     transaction (wk_resource_commit env) (row_security bypass to_uuid [] (\<lambda>db.
       bindr (store_resources env (tenant_id job) subs 0 rows db) (\<lambda>((changed, projections), db).
       Inr (projections, update_job (row_id job) (complete_job (wk_complete_time env) (length rows) changed) db)))) db"

section \<open>Facts\<close>

lemma put_back_shown: "\<forall>y \<in> set ys. P y \<Longrightarrow> filter P (put_back P rs ys) = ys"
  by (induction P rs ys rule: put_back.induct) (auto split: list.splits simp: filter_id_conv)

lemma put_back_hidden: "\<forall>y \<in> set ys. P y \<Longrightarrow> filter (\<lambda>r. \<not> P r) (put_back P rs ys) = filter (\<lambda>r. \<not> P r) rs"
  by (induction P rs ys rule: put_back.induct) (auto split: list.splits simp: filter_empty_conv)

lemma each_result_total: "(\<And>x. f x = Inr (g x)) \<Longrightarrow> each_result f xs = Inr (map g xs)"
  by (induction xs) simp_all

lemma policy_in_unit_of_work:
  "to_uuid (uuid_str t) = Inr t \<Longrightarrow>
     resources_tenant_isolation to_uuid (local_config (uow_enter t a db)) r = Inr (tenant_id r = t)"
  using length_uuid_str [of t]
  by (cases "uuid_str t") (auto simp: resources_tenant_isolation_def tenant_setting_def uow_enter_def)

lemma policy_without_settings: "resources_tenant_isolation to_uuid [] r = Inr False"
  by (simp add: resources_tenant_isolation_def tenant_setting_def)

lemma secured_transaction:
  "unit_of_work fault t a (secured bypass to_uuid body) db
     = transaction fault (row_security bypass to_uuid (local_config (uow_enter t a db)) body) db"
proof -
  have "unit_of_work fault t a (secured bypass to_uuid body) db
      = unit_of_work fault t a (on_tables (row_security bypass to_uuid (local_config (uow_enter t a db)) body)) db"
    by (simp add: unit_of_work_def secured_def)
  then show ?thesis by (simp add: unit_of_work_transaction)
qed

text \<open>What a tenant can see of the inventory, and what it cannot.\<close>

definition tenant_view :: "uuid \<Rightarrow> inventory_db \<Rightarrow> inventory_db" where
  "tenant_view t db = db\<lparr>resources := filter (\<lambda>r. tenant_id r = t) (resources db)\<rparr>"

definition hidden_resources :: "uuid \<Rightarrow> inventory_db \<Rightarrow> resource list" where
  "hidden_resources t db = filter (\<lambda>r. tenant_id r \<noteq> t) (resources db)"

lemma row_security_view:
  assumes "to_uuid (uuid_str t) = Inr t"
  shows "row_security False to_uuid (local_config (uow_enter t a db0)) body db =
    bindr (body (tenant_view t db)) (\<lambda>(x, db').
    bindr (guardr (\<forall>r \<in> set (resources db'). tenant_id r = t) policy_violation) (\<lambda>_.
    Inr (x, db'\<lparr>resources := put_back (\<lambda>r. tenant_id r = t) (resources db) (resources db')\<rparr>)))"
  using assms
  by (simp add: row_security_def policy_in_unit_of_work each_result_total [of _ "\<lambda>r. tenant_id r = t"]
      list_all_iff comp_def Let_def tenant_view_def)

lemma row_security_committed:
  assumes "to_uuid (uuid_str t) = Inr t"
    and "row_security False to_uuid (local_config (uow_enter t a db0)) body db = Inr (x, db2)"
  shows "body (tenant_view t db) = Inr (x, tenant_view t db2)" "hidden_resources t db2 = hidden_resources t db"
proof -
  obtain db' where body: "body (tenant_view t db) = Inr (x, db')"
    and check: "\<forall>r \<in> set (resources db'). tenant_id r = t"
    and db2: "db2 = db'\<lparr>resources := put_back (\<lambda>r. tenant_id r = t) (resources db) (resources db')\<rparr>"
    using assms(2) by (auto simp: row_security_view [of to_uuid t, OF assms(1)] result_iff)
  have "tenant_view t db2 = db'" using check by (simp add: tenant_view_def db2 put_back_shown)
  with body show "body (tenant_view t db) = Inr (x, tenant_view t db2)" by simp
  show "hidden_resources t db2 = hidden_resources t db"
    using check by (simp add: hidden_resources_def db2 put_back_hidden)
qed

lemma store_resources_nonempty:
  assumes "store_resources env t subs n items db = Inr ((changed, ps), db')"
    and "items \<noteq> [] \<or> resources db \<noteq> []"
  shows "resources db' \<noteq> []"
  using assms
proof (induction items arbitrary: n db changed ps)
  case (Cons item items)
  then obtain sub r was db1 c qs where
      up: "upsert_resource (wk_resource_id env n) (wk_group_id env n) (wk_resource_clock env n) t sub item db = Inr ((r, was), db1)"
    and rest: "store_resources env t subs (Suc n) items db1 = Inr ((c, qs), db')"
    by (auto simp: result_iff)
  have "resources db1 \<noteq> []"
  proof -
    obtain v where "put_resource \<lparr>xa_id = wk_resource_id env n, xa_group_id = wk_group_id env n,
        xa_clock = wk_resource_clock env n, xa_tenant_id = t, xa_subscription_id = row_id sub, xa_values = v\<rparr> db = ((r, was), db1)"
      using up by (auto simp: upsert_resource_def result_iff)
    from put_resource_rows(4) [OF this] show ?thesis by auto
  qed
  with Cons.IH [OF rest] show ?case by simp
qed simp

section \<open>Properties\<close>

text \<open>C26: The policy keeps a unit of work inside its tenant whatever its body does, even a body that
  forgets to filter: on two databases that differ only in the resources of other tenants it
  returns the same answer and leaves the same rows to the tenant, and in both the resources
  of the other tenants stay as they were. A new row of another tenant is refused.\<close>

theorem row_security_confines_tenant:
  assumes "to_uuid (uuid_str t) = Inr t" and "tenant_view t db1 = tenant_view t db2"
  shows "fst (unit_of_work fault t a (secured False to_uuid body) db1)
      = fst (unit_of_work fault t a (secured False to_uuid body) db2)
    \<and> tenant_view t (snd (unit_of_work fault t a (secured False to_uuid body) db1))
      = tenant_view t (snd (unit_of_work fault t a (secured False to_uuid body) db2))
    \<and> hidden_resources t (snd (unit_of_work fault t a (secured False to_uuid body) db1)) = hidden_resources t db1"
proof -
  let ?run = "\<lambda>db. row_security False to_uuid (local_config (uow_enter t a db)) body db"
  note committed = row_security_committed [of to_uuid t, OF assms(1)]
  have same: "map_sum (\<lambda>e. e) (\<lambda>(x, db). (x, tenant_view t db)) (?run db1)
      = map_sum (\<lambda>e. e) (\<lambda>(x, db). (x, tenant_view t db)) (?run db2)"
    using assms(2)
    by (auto simp: row_security_view [of to_uuid t, OF assms(1)] bindr_def guardr_def tenant_view_def put_back_shown
        split: sum.splits)
  show ?thesis
    unfolding secured_transaction using same assms(2)
    by (cases "?run db1"; cases "?run db2"; cases fault) (auto simp: transaction_def dest: committed(2))
qed

lemma row_security_confines_tenant_witness:
  "hidden_resources 1 (snd (unit_of_work None 1 9 (secured False uuid_parse (\<lambda>db. Inr (resources db, db\<lparr>resources := []\<rparr>)))
      (empty_inventory\<lparr>resources := [(sample_resource 3 ''/a'')\<lparr>tenant_id := 1\<rparr>, (sample_resource 4 ''/b'')\<lparr>tenant_id := 2\<rparr>]\<rparr>)))
   = [(sample_resource 4 ''/b'')\<lparr>tenant_id := 2\<rparr>]"
  using row_security_confines_tenant [of uuid_parse 1
      "empty_inventory\<lparr>resources := [(sample_resource 3 ''/a'')\<lparr>tenant_id := 1\<rparr>, (sample_resource 4 ''/b'')\<lparr>tenant_id := 2\<rparr>]\<rparr>"
      "empty_inventory\<lparr>resources := [(sample_resource 3 ''/a'')\<lparr>tenant_id := 1\<rparr>]\<rparr>" None 9
      "\<lambda>db. Inr (resources db, db\<lparr>resources := []\<rparr>)"]
  by (simp add: tenant_view_def hidden_resources_def)

text \<open>The handlers do not notice the policy: the endpoints that read resources answer the same with
  and without it, because they filter by the tenant of the actor themselves.\<close>

lemma row_security_transparent_to_reads:
  assumes "to_uuid (uuid_str (ac_tenant_id actor)) = Inr (ac_tenant_id actor)"
    and "reader = list_resources_endpoint actor f cursor limit \<or> reader = get_resource_endpoint actor i"
  shows "unit_of_work fault (ac_tenant_id actor) (ac_actor_id actor)
       (secured bypass to_uuid (\<lambda>db. bindr (reader db) (\<lambda>x. Inr (x, db)))) db
     = (case reader db of Inl e \<Rightarrow> (Inl e, db) | Inr x \<Rightarrow> (case fault of None \<Rightarrow> (Inr x, db) | Some e \<Rightarrow> (Inl e, db)))"
proof -
  let ?t = "ac_tenant_id actor"
  have put: "put_back P rs (filter P rs) = rs" for P and rs :: "resource list"
    by (induction rs) auto
  have same: "reader (tenant_view ?t db) = reader db"
    using assms(2)
  proof
    assume r: "reader = list_resources_endpoint actor f cursor limit"
    have "list_resources ?t f cursor n (tenant_view ?t db) = list_resources ?t f cursor n db" for n
      by (rule list_resources_cong) (simp add: tenant_view_def)
    then show ?thesis by (cases "require_permission ''inventory.resources.read'' actor")
      (auto simp: r list_resources_endpoint_def require_permission_def result_iff split: if_splits)
  next
    assume r: "reader = get_resource_endpoint actor i"
    have "get_resource ?t i (tenant_view ?t db) = get_resource ?t i db"
      unfolding get_resource_def
      by (rule find_cong_filter [of "\<lambda>r. tenant_id r = ?t"]) (simp_all add: tenant_view_def)
    then show ?thesis
      by (cases "require_permission ''inventory.resources.read'' actor")
        (auto simp: r get_resource_endpoint_def resource_or_404_def require_permission_def split: if_splits)
  qed
  show ?thesis
  proof (cases bypass)
    case True
    then show ?thesis
      by (simp add: secured_transaction row_security_def transaction_def split: sum.split)
  next
    case False
    have restored: "(tenant_view ?t db)\<lparr>resources := put_back (\<lambda>r. tenant_id r = ?t) (resources db) (resources (tenant_view ?t db))\<rparr> = db"
      by (simp add: tenant_view_def put)
    have mine: "\<forall>r \<in> set (resources (tenant_view ?t db)). tenant_id r = ?t" by (simp add: tenant_view_def)
    show ?thesis
      using False restored mine by (simp add: secured_transaction row_security_view [of to_uuid "ac_tenant_id actor", OF assms(1)] same transaction_def split: sum.split)
  qed
qed

text \<open>C35: The worker cannot store anything under the policy: its transactions set no tenant, so
  for a role that does not bypass row-level security every resource is refused, and the
  transaction that has one to store fails and leaves the inventory as it was. With a role
  that bypasses it, the transaction is the one of the worker, policy or not.\<close>

theorem worker_needs_bypass:
  "store_job_resources_secured True to_uuid env job subs rows db = store_job_resources env job subs rows db
   \<and> (if rows = [] then True
      else \<exists>e. store_job_resources_secured False to_uuid env job subs rows db = (Inl e, db))"
proof -
  let ?body = "\<lambda>db. bindr (store_resources env (tenant_id job) subs 0 rows db) (\<lambda>((changed, projections), db).
       Inr (projections, update_job (row_id job) (complete_job (wk_complete_time env) (length rows) changed) db))"
  have "\<exists>e. row_security False to_uuid [] ?body db = Inl e" if rows: "rows \<noteq> []"
  proof (cases "row_security False to_uuid [] ?body db")
    case (Inr y)
    have total: "each_result (resources_tenant_isolation to_uuid []) xs = Inr (map (\<lambda>_. False) xs)" for xs
      by (rule each_result_total) (rule policy_without_settings)
    obtain changed ps db1 where st: "store_resources env (tenant_id job) subs 0 rows (db\<lparr>resources := []\<rparr>) = Inr ((changed, ps), db1)"
      and empty: "resources db1 = []"
      using Inr by (auto simp: row_security_def total policy_without_settings result_iff Let_def list_all_iff update_job_def)
    from store_resources_nonempty [OF st] rows empty show ?thesis by simp
  qed blast
  then show ?thesis
    by (auto simp: store_job_resources_secured_def store_job_resources_def row_security_def [of True] transaction_def)
qed

end
