(* ===== verification/WorkerLoop.thy ===== *)
theory WorkerLoop
  imports InventoryWorker
begin

text \<open>
  The endless loop of the inventory worker (\<open>main\<close> of \<open>worker.py\<close>): run after run, with a
  pause of five seconds after a run that found no job. The environments of the runs are a
  list; the loop ends early only by an exception that leaves a run, which ends the process.
\<close>

datatype turn = Worked | Slept

fun worker_main ::
  "nat \<Rightarrow> 's http_post \<Rightarrow> settings \<Rightarrow> worker_env list \<Rightarrow> inventory_db \<times> 's
     \<Rightarrow> (turn list result \<times> inventory_db \<times> 's) option" where
  "worker_main pages post cfg [] st = Some (Inr [], st)"
| "worker_main pages post cfg (env # envs) st =
     (case run_once pages env post cfg st of
        None \<Rightarrow> None
      | Some (Inl e, st) \<Rightarrow> Some (Inl e, st)
      | Some (Inr worked, st) \<Rightarrow>
          (case worker_main pages post cfg envs st of
             None \<Rightarrow> None
           | Some (Inl e, st) \<Rightarrow> Some (Inl e, st)
           | Some (Inr turns, st) \<Rightarrow> Some (Inr ((if worked then Worked else Slept) # turns), st)))"

definition job_settled :: "sync_job \<Rightarrow> bool" where
  "job_settled j \<longleftrightarrow> jb_status j \<in> {''completed'', ''failed''} \<and> jb_completed_at j \<noteq> None"

text \<open>
  What the outside has to grant a run: no other transaction holds a job, the claim and the
  report of a failure are committed, and the resource graph comes to its last page. All
  else may fail.
\<close>

definition run_granted :: "nat \<Rightarrow> worker_env \<Rightarrow> bool" where
  "run_granted pages env \<longleftrightarrow> wk_locked env = {} \<and> wk_claim_commit env = None \<and> wk_fail_commit env = None
     \<and> (\<forall>ids. query_resources pages (wk_graph env) ids \<noteq> None)"

section \<open>One run\<close>

lemma upd_first_map:
  "distinct (map row_id rows) \<Longrightarrow>
     upd_first (\<lambda>r. row_id r = i) f rows = map (\<lambda>r. if row_id r = i then f r else r) rows"
proof (induction rows)
  case (Cons r rows)
  show ?case
  proof (cases "row_id r = i")
    case True
    then have "row_id x \<noteq> i" if "x \<in> set rows" for x
      using Cons.prems that True by (auto simp: rev_image_eqI)
    then have "map (\<lambda>r. if row_id r = i then f r else r) rows = rows" by (intro map_idI) auto
    with True show ?thesis by simp
  next
    case False
    with Cons show ?thesis by simp
  qed
qed simp

lemma run_once_idle:
  assumes "run_granted pages env" "\<forall>j \<in> set (sync_jobs db). \<not> job_queued now j"
  shows "run_once pages env post cfg (db, s) = Some (Inr False, db, s)"
proof -
  obtain m rows where claim: "claim_job (wk_locked env) (wk_claim_time env) (sync_jobs db) = (m, rows)" by force
  have "m = None"
  proof (cases m)
    case (Some j)
    with claim obtain r where "r \<in> set (sync_jobs db)" "job_queued (wk_claim_time env) r"
      unfolding claim_job_def by (auto elim: sync_queue.claim_Some)
    with assms(2) show ?thesis by (simp add: job_queued_def)
  qed
  with claim have "rows = sync_jobs db"
    unfolding claim_job_def using sync_queue.claim_None by blast
  with assms(1) claim \<open>m = None\<close> show ?thesis
    by (simp add: run_once_def run_granted_def transaction_def)
qed

lemma run_once_returns:
  assumes "run_granted pages env"
    and claim: "claim_job (wk_locked env) (wk_claim_time env) (sync_jobs db) = (Some job, rows)"
  shows "\<exists>db' s'. run_once pages env post cfg (db, s) = Some (Inr True, db', s')"
proof -
  have "run_job pages env post cfg job st \<noteq> None" for st
    using assms(1)
    by (auto simp: run_job_def run_granted_def Let_def split: prod.splits sum.splits option.splits)
      (metis option.distinct(1))
  then obtain r db1 s1 where "run_job pages env post cfg job (db\<lparr>sync_jobs := rows\<rparr>, s) = Some (r, db1, s1)"
    by (metis option.exhaust prod_cases3)
  with assms show ?thesis
    by (cases r) (simp_all add: run_once_def run_granted_def transaction_def)
qed

text \<open>A run with a job to do settles one that was queued and leaves every other job alone.\<close>

lemma run_once_settles:
  assumes granted: "run_granted pages env" and ok: "inventory_ok db" "distinct (map row_id (sync_jobs db))"
    and queued: "\<exists>j \<in> set (sync_jobs db). job_queued now j"
  obtains db' s' r g where "run_once pages env post cfg (db, s) = Some (Inr True, db', s')"
    "inventory_ok db'" "r \<in> set (sync_jobs db)" "job_queued now r"
    "sync_jobs db' = map (\<lambda>j. if row_id j = row_id r then g j else j) (sync_jobs db)"
    "row_id (g r) = row_id r" "job_settled (g r)"
proof -
  have "\<exists>m rows. claim_job (wk_locked env) (wk_claim_time env) (sync_jobs db) = (Some m, rows)"
    using granted queued unfolding claim_job_def
    by (auto simp: run_granted_def job_queued_def intro: sync_queue.claim_progress)
  then obtain job rows where claim: "claim_job (wk_locked env) (wk_claim_time env) (sync_jobs db) = (Some job, rows)" by blast
  then obtain r where r: "r \<in> set (sync_jobs db)" "job_queued (wk_claim_time env) r" "job = start_job (wk_claim_time env) r"
      "rows = upd_first (\<lambda>x. row_id x = row_id r) (start_job (wk_claim_time env)) (sync_jobs db)"
    unfolding claim_job_def by (auto elim: sync_queue.claim_Some)
  obtain db' s' where run: "run_once pages env post cfg (db, s) = Some (Inr True, db', s')"
    using run_once_returns [OF granted claim, of post cfg s] by blast
  obtain f where jobs: "sync_jobs db' = upd_first (\<lambda>j. row_id j = row_id job) f rows" and ok': "inventory_ok db'"
    and f: "\<And>j. row_id (f j) = row_id j" "\<And>j. job_settled (f j)"
    using run_once_tables [OF claim run ok(1)] by (auto simp: complete_job_def fail_job_def job_settled_def)
  have ids: "distinct (map row_id rows)" using ok(2) by (simp add: r(4) map_upd_first start_job_def)
  have "sync_jobs db' = map (\<lambda>j. if row_id j = row_id r then (f \<circ> start_job (wk_claim_time env)) j else j) (sync_jobs db)"
    unfolding jobs upd_first_map [OF ids]
    unfolding r(4) upd_first_map [OF ok(2)] by (simp add: r(3) start_job_def comp_def)
  from that [OF run ok' r(1) _ this] r(2) f show thesis by (simp add: job_queued_def start_job_def)
qed

section \<open>The loop\<close>

definition queued_count :: "inventory_db \<Rightarrow> nat" where
  "queued_count db = length (filter (job_queued 0) (sync_jobs db))"

definition job_outcome :: "sync_job \<Rightarrow> sync_job \<Rightarrow> bool" where
  "job_outcome j j' \<longleftrightarrow> row_id j' = row_id j \<and> (if job_queued 0 j then job_settled j' else j' = j)"

text \<open>What one run does to a job: nothing, or it settles one that was queued.\<close>

definition job_step :: "sync_job \<Rightarrow> sync_job \<Rightarrow> bool" where
  "job_step j j' \<longleftrightarrow> row_id j' = row_id j \<and> (j' = j \<or> job_queued 0 j \<and> job_settled j')"

lemma map_one_other:
  "row_id r \<notin> row_id ` set rows \<Longrightarrow> map (\<lambda>j. if row_id j = row_id r then g j else j) rows = rows"
  by (intro map_idI) (metis imageI)

lemma count_map_one:
  assumes "distinct (map row_id rows)" "r \<in> set rows" "P r" "\<not> P (g r)"
  shows "length (filter P rows) = Suc (length (filter P (map (\<lambda>j. if row_id j = row_id r then g j else j) rows)))"
  using assms(1,2)
proof (induction rows)
  case (Cons a rows)
  show ?case
  proof (cases "a = r")
    case True
    with Cons.prems(1) map_one_other [of r rows g] assms(3,4) show ?thesis by simp
  next
    case False
    then have r: "r \<in> set rows" using Cons.prems(2) by simp
    then have "row_id a \<noteq> row_id r" using Cons.prems(1) by auto
    with Cons r show ?thesis by simp
  qed
qed simp

lemma settled_not_queued: "job_settled j \<Longrightarrow> \<not> job_queued now j"
  by (auto simp: job_settled_def job_queued_def)

text \<open>A turn with a queued job settles one, which leaves one less in the queue.\<close>

lemma worker_turn:
  assumes granted: "run_granted pages env" and ok: "inventory_ok db" "distinct (map row_id (sync_jobs db))"
    and queued: "\<exists>j \<in> set (sync_jobs db). job_queued 0 j"
  obtains db1 s1 where "run_once pages env post cfg (db, s) = Some (Inr True, db1, s1)" "inventory_ok db1"
    "distinct (map row_id (sync_jobs db1))" "queued_count db = Suc (queued_count db1)"
    "list_all2 job_step (sync_jobs db) (sync_jobs db1)"
proof -
  obtain db1 s1 r g where run: "run_once pages env post cfg (db, s) = Some (Inr True, db1, s1)" and ok1: "inventory_ok db1"
    and r: "r \<in> set (sync_jobs db)" "job_queued 0 r"
    and jobs: "sync_jobs db1 = map (\<lambda>j. if row_id j = row_id r then g j else j) (sync_jobs db)"
    and g: "row_id (g r) = row_id r" "job_settled (g r)"
    by (rule run_once_settles [OF granted ok queued, of post cfg s])
  have jobs_of: "j = r" if "j \<in> set (sync_jobs db)" "row_id j = row_id r" for j
    using ok(2) r(1) that by (auto simp: distinct_map inj_on_def)
  have "queued_count db = Suc (queued_count db1)"
    unfolding queued_count_def jobs using ok(2) r g settled_not_queued by (intro count_map_one) auto
  moreover have "list_all2 job_step (sync_jobs db) (sync_jobs db1)"
    unfolding jobs list_all2_map2 job_step_def using jobs_of r(2) g by (auto simp: list.rel_refl_strong list_all2_same)
  moreover have "map row_id (sync_jobs db1) = map row_id (sync_jobs db)"
    unfolding jobs using jobs_of g(1) by auto
  ultimately show thesis using that [OF run ok1] ok(2) by simp
qed

lemma job_step_outcome:
  assumes "list_all2 job_step xs ys" "list_all2 job_outcome ys zs"
  shows "list_all2 job_outcome xs zs"
proof (rule list_all2_trans [OF _ assms])
  show "job_outcome a c" if "job_step a b" "job_outcome b c" for a b c
    using that settled_not_queued [of b 0] by (auto simp: job_outcome_def job_step_def)
qed

section \<open>Properties\<close>

text \<open>C22: No job waits for ever: while other workers hold no job, and as long as the claims and the
  reports of failures are committed and the pages of the resource graph end, the worker has
  after as many runs as there are queued jobs settled every one of them, each with its end
  stamped, and never touched another job. It does not stop, it works without a pause until
  the queue is empty, and sleeps in every turn after that. Whatever Azure, the other commits
  and the relationship service answer.\<close>

theorem worker_empties_queue:
  assumes "list_all (run_granted pages) envs" "queued_count db \<le> length envs"
    and "inventory_ok db" "distinct (map row_id (sync_jobs db))"
  shows "\<exists>db' s'. worker_main pages post cfg envs (db, s)
      = Some (Inr (replicate (queued_count db) Worked @ replicate (length envs - queued_count db) Slept), db', s')
    \<and> inventory_ok db' \<and> queued_count db' = 0 \<and> list_all2 job_outcome (sync_jobs db) (sync_jobs db')"
  using assms
proof (induction envs arbitrary: db s)
  case Nil
  then show ?case by (auto simp: queued_count_def filter_empty_conv list_all2_same job_outcome_def)
next
  case (Cons env envs)
  show ?case
  proof (cases "\<exists>j \<in> set (sync_jobs db). job_queued 0 j")
    case False
    then have "queued_count db = 0" by (simp add: queued_count_def filter_empty_conv)
    moreover have "run_once pages env post cfg (db, s) = Some (Inr False, db, s)"
      using Cons.prems(1) False by (intro run_once_idle [of _ _ _ 0]) auto
    ultimately show ?thesis using Cons.IH [of db s] Cons.prems by auto
  next
    case True
    have granted: "run_granted pages env" using Cons.prems(1) by simp
    obtain db1 s1 where run: "run_once pages env post cfg (db, s) = Some (Inr True, db1, s1)" and ok1: "inventory_ok db1"
        "distinct (map row_id (sync_jobs db1))" and count: "queued_count db = Suc (queued_count db1)"
      and step: "list_all2 job_step (sync_jobs db) (sync_jobs db1)"
      by (rule worker_turn [OF granted Cons.prems(3,4) True, of post cfg s])
    obtain db' s' where rest: "worker_main pages post cfg envs (db1, s1)
        = Some (Inr (replicate (queued_count db1) Worked @ replicate (length envs - queued_count db1) Slept), db', s')"
      and db': "inventory_ok db'" "queued_count db' = 0" "list_all2 job_outcome (sync_jobs db1) (sync_jobs db')"
      using Cons.IH [of db1 s1] Cons.prems(1,2) ok1 count by auto
    have "list_all2 job_outcome (sync_jobs db) (sync_jobs db')" by (rule job_step_outcome [OF step db'(3)])
    with rest run count db' show ?thesis by simp
  qed
qed

lemma worker_empties_queue_witness:
  "\<exists>db' s'. worker_main 1 (\<lambda>_ _ _ s. (Inr 200, s)) default_settings [sample_worker [], sample_worker []] (one_job, ())
      = Some (Inr [Worked, Slept], db', s') \<and> queued_count db' = 0"
proof -
  have "list_all (run_granted 1) [sample_worker [], sample_worker []]"
    by (simp add: run_granted_def sample_worker_def query_resources_def present_def)
  moreover have count: "queued_count one_job = 1"
    by (simp add: queued_count_def one_job_def job_queued_def sample_job_def new_job_def)
  ultimately obtain db' s' where "worker_main 1 (\<lambda>_ _ _ s. (Inr 200, s)) default_settings [sample_worker [], sample_worker []] (one_job, ())
      = Some (Inr (replicate 1 Worked @ replicate 1 Slept), db', s')" "queued_count db' = 0"
    using worker_empties_queue [of 1 "[sample_worker [], sample_worker []]" one_job "\<lambda>_ _ _ s. (Inr 200, s)" default_settings "()"]
      one_job_ok by auto
  then show ?thesis by simp
qed

end
