(* ===== verification/RelationshipRuns.thy ===== *)
theory RelationshipRuns
  imports RelationshipGraph
begin

text \<open>
  Every state that requests to the relationship service can reach satisfies the constraints
  that the theorems on its graph start from: the unique keys hold, and every edge was written
  by the one extractor there is.
\<close>

section \<open>Ids of new edges\<close>

lemma rebuild_loop_ids:
  assumes "rebuild_loop new_id clk t source ex known current n cs rows = (changed, rows')"
  shows "row_id ` set rows' \<subseteq> row_id ` set rows \<union> new_id ` {n..<n + length cs}"
  using assms
proof (induction cs arbitrary: n rows changed)
  case (Cons c cs)
  let ?loop = "rebuild_loop new_id clk t source ex known current (Suc n) cs"
  have more: "row_id ` set rows' \<subseteq> row_id ` set rows \<union> new_id ` {n..<n + length (c # cs)}"
    if "?loop rows1 = (changed1, rows')" "row_id ` set rows1 \<subseteq> insert (new_id n) (row_id ` set rows)" for rows1 changed1
  proof -
    have "row_id ` set rows' \<subseteq> row_id ` set rows1 \<union> new_id ` {Suc n..<Suc n + length cs}"
      using Cons.IH [OF that(1)] .
    moreover have "{n..<n + length (c # cs)} = insert n {Suc n..<Suc n + length cs}" by auto
    then have "new_id ` {n..<n + length (c # cs)} = insert (new_id n) (new_id ` {Suc n..<Suc n + length cs})" by simp
    ultimately show ?thesis using that(2) by blast
  qed
  show ?case
  proof (cases "find (\<lambda>x. tenant_id x = t \<and> nd_normalized_resource_id x = cd_target_resource_id c) known")
    case None
    then show ?thesis using Cons.prems by (intro more [of rows changed]) auto
  next
    case (Some target)
    note target = Some
    show ?thesis
    proof (cases "nd_inventory_resource_id target = nd_inventory_resource_id source")
      case True
      then show ?thesis using Cons.prems target by (intro more [of rows changed]) auto
    next
      case False
      show ?thesis
      proof (cases "find (\<lambda>e. re_target_resource_id e = nd_inventory_resource_id target
            \<and> re_relationship_type e = cd_relationship_type c) current")
        case None
        obtain changed1 where "?loop (rows @ [new_edge (new_id n) clk t source ex c target]) = (changed1, rows')"
          using Cons.prems target False None by (auto split: prod.splits)
        then show ?thesis by (rule more) (auto simp: new_edge_def)
      next
        case (Some e)
        have "map row_id (upd_first (\<lambda>x. row_id x = row_id e) (observe_edge clk c) rows) = map row_id rows"
          by (rule map_upd_first) (simp add: observe_edge_def)
        then have "row_id ` set (upd_first (\<lambda>x. row_id x = row_id e) (observe_edge clk c) rows) = row_id ` set rows"
          by (metis set_map)
        moreover have "?loop (upd_first (\<lambda>x. row_id x = row_id e) (observe_edge clk c) rows) = (changed, rows')"
          using Cons.prems target False Some by simp
        ultimately show ?thesis by (intro more) auto
      qed
    qed
  qed
qed simp

lemma rebuild_edges_ids:
  assumes "rebuild_edges plan new_id clk t source ex cs db = (changed, db')"
  shows "row_id ` set (edges db') \<subseteq> row_id ` set (edges db) \<union> new_id ` {..<length cs}"
proof -
  obtain current inactive rows where loop: "rebuild_loop new_id clk t source ex (nodes db) current 0 cs inactive = (changed, rows)"
      and inactive: "inactive = map (\<lambda>e. if written_by t (nd_inventory_resource_id source) (ex_name ex) e
        then e\<lparr>re_is_active := False\<rparr> else e) (edges db)"
      and db': "db' = db\<lparr>edges := flush_edges (tx_now clk) (edges db) rows\<rparr>"
    using assms unfolding rebuild_edges_def Let_def by (auto split: prod.splits)
  have "map row_id inactive = map row_id (edges db)" by (simp add: inactive)
  then have old: "row_id ` set inactive = row_id ` set (edges db)" by (metis set_map)
  have "map fst (map edge_view (flush_edges (tx_now clk) (edges db) rows)) = map fst (map edge_view rows)"
    by (simp only: flush_edges_view)
  then have "map row_id (edges db') = map row_id rows" by (simp add: db' edge_view_def comp_def)
  then have "row_id ` set (edges db') = row_id ` set rows" by (metis set_map)
  with rebuild_loop_ids [OF loop] old show ?thesis by (simp add: atLeast0LessThan)
qed

section \<open>Every operation keeps the constraints\<close>

text \<open>The ids that a rebuild may draw: distinct, and no edge has them.\<close>

definition fresh_ids :: "(nat \<Rightarrow> uuid) \<Rightarrow> nat \<Rightarrow> relationship_db \<Rightarrow> bool" where
  "fresh_ids new_id n db \<longleftrightarrow> inj_on new_id {..<n} \<and> new_id ` {..<n} \<inter> row_id ` set (edges db) = {}"

abbreviation references_of :: "resource_node \<Rightarrow> nat" where
  "references_of n \<equiv> length (extract_references (nd_properties n))"

lemma run_extractors_ok:
  assumes "relationship_ok db" "fresh_ids new_id k db" "references_of n \<le> k"
    and "run_extractors plan new_id clk t n DEFAULT_EXTRACTORS db = (changed, db')"
  shows "relationship_ok db' \<and> row_id ` set (edges db') \<subseteq> row_id ` set (edges db) \<union> new_id ` {..<k}"
proof (cases "ex_supports arm_reference (nd_resource_type n)")
  case True
  then have run: "rebuild_edges plan new_id clk t n arm_reference (extract_references (nd_properties n)) db = (changed, db')"
    using assms(4) by (simp add: DEFAULT_EXTRACTORS_def arm_reference_def Let_def split: prod.splits)
  have sub: "{..<references_of n} \<subseteq> {..<k}" using assms(3) by auto
  have inj: "inj_on new_id {..<references_of n}" using assms(2) sub unfolding fresh_ids_def by (meson inj_on_subset)
  have fresh: "\<forall>i < references_of n. new_id i \<notin> row_id ` set (edges db)"
    using assms(2,3) unfolding fresh_ids_def by (auto simp: disjoint_iff)
  have name: "ex_name arm_reference = ''arm-reference''" by (simp add: arm_reference_def)
  have "relationship_ok db'"
    by (rule conjunct1 [OF rebuild_edges_correct [OF assms(1) name extract_candidates(1) inj fresh run]])
  moreover have "row_id ` set (edges db') \<subseteq> row_id ` set (edges db) \<union> new_id ` {..<k}"
    by (rule subset_trans [OF rebuild_edges_ids [OF run] Un_mono [OF subset_refl image_mono [OF sub]]])
  ultimately show ?thesis ..
next
  case False
  then show ?thesis using assms(1,4) by (simp add: DEFAULT_EXTRACTORS_def)
qed

lemma refresh_node_fields:
  "row_id (refresh_node a n) = row_id n" "tenant_id (refresh_node a n) = tenant_id n"
  "nd_normalized_resource_id (refresh_node a n) = nd_normalized_resource_id n"
  by (cases a, simp add: refresh_node_def flushed_def)+

lemma upsert_node_ok:
  assumes "relationship_ok db" "upsert_node i now e db = Inr (n, db')"
  shows "relationship_ok db'" "edges db' = edges db"
    "nd_properties n = pe_properties e \<or> (\<exists>x \<in> set (nodes db). nd_properties n = nd_properties x)"
proof -
  let ?a = "(i, now, e)"
  obtain created rows where g: "get_or_put (\<lambda>n. node_key n = node_args_key ?a) (new_node ?a) (refresh_node ?a) (nodes db)
        = (n, created, rows)"
      and db': "db' = db\<lparr>nodes := rows\<rparr>"
      and free: "created \<Longrightarrow> find (\<lambda>n. tenant_id n = pe_tenant_id e
          \<and> nd_normalized_resource_id n = lower (pe_azure_resource_id e)) (nodes db) = None"
    using assms(2) by (auto simp: upsert_node_def Let_def split: prod.splits if_splits)
  show "edges db' = edges db" by (simp add: db')
  have ok: "distinct (map node_key (nodes db))" "distinct (map (\<lambda>n. (tenant_id n, nd_normalized_resource_id n)) (nodes db))"
    using assms(1) by (simp_all add: relationship_ok_def)
  have "distinct (map node_key rows)"
    unfolding get_or_put_upsert [OF g] using ok(1) by (rule node_table.unique_put)
  moreover have "distinct (map (\<lambda>n. (tenant_id n, nd_normalized_resource_id n)) rows)"
  proof (cases "find (\<lambda>n. node_key n = node_args_key ?a) (nodes db)")
    case None
    with g have r: "rows = nodes db @ [new_node ?a]" created by (auto simp: get_or_put_def)
    have "(pe_tenant_id e, lower (pe_azure_resource_id e)) \<notin> (\<lambda>n. (tenant_id n, nd_normalized_resource_id n)) ` set (nodes db)"
      by (rule find_None_key) (use free [OF r(2)] in simp)
    then show ?thesis using ok(2) by (simp add: r(1) new_node_def)
  next
    case (Some x)
    with g have "rows = upd_first (\<lambda>n. node_key n = node_args_key ?a) (refresh_node ?a) (nodes db)" by (simp add: get_or_put_def)
    then show ?thesis using ok(2) by (simp add: map_upd_first refresh_node_fields)
  qed
  ultimately show "relationship_ok db'" using assms(1) by (simp add: relationship_ok_def db')
  show "nd_properties n = pe_properties e \<or> (\<exists>x \<in> set (nodes db). nd_properties n = nd_properties x)"
  proof (cases "find (\<lambda>n. node_key n = node_args_key ?a) (nodes db)")
    case None
    with g show ?thesis by (auto simp: get_or_put_def new_node_def)
  next
    case (Some x)
    with g have "n = refresh_node ?a x" by (simp add: get_or_put_def)
    moreover have "x \<in> set (nodes db)" using find_Some_in [OF Some] by simp
    ultimately show ?thesis by (auto simp: refresh_node_def flushed_def)
  qed
qed

lemma project_and_extract_ok:
  assumes "project_and_extract plan i new_id clk e db = Inr (changed, db')" "relationship_ok db" "fresh_ids new_id k db"
    and "length (extract_references (pe_properties e)) \<le> k" "\<forall>n \<in> set (nodes db). references_of n \<le> k"
  shows "relationship_ok db'"
proof -
  obtain n db1 where up: "upsert_node i (tx_now clk) e db = Inr (n, db1)"
      and run: "run_extractors plan new_id clk (pe_tenant_id e) n DEFAULT_EXTRACTORS db1 = (changed, db')"
    using assms(1) by (auto simp: project_and_extract_def result_iff)
  note u = upsert_node_ok [OF assms(2) up]
  have "references_of n \<le> k" using u(3) assms(4,5) by auto
  moreover have "fresh_ids new_id k db1" using assms(3) u(2) by (simp add: fresh_ids_def)
  ultimately show ?thesis using run_extractors_ok [OF u(1) _ _ run] by blast
qed

lemma disjoint_cover: "X \<inter> A = {} \<Longrightarrow> X \<inter> B = {} \<Longrightarrow> Y \<subseteq> B \<union> A \<Longrightarrow> X \<inter> Y = {}"
  by blast

lemma rebuild_nodes_ok:
  assumes "rebuild_nodes plan new_id clk t ns db = (changed, db')" "relationship_ok db" "distinct (map row_id ns)"
    and "\<forall>n \<in> set ns. references_of n \<le> k"
    and "inj_on (\<lambda>(i, j). new_id i j) (row_id ` set ns \<times> {..<k})"
    and "\<forall>i \<in> row_id ` set ns. new_id i ` {..<k} \<inter> row_id ` set (edges db) = {}"
  shows "relationship_ok db'"
  using assms
proof (induction ns arbitrary: db changed)
  case (Cons n ns)
  obtain c1 db1 where one: "run_extractors plan (new_id (row_id n)) clk t n DEFAULT_EXTRACTORS db = (c1, db1)" by force
  obtain c2 where rest: "rebuild_nodes plan new_id clk t ns db1 = (c2, db')"
    using Cons.prems(1) one by (auto split: prod.splits)
  have pair: "a = i \<and> b = j" if "new_id a b = new_id i j" "a \<in> row_id ` set (n # ns)" "i \<in> row_id ` set (n # ns)" "b < k" "j < k" for a b i j
  proof -
    have "(a, b) = (i, j)" by (rule inj_onD [OF Cons.prems(5)]) (use that in simp_all)
    then show ?thesis by simp
  qed
  have "inj_on (new_id (row_id n)) {..<k}"
  proof (rule inj_onI)
    fix b j
    assume "b \<in> {..<k}" "j \<in> {..<k}" "new_id (row_id n) b = new_id (row_id n) j"
    then show "b = j" using pair [of "row_id n" b "row_id n" j] by simp
  qed
  then have "fresh_ids (new_id (row_id n)) k db" using Cons.prems(6) by (simp add: fresh_ids_def)
  note here = run_extractors_ok [OF Cons.prems(2) this _ one]
  have ok: "relationship_ok db1" "row_id ` set (edges db1) \<subseteq> row_id ` set (edges db) \<union> new_id (row_id n) ` {..<k}"
    using here Cons.prems(4) by auto
  have "new_id i ` {..<k} \<inter> row_id ` set (edges db1) = {}" if i: "i \<in> row_id ` set ns" for i
  proof -
    have "row_id n \<notin> row_id ` set ns" using Cons.prems(3) by simp
    have "i \<noteq> row_id n"
    proof
      assume eq: "i = row_id n"
      show False using \<open>row_id n \<notin> row_id ` set ns\<close> i unfolding eq by contradiction
    qed
    have "False" if x: "x \<in> new_id i ` {..<k}" "x \<in> new_id (row_id n) ` {..<k}" for x
    proof -
      obtain a b where ab: "a < k" "b < k" "new_id i a = new_id (row_id n) b"
        using x by auto
      have "i \<in> row_id ` set (n # ns)" "row_id n \<in> row_id ` set (n # ns)" using i by simp_all
      from pair [OF ab(3) this ab(1,2)] \<open>i \<noteq> row_id n\<close> show False by simp
    qed
    then have "new_id i ` {..<k} \<inter> new_id (row_id n) ` {..<k} = {}" by blast
    moreover have "new_id i ` {..<k} \<inter> row_id ` set (edges db) = {}"
      using i by (intro bspec [OF Cons.prems(6)]) simp
    ultimately show ?thesis using ok(2) by (rule disjoint_cover)
  qed
  moreover have "inj_on (\<lambda>(i, j). new_id i j) (row_id ` set ns \<times> {..<k})"
    using Cons.prems(5) by (rule inj_on_subset) auto
  ultimately show ?case using Cons.IH [OF rest ok(1)] Cons.prems(3,4) by simp
qed simp

section \<open>Reachable states\<close>

text \<open>
  What the requests of one instant may draw as new ids: the n-th edge of a node and the node
  itself. \<open>uuid4\<close> never repeats an id; \<open>k\<close> bounds the references of the nodes involved.
\<close>

definition fresh_env :: "project_env \<Rightarrow> nat \<Rightarrow> relationship_db \<Rightarrow> bool" where
  "fresh_env env k db \<longleftrightarrow> inj_on (\<lambda>(i, j). pv_edge_id env i j) (insert 0 (row_id ` set (nodes db)) \<times> {..<k})
     \<and> (\<forall>i \<in> insert 0 (row_id ` set (nodes db)). pv_edge_id env i ` {..<k} \<inter> row_id ` set (edges db) = {})
     \<and> pv_node_id env \<notin> row_id ` set (nodes db) \<and> (\<forall>n \<in> set (nodes db). references_of n \<le> k)"

inductive relationship_reachable :: "settings \<Rightarrow> relationship_db \<Rightarrow> bool" for cfg where
  start: "relationship_reachable cfg \<lparr>outbox = [], nodes = [], edges = []\<rparr>"
| project: "relationship_reachable cfg db \<Longrightarrow> fresh_env env k db
    \<Longrightarrow> length (extract_references (pe_properties e)) \<le> k
    \<Longrightarrow> relationship_reachable cfg (snd (project_resource_endpoint env cfg token e db))"
| rebuild: "relationship_reachable cfg db \<Longrightarrow> fresh_env env k db
    \<Longrightarrow> relationship_reachable cfg (snd (rebuild_relationships_endpoint env cfg token t db))"
| query: "relationship_reachable cfg db
    \<Longrightarrow> relationship_reachable cfg (snd (graph_endpoint genv actor q db))"

definition service_ok :: "relationship_db \<Rightarrow> bool" where
  "service_ok db \<longleftrightarrow> relationship_ok db \<and> distinct (map row_id (nodes db))"

lemma upsert_node_row_ids:
  assumes "upsert_node i now e db = Inr (n, db')" "distinct (map row_id (nodes db))" "i \<notin> row_id ` set (nodes db)"
  shows "distinct (map row_id (nodes db'))"
proof -
  obtain created rows where g: "get_or_put (\<lambda>n. node_key n = node_args_key (i, now, e)) (new_node (i, now, e)) (refresh_node (i, now, e))
        (nodes db) = (n, created, rows)" and db': "db' = db\<lparr>nodes := rows\<rparr>"
    using assms(1) by (auto simp: upsert_node_def Let_def split: prod.splits if_splits)
  have "distinct (map row_id rows)"
    by (rule get_or_put_ids [OF g assms(2)]) (simp_all add: new_node_def refresh_node_fields assms(3))
  then show ?thesis by (simp add: db')
qed

lemma run_extractors_same_nodes: "run_extractors plan new_id clk t n exs db = (c, db') \<Longrightarrow> nodes db' = nodes db"
proof (induction exs arbitrary: db c)
  case (Cons ex exs)
  have "nodes db1 = nodes db" if "rebuild_edges plan new_id clk t n ex cs db = (c1, db1)" for cs c1 db1
    using that by (auto simp: rebuild_edges_def Let_def split: prod.splits)
  with Cons show ?case by (auto simp: Let_def split: if_splits prod.splits)
qed simp

lemma rebuild_nodes_same_nodes: "rebuild_nodes plan new_id clk t ns db = (c, db') \<Longrightarrow> nodes db' = nodes db"
proof (induction ns arbitrary: db c)
  case (Cons n ns)
  then obtain c1 db1 c2 where "run_extractors plan (new_id (row_id n)) clk t n DEFAULT_EXTRACTORS db = (c1, db1)"
      "rebuild_nodes plan new_id clk t ns db1 = (c2, db')"
    by (auto simp: Let_def split: prod.splits)
  then show ?case using Cons.IH run_extractors_same_nodes by metis
qed simp

lemma project_service_ok:
  assumes "service_ok db" "fresh_env env k db" "length (extract_references (pe_properties e)) \<le> k"
    and "project_and_extract (pv_plan env) (pv_node_id env) (pv_edge_id env 0) (pv_clock env) e db = Inr (changed, db')"
  shows "service_ok db'"
proof -
  have env: "inj_on (\<lambda>(i, j). pv_edge_id env i j) (insert 0 (row_id ` set (nodes db)) \<times> {..<k})"
      "pv_edge_id env 0 ` {..<k} \<inter> row_id ` set (edges db) = {}" "pv_node_id env \<notin> row_id ` set (nodes db)"
      "\<forall>n \<in> set (nodes db). references_of n \<le> k"
    using assms(2) by (simp_all add: fresh_env_def)
  have "inj_on (pv_edge_id env 0) {..<k}"
  proof (rule inj_onI)
    fix i j
    assume ij: "i \<in> {..<k}" "j \<in> {..<k}" "pv_edge_id env 0 i = pv_edge_id env 0 j"
    have "(0 :: uuid, i) = (0, j)" by (rule inj_onD [OF env(1)]) (use ij in simp_all)
    then show "i = j" by simp
  qed
  then have "fresh_ids (pv_edge_id env 0) k db" using env(2) by (simp add: fresh_ids_def)
  then have ok: "relationship_ok db'"
    using project_and_extract_ok [OF assms(4)] assms(1,3) env(4) by (simp add: service_ok_def)
  obtain n db1 where up: "upsert_node (pv_node_id env) (tx_now (pv_clock env)) e db = Inr (n, db1)"
      and run: "run_extractors (pv_plan env) (pv_edge_id env 0) (pv_clock env) (pe_tenant_id e) n DEFAULT_EXTRACTORS db1 = (changed, db')"
    using assms(4) by (auto simp: project_and_extract_def result_iff)
  have "distinct (map row_id (nodes db1))"
    using upsert_node_row_ids [OF up] assms(1) env(3) by (simp add: service_ok_def)
  then show ?thesis using ok run_extractors_same_nodes [OF run] by (simp add: service_ok_def)
qed

lemma rebuild_service_ok:
  assumes "service_ok db" "fresh_env env k db"
    and "rebuild_all (pv_node_plan env) (pv_plan env) (pv_edge_id env) (pv_clock env) t db = (changed, db')"
  shows "service_ok db'"
proof -
  let ?ns = "list_nodes (pv_node_plan env) t db"
  have run: "rebuild_nodes (pv_plan env) (pv_edge_id env) (pv_clock env) t ?ns db = (changed, db')"
    using assms(3) by (simp add: rebuild_all_def)
  have sub: "set ?ns \<subseteq> set (nodes db)" by (auto simp: list_nodes_def)
  have m: "mset (map row_id ?ns) = mset (map row_id (filter (\<lambda>n. tenant_id n = t \<and> nd_is_active n) (nodes db)))"
    by (simp add: list_nodes_def)
  have d: "distinct (map row_id ?ns)"
    by (rule iffD2 [OF mset_eq_imp_distinct_iff [OF m]])
      (use assms(1) in \<open>simp add: service_ok_def distinct_map_filter\<close>)
  have ids: "row_id ` set ?ns \<subseteq> insert 0 (row_id ` set (nodes db))" using sub by auto
  have "inj_on (\<lambda>(i, j). pv_edge_id env i j) (row_id ` set ?ns \<times> {..<k})"
    using assms(2) unfolding fresh_env_def by (elim conjE inj_on_subset) (use ids in auto)
  moreover have all: "\<forall>i \<in> insert 0 (row_id ` set (nodes db)). pv_edge_id env i ` {..<k} \<inter> row_id ` set (edges db) = {}"
      "\<forall>n \<in> set (nodes db). references_of n \<le> k"
    using assms(2) unfolding fresh_env_def by blast+
  have "\<forall>i \<in> row_id ` set ?ns. pv_edge_id env i ` {..<k} \<inter> row_id ` set (edges db) = {}"
    by (intro ballI bspec [OF all(1)] subsetD [OF ids])
  moreover have "\<forall>n \<in> set ?ns. references_of n \<le> k" by (intro ballI bspec [OF all(2)] subsetD [OF sub])
  ultimately have "relationship_ok db'"
    using rebuild_nodes_ok [OF run _ d] assms(1) by (simp add: service_ok_def)
  then show ?thesis using assms(1) rebuild_nodes_same_nodes [OF run] by (simp add: service_ok_def)
qed

section \<open>Properties\<close>

text \<open>C18: The graph's tables never break their constraints: in every state that projections, rebuilds and
  queries reach, with whatever failed commits and rejected credentials, no two edges have the
  same tenant, ends, type and source, no two nodes of a tenant the same resource or ARM id, ids
  are unique, and every edge was written by the ARM extractor.\<close>

theorem relationship_tables_keep_keys:
  assumes "relationship_reachable cfg db"
  shows "distinct (map row_id (edges db)) \<and> distinct (map edge_key (edges db))
    \<and> distinct (map row_id (nodes db)) \<and> distinct (map node_key (nodes db))
    \<and> distinct (map (\<lambda>n. (tenant_id n, nd_normalized_resource_id n)) (nodes db))
    \<and> (\<forall>e \<in> set (edges db). re_extractor_name e = ''arm-reference'')"
proof -
  have "service_ok db"
    using assms
  proof (induction rule: relationship_reachable.induct)
    case start
    show ?case by (simp add: service_ok_def relationship_ok_def)
  next
    case (project db env k e token)
    then show ?case using project_service_ok
      by (auto simp: project_resource_endpoint_def unit_of_work_transaction transaction_def result_iff
          split: sum.split option.split)
  next
    case (rebuild db env k token t)
    obtain changed db' where run: "rebuild_all (pv_node_plan env) (pv_plan env) (pv_edge_id env) (pv_clock env) t db = (changed, db')"
      by force
    with rebuild rebuild_service_ok [OF _ _ run] show ?case
      by (auto simp: rebuild_relationships_endpoint_def unit_of_work_transaction transaction_def
          split: sum.split option.split)
  next
    case (query db genv actor q)
    then show ?case
      by (auto simp: graph_endpoint_def unit_of_work_transaction transaction_def enqueue_audit_def service_ok_def
          relationship_ok_def Let_def split: sum.split option.split)
  qed
  then show ?thesis by (simp add: service_ok_def relationship_ok_def)
qed

definition sample_project_env :: project_env where
  "sample_project_env = \<lparr>pv_plan = (\<lambda>_. 0), pv_node_plan = (\<lambda>_. 0), pv_node_id = 1, pv_edge_id = (\<lambda>_ n. word_of_nat n),
     pv_clock = instant 0, pv_commit = None\<rparr>"

definition sample_projection :: projection_event where
  "sample_projection = \<lparr>pe_tenant_id = 2, pe_inventory_resource_id = 3, pe_azure_resource_id = ''/a'', pe_name = [],
     pe_resource_type = ''microsoft.web/sites'', pe_resource_group = [], pe_properties = []\<rparr>"

lemma relationship_tables_keep_keys_witness:
  "let db = snd (project_resource_endpoint sample_project_env (default_settings\<lparr>internal_api_token := Some ''token''\<rparr>)
      (Some ''token'') sample_projection \<lparr>outbox = [], nodes = [], edges = []\<rparr>)
   in map node_key (nodes db) = [(2, 3)] \<and> distinct (map row_id (nodes db)) \<and> distinct (map edge_key (edges db))"
proof -
  let ?cfg = "default_settings\<lparr>internal_api_token := Some ''token''\<rparr>" and ?empty = "\<lparr>outbox = [], nodes = [], edges = []\<rparr> :: relationship_db"
  let ?db = "snd (project_resource_endpoint sample_project_env ?cfg (Some ''token'') sample_projection ?empty)"
  have "extract_references [] = []" by (simp add: extract_references_def)
  then have "relationship_reachable ?cfg ?db"
    by (intro relationship_reachable.project [where k = 0] relationship_reachable.start)
      (simp_all add: fresh_env_def sample_project_env_def sample_projection_def)
  note ok = relationship_tables_keep_keys [OF this]
  obtain db' where "project_and_extract (\<lambda>_. 0) 1 (\<lambda>n. word_of_nat n) (instant 0) sample_projection ?empty = Inr db'"
    by (simp add: project_and_extract_def upsert_node_def get_or_put_def split: prod.split)
  then obtain c g where run: "project_and_extract (\<lambda>_. 0) 1 (\<lambda>n. word_of_nat n) (instant 0) sample_projection ?empty = Inr (c, g)"
    by (cases db') simp
  then have db: "?db = g"
    by (simp add: project_resource_endpoint_def internal_guard_def present_def unit_of_work_transaction transaction_def
        db_fault_def sample_project_env_def)
  have "map node_key (nodes g) = [(2, 3)]"
  proof -
    obtain n db1 where up: "upsert_node 1 0 sample_projection ?empty = Inr (n, db1)"
        and "run_extractors (\<lambda>_. 0) (\<lambda>n. word_of_nat n) (instant 0) 2 n DEFAULT_EXTRACTORS db1 = (c, g)"
      using run by (auto simp: project_and_extract_def result_iff instant_def sample_projection_def)
    then have "nodes g = nodes db1" using run_extractors_same_nodes by metis
    moreover have "map node_key (nodes db1) = [(2, 3)]"
      using up by (simp add: upsert_node_def get_or_put_def new_node_def sample_projection_def) (auto simp: Let_def)
    ultimately show ?thesis by simp
  qed
  with ok show ?thesis unfolding Let_def db by simp
qed

end
