(* ===== verification/Creation.thy ===== *)
theory Creation
  imports Inventory Operations
begin

text \<open>
  Idempotent creation when requests overlap: looking for the row of an idempotency key and
  inserting one if there is none (\<open>create_sync_job\<close> of the inventory's \<open>repository.py\<close>,
  \<open>create\<close> of the operations' \<open>main.py\<close>) are two statements, each sees what is committed when
  it runs, and the unique constraint of the table decides between transactions that both
  found nothing. An insert waits while another transaction holds the key uncommitted.
\<close>

section \<open>Overlapping transactions\<close>

text \<open>A transaction has begun, has found no row, or holds the row that it inserted.\<close>

datatype 'r phase = Begun | Not_found | Inserted 'r

record ('a, 'r) creators =
  cr_rows :: "'r list"
  cr_open :: "nat \<Rightarrow> ('a \<times> 'r phase) option"
  cr_done :: "nat \<Rightarrow> ('a \<times> 'r result) option"

definition creators_start :: "'r list \<Rightarrow> ('a, 'r) creators" where
  "creators_start rows = \<lparr>cr_rows = rows, cr_open = (\<lambda>_. None), cr_done = (\<lambda>_. None)\<rparr>"

definition finish :: "nat \<Rightarrow> 'a \<Rightarrow> 'r result \<Rightarrow> 'r list \<Rightarrow> ('a, 'r) creators \<Rightarrow> ('a, 'r) creators" where
  "finish i a r rows st = \<lparr>cr_rows = rows, cr_open = (cr_open st)(i := None), cr_done = (cr_done st)(i \<mapsto> (a, r))\<rparr>"

inductive creation_step ::
  "('r \<Rightarrow> 'k) \<Rightarrow> ('a \<Rightarrow> 'k) \<Rightarrow> ('a \<Rightarrow> 'r) \<Rightarrow> ('a, 'r) creators \<Rightarrow> ('a, 'r) creators \<Rightarrow> bool"
  for key :: "'r \<Rightarrow> 'k" and arg_key :: "'a \<Rightarrow> 'k" and make :: "'a \<Rightarrow> 'r" where
  begin_tx: "cr_open st i = None \<Longrightarrow> cr_done st i = None \<Longrightarrow>
    creation_step key arg_key make st (st\<lparr>cr_open := (cr_open st)(i \<mapsto> (a, Begun))\<rparr>)"
| found: "cr_open st i = Some (a, Begun) \<Longrightarrow> find (\<lambda>r. key r = arg_key a) (cr_rows st) = Some r \<Longrightarrow>
    creation_step key arg_key make st (finish i a (Inr r) (cr_rows st) st)"
| absent: "cr_open st i = Some (a, Begun) \<Longrightarrow> find (\<lambda>r. key r = arg_key a) (cr_rows st) = None \<Longrightarrow>
    creation_step key arg_key make st (st\<lparr>cr_open := (cr_open st)(i \<mapsto> (a, Not_found))\<rparr>)"
| insert_row: "cr_open st i = Some (a, Not_found) \<Longrightarrow> find (\<lambda>r. key r = arg_key a) (cr_rows st) = None \<Longrightarrow>
    (\<And>j b r. cr_open st j = Some (b, Inserted r) \<Longrightarrow> key r \<noteq> arg_key a) \<Longrightarrow>
    creation_step key arg_key make st (st\<lparr>cr_open := (cr_open st)(i \<mapsto> (a, Inserted (make a)))\<rparr>)"
| refused: "cr_open st i = Some (a, Not_found) \<Longrightarrow> find (\<lambda>r. key r = arg_key a) (cr_rows st) = Some r \<Longrightarrow>
    creation_step key arg_key make st (finish i a (Inl unique_violation) (cr_rows st) st)"
| commit: "cr_open st i = Some (a, Inserted r) \<Longrightarrow>
    creation_step key arg_key make st (finish i a (Inr r) (cr_rows st @ [r]) st)"
| abort: "cr_open st i = Some (a, p) \<Longrightarrow> e \<noteq> unique_violation \<Longrightarrow>
    creation_step key arg_key make st (finish i a (Inl e) (cr_rows st) st)"

section \<open>The contract\<close>

locale creation =
  fixes key :: "'r \<Rightarrow> 'k"
    and arg_key :: "'a \<Rightarrow> 'k"
    and make :: "'a \<Rightarrow> 'r"
  assumes key_make: "key (make a) = arg_key a"
begin

abbreviation step :: "('a, 'r) creators \<Rightarrow> ('a, 'r) creators \<Rightarrow> bool" where
  "step \<equiv> creation_step key arg_key make"

definition creation_ok :: "'r list \<Rightarrow> ('a, 'r) creators \<Rightarrow> bool" where
  "creation_ok rows st \<longleftrightarrow> distinct (map key (cr_rows st)) \<and> (\<exists>new. cr_rows st = rows @ new)
     \<and> (\<forall>i a r. cr_open st i = Some (a, Inserted r) \<longrightarrow> r = make a \<and> arg_key a \<notin> key ` set (cr_rows st))
     \<and> (\<forall>i j a b r s. cr_open st i = Some (a, Inserted r) \<longrightarrow> cr_open st j = Some (b, Inserted s) \<longrightarrow> i \<noteq> j \<longrightarrow> arg_key a \<noteq> arg_key b)
     \<and> (\<forall>i a r. cr_done st i = Some (a, Inr r) \<longrightarrow> r \<in> set (cr_rows st) \<and> key r = arg_key a)
     \<and> (\<forall>i a. cr_done st i = Some (a, Inl unique_violation) \<longrightarrow> arg_key a \<in> key ` set (cr_rows st))"

lemma creation_ok_start: "distinct (map key rows) \<Longrightarrow> creation_ok rows (creators_start rows)"
  by (simp add: creation_ok_def creators_start_def)

lemma creation_ok_step: "step st st' \<Longrightarrow> creation_ok rows st \<Longrightarrow> creation_ok rows st'"
proof (induction rule: creation_step.induct)
  case (begin_tx st i a)
  then show ?case by (auto simp: creation_ok_def)
next
  case (found st i a r)
  moreover have "r \<in> set (cr_rows st)" "key r = arg_key a" using found(2) by (auto dest: find_Some_in)
  ultimately show ?case by (auto simp: creation_ok_def finish_def unique_violation_def)
next
  case (absent st i a)
  then show ?case by (auto simp: creation_ok_def)
next
  case (insert_row st i a)
  moreover have "arg_key a \<notin> key ` set (cr_rows st)" using insert_row(2) by (rule find_None_key)
  moreover have "arg_key b \<noteq> arg_key a" if "cr_open st j = Some (b, Inserted r)" for j b r
  proof -
    have "r = make b" using insert_row(4) that by (auto simp: creation_ok_def)
    with insert_row(3) [OF that] show ?thesis by (simp add: key_make)
  qed
  ultimately show ?case unfolding creation_ok_def by (auto simp: key_make) metis+
next
  case (refused st i a r)
  moreover have "arg_key a \<in> key ` set (cr_rows st)" using find_Some_in [OF refused(2)] by force
  ultimately show ?case by (auto simp: creation_ok_def finish_def unique_violation_def)
next
  case (commit st i a r)
  have held: "s = make b" "arg_key b \<notin> key ` set (cr_rows st)" if "cr_open st j = Some (b, Inserted s)" for j b s
    using commit(2) that unfolding creation_ok_def by blast+
  have others: "arg_key b \<noteq> key r" if "cr_open st j = Some (b, Inserted s)" "j \<noteq> i" for j b s
  proof -
    have "arg_key a \<noteq> arg_key b" using commit that unfolding creation_ok_def by blast
    with held(1) [OF commit(1)] show ?thesis by (simp add: key_make)
  qed
  have pairs: "\<forall>i j a b r s. cr_open st i = Some (a, Inserted r) \<longrightarrow> cr_open st j = Some (b, Inserted s) \<longrightarrow> i \<noteq> j \<longrightarrow> arg_key a \<noteq> arg_key b"
    using commit(2) unfolding creation_ok_def by blast
  have new: "key r = arg_key a" "key r \<notin> key ` set (cr_rows st)"
    using held [OF commit(1)] by (simp_all add: key_make)
  show ?case
    unfolding creation_ok_def
  proof (intro conjI allI impI)
    show "distinct (map key (cr_rows (finish i a (Inr r) (cr_rows st @ [r]) st)))"
      using commit(2) new by (simp add: creation_ok_def finish_def)
    show "\<exists>new. cr_rows (finish i a (Inr r) (cr_rows st @ [r]) st) = rows @ new"
      using commit(2) by (auto simp: creation_ok_def finish_def)
  next
    fix j b s
    assume open_j: "cr_open (finish i a (Inr r) (cr_rows st @ [r]) st) j = Some (b, Inserted s)"
    then have j: "cr_open st j = Some (b, Inserted s)" "j \<noteq> i" by (simp_all add: finish_def split: if_splits)
    show "s = make b" "arg_key b \<notin> key ` set (cr_rows (finish i a (Inr r) (cr_rows st @ [r]) st))"
      using held [OF j(1)] others [OF j] by (simp_all add: finish_def)
  next
    fix j k b c s u
    assume "cr_open (finish i a (Inr r) (cr_rows st @ [r]) st) j = Some (b, Inserted s)"
      "cr_open (finish i a (Inr r) (cr_rows st @ [r]) st) k = Some (c, Inserted u)" "j \<noteq> k"
    then have "cr_open st j = Some (b, Inserted s)" "cr_open st k = Some (c, Inserted u)" "j \<noteq> k"
      by (simp_all add: finish_def split: if_splits)
    with pairs show "arg_key b \<noteq> arg_key c" by blast
  next
    fix j b s
    assume "cr_done (finish i a (Inr r) (cr_rows st @ [r]) st) j = Some (b, Inr s)"
    then show "s \<in> set (cr_rows (finish i a (Inr r) (cr_rows st @ [r]) st))" "key s = arg_key b"
      using commit(2) new by (auto simp: creation_ok_def finish_def split: if_splits)
  next
    fix j b
    assume "cr_done (finish i a (Inr r) (cr_rows st @ [r]) st) j = Some (b, Inl unique_violation)"
    then have "cr_done st j = Some (b, Inl unique_violation)" by (simp add: finish_def split: if_splits)
    then show "arg_key b \<in> key ` set (cr_rows (finish i a (Inr r) (cr_rows st @ [r]) st))"
      using commit(2) by (auto simp: creation_ok_def finish_def)
  qed
next
  case (abort st i a p e)
  then show ?case by (auto simp: creation_ok_def finish_def)
qed

lemma creation_ok_reachable:
  assumes "step\<^sup>*\<^sup>* (creators_start rows) st" "distinct (map key rows)"
  shows "creation_ok rows st"
  using assms by (induction rule: rtranclp_induct) (auto intro: creation_ok_start creation_ok_step)

text \<open>What the callers rely on.\<close>

lemma creations_agree:
  assumes "step\<^sup>*\<^sup>* (creators_start rows) st" "distinct (map key rows)"
  shows "distinct (map key (cr_rows st))" "\<exists>new. cr_rows st = rows @ new"
    and "cr_done st i = Some (a, Inr r) \<Longrightarrow> find (\<lambda>x. key x = arg_key a) (cr_rows st) = Some r"
    and "cr_done st i = Some (a, Inl unique_violation) \<Longrightarrow> \<exists>r. find (\<lambda>x. key x = arg_key a) (cr_rows st) = Some r"
proof -
  have ok: "creation_ok rows st" using assms by (rule creation_ok_reachable)
  show ids: "distinct (map key (cr_rows st))" "\<exists>new. cr_rows st = rows @ new" using ok by (simp_all add: creation_ok_def)
  show "find (\<lambda>x. key x = arg_key a) (cr_rows st) = Some r" if "cr_done st i = Some (a, Inr r)"
    by (rule find_unique [OF ids(1)]) (use ok that in \<open>auto simp: creation_ok_def\<close>)
  assume "cr_done st i = Some (a, Inl unique_violation)"
  then have "arg_key a \<in> key ` set (cr_rows st)" using ok by (auto simp: creation_ok_def)
  then show "\<exists>r. find (\<lambda>x. key x = arg_key a) (cr_rows st) = Some r"
    by (cases "find (\<lambda>x. key x = arg_key a) (cr_rows st)") (auto dest: find_None_not)
qed

text \<open>Undisturbed, a transaction is the operation that the code reads as.\<close>

lemma creation_alone:
  assumes "cr_open st = (\<lambda>_. None)" "cr_done st i = None"
    and "get_or_put (\<lambda>r. key r = arg_key a) (make a) (\<lambda>r. r) (cr_rows st) = (r, created, rows)"
  shows "step\<^sup>*\<^sup>* st (finish i a (Inr r) rows st)"
proof -
  let ?s1 = "st\<lparr>cr_open := (cr_open st)(i \<mapsto> (a, Begun))\<rparr>"
  have s1: "step st ?s1" using assms(1,2) by (intro begin_tx) simp_all
  have last: "finish i a x ys (st\<lparr>cr_open := (cr_open st)(i \<mapsto> z)\<rparr>) = finish i a x ys st" for x ys z
    by (simp add: finish_def)
  show ?thesis
  proof (cases "find (\<lambda>r. key r = arg_key a) (cr_rows st)")
    case (Some x)
    then have "step ?s1 (finish i a (Inr x) (cr_rows st) ?s1)"
      using found [of ?s1 i a key arg_key x make] by simp
    with s1 Some assms(3) show ?thesis
      by (simp add: get_or_put_def last)
  next
    case None
    let ?s2 = "st\<lparr>cr_open := (cr_open st)(i \<mapsto> (a, Not_found))\<rparr>" and ?s3 = "st\<lparr>cr_open := (cr_open st)(i \<mapsto> (a, Inserted (make a)))\<rparr>"
    have "step ?s1 ?s2" using absent [of ?s1 i a key arg_key make] None by simp
    moreover have free: "key r \<noteq> arg_key a" if "cr_open ?s2 j = Some (b, Inserted r)" for j b r
      using that assms(1) by (simp split: if_splits)
    have "step ?s2 ?s3" using insert_row [of ?s2 i a key arg_key make, OF _ _ free] None by simp
    moreover have "step ?s3 (finish i a (Inr (make a)) (cr_rows st @ [make a]) ?s3)"
      using commit [of ?s3 i a "make a" key arg_key make] by simp
    ultimately have "step\<^sup>*\<^sup>* st (finish i a (Inr (make a)) (cr_rows st @ [make a]) ?s3)"
      using s1 by (meson converse_rtranclp_into_rtranclp r_into_rtranclp)
    with None assms(3) show ?thesis by (auto simp: get_or_put_def last)
  qed
qed

end

section \<open>Synchronization jobs and operations\<close>

abbreviation job_args_key :: "job_args \<Rightarrow> uuid \<times> string" where
  "job_args_key a \<equiv> (ja_tenant_id a, ja_idempotency_key a)"

interpretation job_creation: creation job_key job_args_key new_job
  by unfold_locales (simp add: new_job_def)

text \<open>The arguments of \<open>create\<close>: its environment, the actor, the key, the action and the request.\<close>

type_synonym operation_args = "operation_env \<times> actor_context \<times> string \<times> action_definition \<times> operation_create"

definition operation_args_key :: "operation_args \<Rightarrow> uuid \<times> string" where
  "operation_args_key = (\<lambda>(env, actor, k, action, q). (ac_tenant_id actor, k))"

definition operation_of_args :: "operation_args \<Rightarrow> operation" where
  "operation_of_args = (\<lambda>(env, actor, k, action, q). new_operation env actor k action q)"

interpretation operation_creation: creation operation_key operation_args_key operation_of_args
  by unfold_locales (simp add: operation_args_key_def operation_of_args_def new_operation_def split: prod.split)

text \<open>The steps, undisturbed, are the two functions.\<close>

lemma create_sync_job_steps:
  assumes "create_sync_job a db = (j, db')" "cr_rows st = sync_jobs db" "cr_open st = (\<lambda>_. None)" "cr_done st i = None"
  shows "(creation_step job_key job_args_key new_job)\<^sup>*\<^sup>* st (finish i a (Inr j) (sync_jobs db') st)"
proof -
  obtain c rows where "get_or_put (\<lambda>j. job_key j = job_args_key a) (new_job a) (\<lambda>j. j) (sync_jobs db) = (j, c, rows)"
    and "db' = db\<lparr>sync_jobs := rows\<rparr>"
    using assms(1) by (auto simp: create_sync_job_def split: prod.splits)
  with job_creation.creation_alone [OF assms(3,4)] assms(2) show ?thesis by simp
qed

lemma record_operation_steps:
  assumes "record_operation env actor k action q db = (r, db')" "cr_rows st = operations db"
    "cr_open st = (\<lambda>_. None)" "cr_done st i = None"
  shows "\<exists>op. (creation_step operation_key operation_args_key operation_of_args)\<^sup>*\<^sup>* st
      (finish i (env, actor, k, action, q) (Inr op) (operations db') st) \<and> r = operation_response_of op"
proof -
  let ?a = "(env, actor, k, action, q)"
  obtain op c rows where put: "get_or_put (\<lambda>r. operation_key r = operation_args_key ?a) (operation_of_args ?a) (\<lambda>r. r) (operations db) = (op, c, rows)"
    by (rule prod_cases3)
  have "operations db' = rows \<and> r = operation_response_of op"
  proof (cases "find (\<lambda>r. operation_key r = operation_args_key ?a) (operations db)")
    case None
    with put assms(1) show ?thesis
      by (simp add: record_operation_def get_or_put_def operation_args_key_def operation_of_args_def enqueue_audit_def Let_def)
        auto
  next
    case (Some x)
    with put assms(1) show ?thesis by (simp add: record_operation_def get_or_put_def operation_args_key_def)
  qed
  with operation_creation.creation_alone [OF assms(3,4), of ?a op c rows] put assms(2) show ?thesis by auto
qed

section \<open>Properties\<close>

text \<open>C30: Overlapping requests with the same key make one job: however the transactions of any number
  of requests interleave and fail, the table keeps its keys unique and every older job, all
  requests with a key that are answered are answered with the one job of that key, and a
  request that loses the race finds that job when it is repeated.\<close>

theorem overlapping_requests_one_job:
  assumes "(creation_step job_key job_args_key new_job)\<^sup>*\<^sup>* (creators_start (sync_jobs db)) st" "inventory_ok db"
  shows "distinct (map job_key (cr_rows st)) \<and> (\<exists>new. cr_rows st = sync_jobs db @ new)
    \<and> (\<forall>i a j. cr_done st i = Some (a, Inr j) \<longrightarrow> find (\<lambda>x. job_key x = job_args_key a) (cr_rows st) = Some j)
    \<and> (\<forall>i a b. cr_done st i = Some (a, Inl unique_violation) \<longrightarrow> job_args_key b = job_args_key a \<longrightarrow>
         (\<exists>j. create_sync_job b (db\<lparr>sync_jobs := cr_rows st\<rparr>) = (j, db\<lparr>sync_jobs := cr_rows st\<rparr>)
            \<and> job_key j = job_args_key a))"
proof -
  have keys: "distinct (map job_key (sync_jobs db))" using assms(2) by (simp add: inventory_ok_def)
  note agree = job_creation.creations_agree [OF assms(1) keys]
  have "\<exists>j. create_sync_job b (db\<lparr>sync_jobs := cr_rows st\<rparr>) = (j, db\<lparr>sync_jobs := cr_rows st\<rparr>) \<and> job_key j = job_args_key a"
    if lost: "cr_done st i = Some (a, Inl unique_violation)" and same: "job_args_key b = job_args_key a" for i a b
  proof -
    obtain j where j: "find (\<lambda>x. job_key x = job_args_key a) (cr_rows st) = Some j" using agree(4) [OF lost] by blast
    then have "job_key j = job_args_key a" using find_Some_in by fastforce
    with j same show ?thesis by (simp add: create_sync_job_def get_or_put_def)
  qed
  with agree(1-3) show ?thesis by blast
qed

text \<open>Two requests with one key: both look, the first inserts and commits, the second is refused.\<close>

definition sample_args :: "uuid \<Rightarrow> job_args" where
  "sample_args i = \<lparr>ja_id = i, ja_clock = instant 0, ja_tenant_id = 1, ja_actor_id = 2, ja_entra_tenant_id = 3, ja_mode = ''full'',
     ja_subscription_ids = [], ja_correlation_id = 4, ja_idempotency_key = ''12345678''\<rparr>"

lemma overlapping_requests_one_job_witness:
  "\<exists>st. (creation_step job_key job_args_key new_job)\<^sup>*\<^sup>* (creators_start (sync_jobs empty_inventory)) st
     \<and> cr_done st 0 = Some (sample_args 7, Inr (new_job (sample_args 7)))
     \<and> cr_done st 1 = Some (sample_args 8, Inl unique_violation)
     \<and> fst (create_sync_job (sample_args 8) (empty_inventory\<lparr>sync_jobs := cr_rows st\<rparr>)) = new_job (sample_args 7)"
proof -
  let ?a = "sample_args 7" and ?b = "sample_args 8"
  let ?step = "creation_step job_key job_args_key new_job"
  have key: "job_args_key ?b = job_args_key ?a" "job_key (new_job ?a) = job_args_key ?a"
    by (simp_all add: sample_args_def new_job_def)
  define s0 where "s0 = (creators_start [] :: (job_args, sync_job) creators)"
  define s1 where "s1 = s0\<lparr>cr_open := (cr_open s0)(0 \<mapsto> (?a, Begun))\<rparr>"
  define s2 where "s2 = s1\<lparr>cr_open := (cr_open s1)(1 \<mapsto> (?b, Begun))\<rparr>"
  define s3 where "s3 = s2\<lparr>cr_open := (cr_open s2)(0 \<mapsto> (?a, Not_found))\<rparr>"
  define s4 where "s4 = s3\<lparr>cr_open := (cr_open s3)(1 \<mapsto> (?b, Not_found))\<rparr>"
  define s5 where "s5 = s4\<lparr>cr_open := (cr_open s4)(0 \<mapsto> (?a, Inserted (new_job ?a)))\<rparr>"
  define s6 where "s6 = finish 0 ?a (Inr (new_job ?a)) (cr_rows s5 @ [new_job ?a]) s5"
  define s7 where "s7 = finish 1 ?b (Inl unique_violation) (cr_rows s6) s6"
  note states = s0_def s1_def s2_def s3_def s4_def s5_def s6_def s7_def creators_start_def finish_def
  have e0: "?step s0 s1" unfolding s1_def by (rule begin_tx) (simp_all add: states)
  have e1: "?step s1 s2" unfolding s2_def by (rule begin_tx) (simp_all add: states)
  have e2: "?step s2 s3" unfolding s3_def by (rule absent) (simp_all add: states)
  have e3: "?step s3 s4" unfolding s4_def by (rule absent) (simp_all add: states)
  have e4: "?step s4 s5" unfolding s5_def by (rule insert_row) (simp_all add: states split: if_splits)
  have e5: "?step s5 s6" unfolding s6_def by (rule commit) (simp add: states)
  have e6: "?step s6 s7" unfolding s7_def by (rule refused [where r = "new_job ?a"]) (simp_all add: states sample_args_def new_job_def)
  have "?step\<^sup>*\<^sup>* s6 s7" using e6 by (rule r_into_rtranclp)
  with e5 have "?step\<^sup>*\<^sup>* s5 s7" by (rule converse_rtranclp_into_rtranclp)
  with e4 have "?step\<^sup>*\<^sup>* s4 s7" by (rule converse_rtranclp_into_rtranclp)
  with e3 have "?step\<^sup>*\<^sup>* s3 s7" by (rule converse_rtranclp_into_rtranclp)
  with e2 have "?step\<^sup>*\<^sup>* s2 s7" by (rule converse_rtranclp_into_rtranclp)
  with e1 have "?step\<^sup>*\<^sup>* s1 s7" by (rule converse_rtranclp_into_rtranclp)
  with e0 have "?step\<^sup>*\<^sup>* s0 s7" by (rule converse_rtranclp_into_rtranclp)
  then have reach: "?step\<^sup>*\<^sup>* (creators_start (sync_jobs empty_inventory)) s7"
    by (simp add: s0_def empty_inventory_def)
  have outcome: "cr_done s7 0 = Some (?a, Inr (new_job ?a))" "cr_done s7 1 = Some (?b, Inl unique_violation)"
    by (simp_all add: states)
  have "inventory_ok empty_inventory" by (simp add: inventory_ok_def empty_inventory_def)
  note one = overlapping_requests_one_job [OF reach this]
  have "find (\<lambda>x. job_key x = job_args_key ?a) (cr_rows s7) = Some (new_job ?a)" using one outcome(1) by blast
  then have "fst (create_sync_job ?b (empty_inventory\<lparr>sync_jobs := cr_rows s7\<rparr>)) = new_job ?a"
    using key(1) by (simp add: create_sync_job_def get_or_put_def)
  with reach outcome show ?thesis by blast
qed

end
