(* ===== verification/SqlTables.thy ===== *)
theory SqlTables
  imports Db
begin

text \<open>
  A model of the statements that the migrations execute: tables with their columns,
  constraints and rows, the effect of each statement, and the checks that PostgreSQL makes
  when the statement is done. Enumerations stand as texts. A default that the database
  computes (\<open>now()\<close>, \<open>gen_random_uuid()\<close>) is left out, since the migrations insert no row; so is
  the action of a foreign key on deletion.
\<close>

section \<open>Tables with their declarations\<close>

datatype cell =
    Null
  | Uuid_cell uuid
  | Text_cell string
  | Time_cell timestamp
  | Int_cell int
  | Json_cell json

datatype sql_type = T_uuid | T_text | T_timestamptz | T_integer | T_jsonb

fun has_type :: "cell \<Rightarrow> sql_type \<Rightarrow> bool" where
  "has_type Null ty = True"
| "has_type (Uuid_cell _) ty = (ty = T_uuid)"
| "has_type (Text_cell _) ty = (ty = T_text)"
| "has_type (Time_cell _) ty = (ty = T_timestamptz)"
| "has_type (Int_cell _) ty = (ty = T_integer)"
| "has_type (Json_cell _) ty = (ty = T_jsonb)"

text \<open>A row gives each column its value; a column that the table does not have is null.\<close>

type_synonym row = "string \<Rightarrow> cell"

record column =
  cd_name :: string
  cd_type :: sql_type
  cd_not_null :: bool
  cd_default :: cell

datatype table_constraint =
    Unique "string list"
  | One_of string "string list"
  | Nonblank string
  | References string string

record table =
  tb_columns :: "column list"
  tb_constraints :: "(string \<times> table_constraint) list"
  tb_rows :: "row list"

type_synonym tables = "string \<Rightarrow> table option"

record database =
  db_table :: tables
  db_indexes :: "(string \<times> string \<times> string list) list"

definition column_names :: "table \<Rightarrow> string list" where
  "column_names tb = map cd_name (tb_columns tb)"

fun constraint_columns :: "table_constraint \<Rightarrow> string list" where
  "constraint_columns (Unique cs) = cs"
| "constraint_columns (One_of c _) = [c]"
| "constraint_columns (Nonblank c) = [c]"
| "constraint_columns (References c _) = [c]"

text \<open>SQL's constraints: a null is equal to nothing and makes a check unknown, which passes.\<close>

fun constraint_holds :: "tables \<Rightarrow> row list \<Rightarrow> table_constraint \<Rightarrow> bool" where
  "constraint_holds ts rows (Unique cs) =
     distinct (map (\<lambda>r. map r cs) (filter (\<lambda>r. list_all (\<lambda>c. r c \<noteq> Null) cs) rows))"
| "constraint_holds ts rows (One_of c vals) =
     list_all (\<lambda>r. r c = Null \<or> r c \<in> Text_cell ` set vals) rows"
| "constraint_holds ts rows (Nonblank c) =
     list_all (\<lambda>r. case r c of Text_cell s \<Rightarrow> list_ex (\<lambda>x. x \<noteq> CHR '' '') s | _ \<Rightarrow> True) rows"
| "constraint_holds ts rows (References c target) =
     list_all (\<lambda>r. r c = Null \<or> (case ts target of None \<Rightarrow> False
        | Some tb \<Rightarrow> list_ex (\<lambda>x. x ''id'' = r c) (tb_rows tb))) rows"

definition column_holds :: "row list \<Rightarrow> column \<Rightarrow> bool" where
  "column_holds rows c = list_all (\<lambda>r. has_type (r (cd_name c)) (cd_type c)
     \<and> (if cd_not_null c then r (cd_name c) \<noteq> Null else True)) rows"

definition table_valid :: "tables \<Rightarrow> table \<Rightarrow> bool" where
  "table_valid ts tb = (list_all (column_holds (tb_rows tb)) (tb_columns tb)
     \<and> list_all (constraint_holds ts (tb_rows tb)) (map snd (tb_constraints tb)))"

section \<open>Statements\<close>

text \<open>The clauses of \<open>ALTER TABLE\<close>; the flags are \<open>IF NOT EXISTS\<close> and \<open>IF EXISTS\<close>.\<close>

datatype alteration =
    Add_column bool column
  | Set_not_null string
  | Add_constraint string table_constraint
  | Drop_constraint bool string
  | Drop_column string

datatype statement =
    Create_table string "column list" "(string \<times> table_constraint) list"
  | Drop_table string
  | Alter_table string "alteration list"
  | Update_rows string "tables \<Rightarrow> row \<Rightarrow> row"
  | Create_index string string "string list"
  | Drop_index string
  | Unless_constraint string string statement
  | Drop_schema string

definition sql_error :: "string \<Rightarrow> string \<Rightarrow> exn" where
  "sql_error cls name = Exn cls name"

fun alter :: "alteration \<Rightarrow> table \<Rightarrow> table result" where
  "alter (Add_column if_not_exists c) tb =
     (if cd_name c \<in> set (column_names tb)
      then (if if_not_exists then Inr tb else Inl (sql_error ''DuplicateColumn'' (cd_name c)))
      else Inr (tb\<lparr>tb_columns := tb_columns tb @ [c],
                   tb_rows := map (\<lambda>r. r(cd_name c := cd_default c)) (tb_rows tb)\<rparr>))"
| "alter (Set_not_null n) tb =
     (if n \<in> set (column_names tb)
      then Inr (tb\<lparr>tb_columns := map (\<lambda>c. if cd_name c = n then c\<lparr>cd_not_null := True\<rparr> else c) (tb_columns tb)\<rparr>)
      else Inl (sql_error ''UndefinedColumn'' n))"
| "alter (Add_constraint n c) tb =
     (if n \<in> set (map fst (tb_constraints tb)) then Inl (sql_error ''DuplicateObject'' n)
      else Inr (tb\<lparr>tb_constraints := tb_constraints tb @ [(n, c)]\<rparr>))"
| "alter (Drop_constraint if_exists n) tb =
     (if n \<in> set (map fst (tb_constraints tb))
      then Inr (tb\<lparr>tb_constraints := filter (\<lambda>(m, _). m \<noteq> n) (tb_constraints tb)\<rparr>)
      else if if_exists then Inr tb else Inl (sql_error ''UndefinedObject'' n))"
| "alter (Drop_column n) tb =
     (if n \<in> set (column_names tb)
      then Inr (tb\<lparr>tb_columns := filter (\<lambda>c. cd_name c \<noteq> n) (tb_columns tb),
                   tb_constraints := filter (\<lambda>(_, c). n \<notin> set (constraint_columns c)) (tb_constraints tb),
                   tb_rows := map (\<lambda>r. r(n := Null)) (tb_rows tb)\<rparr>)
      else Inl (sql_error ''UndefinedColumn'' n))"

fun alter_all :: "alteration list \<Rightarrow> table \<Rightarrow> table result" where
  "alter_all [] tb = Inr tb"
| "alter_all (a # as) tb = bindr (alter a tb) (alter_all as)"

text \<open>The table is checked against its declaration when the statement is done.\<close>

definition put_table :: "string \<Rightarrow> table \<Rightarrow> database \<Rightarrow> database result" where
  "put_table name tb db = (let ts = (db_table db)(name := Some tb) in
     bindr (guardr (table_valid ts tb) (sql_error ''IntegrityError'' name)) (\<lambda>_. Inr (db\<lparr>db_table := ts\<rparr>)))"

definition find_table :: "string \<Rightarrow> database \<Rightarrow> table result" where
  "find_table name db = of_option (sql_error ''UndefinedTable'' name) (db_table db name)"

definition schema_prefix :: "string \<Rightarrow> string \<Rightarrow> bool" where
  "schema_prefix s name = (take (length s + 1) name = s @ ''.'')"

fun exec_statement :: "statement \<Rightarrow> database \<Rightarrow> database result" where
  "exec_statement (Create_table name cols cs) db =
     (case db_table db name of Some _ \<Rightarrow> Inr db
      | None \<Rightarrow> Inr (db\<lparr>db_table := (db_table db)(name := Some \<lparr>tb_columns = cols, tb_constraints = cs, tb_rows = []\<rparr>)\<rparr>))"
| "exec_statement (Drop_table name) db =
     Inr (db\<lparr>db_table := (db_table db)(name := None), db_indexes := filter (\<lambda>(_, t, _). t \<noteq> name) (db_indexes db)\<rparr>)"
| "exec_statement (Alter_table name as) db =
     bindr (find_table name db) (\<lambda>tb.
     bindr (alter_all as tb) (\<lambda>tb'.
     put_table name tb' (db\<lparr>db_indexes := filter (\<lambda>(_, t, cols). if t = name then set cols \<subseteq> set (column_names tb') else True)
       (db_indexes db)\<rparr>)))"
| "exec_statement (Update_rows name f) db =
     bindr (find_table name db) (\<lambda>tb. put_table name (tb\<lparr>tb_rows := map (f (db_table db)) (tb_rows tb)\<rparr>) db)"
| "exec_statement (Create_index n name cols) db =
     (if n \<in> set (map fst (db_indexes db)) then Inr db
      else bindr (find_table name db) (\<lambda>tb.
        bindr (guardr (set cols \<subseteq> set (column_names tb)) (sql_error ''UndefinedColumn'' n)) (\<lambda>_.
        Inr (db\<lparr>db_indexes := db_indexes db @ [(n, name, cols)]\<rparr>))))"
| "exec_statement (Drop_index n) db = Inr (db\<lparr>db_indexes := filter (\<lambda>(m, _). m \<noteq> n) (db_indexes db)\<rparr>)"
| "exec_statement (Unless_constraint n name s) db =
     bindr (find_table name db) (\<lambda>tb. if n \<in> set (map fst (tb_constraints tb)) then Inr db else exec_statement s db)"
| "exec_statement (Drop_schema s) db =
     Inr (db\<lparr>db_table := (\<lambda>n. if schema_prefix s n then None else db_table db n),
             db_indexes := filter (\<lambda>(_, t, _). \<not> schema_prefix s t) (db_indexes db)\<rparr>)"

fun exec_all :: "statement list \<Rightarrow> database \<Rightarrow> database result" where
  "exec_all [] db = Inr db"
| "exec_all (s # ss) db = bindr (exec_statement s db) (exec_all ss)"

section \<open>Frames\<close>

text \<open>A change of the rows that leaves the columns of a declaration alone keeps it.\<close>

lemma column_holds_frame:
  "(\<And>r. f r (cd_name c) = r (cd_name c)) \<Longrightarrow> column_holds (map f rows) c = column_holds rows c"
  by (simp add: column_holds_def list_all_iff)

definition same_ids :: "tables \<Rightarrow> tables \<Rightarrow> bool" where
  "same_ids ts ts' = (\<forall>n. map_option (\<lambda>tb. map (\<lambda>r. r ''id'') (tb_rows tb)) (ts n)
     = map_option (\<lambda>tb. map (\<lambda>r. r ''id'') (tb_rows tb)) (ts' n))"

lemma same_ids_refl [simp]: "same_ids ts ts"
  by (simp add: same_ids_def)

lemma same_ids_update:
  assumes "ts n = Some tb" "map (\<lambda>r. r ''id'') (tb_rows tb') = map (\<lambda>r. r ''id'') (tb_rows tb)"
  shows "same_ids ts (ts(n \<mapsto> tb'))"
  using assms by (simp add: same_ids_def)

lemma constraint_holds_ids:
  assumes "same_ids ts ts'"
  shows "constraint_holds ts' rows k = constraint_holds ts rows k"
proof (cases k)
  case (References c target)
  have ids: "map_option (\<lambda>tb. map (\<lambda>r. r ''id'') (tb_rows tb)) (ts target)
      = map_option (\<lambda>tb. map (\<lambda>r. r ''id'') (tb_rows tb)) (ts' target)"
    using assms unfolding same_ids_def by blast
  have ex: "list_ex (\<lambda>x. x ''id'' = v) rs = (v \<in> set (map (\<lambda>r. r ''id'') rs))" for v :: cell and rs :: "row list"
    by (auto simp: list_ex_iff)
  show ?thesis
    unfolding References constraint_holds.simps ex
    using ids by (cases "ts target"; cases "ts' target") (simp_all only: option.map option.case option.inject option.simps)
qed simp_all

lemma constraint_holds_frame:
  assumes "\<And>r c. c \<in> set (constraint_columns k) \<Longrightarrow> f r c = r c"
  shows "constraint_holds ts (map f rows) k = constraint_holds ts rows k"
proof (cases k)
  case (Unique cs)
  have same: "map (f r) cs = map r cs" "list_all (\<lambda>c. f r c \<noteq> Null) cs = list_all (\<lambda>c. r c \<noteq> Null) cs" for r
    using assms by (auto simp: Unique list_all_iff)
  show ?thesis unfolding Unique constraint_holds.simps filter_map comp_def map_map same ..
next
  case (References c target)
  then have "f r c = r c" for r using assms by simp
  then show ?thesis unfolding References constraint_holds.simps list_all_iff by (simp only: set_map ball_simps)
qed (use assms in \<open>simp_all add: list_all_iff\<close>)

text \<open>The same for a declaration: what a list of columns and a list of constraints demand.\<close>

definition rows_hold :: "tables \<Rightarrow> row list \<Rightarrow> column list \<Rightarrow> (string \<times> table_constraint) list \<Rightarrow> bool" where
  "rows_hold ts rows cols cs =
     (list_all (column_holds rows) cols \<and> list_all (constraint_holds ts rows) (map snd cs))"

lemma table_valid_rows: "table_valid ts tb = rows_hold ts (tb_rows tb) (tb_columns tb) (tb_constraints tb)"
  by (simp add: table_valid_def rows_hold_def)

lemma rows_hold_append [simp]:
  "rows_hold ts rows (cols @ cols') (cs @ cs') = (rows_hold ts rows cols cs \<and> rows_hold ts rows cols' cs')"
  by (auto simp: rows_hold_def)

lemma rows_hold_frame:
  assumes "rows_hold ts rows cols cs" "same_ids ts ts'"
    and f: "\<And>r c. c \<in> cd_name ` set cols \<union> (\<Union>k \<in> snd ` set cs. set (constraint_columns k)) \<Longrightarrow> f r c = r c"
  shows "rows_hold ts' (map f rows) cols cs"
proof -
  have "constraint_holds ts' (map f rows) k" if k: "k \<in> snd ` set cs" for k
  proof -
    have "f r c = r c" if "c \<in> set (constraint_columns k)" for r c
      by (rule f) (use that k in blast)
    then have "constraint_holds ts' (map f rows) k = constraint_holds ts rows k"
      by (simp add: constraint_holds_ids [OF assms(2)] constraint_holds_frame)
    with assms(1) k show ?thesis by (auto simp: rows_hold_def list_all_iff)
  qed
  then show ?thesis
    using assms(1) by (auto simp: rows_hold_def list_all_iff column_holds_frame [of f] f)
qed

section \<open>Runs of statements\<close>

text \<open>What a list of statements makes of the tables, whatever indexes there are.\<close>

definition runs :: "statement list \<Rightarrow> tables \<Rightarrow> tables \<Rightarrow> bool" where
  "runs ss ts ts' \<longleftrightarrow> (\<forall>ixs. \<exists>ixs'. exec_all ss \<lparr>db_table = ts, db_indexes = ixs\<rparr> = Inr \<lparr>db_table = ts', db_indexes = ixs'\<rparr>)"

lemma database_eta [simp]: "\<lparr>db_table = db_table db, db_indexes = db_indexes db\<rparr> = db" for db :: database
  by (cases db) simp

lemma runs_Nil: "runs [] ts ts"
  by (simp add: runs_def)

lemma runs_Cons: "runs [s] ts ts1 \<Longrightarrow> runs ss ts1 ts2 \<Longrightarrow> runs (s # ss) ts ts2"
  by (fastforce simp: runs_def result_iff)

lemma runs_alter:
  "ts n = Some tb \<Longrightarrow> alter_all as tb = Inr tb' \<Longrightarrow> table_valid (ts(n \<mapsto> tb')) tb' \<Longrightarrow> runs [Alter_table n as] ts (ts(n \<mapsto> tb'))"
  by (simp add: runs_def find_table_def put_table_def)

lemma runs_update:
  "ts n = Some tb \<Longrightarrow> tb' = tb\<lparr>tb_rows := map (f ts) (tb_rows tb)\<rparr> \<Longrightarrow> table_valid (ts(n \<mapsto> tb')) tb'
     \<Longrightarrow> runs [Update_rows n f] ts (ts(n \<mapsto> tb'))"
  by (simp add: runs_def find_table_def put_table_def)

lemma runs_index:
  "ts n = Some tb \<Longrightarrow> set cols \<subseteq> set (column_names tb) \<Longrightarrow> runs [Create_index i n cols] ts ts"
  by (simp add: runs_def find_table_def)

lemma runs_drop_index: "runs [Drop_index i] ts ts"
  by (simp add: runs_def)

lemma runs_unless:
  "ts n = Some tb \<Longrightarrow> k \<notin> set (map fst (tb_constraints tb)) \<Longrightarrow> runs [s] ts ts' \<Longrightarrow> runs [Unless_constraint k n s] ts ts'"
  by (simp add: runs_def find_table_def)

lemma exec_all_append: "exec_all (xs @ ys) db = bindr (exec_all xs db) (exec_all ys)"
  by (induction xs arbitrary: db) (auto simp: bindr_def split: sum.split)

lemma runs_append: "runs ss ts ts1 \<Longrightarrow> runs ss' ts1 ts2 \<Longrightarrow> runs (ss @ ss') ts ts2"
  unfolding runs_def exec_all_append by (metis bindr_simps(2))

lemma table_valid_empty: "tb_rows tb = [] \<Longrightarrow> table_valid ts tb"
proof -
  have "constraint_holds ts [] k" for k by (cases k) simp_all
  then show "tb_rows tb = [] \<Longrightarrow> table_valid ts tb" by (simp add: table_valid_def list_all_iff column_holds_def)
qed

lemma runs_alter_empty:
  assumes "ts n = Some tb" "tb_rows tb = []" "alter_all as tb = Inr tb'" "tb_rows tb' = []"
  shows "runs [Alter_table n as] ts (ts(n \<mapsto> tb'))"
  using assms by (intro runs_alter [of ts n tb] table_valid_empty) simp_all

lemma runs_idle:
  assumes "ts n = Some tb" "tb_rows tb = []"
  shows "alter_all as tb = Inr tb \<Longrightarrow> runs [Alter_table n as] ts ts"
    "runs [Update_rows n f] ts ts"
    "k \<in> set (map fst (tb_constraints tb)) \<Longrightarrow> runs [Unless_constraint k n s] ts ts"
proof -
  have same: "ts(n \<mapsto> tb) = ts" using assms(1) by (simp add: fun_upd_idem)
  show "alter_all as tb = Inr tb \<Longrightarrow> runs [Alter_table n as] ts ts"
    using runs_alter_empty [of ts n tb as tb] assms same by simp
  show "runs [Update_rows n f] ts ts"
    using runs_update [of ts n tb tb f] assms same by (simp add: table_valid_empty)
  show "k \<in> set (map fst (tb_constraints tb)) \<Longrightarrow> runs [Unless_constraint k n s] ts ts"
    using assms by (simp add: runs_def find_table_def)
qed

end
