(* ===== verification/Migrations.thy ===== *)
theory Migrations
  imports Session SqlTables
begin

text \<open>
  The migrations of the database (\<open>database/migrations\<close>): the three revisions as lists of the
  SQL statements that they execute, and the transaction in which \<open>env.py\<close> runs them. The
  tables are those that the revisions name; the statements of \<open>schema.sql\<close>, which the first
  revision sends as texts, are given their effect by an argument (\<open>run_text\<close>), and the two
  tables that the later revisions change are also written out as \<open>schema.sql\<close> declares them.
  Alembic's own table \<open>alembic_version\<close>, which it updates in the same transaction, is left out.
\<close>

text \<open>
  \<open>do_run_migrations\<close> of \<open>env.py\<close>: one transaction around the revisions, which PostgreSQL
  undoes with its definitions when a statement fails.
\<close>

definition do_run_migrations :: "exn option \<Rightarrow> (database \<Rightarrow> database result) list \<Rightarrow> database \<Rightarrow> unit result \<times> database" where
  "do_run_migrations commit_fault scripts db =
     transaction commit_fault (\<lambda>db. bindr (foldl bindr (Inr db) scripts) (\<lambda>db. Inr ((), db))) db"

section \<open>The revisions\<close>

abbreviation tenants_table :: string where
  "tenants_table \<equiv> ''identity.tenants''"

abbreviation connections_table :: string where
  "connections_table \<equiv> ''identity.oauth_connections''"

definition col :: "string \<Rightarrow> sql_type \<Rightarrow> column" where
  "col n ty = \<lparr>cd_name = n, cd_type = ty, cd_not_null = False, cd_default = Null\<rparr>"

definition col_not_null :: "string \<Rightarrow> sql_type \<Rightarrow> column" where
  "col_not_null n ty = (col n ty)\<lparr>cd_not_null := True\<rparr>"

text \<open>\<open>identity.tenants\<close> and \<open>identity.oauth_connections\<close> as \<open>schema.sql\<close> declares them.\<close>

definition schema_tenants :: table where
  "schema_tenants = \<lparr>tb_columns =
       [col_not_null ''id'' T_uuid, col_not_null ''entra_tenant_id'' T_uuid, col_not_null ''identity_scope_key'' T_text,
        (col_not_null ''account_type'' T_text)\<lparr>cd_default := Text_cell ''organization''\<rparr>,
        col_not_null ''display_name'' T_text, (col_not_null ''status'' T_text)\<lparr>cd_default := Text_cell ''pending_consent''\<rparr>,
        (col_not_null ''onboarding_metadata'' T_jsonb)\<lparr>cd_default := Json_cell (JDict [])\<rparr>,
        col ''consented_at'' T_timestamptz, col ''suspended_at'' T_timestamptz, col_not_null ''created_at'' T_timestamptz,
        col_not_null ''updated_at'' T_timestamptz, (col_not_null ''version'' T_integer)\<lparr>cd_default := Int_cell 1\<rparr>],
     tb_constraints =
       [(''tenants_pkey'', Unique [''id'']), (''tenants_identity_scope_key_key'', Unique [''identity_scope_key'']),
        (''tenants_display_name_nonempty'', Nonblank ''display_name''),
        (''tenants_account_type'', One_of ''account_type'' [''organization'', ''personal''])],
     tb_rows = []\<rparr>"

definition connection_columns :: "column list" where
  "connection_columns =
     [col_not_null ''id'' T_uuid, col_not_null ''tenant_id'' T_uuid, col_not_null ''user_id'' T_uuid,
      (col_not_null ''provider'' T_text)\<lparr>cd_default := Text_cell ''microsoft''\<rparr>, col_not_null ''scopes'' T_text,
      col_not_null ''encrypted_refresh_token'' T_text, col ''last_refreshed_at'' T_timestamptz,
      col_not_null ''created_at'' T_timestamptz, col_not_null ''updated_at'' T_timestamptz]"

definition connection_constraints :: "(string \<times> table_constraint) list" where
  "connection_constraints =
     [(''oauth_connections_pkey'', Unique [''id'']),
      (''oauth_connections_tenant_id_fkey'', References ''tenant_id'' tenants_table),
      (''oauth_connections_user_id_fkey'', References ''user_id'' ''identity.users''),
      (''oauth_connections_tenant_id_user_id_provider_key'', Unique [''tenant_id'', ''user_id'', ''provider''])]"

definition schema_connections :: table where
  "schema_connections = \<lparr>tb_columns = take 4 connection_columns @ [col_not_null ''token_authority'' T_text]
       @ drop 4 connection_columns, tb_constraints = connection_constraints, tb_rows = []\<rparr>"

text \<open>Revision \<open>20260606_0001\<close>: the statements of \<open>schema.sql\<close>, one by one; back, the schemas go.\<close>

definition schema_statements :: "string \<Rightarrow> string list" where
  "schema_statements sql = filter (\<lambda>s. s \<noteq> []) (map strip (split_on CHR '';'' sql))"

definition upgrade_0001 :: "(string \<Rightarrow> database \<Rightarrow> database result) \<Rightarrow> string \<Rightarrow> database \<Rightarrow> database result" where
  "upgrade_0001 run_text sql db = foldl (\<lambda>r s. bindr r (run_text s)) (Inr db) (schema_statements sql)"

definition downgrade_0001 :: "statement list" where
  "downgrade_0001 = map Drop_schema [''audit'', ''operations'', ''intelligence'', ''relationships'', ''inventory'',
     ''identity'', ''platform'']"

text \<open>Revision \<open>20260607_0002\<close>.\<close>

definition upgrade_0002 :: "statement list" where
  "upgrade_0002 =
     [Create_table connections_table connection_columns connection_constraints,
      Create_index ''identity.ix_oauth_connections_tenant_user'' connections_table [''tenant_id'', ''user_id'']]"

definition downgrade_0002 :: "statement list" where
  "downgrade_0002 = [Drop_table connections_table]"

text \<open>Revision \<open>20260607_0003\<close>.\<close>

fun cell_text :: "cell \<Rightarrow> string option" where
  "cell_text (Uuid_cell u) = Some (uuid_str u)"
| "cell_text (Text_cell s) = Some s"
| "cell_text _ = None"

definition text_cell :: "string option \<Rightarrow> cell" where
  "text_cell s = (case s of None \<Rightarrow> Null | Some s \<Rightarrow> Text_cell s)"

definition set_scope_key :: "row \<Rightarrow> row" where
  "set_scope_key r = (if r ''identity_scope_key'' = Null
     then r(''identity_scope_key'' := text_cell (map_option (\<lambda>s. ''tenant:'' @ s) (cell_text (r ''entra_tenant_id''))))
     else r)"

definition set_token_authority :: "tables \<Rightarrow> row \<Rightarrow> row" where
  "set_token_authority ts r = (case ts tenants_table of
       None \<Rightarrow> r
     | Some tb \<Rightarrow> (case find (\<lambda>t. t ''id'' = r ''tenant_id'') (tb_rows tb) of
           None \<Rightarrow> r
         | Some t \<Rightarrow> r(''token_authority'' := text_cell (cell_text (t ''entra_tenant_id'')))))"

definition upgrade_0003 :: "statement list" where
  "upgrade_0003 =
     [Alter_table tenants_table [Add_column True (col ''identity_scope_key'' T_text),
        Add_column True ((col_not_null ''account_type'' T_text)\<lparr>cd_default := Text_cell ''organization''\<rparr>)],
      Update_rows tenants_table (\<lambda>_. set_scope_key),
      Alter_table tenants_table [Set_not_null ''identity_scope_key''],
      Unless_constraint ''ux_tenants_identity_scope_key'' tenants_table
        (Alter_table tenants_table [Add_constraint ''ux_tenants_identity_scope_key'' (Unique [''identity_scope_key''])]),
      Unless_constraint ''tenants_account_type'' tenants_table
        (Alter_table tenants_table [Add_constraint ''tenants_account_type'' (One_of ''account_type'' [''organization'', ''personal''])]),
      Alter_table tenants_table [Drop_constraint True ''tenants_entra_tenant_id_key''],
      Create_index ''identity.ix_tenants_entra_tenant_id'' tenants_table [''entra_tenant_id''],
      Alter_table connections_table [Add_column True (col ''token_authority'' T_text)],
      Update_rows connections_table set_token_authority,
      Alter_table connections_table [Set_not_null ''token_authority'']]"

definition downgrade_0003 :: "statement list" where
  "downgrade_0003 =
     [Alter_table connections_table [Drop_column ''token_authority''],
      Drop_index ''identity.ix_tenants_entra_tenant_id'',
      Alter_table tenants_table [Drop_constraint False ''tenants_account_type'',
        Drop_constraint False ''ux_tenants_identity_scope_key'', Drop_column ''account_type'',
        Drop_column ''identity_scope_key'', Add_constraint ''tenants_entra_tenant_id_key'' (Unique [''entra_tenant_id''])]]"

section \<open>The state that the third revision upgrades\<close>

text \<open>
  The tables as they were before the third revision, which are also what its downgrade
  leaves, and as it makes them.
\<close>

definition legacy_columns :: "column list" where
  "legacy_columns = filter (\<lambda>c. cd_name c \<notin> {''identity_scope_key'', ''account_type''}) (tb_columns schema_tenants)"

definition kept_constraints :: "(string \<times> table_constraint) list" where
  "kept_constraints = [(''tenants_pkey'', Unique [''id'']), (''tenants_display_name_nonempty'', Nonblank ''display_name'')]"

definition legacy_tenants :: "row list \<Rightarrow> table" where
  "legacy_tenants rows = \<lparr>tb_columns = legacy_columns,
     tb_constraints = kept_constraints @ [(''tenants_entra_tenant_id_key'', Unique [''entra_tenant_id''])], tb_rows = rows\<rparr>"

definition legacy_connections :: "row list \<Rightarrow> table" where
  "legacy_connections rows =
     \<lparr>tb_columns = connection_columns, tb_constraints = connection_constraints, tb_rows = rows\<rparr>"

definition legacy_database :: "row list \<Rightarrow> row list \<Rightarrow> tables \<Rightarrow> bool" where
  "legacy_database tenants connections ts \<longleftrightarrow>
     ts tenants_table = Some (legacy_tenants tenants) \<and> table_valid ts (legacy_tenants tenants)
     \<and> ts connections_table = Some (legacy_connections connections)
     \<and> table_valid ts (legacy_connections connections)"

definition upgraded_tenants :: "row list \<Rightarrow> table" where
  "upgraded_tenants rows = \<lparr>tb_columns = legacy_columns @ [col_not_null ''identity_scope_key'' T_text,
       (col_not_null ''account_type'' T_text)\<lparr>cd_default := Text_cell ''organization''\<rparr>],
     tb_constraints = kept_constraints @ [(''ux_tenants_identity_scope_key'', Unique [''identity_scope_key'']),
       (''tenants_account_type'', One_of ''account_type'' [''organization'', ''personal''])], tb_rows = rows\<rparr>"

definition upgraded_connections :: "row list \<Rightarrow> table" where
  "upgraded_connections rows = \<lparr>tb_columns = connection_columns @ [col_not_null ''token_authority'' T_text],
     tb_constraints = connection_constraints, tb_rows = rows\<rparr>"

definition upgraded_database :: "row list \<Rightarrow> row list \<Rightarrow> tables \<Rightarrow> bool" where
  "upgraded_database tenants connections ts \<longleftrightarrow>
     ts tenants_table = Some (upgraded_tenants tenants) \<and> table_valid ts (upgraded_tenants tenants)
     \<and> ts connections_table = Some (upgraded_connections connections)
     \<and> table_valid ts (upgraded_connections connections)"

text \<open>What the upgrade writes into the rows.\<close>

definition entra_of :: "row \<Rightarrow> uuid" where
  "entra_of r = (case r ''entra_tenant_id'' of Uuid_cell u \<Rightarrow> u | _ \<Rightarrow> 0)"

definition with_scope_key :: "row \<Rightarrow> row" where
  "with_scope_key r = r(''identity_scope_key'' := Text_cell (''tenant:'' @ uuid_str (entra_of r)),
     ''account_type'' := Text_cell ''organization'')"

definition owner_of :: "row list \<Rightarrow> row \<Rightarrow> row" where
  "owner_of tenants r = the (find (\<lambda>t. t ''id'' = r ''tenant_id'') tenants)"

definition with_authority :: "row list \<Rightarrow> row \<Rightarrow> row" where
  "with_authority tenants r = r(''token_authority'' := Text_cell (uuid_str (entra_of (owner_of tenants r))))"

lemma legacy_columns_eq: "legacy_columns = [col_not_null ''id'' T_uuid, col_not_null ''entra_tenant_id'' T_uuid,
    col_not_null ''display_name'' T_text, (col_not_null ''status'' T_text)\<lparr>cd_default := Text_cell ''pending_consent''\<rparr>,
    (col_not_null ''onboarding_metadata'' T_jsonb)\<lparr>cd_default := Json_cell (JDict [])\<rparr>,
    col ''consented_at'' T_timestamptz, col ''suspended_at'' T_timestamptz, col_not_null ''created_at'' T_timestamptz,
    col_not_null ''updated_at'' T_timestamptz, (col_not_null ''version'' T_integer)\<lparr>cd_default := Int_cell 1\<rparr>]"
  by (simp add: legacy_columns_def schema_tenants_def col_not_null_def col_def)

lemma not_null_uuid:
  assumes "column_holds rows (col_not_null n T_uuid)" "r \<in> set rows"
  shows "\<exists>u. r n = Uuid_cell u"
  using assms by (cases "r n") (auto simp: column_holds_def col_not_null_def col_def list_all_iff)

lemma entra_cell:
  assumes "list_all (column_holds rows) legacy_columns" "r \<in> set rows"
  shows "r ''entra_tenant_id'' = Uuid_cell (entra_of r)"
  using not_null_uuid [of rows "''entra_tenant_id''" r] assms by (auto simp: legacy_columns_eq entra_of_def)

text \<open>The keys are unique because the Entra ids were.\<close>

lemma scope_keys_unique:
  assumes entra: "\<And>r. r \<in> set rows \<Longrightarrow> r ''entra_tenant_id'' = Uuid_cell (entra_of r)"
    and unique: "constraint_holds ts rows (Unique [''entra_tenant_id''])"
  shows "constraint_holds ts' (map with_scope_key rows) (Unique [''identity_scope_key''])"
proof -
  have "r ''entra_tenant_id'' \<noteq> Null" if "r \<in> set rows" for r using entra [OF that] by simp
  then have "filter (\<lambda>r. r ''entra_tenant_id'' \<noteq> Null) rows = rows" by (simp add: filter_id_conv)
  with unique have "distinct (map (\<lambda>r. [r ''entra_tenant_id'']) rows)" by simp
  then have "distinct rows" "inj_on (\<lambda>r. r ''entra_tenant_id'') (set rows)"
    by (auto simp: distinct_map inj_on_def)
  then have "inj_on (\<lambda>r. [Text_cell (''tenant:'' @ uuid_str (entra_of r))]) (set rows)"
    using entra by (auto simp: inj_on_def uuid_str_inject) metis
  then have "distinct (map (\<lambda>r. [Text_cell (''tenant:'' @ uuid_str (entra_of r))]) rows)"
    using \<open>distinct rows\<close> by (simp add: distinct_map)
  then show ?thesis by (simp add: with_scope_key_def filter_map comp_def)
qed

text \<open>A table of the second half with the first half's rows, changed outside its old columns.\<close>

lemma legacy_frame:
  assumes "ts tenants_table = Some tb" "rows_hold ts (tb_rows tb) legacy_columns cs"
    and "(\<Union>k \<in> snd ` set cs. set (constraint_columns k)) \<subseteq> cd_name ` set legacy_columns"
    and "tb_rows tb' = map g (tb_rows tb)"
    and "\<And>r c. c \<noteq> ''identity_scope_key'' \<Longrightarrow> c \<noteq> ''account_type'' \<Longrightarrow> g r c = r c"
  shows "rows_hold (ts(tenants_table \<mapsto> tb')) (map g (tb_rows tb)) legacy_columns cs"
proof (rule rows_hold_frame [OF assms(2)])
  show "same_ids ts (ts(tenants_table \<mapsto> tb'))"
    using assms(1) by (rule same_ids_update) (simp add: assms(4,5))
  fix r c
  assume "c \<in> cd_name ` set legacy_columns \<union> (\<Union>k \<in> snd ` set cs. set (constraint_columns k))"
  then have "c \<in> cd_name ` set legacy_columns" using assms(3) by blast
  then have "c \<noteq> ''identity_scope_key''" "c \<noteq> ''account_type''"
    by (auto simp: legacy_columns_def)
  then show "g r c = r c" by (rule assms(5))
qed

definition entra_unique :: "(string \<times> table_constraint) list" where
  "entra_unique = [(''tenants_entra_tenant_id_key'', Unique [''entra_tenant_id''])]"

definition account_column :: column where
  "account_column = (col_not_null ''account_type'' T_text)\<lparr>cd_default := Text_cell ''organization''\<rparr>"

definition scope_key_unique :: "(string \<times> table_constraint) list" where
  "scope_key_unique = [(''ux_tenants_identity_scope_key'', Unique [''identity_scope_key''])]"

definition account_check :: "(string \<times> table_constraint) list" where
  "account_check = [(''tenants_account_type'', One_of ''account_type'' [''organization'', ''personal''])]"

lemma constraint_columns_legacy:
  "(\<Union>k \<in> snd ` set (kept_constraints @ entra_unique). set (constraint_columns k)) \<subseteq> cd_name ` set legacy_columns"
  by (simp add: kept_constraints_def entra_unique_def legacy_columns_eq col_def col_not_null_def)

text \<open>The states of the tenants' table on the way.\<close>

abbreviation tenants_at :: "column \<Rightarrow> (string \<times> table_constraint) list \<Rightarrow> row list \<Rightarrow> table" where
  "tenants_at key cs rows \<equiv>
     \<lparr>tb_columns = legacy_columns @ [key, account_column], tb_constraints = kept_constraints @ cs, tb_rows = rows\<rparr>"

lemma tenants_at_valid:
  assumes "ts tenants_table = Some (legacy_tenants rows)" "table_valid ts (legacy_tenants rows)"
    and g: "\<And>r c. c \<noteq> ''identity_scope_key'' \<Longrightarrow> c \<noteq> ''account_type'' \<Longrightarrow> g r c = r c"
    and cs: "cs = entra_unique @ ds \<or> cs = ds"
    and new: "rows_hold (ts(tenants_table \<mapsto> tenants_at key cs (map g rows))) (map g rows) [key, account_column] ds"
  shows "table_valid (ts(tenants_table \<mapsto> tenants_at key cs (map g rows))) (tenants_at key cs (map g rows))"
proof -
  have "rows_hold ts rows legacy_columns (kept_constraints @ entra_unique)"
    using assms(2) by (simp add: table_valid_rows legacy_tenants_def entra_unique_def)
  then have "rows_hold (ts(tenants_table \<mapsto> tenants_at key cs (map g rows))) (map g rows) legacy_columns (kept_constraints @ entra_unique)"
    using legacy_frame [where g = g and ts = ts and tb = "legacy_tenants rows" and cs = "kept_constraints @ entra_unique"
        and tb' = "tenants_at key cs (map g rows)", OF assms(1) _ constraint_columns_legacy] g
    by (simp add: legacy_tenants_def)
  with cs new show ?thesis by (auto simp: table_valid_rows rows_hold_def)
qed

text \<open>The two halves of the upgrade.\<close>

lemma upgraded_tenants_at: "upgraded_tenants rows
    = tenants_at (col_not_null ''identity_scope_key'' T_text) (scope_key_unique @ account_check) rows"
  by (simp add: upgraded_tenants_def account_column_def scope_key_unique_def account_check_def)

lemma keyed_rows_hold:
  assumes "table_valid ts (legacy_tenants rows)"
    and "key = col ''identity_scope_key'' T_text \<or> key = col_not_null ''identity_scope_key'' T_text"
  shows "rows_hold ts' (map with_scope_key rows) [key, account_column] (scope_key_unique @ account_check)"
proof -
  have legacy: "list_all (column_holds rows) legacy_columns" "constraint_holds ts rows (Unique [''entra_tenant_id''])"
    using assms(1) by (simp_all add: table_valid_def legacy_tenants_def)
  have "constraint_holds ts' (map with_scope_key rows) (Unique [''identity_scope_key''])"
    by (rule scope_keys_unique [OF entra_cell [OF legacy(1)] legacy(2)])
  moreover have "list_all (column_holds (map with_scope_key rows)) [key, account_column]"
    using assms(2) by (auto simp: column_holds_def list_all_iff with_scope_key_def account_column_def col_not_null_def col_def)
  moreover have "constraint_holds ts' (map with_scope_key rows) (One_of ''account_type'' [''organization'', ''personal''])"
    by (simp add: list_all_iff with_scope_key_def)
  ultimately show ?thesis by (simp add: rows_hold_def scope_key_unique_def account_check_def)
qed

lemma upgrade_tenants:
  assumes legacy: "ts tenants_table = Some (legacy_tenants rows)" "table_valid ts (legacy_tenants rows)"
  shows "runs (take 7 upgrade_0003) ts (ts(tenants_table \<mapsto> upgraded_tenants (map with_scope_key rows)))"
    "table_valid (ts(tenants_table \<mapsto> upgraded_tenants (map with_scope_key rows))) (upgraded_tenants (map with_scope_key rows))"
proof -
  let ?key = "col ''identity_scope_key'' T_text" and ?keyn = "col_not_null ''identity_scope_key'' T_text"
  let ?f = "\<lambda>r. (r(''identity_scope_key'' := Null))(''account_type'' := Text_cell ''organization'') :: row"
  let ?S = "\<lambda>k cs rows. ts(tenants_table \<mapsto> tenants_at k cs rows)"
  let ?keyed = "map with_scope_key rows"
  have key: "with_scope_key r c = r c" if "c \<noteq> ''identity_scope_key''" "c \<noteq> ''account_type''" for r c
    using that by (simp add: with_scope_key_def)
  have valid: "table_valid (?S k cs ?keyed) (tenants_at k cs ?keyed)"
    if "k = ?key \<or> k = ?keyn" "cs = entra_unique @ ds \<or> cs = ds" "ds \<in> {[], scope_key_unique, scope_key_unique @ account_check}" for k cs ds
  proof (rule tenants_at_valid [where g = with_scope_key and ds = ds, OF legacy key that(2)])
    show "rows_hold (?S k cs ?keyed) ?keyed [k, account_column] ds"
      using keyed_rows_hold [OF legacy(2) that(1)] that(3) by (auto simp: rows_hold_def)
  qed
  note names = column_names_def legacy_columns_eq col_def col_not_null_def account_column_def kept_constraints_def
    entra_unique_def scope_key_unique_def account_check_def
  have r1: "runs [upgrade_0003 ! 0] ts (?S ?key entra_unique (map ?f rows))"
  proof -
    have "table_valid (?S ?key entra_unique (map ?f rows)) (tenants_at ?key entra_unique (map ?f rows))"
      by (rule tenants_at_valid [where g = ?f and ds = "[]", OF legacy])
        (simp_all add: rows_hold_def column_holds_def list_all_iff col_def account_column_def col_not_null_def)
    then show ?thesis
      unfolding upgrade_0003_def nth_Cons_0
      by (intro runs_alter [of ts tenants_table, OF legacy(1)]) (simp_all add: legacy_tenants_def names comp_def)
  qed
  have "map set_scope_key (map ?f rows) = ?keyed"
  proof -
    have "set_scope_key (?f r) = with_scope_key r" if "r \<in> set rows" for r
    proof -
      have "r ''entra_tenant_id'' = Uuid_cell (entra_of r)"
        using legacy(2) that by (intro entra_cell) (simp_all add: table_valid_def legacy_tenants_def)
      then show ?thesis by (simp add: set_scope_key_def with_scope_key_def text_cell_def fun_upd_twist)
    qed
    then show ?thesis by simp
  qed
  then have r2: "runs [upgrade_0003 ! 1] (?S ?key entra_unique (map ?f rows)) (?S ?key entra_unique ?keyed)"
    using runs_update [of "?S ?key entra_unique (map ?f rows)" tenants_table "tenants_at ?key entra_unique (map ?f rows)"
        "tenants_at ?key entra_unique ?keyed" "\<lambda>_. set_scope_key"] valid [of ?key entra_unique "[]"]
    by (simp add: upgrade_0003_def)
  have alter: "runs [Alter_table tenants_table as] (?S k cs ?keyed) (?S k' cs' ?keyed)"
    if "alter_all as (tenants_at k cs ?keyed) = Inr (tenants_at k' cs' ?keyed)"
      "k' = ?key \<or> k' = ?keyn" "cs' = entra_unique @ ds \<or> cs' = ds" "ds \<in> {[], scope_key_unique, scope_key_unique @ account_check}"
    for as k cs k' cs' ds
    using runs_alter [of "?S k cs ?keyed" tenants_table "tenants_at k cs ?keyed" as "tenants_at k' cs' ?keyed"]
      valid [OF that(2-4)] that(1) by simp
  have r3: "runs [upgrade_0003 ! 2] (?S ?key entra_unique ?keyed) (?S ?keyn entra_unique ?keyed)"
    using alter [of "[Set_not_null ''identity_scope_key'']" ?key entra_unique ?keyn entra_unique "[]"]
    by (simp add: upgrade_0003_def names)
  have r4: "runs [upgrade_0003 ! 3] (?S ?keyn entra_unique ?keyed) (?S ?keyn (entra_unique @ scope_key_unique) ?keyed)"
    using alter [of "[Add_constraint ''ux_tenants_identity_scope_key'' (Unique [''identity_scope_key''])]" ?keyn entra_unique
        ?keyn "entra_unique @ scope_key_unique" "scope_key_unique"]
    by (simp add: upgrade_0003_def runs_unless names)
  have r5: "runs [upgrade_0003 ! 4] (?S ?keyn (entra_unique @ scope_key_unique) ?keyed) (?S ?keyn (entra_unique @ scope_key_unique @ account_check) ?keyed)"
    using alter [of "[Add_constraint ''tenants_account_type'' (One_of ''account_type'' [''organization'', ''personal''])]" ?keyn
        "entra_unique @ scope_key_unique" ?keyn "entra_unique @ scope_key_unique @ account_check" "scope_key_unique @ account_check"]
    by (simp add: upgrade_0003_def runs_unless names)
  have r6: "runs [upgrade_0003 ! 5] (?S ?keyn (entra_unique @ scope_key_unique @ account_check) ?keyed) (?S ?keyn (scope_key_unique @ account_check) ?keyed)"
    using alter [of "[Drop_constraint True ''tenants_entra_tenant_id_key'']" ?keyn
        "entra_unique @ scope_key_unique @ account_check" ?keyn "scope_key_unique @ account_check" "scope_key_unique @ account_check"]
    by (simp add: upgrade_0003_def names)
  have r7: "runs [upgrade_0003 ! 6] (?S ?keyn (scope_key_unique @ account_check) ?keyed) (?S ?keyn (scope_key_unique @ account_check) ?keyed)"
    by (simp add: upgrade_0003_def runs_index names)
  have "take 7 upgrade_0003 = map (\<lambda>i. upgrade_0003 ! i) [0, 1, 2, 3, 4, 5, 6]"
    by (simp add: upgrade_0003_def)
  then show "runs (take 7 upgrade_0003) ts (ts(tenants_table \<mapsto> upgraded_tenants ?keyed))"
    unfolding upgraded_tenants_at
    by (simp only: list.map) (rule runs_Cons [OF r1 runs_Cons [OF r2 runs_Cons [OF r3 runs_Cons [OF r4
      runs_Cons [OF r5 runs_Cons [OF r6 runs_Cons [OF r7 runs_Nil]]]]]]])
  show "table_valid (ts(tenants_table \<mapsto> upgraded_tenants ?keyed)) (upgraded_tenants ?keyed)"
    unfolding upgraded_tenants_at by (rule valid [of _ _ "scope_key_unique @ account_check"]) simp_all
qed

lemma connection_constraint_columns:
  "(\<Union>k \<in> snd ` set connection_constraints. set (constraint_columns k)) \<subseteq> cd_name ` set connection_columns"
  "''token_authority'' \<notin> cd_name ` set connection_columns"
  by (simp_all add: connection_columns_def connection_constraints_def col_def col_not_null_def)

text \<open>A connection has its tenant, because of the foreign key.\<close>

lemma owner_found:
  assumes "rows_hold ts rows connection_columns connection_constraints"
    and "ts tenants_table = Some tb" "r \<in> set rows"
  shows "find (\<lambda>t. t ''id'' = r ''tenant_id'') (tb_rows tb) = Some (owner_of (tb_rows tb) r)"
    "owner_of (tb_rows tb) r \<in> set (tb_rows tb)"
proof -
  have "column_holds rows (col_not_null ''tenant_id'' T_uuid)"
    and "constraint_holds ts rows (References ''tenant_id'' tenants_table)"
    using assms(1) by (simp_all add: rows_hold_def connection_columns_def connection_constraints_def)
  then obtain t where "t \<in> set (tb_rows tb)" "t ''id'' = r ''tenant_id''"
    using not_null_uuid [of rows "''tenant_id''" r] assms(2,3) by (auto simp: list_all_iff list_ex_iff)
  then obtain u where u: "find (\<lambda>t. t ''id'' = r ''tenant_id'') (tb_rows tb) = Some u"
    by (cases "find (\<lambda>t. t ''id'' = r ''tenant_id'') (tb_rows tb)") (auto dest: find_None_not)
  then show "find (\<lambda>t. t ''id'' = r ''tenant_id'') (tb_rows tb) = Some (owner_of (tb_rows tb) r)"
    by (simp add: owner_of_def)
  from u show "owner_of (tb_rows tb) r \<in> set (tb_rows tb)" by (simp add: owner_of_def find_Some_in)
qed

lemma connections_frame:
  assumes "ts connections_table = Some tb" "rows_hold ts (tb_rows tb) connection_columns connection_constraints"
    and "tb_rows tb' = map g (tb_rows tb)" "\<And>r c. c \<noteq> ''token_authority'' \<Longrightarrow> g r c = r c"
  shows "rows_hold (ts(connections_table \<mapsto> tb')) (map g (tb_rows tb)) connection_columns connection_constraints"
proof (rule rows_hold_frame [OF assms(2)])
  show "same_ids ts (ts(connections_table \<mapsto> tb'))"
    using assms(1) by (rule same_ids_update) (simp add: assms(3,4))
  fix r c
  assume "c \<in> cd_name ` set connection_columns \<union> (\<Union>k \<in> snd ` set connection_constraints. set (constraint_columns k))"
  then have "c \<noteq> ''token_authority''" using connection_constraint_columns by blast
  then show "g r c = r c" by (rule assms(4))
qed

lemma upgrade_connections:
  assumes tenants: "ts tenants_table = Some tb"
    and entra: "\<And>t. t \<in> set (tb_rows tb) \<Longrightarrow> t ''entra_tenant_id'' = Uuid_cell (entra_of t)"
    and legacy: "ts connections_table = Some (legacy_connections rows)"
      "rows_hold ts rows connection_columns connection_constraints"
  shows "runs (drop 7 upgrade_0003) ts (ts(connections_table \<mapsto> upgraded_connections (map (with_authority (tb_rows tb)) rows)))"
    "table_valid (ts(connections_table \<mapsto> upgraded_connections (map (with_authority (tb_rows tb)) rows)))
       (upgraded_connections (map (with_authority (tb_rows tb)) rows))"
proof -
  let ?key = "col ''token_authority'' T_text" and ?keyn = "col_not_null ''token_authority'' T_text"
  let ?T = "\<lambda>k rows. \<lparr>tb_columns = connection_columns @ [k], tb_constraints = connection_constraints, tb_rows = rows\<rparr>"
  let ?S = "\<lambda>k rows. ts(connections_table \<mapsto> ?T k rows)"
  let ?f = "\<lambda>r. r(''token_authority'' := Null) :: row" and ?g = "with_authority (tb_rows tb)"
  have g: "?g r c = r c" if "c \<noteq> ''token_authority''" for r c using that by (simp add: with_authority_def)
  have valid: "table_valid (?S k (map h rows)) (?T k (map h rows))"
    if "\<And>r c. c \<noteq> ''token_authority'' \<Longrightarrow> h r c = r c" "column_holds (map h rows) k" for h k
    using connections_frame [where ts = ts and tb = "legacy_connections rows" and g = h and tb' = "?T k (map h rows)",
        OF legacy(1)] legacy(2) that
    by (simp add: legacy_connections_def table_valid_rows) (simp add: rows_hold_def)
  note names = column_names_def connection_columns_def col_def col_not_null_def
  have r1: "runs [upgrade_0003 ! 7] ts (?S ?key (map ?f rows))"
  proof -
    have "table_valid (?S ?key (map ?f rows)) (?T ?key (map ?f rows))"
      by (rule valid) (simp_all add: column_holds_def list_all_iff col_def)
    then show ?thesis
      using runs_alter [of ts connections_table "legacy_connections rows" "[Add_column True ?key]" "?T ?key (map ?f rows)", OF legacy(1)]
      by (simp add: upgrade_0003_def legacy_connections_def names)
  qed
  have "set_token_authority (?S ?key (map ?f rows)) (?f r) = ?g r" if "r \<in> set rows" for r
    using owner_found(1) [of ts rows tb r, OF legacy(2) tenants that] tenants
      entra [OF owner_found(2) [of ts rows tb r, OF legacy(2) tenants that]]
    by (simp add: set_token_authority_def with_authority_def text_cell_def)
  moreover have authority: "column_holds (map ?g rows) ?key" "column_holds (map ?g rows) ?keyn"
    by (simp_all add: column_holds_def list_all_iff with_authority_def col_def col_not_null_def)
  ultimately have r2: "runs [upgrade_0003 ! 8] (?S ?key (map ?f rows)) (?S ?key (map ?g rows))"
    using runs_update [of "?S ?key (map ?f rows)" connections_table "?T ?key (map ?f rows)" "?T ?key (map ?g rows)" set_token_authority]
      valid [of ?g ?key, OF g]
    by (simp add: upgrade_0003_def)
  have validn: "table_valid (?S ?keyn (map ?g rows)) (?T ?keyn (map ?g rows))" by (rule valid [OF g authority(2)])
  then have r3: "runs [upgrade_0003 ! 9] (?S ?key (map ?g rows)) (?S ?keyn (map ?g rows))"
    using runs_alter [of "?S ?key (map ?g rows)" connections_table "?T ?key (map ?g rows)" "[Set_not_null ''token_authority'']" "?T ?keyn (map ?g rows)"]
    by (simp add: upgrade_0003_def names)
  have "drop 7 upgrade_0003 = map (\<lambda>i. upgrade_0003 ! i) [7, 8, 9]"
    by (simp add: upgrade_0003_def)
  then show "runs (drop 7 upgrade_0003) ts (ts(connections_table \<mapsto> upgraded_connections (map ?g rows)))"
    unfolding upgraded_connections_def
    by (simp only: list.map) (rule runs_Cons [OF r1 runs_Cons [OF r2 runs_Cons [OF r3 runs_Nil]]])
  show "table_valid (ts(connections_table \<mapsto> upgraded_connections (map ?g rows))) (upgraded_connections (map ?g rows))"
    unfolding upgraded_connections_def by (rule validn)
qed

text \<open>The whole revision.\<close>

lemma upgrade_0003_runs:
  assumes "legacy_database tenants connections ts"
  shows "\<exists>ts'. runs upgrade_0003 ts ts'
    \<and> upgraded_database (map with_scope_key tenants) (map (with_authority tenants) connections) ts'
    \<and> (\<forall>n. n \<noteq> tenants_table \<and> n \<noteq> connections_table \<longrightarrow> ts' n = ts n)"
proof -
  let ?tb = "upgraded_tenants (map with_scope_key tenants)" and ?ts1 = "ts(tenants_table \<mapsto> upgraded_tenants (map with_scope_key tenants))"
  let ?own = "with_authority (map with_scope_key tenants)"
  let ?ts2 = "?ts1(connections_table \<mapsto> upgraded_connections (map ?own connections))"
  have legacy: "ts tenants_table = Some (legacy_tenants tenants)" "table_valid ts (legacy_tenants tenants)"
    "ts connections_table = Some (legacy_connections connections)" "table_valid ts (legacy_connections connections)"
    using assms by (simp_all add: legacy_database_def)
  note first = upgrade_tenants [OF legacy(1,2)]
  have cell: "t ''entra_tenant_id'' = Uuid_cell (entra_of t)" if "t \<in> set tenants" for t
    using legacy(2) that by (intro entra_cell) (simp_all add: table_valid_def legacy_tenants_def)
  have entra: "t ''entra_tenant_id'' = Uuid_cell (entra_of t)" if t: "t \<in> set (tb_rows ?tb)" for t
  proof -
    obtain u where "u \<in> set tenants" "t = with_scope_key u" using t by (auto simp: upgraded_tenants_def)
    with cell [of u] show ?thesis by (simp add: with_scope_key_def entra_of_def)
  qed
  have ids1: "same_ids ts ?ts1"
    using legacy(1) by (rule same_ids_update) (simp add: legacy_tenants_def upgraded_tenants_def with_scope_key_def)
  have conns: "rows_hold ?ts1 connections connection_columns connection_constraints"
    using legacy(4) by (simp add: table_valid_rows legacy_connections_def rows_hold_def list_all_iff constraint_holds_ids [OF ids1])
  note second = upgrade_connections [of ?ts1 ?tb connections, OF _ entra _ conns]
  have own: "map (with_authority tenants) connections = map ?own connections"
  proof -
    have "entra_of (owner_of (map with_scope_key tenants) r) = entra_of (owner_of tenants r)" if r: "r \<in> set connections" for r
    proof -
      have rows: "rows_hold ts connections connection_columns connection_constraints"
        using legacy(4) by (simp add: table_valid_rows legacy_connections_def)
      have "find (\<lambda>t. t ''id'' = r ''tenant_id'') (map with_scope_key ts0) = map_option with_scope_key (find (\<lambda>t. t ''id'' = r ''tenant_id'') ts0)" for ts0
        by (induction ts0) (simp_all add: with_scope_key_def)
      moreover obtain u where "find (\<lambda>t. t ''id'' = r ''tenant_id'') tenants = Some u"
        using owner_found(1) [OF rows legacy(1) r] by (simp add: legacy_tenants_def)
      ultimately show ?thesis by (simp add: owner_of_def) (simp add: with_scope_key_def entra_of_def)
    qed
    then show ?thesis by (simp add: with_authority_def)
  qed
  have "runs (take 7 upgrade_0003 @ drop 7 upgrade_0003) ts ?ts2"
    by (rule runs_append [OF first(1)], use second(1) legacy(3) in \<open>simp add: upgraded_tenants_def\<close>)
  then have run: "runs upgrade_0003 ts ?ts2" by simp
  have "same_ids ?ts1 ?ts2"
    by (rule same_ids_update [of _ _ "legacy_connections connections"])
      (simp_all add: legacy(3) legacy_connections_def upgraded_connections_def with_authority_def)
  then have "table_valid ?ts2 ?tb"
    using first(2) by (simp add: table_valid_def list_all_iff constraint_holds_ids)
  moreover have "table_valid ?ts2 (upgraded_connections (map ?own connections))"
    using second(2) legacy(3) by (simp add: upgraded_tenants_def)
  ultimately have "upgraded_database (map with_scope_key tenants) (map (with_authority tenants) connections) ?ts2"
    by (simp add: upgraded_database_def own)
  with run show ?thesis by (intro exI [of _ ?ts2]) simp
qed

section \<open>Back again\<close>

definition cleared_tenant :: "row \<Rightarrow> row" where
  "cleared_tenant r = r(''account_type'' := Null, ''identity_scope_key'' := Null)"

definition cleared_connection :: "row \<Rightarrow> row" where
  "cleared_connection r = r(''token_authority'' := Null)"

lemma downgrade_first:
  assumes "upgraded_database tenants connections ts"
  defines "ts1 \<equiv> ts(connections_table \<mapsto> legacy_connections (map cleared_connection connections))"
  shows "runs (take 2 downgrade_0003) ts ts1" "same_ids ts ts1" "table_valid ts1 (legacy_connections (map cleared_connection connections))"
proof -
  have up: "ts connections_table = Some (upgraded_connections connections)" "table_valid ts (upgraded_connections connections)"
    using assms(1) by (simp_all add: upgraded_database_def)
  have rows: "rows_hold ts connections connection_columns connection_constraints"
    using up(2) by (simp add: table_valid_def upgraded_connections_def rows_hold_def)
  show valid: "table_valid ts1 (legacy_connections (map cleared_connection connections))"
    using connections_frame [where ts = ts and tb = "upgraded_connections connections" and g = cleared_connection
        and tb' = "legacy_connections (map cleared_connection connections)", OF up(1)] rows
    by (simp add: table_valid_rows upgraded_connections_def legacy_connections_def cleared_connection_def ts1_def)
  have gone: "filter (\<lambda>(_, c). ''token_authority'' \<notin> set (constraint_columns c)) connection_constraints = connection_constraints"
    by (simp add: connection_constraints_def)
  have "alter_all [Drop_column ''token_authority''] (upgraded_connections connections)
      = Inr (legacy_connections (map cleared_connection connections))"
    by (simp add: upgraded_connections_def legacy_connections_def cleared_connection_def gone)
      (simp add: column_names_def connection_columns_def col_def col_not_null_def)
  then have r1: "runs [Alter_table connections_table [Drop_column ''token_authority'']] ts ts1"
    unfolding ts1_def by (intro runs_alter [of ts connections_table, OF up(1)] valid [unfolded ts1_def])
  have "take 2 downgrade_0003 = [Alter_table connections_table [Drop_column ''token_authority''], Drop_index ''identity.ix_tenants_entra_tenant_id'']"
    by (simp add: downgrade_0003_def)
  then show "runs (take 2 downgrade_0003) ts ts1"
    by (simp only:) (rule runs_Cons [OF r1 runs_drop_index])
  show "same_ids ts ts1"
    unfolding ts1_def using up(1) by (rule same_ids_update) (simp add: legacy_connections_def upgraded_connections_def cleared_connection_def)
qed

lemma downgrade_alter: "alter_all [Drop_constraint False ''tenants_account_type'', Drop_constraint False ''ux_tenants_identity_scope_key'',
    Drop_column ''account_type'', Drop_column ''identity_scope_key'',
    Add_constraint ''tenants_entra_tenant_id_key'' (Unique [''entra_tenant_id''])] (upgraded_tenants rows)
  = Inr (legacy_tenants (map cleared_tenant rows))"
  by (simp add: upgraded_tenants_def legacy_tenants_def kept_constraints_def column_names_def legacy_columns_eq col_def col_not_null_def
      cleared_tenant_def comp_def)

text \<open>The last statement of the downgrade demands that no two tenants have the same Entra id.\<close>

lemma cleared_valid:
  assumes up: "ts tenants_table = Some (upgraded_tenants rows)" "table_valid ts (upgraded_tenants rows)"
  defines "ts' \<equiv> ts(tenants_table \<mapsto> legacy_tenants (map cleared_tenant rows))"
  shows "table_valid ts' (legacy_tenants (map cleared_tenant rows)) \<longleftrightarrow> distinct (map entra_of rows)"
proof -
  have rows: "rows_hold ts rows legacy_columns kept_constraints"
    using up(2) by (simp add: table_valid_def upgraded_tenants_def rows_hold_def)
  have "rows_hold ts' (map cleared_tenant rows) legacy_columns kept_constraints"
    using legacy_frame [where ts = ts and tb = "upgraded_tenants rows" and g = cleared_tenant and cs = kept_constraints
        and tb' = "legacy_tenants (map cleared_tenant rows)", OF up(1)] rows constraint_columns_legacy
    by (simp add: upgraded_tenants_def legacy_tenants_def ts'_def cleared_tenant_def)
  moreover have "constraint_holds ts' (map cleared_tenant rows) (Unique [''entra_tenant_id'']) \<longleftrightarrow> distinct (map entra_of rows)"
  proof -
    have cell: "r ''entra_tenant_id'' = Uuid_cell (entra_of r)" if "r \<in> set rows" for r
      using rows that by (intro entra_cell) (simp_all add: rows_hold_def)
    have "filter (\<lambda>r. cleared_tenant r ''entra_tenant_id'' \<noteq> Null) rows = rows"
      using cell by (auto simp: filter_id_conv cleared_tenant_def) (metis cell.distinct(1))
    moreover have "map (\<lambda>r. [cleared_tenant r ''entra_tenant_id'']) rows = map (\<lambda>u. [Uuid_cell u]) (map entra_of rows)"
      using cell by (simp add: cleared_tenant_def)
    ultimately have "constraint_holds ts' (map cleared_tenant rows) (Unique [''entra_tenant_id''])
        = distinct (map (\<lambda>u. [Uuid_cell u]) (map entra_of rows))"
      by (simp only: constraint_holds.simps filter_map comp_def map_map list.map list.pred_inject simp_thms)
    also have "\<dots> = distinct (map entra_of rows)"
      by (subst distinct_map) (simp add: inj_on_def)
    finally show ?thesis .
  qed
  ultimately show ?thesis
    by (auto simp: table_valid_rows legacy_tenants_def rows_hold_def)
qed

text \<open>The downgrade runs, or fails at its last statement.\<close>

lemma downgrade_0003_runs:
  assumes "upgraded_database tenants connections ts"
  shows "if distinct (map entra_of tenants)
    then \<exists>ts'. runs downgrade_0003 ts ts'
      \<and> legacy_database (map cleared_tenant tenants) (map cleared_connection connections) ts'
    else \<exists>e. \<forall>ixs. exec_all downgrade_0003 \<lparr>db_table = ts, db_indexes = ixs\<rparr> = Inl e"
proof -
  define ts1 where "ts1 = ts(connections_table \<mapsto> legacy_connections (map cleared_connection connections))"
  note first = downgrade_first [OF assms, folded ts1_def]
  have up: "ts1 tenants_table = Some (upgraded_tenants tenants)" "table_valid ts1 (upgraded_tenants tenants)"
    using assms by (simp_all add: upgraded_database_def ts1_def table_valid_def list_all_iff
        constraint_holds_ids [OF first(2) [unfolded ts1_def]])
  let ?ts2 = "ts1(tenants_table \<mapsto> legacy_tenants (map cleared_tenant tenants))"
  let ?last = "Alter_table tenants_table [Drop_constraint False ''tenants_account_type'',
    Drop_constraint False ''ux_tenants_identity_scope_key'', Drop_column ''account_type'', Drop_column ''identity_scope_key'',
    Add_constraint ''tenants_entra_tenant_id_key'' (Unique [''entra_tenant_id''])]"
  have split: "downgrade_0003 = take 2 downgrade_0003 @ [?last]" by (simp add: downgrade_0003_def)
  note valid = cleared_valid [OF up]
  show ?thesis
  proof (cases "distinct (map entra_of tenants)")
    case True
    have "runs [?last] ts1 ?ts2"
      using valid True downgrade_alter by (intro runs_alter [of ts1 tenants_table, OF up(1)]) simp_all
    then have run: "runs downgrade_0003 ts ?ts2"
      by (subst split) (rule runs_append [OF first(1)])
    have "same_ids ts1 ?ts2"
      using up(1) by (rule same_ids_update) (simp add: legacy_tenants_def upgraded_tenants_def cleared_tenant_def)
    then have "table_valid ?ts2 (legacy_connections (map cleared_connection connections))"
      using first(3) by (simp add: table_valid_def list_all_iff constraint_holds_ids)
    then have "legacy_database (map cleared_tenant tenants) (map cleared_connection connections) ?ts2"
      using valid True by (simp add: legacy_database_def) (simp add: ts1_def)
    with True run show ?thesis by auto
  next
    case False
    then have last: "exec_statement ?last \<lparr>db_table = ts1, db_indexes = ixs\<rparr> = Inl (sql_error ''IntegrityError'' tenants_table)" for ixs
      using valid downgrade_alter up(1) by (simp add: find_table_def put_table_def)
    have "bindr (exec_all xs db) (exec_all [s]) = bindr (exec_all xs db) (exec_statement s)" for xs s db
      by (simp add: bindr_def split: sum.split)
    then have "exec_all downgrade_0003 db = bindr (exec_all (take 2 downgrade_0003) db) (exec_statement ?last)" for db
      using split exec_all_append by metis
    then have "exec_all downgrade_0003 \<lparr>db_table = ts, db_indexes = ixs\<rparr> = Inl (sql_error ''IntegrityError'' tenants_table)" for ixs
      using first(1) last unfolding runs_def by (metis bindr_simps(2))
    with False show ?thesis by auto
  qed
qed

lemma fun_upd_same_iff: "a \<noteq> b \<Longrightarrow> (f(a := x, b := y) = f) = (f a = x \<and> f b = y)"
  by (metis fun_upd_apply fun_upd_triv)

lemma do_run_migrations_one:
  "do_run_migrations None [exec_all ss] db = (case exec_all ss db of Inl e \<Rightarrow> (Inl e, db) | Inr db' \<Rightarrow> (Inr (), db'))"
  by (simp add: do_run_migrations_def transaction_def split: sum.split)

lemma migrate_runs:
  assumes "runs ss (db_table db) ts'"
  obtains db' where "do_run_migrations None [exec_all ss] db = (Inr (), db')" "db_table db' = ts'"
proof -
  obtain ixs' where "exec_all ss \<lparr>db_table = db_table db, db_indexes = db_indexes db\<rparr> = Inr \<lparr>db_table = ts', db_indexes = ixs'\<rparr>"
    using assms unfolding runs_def by blast
  with that [of "\<lparr>db_table = ts', db_indexes = ixs'\<rparr>"] show thesis by (simp add: do_run_migrations_one)
qed

section \<open>From nothing and back to nothing\<close>

text \<open>Texts without a semicolon, one after the other, are found again by the first revision.\<close>

lemma split_on_append: "CHR '';'' \<notin> set s \<Longrightarrow> split_on CHR '';'' (s @ CHR '';'' # rest) = s # split_on CHR '';'' rest"
  by (induction s) auto

lemma schema_statements_found:
  assumes "\<And>s. s \<in> set stmts \<Longrightarrow> CHR '';'' \<notin> set s \<and> strip s \<noteq> []"
  shows "schema_statements (concat (map (\<lambda>s. s @ '';'') stmts)) = map strip stmts"
  using assms
proof (induction stmts)
  case Nil
  then show ?case by (simp add: schema_statements_def strip_def strip_by_def lstrip_by_def rstrip_by_def)
next
  case (Cons s stmts)
  have "split_on CHR '';'' (s @ CHR '';'' # concat (map (\<lambda>s. s @ '';'') stmts))
      = s # split_on CHR '';'' (concat (map (\<lambda>s. s @ '';'') stmts))"
    using Cons.prems by (intro split_on_append) simp
  with Cons show ?case by (simp add: schema_statements_def)
qed

text \<open>
  A new database: the first revision already brings the tables of the last one, the second
  finds its table there, and the third adds its unique constraint on the keys a second time,
  beside the one that \<open>schema.sql\<close> declares. Taking all three back leaves no table of the
  program.
\<close>

definition fresh_tenants :: table where
  "fresh_tenants = schema_tenants\<lparr>tb_constraints := tb_constraints schema_tenants @ scope_key_unique\<rparr>"

lemma fresh_upgrade:
  assumes "ts tenants_table = Some schema_tenants" "ts connections_table = Some schema_connections"
  shows "runs upgrade_0003 ts (ts(tenants_table \<mapsto> fresh_tenants))"
proof -
  let ?ts = "ts(tenants_table \<mapsto> fresh_tenants)"
  note names = column_names_def schema_tenants_def schema_connections_def connection_columns_def col_def col_not_null_def
    fresh_tenants_def scope_key_unique_def
  have rows: "tb_rows schema_tenants = []" "tb_rows fresh_tenants = []" "tb_rows schema_connections = []"
    by (simp_all add: names)
  have conns: "?ts connections_table = Some schema_connections" and fresh: "?ts tenants_table = Some fresh_tenants"
    using assms(2) by simp_all
  note start = runs_idle [of ts tenants_table, OF assms(1) rows(1)]
    and later = runs_idle [of ?ts tenants_table, OF fresh rows(2)]
    and other = runs_idle [of ?ts connections_table, OF conns rows(3)]
  have add: "runs [Alter_table tenants_table [Add_constraint ''ux_tenants_identity_scope_key'' (Unique [''identity_scope_key''])]] ts ?ts"
    using assms(1) rows(1) _ rows(2) by (rule runs_alter_empty) (simp add: names)
  have "runs upgrade_0003 ts ?ts"
    unfolding upgrade_0003_def
    by (rule runs_Cons, rule start(1), simp add: names, rule runs_Cons, rule start(2), rule runs_Cons, rule start(1), simp add: names,
      rule runs_Cons, rule runs_unless [of ts, OF assms(1) _ add], simp add: names,
      rule runs_Cons, rule later(3), simp add: names, rule runs_Cons, rule later(1), simp add: names,
      rule runs_Cons, rule runs_index [of ?ts, OF fresh], simp add: names, rule runs_Cons, rule other(1), simp add: names,
      rule runs_Cons, rule other(2), rule runs_Cons, rule other(1), simp add: names, rule runs_Nil)
  then show ?thesis .
qed

lemma fresh_install:
  assumes "upgrade_0001 run_text sql db = Inr db1"
    and "db_table db1 tenants_table = Some schema_tenants" "db_table db1 connections_table = Some schema_connections"
  shows "\<exists>db2. do_run_migrations None [upgrade_0001 run_text sql, exec_all upgrade_0002, exec_all upgrade_0003] db = (Inr (), db2)
    \<and> db_table db2 = (db_table db1)(tenants_table \<mapsto> fresh_tenants)"
proof -
  have idx: "runs [Create_index i connections_table [''tenant_id'', ''user_id'']] (db_table db1) (db_table db1)" for i
    using assms(3) by (rule runs_index) (simp add: column_names_def schema_connections_def connection_columns_def col_def col_not_null_def)
  have "runs [Create_table connections_table cols cs] (db_table db1) (db_table db1)" for cols cs
    using assms(3) by (simp add: runs_def)
  then have "runs upgrade_0002 (db_table db1) (db_table db1)"
    unfolding upgrade_0002_def by (rule runs_Cons [OF _ idx])
  from runs_append [OF this fresh_upgrade [of "db_table db1", OF assms(2,3)]]
  obtain ixs where "exec_all (upgrade_0002 @ upgrade_0003) \<lparr>db_table = db_table db1, db_indexes = db_indexes db1\<rparr>
      = Inr \<lparr>db_table = (db_table db1)(tenants_table \<mapsto> fresh_tenants), db_indexes = ixs\<rparr>"
    unfolding runs_def by blast
  then have "bindr (exec_all upgrade_0002 db1) (exec_all upgrade_0003)
      = Inr \<lparr>db_table = (db_table db1)(tenants_table \<mapsto> fresh_tenants), db_indexes = ixs\<rparr>"
    by (simp add: exec_all_append)
  with assms(1) show ?thesis by (simp add: do_run_migrations_def transaction_def)
qed

text \<open>Taking the first revision back leaves no table of the seven schemas.\<close>

lemma downgrade_0001_clears:
  "\<exists>db'. exec_all downgrade_0001 db = Inr db'
     \<and> (\<forall>n. db_table db' n = (if list_ex (\<lambda>s. schema_prefix s n) [''audit'', ''operations'', ''intelligence'', ''relationships'',
            ''inventory'', ''identity'', ''platform''] then None else db_table db n))"
  by (simp add: downgrade_0001_def)

section \<open>Properties\<close>

text \<open>C27: The third revision brings every old database to the new declarations: it succeeds on any two
  tables that are valid before it, keeps every other table, gives each tenant a key and each
  connection the Entra tenant of its owner as its authority, and no key twice. The key that
  it gives is the one that a sign-in looks for, whoever signs in, exactly if the tenant is
  not Microsoft's tenant of personal accounts; a row of that one is found by nobody again.\<close>

theorem upgrade_keeps_tenants_reachable:
  assumes "legacy_database tenants connections (db_table db)"
    and "tenants_table \<notin> set others" "connections_table \<notin> set others"
  shows "\<exists>db'. do_run_migrations None [exec_all upgrade_0003] db = (Inr (), db')
    \<and> upgraded_database (map with_scope_key tenants) (map (with_authority tenants) connections) (db_table db')
    \<and> list_all (\<lambda>n. db_table db' n = db_table db n) others
    \<and> list_all (\<lambda>r. (with_scope_key r ''identity_scope_key'' = Text_cell (identity_scope_key (entra_of r) u))
         = (\<not> is_personal_account (entra_of r))) tenants"
proof -
  obtain ts' where run: "runs upgrade_0003 (db_table db) ts'"
    and up: "upgraded_database (map with_scope_key tenants) (map (with_authority tenants) connections) ts'"
    and same: "\<And>n. n \<noteq> tenants_table \<Longrightarrow> n \<noteq> connections_table \<Longrightarrow> ts' n = db_table db n"
    using upgrade_0003_runs [OF assms(1)] by blast
  have "list_all (\<lambda>n. ts' n = db_table db n) others"
    unfolding list_all_iff by (intro ballI same) (use assms(2,3) in metis)+
  moreover have "(with_scope_key r ''identity_scope_key'' = Text_cell (identity_scope_key (entra_of r) u))
      = (\<not> is_personal_account (entra_of r))" for r
    by (simp add: with_scope_key_def identity_scope_key_def)
  moreover obtain db' where "do_run_migrations None [exec_all upgrade_0003] db = (Inr (), db')" "db_table db' = ts'"
    using run by (rule migrate_runs)
  ultimately show ?thesis using up by (intro exI [of _ db'] conjI) (simp_all add: list_all_iff)
qed

definition sample_tenant_row :: "uuid \<Rightarrow> uuid \<Rightarrow> row" where
  "sample_tenant_row i entra = (\<lambda>_. Null)(''id'' := Uuid_cell i, ''entra_tenant_id'' := Uuid_cell entra,
     ''display_name'' := Text_cell ''T'', ''status'' := Text_cell ''active'', ''onboarding_metadata'' := Json_cell (JDict []),
     ''created_at'' := Time_cell 0, ''updated_at'' := Time_cell 0, ''version'' := Int_cell 1)"

definition sample_connection_row :: row where
  "sample_connection_row = (\<lambda>_. Null)(''id'' := Uuid_cell 3, ''tenant_id'' := Uuid_cell 1, ''user_id'' := Uuid_cell 9,
     ''provider'' := Text_cell ''microsoft'', ''scopes'' := Text_cell ''s'', ''encrypted_refresh_token'' := Text_cell ''r'',
     ''created_at'' := Time_cell 0, ''updated_at'' := Time_cell 0)"

definition sample_users :: table where
  "sample_users = \<lparr>tb_columns = [], tb_constraints = [], tb_rows = [(\<lambda>_. Null)(''id'' := Uuid_cell 9)]\<rparr>"

definition sample_legacy :: database where
  "sample_legacy = \<lparr>db_table = (\<lambda>_. None)(''identity.users'' \<mapsto> sample_users,
     tenants_table \<mapsto> legacy_tenants [sample_tenant_row 1 5], connections_table \<mapsto> legacy_connections [sample_connection_row]),
     db_indexes = []\<rparr>"

lemma sample_legacy_valid: "legacy_database [sample_tenant_row 1 5] [sample_connection_row] (db_table sample_legacy)"
  by (simp add: legacy_database_def sample_legacy_def table_valid_def legacy_tenants_def legacy_connections_def legacy_columns_eq
      kept_constraints_def connection_columns_def connection_constraints_def column_holds_def col_def col_not_null_def
      sample_tenant_row_def sample_connection_row_def sample_users_def)

lemma upgrade_keeps_tenants_reachable_witness:
  "\<exists>db'. do_run_migrations None [exec_all upgrade_0003] sample_legacy = (Inr (), db')
     \<and> upgraded_database [with_scope_key (sample_tenant_row 1 5)]
         [with_authority [sample_tenant_row 1 5] sample_connection_row] (db_table db')"
  using upgrade_keeps_tenants_reachable [OF sample_legacy_valid, of "[]" 0] by auto

text \<open>C28: The third revision can be taken back exactly while no two tenants have the same Entra id, that
  is, while at most one personal account has signed in; otherwise the downgrade fails and the
  transaction leaves the database as it was. Taken back and made again, it restores every
  organisation as it was, and turns a personal account into an organisation with a key that
  is not its own.\<close>

theorem downgrade_upgrade_roundtrip:
  assumes "upgraded_database tenants connections (db_table db)"
  shows "if distinct (map entra_of tenants)
    then \<exists>db1 db2. do_run_migrations None [exec_all downgrade_0003] db = (Inr (), db1)
      \<and> do_run_migrations None [exec_all upgrade_0003] db1 = (Inr (), db2)
      \<and> db_table db2 tenants_table = Some (upgraded_tenants (map (with_scope_key \<circ> cleared_tenant) tenants))
      \<and> list_all (\<lambda>r. (with_scope_key (cleared_tenant r) = r)
           = (r ''account_type'' = Text_cell ''organization''
              \<and> r ''identity_scope_key'' = Text_cell (''tenant:'' @ uuid_str (entra_of r)))) tenants
    else \<exists>e. do_run_migrations None [exec_all downgrade_0003] db = (Inl e, db)"
proof -
  have restored: "(with_scope_key (cleared_tenant r) = r)
      = (r ''account_type'' = Text_cell ''organization'' \<and> r ''identity_scope_key'' = Text_cell (''tenant:'' @ uuid_str (entra_of r)))" for r
  proof -
    have "entra_of (cleared_tenant r) = entra_of r" by (simp add: entra_of_def cleared_tenant_def)
    then have "with_scope_key (cleared_tenant r) = r(''account_type'' := Text_cell ''organization'',
        ''identity_scope_key'' := Text_cell (''tenant:'' @ uuid_str (entra_of r)))"
      by (simp add: with_scope_key_def cleared_tenant_def fun_upd_twist)
    then show ?thesis by (simp add: fun_upd_same_iff)
  qed
  show ?thesis
  proof (cases "distinct (map entra_of tenants)")
    case True
    then obtain ts1 where down: "runs downgrade_0003 (db_table db) ts1"
      and legacy: "legacy_database (map cleared_tenant tenants) (map cleared_connection connections) ts1"
      using downgrade_0003_runs [OF assms] by auto
    obtain db1 where db1: "do_run_migrations None [exec_all downgrade_0003] db = (Inr (), db1)" "db_table db1 = ts1"
      using down by (rule migrate_runs)
    obtain ts2 where up: "runs upgrade_0003 (db_table db1) ts2"
      and ts2: "upgraded_database (map with_scope_key (map cleared_tenant tenants))
        (map (with_authority (map cleared_tenant tenants)) (map cleared_connection connections)) ts2"
      using upgrade_0003_runs [OF legacy] db1(2) by blast
    obtain db2 where db2: "do_run_migrations None [exec_all upgrade_0003] db1 = (Inr (), db2)" "db_table db2 = ts2"
      using up by (rule migrate_runs)
    have "db_table db2 tenants_table = Some (upgraded_tenants (map (with_scope_key \<circ> cleared_tenant) tenants))"
      using ts2 db2(2) by (simp add: upgraded_database_def)
    with True db1(1) db2(1) restored show ?thesis by (simp add: list_all_iff)
  next
    case False
    then obtain e where e: "\<forall>ixs. exec_all downgrade_0003 \<lparr>db_table = db_table db, db_indexes = ixs\<rparr> = Inl e"
      using downgrade_0003_runs [OF assms] by auto
    have "exec_all downgrade_0003 db = Inl e" using e [rule_format, of "db_indexes db"] by simp
    with False show ?thesis by (simp add: do_run_migrations_one)
  qed
qed

text \<open>Two personal accounts in an upgraded database.\<close>

definition personal_row :: "uuid \<Rightarrow> row" where
  "personal_row i = (sample_tenant_row i MICROSOFT_CONSUMER_TENANT_ID)
     (''identity_scope_key'' := Text_cell (uuid_str i), ''account_type'' := Text_cell ''personal'')"

definition sample_upgraded :: database where
  "sample_upgraded = \<lparr>db_table = (\<lambda>_. None)(tenants_table \<mapsto> upgraded_tenants [personal_row 1, personal_row 2],
     connections_table \<mapsto> upgraded_connections []), db_indexes = []\<rparr>"

lemma downgrade_upgrade_roundtrip_witness:
  "\<exists>e. do_run_migrations None [exec_all downgrade_0003] sample_upgraded = (Inl e, sample_upgraded)"
proof -
  have up: "upgraded_database [personal_row 1, personal_row 2] [] (db_table sample_upgraded)"
    by (simp add: upgraded_database_def sample_upgraded_def table_valid_def upgraded_tenants_def upgraded_connections_def
        legacy_columns_eq kept_constraints_def connection_columns_def connection_constraints_def column_holds_def col_def
        col_not_null_def personal_row_def sample_tenant_row_def uuid_str_inject)
  have "\<not> distinct (map entra_of [personal_row 1, personal_row 2])"
    by (simp add: entra_of_def personal_row_def sample_tenant_row_def)
  with downgrade_upgrade_roundtrip [OF up] show ?thesis by simp
qed

end
