(* ===== verification/Administrators.thy ===== *)
theory Administrators
  imports Identity
begin

text \<open>
  Who becomes the administrator of a tenant when sign-ins overlap. An onboarding
  (\<open>onboard_oauth_user\<close> of the identity's \<open>service.py\<close>) finds or creates the tenant and counts
  its users in statements of their own; what it writes after them is seen by others only when
  its transaction commits. Here the statements up to the count are one step on the tables
  that are committed, the others and the commit a second one: between the two the
  transactions of others commit. The writes of the second step find or insert rows by keys
  that the database keeps unique, so a transaction that loses such a race fails, which the
  step \<open>abort\<close> allows at any time; only the count decides on its own.
\<close>

section \<open>Overlapping sign-ins\<close>

record sign_in =
  si_ids :: onboard_ids
  si_clock :: clock
  si_principal :: token_principal
  si_display_name :: "string option"
  si_refresh_token :: string
  si_scopes :: "string list"
  si_authority :: string

definition sign_in_key :: "sign_in \<Rightarrow> string" where
  "sign_in_key s = identity_scope_key (tp_entra_tenant_id (si_principal s)) (tp_entra_object_id (si_principal s))"

definition sign_in_tenant :: "sign_in \<Rightarrow> identity_db \<Rightarrow> tenant \<times> bool \<times> identity_db" where
  "sign_in_tenant s db =
     get_or_create_tenant (onboard_tenant_args (si_ids s) (si_clock s) (si_principal s) (si_display_name s)) db"

text \<open>What the first statements find: whether the tenant is created, and how many users it has.\<close>

definition sign_in_count :: "sign_in \<Rightarrow> identity_db \<Rightarrow> bool \<times> nat" where
  "sign_in_count s db = (let (t, created, db1) = sign_in_tenant s db in (created, count_users (row_id t) db1))"

text \<open>
  The rest, on the tables of the commit. A tenant that the transaction inserted must not have
  come from another one in the meantime.
\<close>

definition sign_in_rest ::
  "sign_in \<Rightarrow> bool \<Rightarrow> nat \<Rightarrow> identity_db \<Rightarrow> (resolved_identity \<times> identity_db) result" where
  "sign_in_rest s created existing_count db = (let (t, inserts, db1) = sign_in_tenant s db in
     if created \<and> \<not> inserts then Inl unique_violation
     else onboard_into (si_ids s) (si_clock s) (si_principal s) (si_refresh_token s) (si_scopes s) (si_authority s)
       t created existing_count db1)"

text \<open>Undisturbed, the two steps are the function.\<close>

lemma sign_in_alone:
  "(case sign_in_count s db of (created, n) \<Rightarrow> sign_in_rest s created n db)
     = onboard_oauth_user (si_ids s) (si_clock s) (si_principal s) (si_display_name s) (si_refresh_token s)
         (si_scopes s) (si_authority s) db"
  by (simp add: sign_in_count_def sign_in_rest_def sign_in_tenant_def onboard_oauth_user_def split: prod.split)

datatype progress = Entered | Counted bool nat

record sign_ins =
  sg_db :: identity_db
  sg_open :: "nat \<Rightarrow> (sign_in \<times> progress) option"
  sg_done :: "nat \<Rightarrow> (sign_in \<times> resolved_identity result) option"

definition sign_ins_start :: "identity_db \<Rightarrow> sign_ins" where
  "sign_ins_start db = \<lparr>sg_db = db, sg_open = (\<lambda>_. None), sg_done = (\<lambda>_. None)\<rparr>"

definition sign_in_end :: "nat \<Rightarrow> sign_in \<Rightarrow> resolved_identity result \<Rightarrow> identity_db \<Rightarrow> sign_ins \<Rightarrow> sign_ins" where
  "sign_in_end i s r db st = \<lparr>sg_db = db, sg_open = (sg_open st)(i := None), sg_done = (sg_done st)(i \<mapsto> (s, r))\<rparr>"

text \<open>The ids that the database hands out are new to it.\<close>

definition ids_unused :: "onboard_ids \<Rightarrow> identity_db \<Rightarrow> bool" where
  "ids_unused ids db \<longleftrightarrow> oi_tenant ids \<notin> row_id ` set (tenants db) \<and> oi_user ids \<notin> row_id ` set (users db)
     \<and> oi_role ids \<notin> row_id ` set (roles db)"

inductive sign_in_step :: "sign_ins \<Rightarrow> sign_ins \<Rightarrow> bool" where
  enter: "sg_open st i = None \<Longrightarrow> sg_done st i = None \<Longrightarrow>
    sign_in_step st (st\<lparr>sg_open := (sg_open st)(i \<mapsto> (s, Entered))\<rparr>)"
| count: "sg_open st i = Some (s, Entered) \<Longrightarrow> sign_in_count s (sg_db st) = (created, n) \<Longrightarrow>
    sign_in_step st (st\<lparr>sg_open := (sg_open st)(i \<mapsto> (s, Counted created n))\<rparr>)"
| complete: "sg_open st i = Some (s, Counted created n) \<Longrightarrow> ids_unused (si_ids s) (sg_db st) \<Longrightarrow>
    sign_in_rest s created n (sg_db st) = Inr (ri, db) \<Longrightarrow>
    sign_in_step st (sign_in_end i s (Inr ri) db st)"
| refuse: "sg_open st i = Some (s, Counted created n) \<Longrightarrow> sign_in_rest s created n (sg_db st) = Inl e \<Longrightarrow>
    sign_in_step st (sign_in_end i s (Inl e) (sg_db st) st)"
| abort: "sg_open st i = Some (s, p) \<Longrightarrow> sign_in_step st (sign_in_end i s (Inl e) (sg_db st) st)"
| bearer: "new_id \<notin> row_id ` set (users (sg_db st)) \<Longrightarrow> resolve_and_sync new_id clk p (sg_db st) = Inr (ri, db) \<Longrightarrow>
    sign_in_step st (st\<lparr>sg_db := db\<rparr>)"

text \<open>The users of a tenant in the order of their arrival, and its administrators among them.\<close>

definition members :: "uuid \<Rightarrow> identity_db \<Rightarrow> uuid list" where
  "members t db = map row_id (filter (\<lambda>u. tenant_id u = t) (users db))"

definition is_administrator :: "timestamp \<Rightarrow> uuid \<Rightarrow> identity_db \<Rightarrow> uuid \<Rightarrow> bool" where
  "is_administrator now t db u \<longleftrightarrow> ''TenantAdministrator'' \<in> ro_name ` set (effective_roles now t u db)"

definition administrators :: "timestamp \<Rightarrow> uuid \<Rightarrow> identity_db \<Rightarrow> uuid list" where
  "administrators now t db = filter (is_administrator now t db) (members t db)"

text \<open>The foreign keys of the users and of the assignments.\<close>

definition identity_refs :: "identity_db \<Rightarrow> bool" where
  "identity_refs db \<longleftrightarrow> (\<forall>u \<in> set (users db). tenant_id u \<in> row_id ` set (tenants db))
     \<and> (\<forall>a \<in> set (user_roles db). \<exists>u \<in> set (users db). row_id u = ur_user_id a \<and> tenant_id u = ur_tenant_id a)"

section \<open>What a step does to the administrators\<close>

lemma is_administrator_iff:
  "is_administrator now t db u \<longleftrightarrow> (\<exists>r \<in> set (roles db). ro_name r = ''TenantAdministrator''
     \<and> (\<exists>a \<in> set (user_roles db). assignment_counts now t u (row_id r) a))"
  by (auto simp: is_administrator_def effective_roles_def image_iff)

lemma is_administrator_frame:
  "roles db' = roles db \<Longrightarrow> user_roles db' = user_roles db \<Longrightarrow> is_administrator now t db' = is_administrator now t db"
  by (simp add: is_administrator_iff fun_eq_iff)

lemma administrator_is_member:
  "identity_refs db \<Longrightarrow> is_administrator now t db u \<Longrightarrow> u \<in> set (members t db)"
  by (force simp: is_administrator_iff identity_refs_def assignment_counts_def members_def)

text \<open>Synchronizing a user changes the members of its tenant only, and only by a last one.\<close>

lemma synchronize_members:
  assumes "synchronize_user a db = (u, db')"
  shows "members t db' = members t db @
    (if t = ua_tenant_id a \<and> get_user (ua_tenant_id a) (ua_entra_object_id a) db = None then [row_id u] else [])"
proof -
  let ?P = "\<lambda>u. user_key u = (ua_tenant_id a, ua_entra_object_id a)"
  have upd: "map row_id (filter (\<lambda>u. tenant_id u = t) (upd_first P (refresh_user a) rows))
      = map row_id (filter (\<lambda>u. tenant_id u = t) rows)" for P rows
    by (induction rows) (auto simp: refresh_user_def)
  show ?thesis
    using assms unfolding get_user_def
    by (auto simp: synchronize_user_def get_or_put_def members_def upd new_user_def Let_def split: option.splits)
qed

lemma synchronize_row_ids:
  assumes "synchronize_user a db = (u, db')" "x \<in> set (users db)"
  shows "\<exists>y \<in> set (users db'). row_id y = row_id x \<and> tenant_id y = tenant_id x"
proof -
  have upd: "\<exists>y \<in> set (upd_first P (refresh_user a) rows). row_id y = row_id x \<and> tenant_id y = tenant_id x"
    if "x \<in> set rows" for P rows
    using that by (induction rows) (auto simp: refresh_user_def)
  show ?thesis
    using assms upd [of "users db"]
    by (auto simp: synchronize_user_def get_or_put_def Let_def split: option.splits)
qed

lemma synchronize_refs:
  assumes "synchronize_user a db = (u, db')" "identity_refs db" "ua_tenant_id a \<in> row_id ` set (tenants db)"
  shows "identity_refs db'"
proof -
  obtain c rows where g: "get_or_put (\<lambda>u. user_key u = (ua_tenant_id a, ua_entra_object_id a)) (new_user a) (refresh_user a)
      (users db) = (u, c, rows)" and db': "db' = db\<lparr>users := rows\<rparr>"
    using assms(1) by (auto simp: synchronize_user_def split: prod.splits)
  have rows: "rows = user_table.put a (users db)" using g by (rule get_or_put_upsert)
  have kept: "tenant_id (new_user a) = ua_tenant_id a" "tenant_id (refresh_user a x) = tenant_id x" for x
    by (simp_all add: new_user_def refresh_user_def)
  have "\<forall>v \<in> set rows. (\<exists>x \<in> set (users db). tenant_id v = tenant_id x) \<or> tenant_id v = ua_tenant_id a"
  proof
    fix v assume "v \<in> set rows"
    then have "v \<in> set (users db) \<or> v = new_user a \<or> (\<exists>x \<in> set (users db). user_key x = (ua_tenant_id a, ua_entra_object_id a) \<and> v = refresh_user a x)"
      unfolding rows by (rule in_set_upsert)
    then show "(\<exists>x \<in> set (users db). tenant_id v = tenant_id x) \<or> tenant_id v = ua_tenant_id a"
      by (elim disjE bexE conjE) (auto simp: kept)
  qed
  then have "\<forall>v \<in> set rows. tenant_id v \<in> row_id ` set (tenants db)"
    using assms(2,3) unfolding identity_refs_def by metis
  moreover have "\<exists>v \<in> set rows. row_id v = ur_user_id x \<and> tenant_id v = ur_tenant_id x" if "x \<in> set (user_roles db)" for x
  proof -
    obtain w where w: "w \<in> set (users db)" "row_id w = ur_user_id x" "tenant_id w = ur_tenant_id x"
      using assms(2) \<open>x \<in> set (user_roles db)\<close> unfolding identity_refs_def by blast
    from synchronize_row_ids [OF assms(1) w(1)] w(2,3) show ?thesis by (simp add: db')
  qed
  ultimately show ?thesis by (simp add: identity_refs_def db')
qed

text \<open>An onboarding makes an administrator of nobody but its own user, and only by that role.\<close>

lemma into_administrators:
  assumes on: "onboard_into ids clk p tok scopes auth t created n db1 = Inr (ri, db)"
    and ok: "identity_ok db1" and fresh: "oi_role ids \<notin> row_id ` set (roles db1)"
  shows "is_administrator now t' db1 v \<Longrightarrow> is_administrator now t' db v"
    and "is_administrator now t' db v \<Longrightarrow> is_administrator now t' db1 v
      \<or> t' = row_id t \<and> v = row_id (ri_user ri) \<and> onboard_role created n = ''TenantAdministrator''"
    and "onboard_role created n = ''TenantAdministrator'' \<Longrightarrow>
      \<forall>a \<in> set (user_roles db1). ur_user_id a \<noteq> row_id (ri_user ri) \<Longrightarrow>
      is_administrator now (row_id t) db (row_id (ri_user ri))"
proof -
  note F = onboard_into_facts [OF on ok fresh]
  let ?u = "row_id (ri_user ri)"
  obtain r where r: "r \<in> set (roles db)" "tenant_id r = row_id t" "ro_name r = onboard_role created n"
      "set (roles db) \<subseteq> insert r (set (roles db1))" "set (roles db1) \<subseteq> set (roles db)"
      "set (user_roles db) \<subseteq> insert (new_assignment (tx_now clk) (row_id t) ?u (row_id r)) (set (user_roles db1))"
      "set (user_roles db1) \<subseteq> set (user_roles db)"
      "\<exists>a \<in> set (user_roles db). assignment_key a = (row_id t, ?u, row_id r, ''tenant'', ''*'')"
    using F(11) unfolding role_granted_def by blast
  have ids: "distinct (map row_id (roles db))" using F(1) by (simp add: identity_ok_def)
  have same: "x = y" if "x \<in> set (roles db)" "y \<in> set (roles db)" "row_id x = row_id y" for x y
    using that ids by (metis eq_key_imp_eq_value find_unique option.inject)
  show "is_administrator now t' db1 v \<Longrightarrow> is_administrator now t' db v"
    using r(5,7) unfolding is_administrator_iff by blast
  show "is_administrator now t' db1 v \<or> t' = row_id t \<and> v = ?u \<and> onboard_role created n = ''TenantAdministrator''"
    if "is_administrator now t' db v"
  proof -
    obtain x a where x: "x \<in> set (roles db)" "ro_name x = ''TenantAdministrator''" "a \<in> set (user_roles db)"
        "assignment_counts now t' v (row_id x) a"
      using \<open>is_administrator now t' db v\<close> unfolding is_administrator_iff by blast
    show ?thesis
    proof (cases "a \<in> set (user_roles db1)")
      case True
      then obtain y where y: "y \<in> set (roles db1)" "row_id y = ur_role_id a"
        using ok unfolding identity_ok_def by blast
      moreover have "ur_role_id a = row_id x" using x(4) by (simp add: assignment_counts_def)
      ultimately have "y = x" using same x(1) r(5) by auto
      with y True x show ?thesis unfolding is_administrator_iff by blast
    next
      case False
      then have a: "a = new_assignment (tx_now clk) (row_id t) ?u (row_id r)" using x(3) r(6) by blast
      then have "row_id x = row_id r" "t' = row_id t" "v = ?u"
        using x(4) by (simp_all add: assignment_counts_def new_assignment_def)
      moreover from this have "x = r" using same x(1) r(1) by blast
      ultimately show ?thesis using x(2) r(3) by simp
    qed
  qed
  assume name: "onboard_role created n = ''TenantAdministrator''"
    and unassigned: "\<forall>a \<in> set (user_roles db1). ur_user_id a \<noteq> ?u"
  have new: "new_assignment (tx_now clk) (row_id t) ?u (row_id r) \<in> set (user_roles db)"
    using r(6,8) unassigned by auto
  show "is_administrator now (row_id t) db ?u"
    unfolding is_administrator_iff
    using r(1,3) name by (intro bexI [OF _ r(1)] conjI bexI [OF _ new]) (simp_all add: assignment_counts_def new_assignment_def)
qed

lemma into_refs:
  assumes on: "onboard_into ids clk p tok scopes auth t created n db1 = Inr (ri, db)"
    and ok: "identity_ok db1" and fresh: "oi_role ids \<notin> row_id ` set (roles db1)"
    and refs: "identity_refs db1" and t: "t \<in> set (tenants db1)"
  shows "identity_refs db"
proof -
  note F = onboard_into_facts [OF on ok fresh]
  obtain a where a: "principal_user (oi_user ids) clk (row_id t) p = Inr a"
    "synchronize_user a db1 = (ri_user ri, db1\<lparr>users := users db\<rparr>)" using F(10) by blast
  have "ua_tenant_id a = row_id t" using a(1) by (auto simp: principal_user_def result_iff)
  then have "identity_refs (db1\<lparr>users := users db\<rparr>)" using synchronize_refs [OF a(2) refs] t by simp
  then have 1: "\<forall>u \<in> set (users db). tenant_id u \<in> row_id ` set (tenants db)"
      "\<forall>a \<in> set (user_roles db1). \<exists>u \<in> set (users db). row_id u = ur_user_id a \<and> tenant_id u = ur_tenant_id a"
    using F(4) by (simp_all add: identity_refs_def)
  have "\<exists>u \<in> set (users db). row_id u = ur_user_id a \<and> tenant_id u = ur_tenant_id a" if "a \<in> set (user_roles db)" for a
  proof (cases "a \<in> set (user_roles db1)")
    case False
    with that obtain r where "a = new_assignment (tx_now clk) (row_id t) (row_id (ri_user ri)) r" using F(11) unfolding role_granted_def by blast
    with F(6,7) show ?thesis by (auto simp: new_assignment_def)
  qed (use 1(2) in blast)
  with 1(1) show ?thesis by (simp add: identity_refs_def)
qed

section \<open>The first member leads\<close>

definition led :: "string \<Rightarrow> identity_db \<Rightarrow> bool" where
  "led k db \<longleftrightarrow> (\<forall>t. get_tenant_by_scope_key k db = Some t \<longrightarrow> members (row_id t) db \<noteq> []
     \<and> (\<forall>now. administrators now (row_id t) db = [hd (members (row_id t) db)]))"

text \<open>A new last member who is no administrator changes nothing, nor does anything in another tenant.\<close>

lemma led_grows:
  assumes "led k db" "get_tenant_by_scope_key k db = Some t0" "get_tenant_by_scope_key k db' = Some t" "row_id t = row_id t0"
    and "members (row_id t) db' = members (row_id t) db @ new"
    and "\<And>now u. u \<in> set (members (row_id t) db') \<Longrightarrow> is_administrator now (row_id t) db' u \<longleftrightarrow> is_administrator now (row_id t) db u"
    and "\<And>now u. u \<in> set new \<Longrightarrow> \<not> is_administrator now (row_id t) db u"
  shows "led k db'"
proof -
  have "administrators now (row_id t) db' = administrators now (row_id t) db" for now
    using assms(5-7) by (auto simp: administrators_def filter_empty_conv intro: filter_cong)
  then show ?thesis
    using assms(1-5) by (auto simp: led_def hd_append)
qed

lemma scope_key_in: "get_tenant_by_scope_key k db = Some t \<Longrightarrow> t \<in> set (tenants db) \<and> tn_identity_scope_key t = k"
  by (auto simp: get_tenant_by_scope_key_def dest: find_Some_in)

lemma row_id_inj: "distinct (map row_id rows) \<Longrightarrow> x \<in> set rows \<Longrightarrow> y \<in> set rows \<Longrightarrow> row_id x = row_id y \<Longrightarrow> x = y"
  by (simp add: distinct_map inj_on_def)

lemma sign_in_tenant_facts:
  assumes "sign_in_tenant s db = (t, c, db1)"
  shows "\<exists>rows. db1 = db\<lparr>tenants := rows\<rparr>" "t \<in> set (tenants db1)" "tn_identity_scope_key t = sign_in_key s"
    "get_tenant_by_scope_key (sign_in_key s) db1 = Some t"
    "c \<longleftrightarrow> get_tenant_by_scope_key (sign_in_key s) db = None"
    "get_tenant_by_scope_key (sign_in_key s) db = None \<Longrightarrow> row_id t = oi_tenant (si_ids s)"
    "get_tenant_by_scope_key (sign_in_key s) db = Some t0 \<Longrightarrow> row_id t = row_id t0"
    "k \<noteq> sign_in_key s \<Longrightarrow> get_tenant_by_scope_key k db1 = get_tenant_by_scope_key k db"
    "row_id ` set (tenants db) \<subseteq> row_id ` set (tenants db1)"
    "get_tenant_by_scope_key (sign_in_key s) db = Some t0 \<Longrightarrow> map row_id (tenants db1) = map row_id (tenants db)"
    "identity_ok db \<Longrightarrow> identity_ok db1"
    "primary_keys db \<Longrightarrow> ids_unused (si_ids s) db \<Longrightarrow> primary_keys db1"
proof -
  let ?a = "onboard_tenant_args (si_ids s) (si_clock s) (si_principal s) (si_display_name s)"
  have a: "ta_scope_key ?a = sign_in_key s" "ta_id ?a = oi_tenant (si_ids s)"
    by (simp_all add: sign_in_key_def onboard_tenant_args_def Let_def)
  have g: "get_or_create_tenant ?a db = (t, c, db1)" using assms by (simp add: sign_in_tenant_def)
  note T = get_or_create_tenant_facts [OF g]
  obtain rows where put: "get_or_put (\<lambda>t. tn_identity_scope_key t = ta_scope_key ?a) (new_tenant ?a) (rename_tenant ?a)
      (tenants db) = (t, c, rows)" and db1: "db1 = db\<lparr>tenants := rows\<rparr>"
    using g by (auto simp: get_or_create_tenant_def split: prod.splits)
  note row = tenant_table.get_or_put_row [OF put]
  show "\<exists>rows. db1 = db\<lparr>tenants := rows\<rparr>" "t \<in> set (tenants db1)" using T(1,2) by simp_all
  show "tn_identity_scope_key t = sign_in_key s" using T(3) a by simp
  show "get_tenant_by_scope_key (sign_in_key s) db1 = Some t"
    using row(2) by (simp add: get_tenant_by_scope_key_def db1 a)
  show "c \<longleftrightarrow> get_tenant_by_scope_key (sign_in_key s) db = None" using T(4) a by simp
  show "row_id t = oi_tenant (si_ids s)" if "get_tenant_by_scope_key (sign_in_key s) db = None"
    using put that by (auto simp: get_or_put_def get_tenant_by_scope_key_def a new_tenant_def)
  show "row_id t = row_id t0" if "get_tenant_by_scope_key (sign_in_key s) db = Some t0"
    using put that by (auto simp: get_or_put_def get_tenant_by_scope_key_def a rename_tenant_def)
  show "get_tenant_by_scope_key k db1 = get_tenant_by_scope_key k db" if "k \<noteq> sign_in_key s"
    using tenant_table.find_put_other [of k ?a "tenants db"] that by (simp add: get_tenant_by_scope_key_def db1 a row(1))
  have kept: "map row_id (upd_first P (rename_tenant ?a) xs) = map row_id xs" for P xs
    by (rule map_upd_first) (simp add: rename_tenant_def)
  then have "set (map row_id (tenants db)) \<subseteq> set (map row_id rows)"
    using put by (auto simp: get_or_put_def split: option.splits simp del: set_map)
  then show "row_id ` set (tenants db) \<subseteq> row_id ` set (tenants db1)" by (simp add: db1)
  show "map row_id (tenants db1) = map row_id (tenants db)" if "get_tenant_by_scope_key (sign_in_key s) db = Some t0"
    using put that kept by (auto simp: get_or_put_def get_tenant_by_scope_key_def a db1)
  show "identity_ok db \<Longrightarrow> identity_ok db1" by (rule T(5))
  show "primary_keys db \<Longrightarrow> ids_unused (si_ids s) db \<Longrightarrow> primary_keys db1"
    using get_or_create_tenant_ids [OF g] a by (simp add: ids_unused_def)
qed

text \<open>What holds in all states that overlapping sign-ins reach, for a key whose tenant was not there.\<close>

definition sign_ins_ok :: "string \<Rightarrow> sign_ins \<Rightarrow> bool" where
  "sign_ins_ok k st \<longleftrightarrow> identity_ok (sg_db st) \<and> primary_keys (sg_db st) \<and> identity_refs (sg_db st) \<and> led k (sg_db st)
     \<and> (\<forall>i s c n. sg_open st i = Some (s, Counted c n) \<longrightarrow> sign_in_key s = k \<longrightarrow>
          c \<or> n \<noteq> 0 \<and> get_tenant_by_scope_key k (sg_db st) \<noteq> None)"

lemma sign_ins_ok_start:
  "identity_ok db \<Longrightarrow> primary_keys db \<Longrightarrow> identity_refs db \<Longrightarrow> get_tenant_by_scope_key k db = None \<Longrightarrow>
     sign_ins_ok k (sign_ins_start db)"
  by (simp add: sign_ins_ok_def sign_ins_start_def led_def)

lemma sign_ins_ok_close:
  assumes "sign_ins_ok k st"
  shows "sign_ins_ok k (sign_in_end i s (Inl e) (sg_db st) st)"
  using assms by (auto simp: sign_ins_ok_def sign_in_end_def split: if_splits)

lemma sign_ins_ok_count:
  assumes "sign_ins_ok k st" "sign_in_count s (sg_db st) = (c, n)"
  shows "sign_ins_ok k (st\<lparr>sg_open := (sg_open st)(i \<mapsto> (s, Counted c n))\<rparr>)"
proof -
  obtain t db1 where t: "sign_in_tenant s (sg_db st) = (t, c, db1)" and n: "n = count_users (row_id t) db1"
    using assms(2) by (auto simp: sign_in_count_def split: prod.splits)
  note T = sign_in_tenant_facts [OF t]
  have "n \<noteq> 0 \<and> get_tenant_by_scope_key k (sg_db st) \<noteq> None" if key: "sign_in_key s = k" and old: "\<not> c"
  proof -
    obtain t0 where t0: "get_tenant_by_scope_key k (sg_db st) = Some t0" using T(5) key old by auto
    then have "row_id t = row_id t0" using T(7) key by simp
    moreover have "users db1 = users (sg_db st)" using T(1) by auto
    ultimately have "n = length (members (row_id t0) (sg_db st))" by (simp add: n count_users_def members_def)
    with t0 assms(1) show ?thesis by (simp add: sign_ins_ok_def led_def)
  qed
  with assms(1) show ?thesis by (auto simp: sign_ins_ok_def split: if_splits)
qed

text \<open>A user who is synchronized is a new last member, or one that was there.\<close>

lemma synchronize_led:
  assumes s: "synchronize_user a db = (u, db')" and ok: "led k db" "identity_refs db"
    and fresh: "ua_id a \<notin> row_id ` set (users db)"
  shows "led k db'"
proof -
  note F = synchronize_user_facts [OF s]
  obtain rows where db': "db' = db\<lparr>users := rows\<rparr>" using F(1) by blast
  have tenants: "get_tenant_by_scope_key k db' = get_tenant_by_scope_key k db"
    by (simp add: db' get_tenant_by_scope_key_def)
  show ?thesis
  proof (cases "get_tenant_by_scope_key k db")
    case None
    then show ?thesis by (simp add: led_def tenants)
  next
    case (Some t)
    let ?new = "if row_id t = ua_tenant_id a \<and> get_user (ua_tenant_id a) (ua_entra_object_id a) db = None then [row_id u] else []"
    have outside: "v \<notin> set (members t' db)" if "v \<in> set ?new" for v t'
      using that F(6) fresh by (auto simp: members_def split: if_splits)
    show ?thesis
    proof (rule led_grows [OF ok(1) Some _ refl])
      show "get_tenant_by_scope_key k db' = Some t" using Some by (simp add: tenants)
      show "members (row_id t) db' = members (row_id t) db @ ?new" by (rule synchronize_members [OF s])
      show "is_administrator now (row_id t) db' v \<longleftrightarrow> is_administrator now (row_id t) db v" for now v
        by (simp add: db' is_administrator_iff)
      show "\<not> is_administrator now (row_id t) db v" if "v \<in> set ?new" for now v
        using administrator_is_member [OF ok(2)] outside [OF that] by blast
    qed
  qed
qed

lemma sign_ins_ok_bearer:
  assumes "sign_ins_ok k st" "new_id \<notin> row_id ` set (users (sg_db st))"
    and "resolve_and_sync new_id clk p (sg_db st) = Inr (ri, db)"
  shows "sign_ins_ok k (st\<lparr>sg_db := db\<rparr>)"
proof -
  let ?db = "sg_db st"
  have ok: "identity_ok ?db" "primary_keys ?db" "identity_refs ?db" "led k ?db"
    using assms(1) by (simp_all add: sign_ins_ok_def)
  obtain t a u where s: "get_tenant_by_scope_key (identity_scope_key (tp_entra_tenant_id p) (tp_entra_object_id p)) ?db = Some t"
      "principal_user new_id clk (row_id t) p = Inr a" "synchronize_user a ?db = (u, db)"
    using assms(3) by (rule resolve_and_sync_Inr)
  have a: "ua_tenant_id a = row_id t" "ua_id a = new_id" using s(2) by (auto simp: principal_user_def result_iff)
  have "t \<in> set (tenants ?db)" using scope_key_in [OF s(1)] by simp
  moreover have "identity_ok db" using synchronize_user_facts(8) [OF s(3)] ok(1) .
  moreover have "primary_keys db" using synchronize_user_ids [OF s(3) ok(2)] assms(2) a by simp
  moreover have "led k db" using synchronize_led [OF s(3) ok(4,3)] assms(2) a by simp
  moreover have "get_tenant_by_scope_key k db = get_tenant_by_scope_key k ?db"
    using synchronize_user_facts(1) [OF s(3)] by (auto simp: get_tenant_by_scope_key_def)
  ultimately show ?thesis
    using assms(1) synchronize_refs [OF s(3) ok(3)] a by (simp add: sign_ins_ok_def)
qed

lemma sign_in_rest_Inr:
  assumes "sign_in_rest s c n db = Inr (ri, db')"
  obtains t inserts db1 where "sign_in_tenant s db = (t, inserts, db1)" "c \<longrightarrow> inserts"
    "onboard_into (si_ids s) (si_clock s) (si_principal s) (si_refresh_token s) (si_scopes s) (si_authority s) t c n db1 = Inr (ri, db')"
  using assms by (auto simp: sign_in_rest_def split: prod.splits if_splits)

lemma synchronize_get_user:
  assumes "synchronize_user a db = (u, db')" "(t, oid) \<noteq> (ua_tenant_id a, ua_entra_object_id a)"
  shows "get_user t oid db' = get_user t oid db"
proof -
  obtain c rows where g: "get_or_put (\<lambda>u. user_key u = (ua_tenant_id a, ua_entra_object_id a)) (new_user a) (refresh_user a)
      (users db) = (u, c, rows)" and db': "db' = db\<lparr>users := rows\<rparr>"
    using assms(1) by (auto simp: synchronize_user_def split: prod.splits)
  have "rows = user_table.put a (users db)" using g by (rule get_or_put_upsert)
  then show ?thesis using user_table.find_put_other [OF assms(2)] unfolding get_user_def db' by simp
qed

lemma get_user_member: "get_user t oid db = Some v \<Longrightarrow> row_id v \<in> set (members t db)"
  by (auto simp: get_user_def members_def dest!: find_Some_in)

lemma into_users:
  assumes "onboard_into ids clk p tok scopes auth t c n db1 = Inr (ri, db)" "identity_ok db1"
    "oi_role ids \<notin> row_id ` set (roles db1)"
  shows "members t' db = members t' db1 @
      (if t' = row_id t \<and> get_user (row_id t) (tp_entra_object_id p) db1 = None then [oi_user ids] else [])"
    and "get_user (row_id t) (tp_entra_object_id p) db1 = None \<Longrightarrow> row_id (ri_user ri) = oi_user ids"
    and "oid \<noteq> tp_entra_object_id p \<Longrightarrow> get_user t' oid db = get_user t' oid db1"
proof -
  note F = onboard_into_facts [OF assms]
  obtain a where a: "principal_user (oi_user ids) clk (row_id t) p = Inr a"
    "synchronize_user a db1 = (ri_user ri, db1\<lparr>users := users db\<rparr>)" using F(10) by blast
  have args: "ua_tenant_id a = row_id t" "ua_id a = oi_user ids" "ua_entra_object_id a = tp_entra_object_id p"
    using a(1) by (auto simp: principal_user_def result_iff)
  have m: "members t' db = members t' (db1\<lparr>users := users db\<rparr>)" by (simp add: members_def)
  show new: "row_id (ri_user ri) = oi_user ids" if "get_user (row_id t) (tp_entra_object_id p) db1 = None"
    using synchronize_user_facts(6) [OF a(2)] that by (simp add: args)
  show "members t' db = members t' db1 @
      (if t' = row_id t \<and> get_user (row_id t) (tp_entra_object_id p) db1 = None then [oi_user ids] else [])"
    using new by (simp add: m synchronize_members [OF a(2)] args)
  show "get_user t' oid db = get_user t' oid db1" if "oid \<noteq> tp_entra_object_id p"
    using synchronize_get_user [OF a(2), of t' oid] that by (simp add: args get_user_def)
qed

lemma sign_in_completes:
  assumes rest: "sign_in_rest s c n db0 = Inr (ri, db)" and fresh: "ids_unused (si_ids s) db0"
    and ok: "identity_ok db0" "primary_keys db0" "identity_refs db0"
  shows "identity_ok db" "primary_keys db" "identity_refs db"
    and "get_tenant_by_scope_key (sign_in_key s) db = Some (ri_tenant ri)"
    and "get_tenant_by_scope_key (sign_in_key s) db0 = Some t0 \<Longrightarrow> \<not> c \<and> row_id (ri_tenant ri) = row_id t0"
    and "get_tenant_by_scope_key (sign_in_key s) db0 = None \<Longrightarrow> members (row_id (ri_tenant ri)) db0 = []"
    and "k \<noteq> sign_in_key s \<Longrightarrow> get_tenant_by_scope_key k db = get_tenant_by_scope_key k db0"
    and "k \<noteq> sign_in_key s \<Longrightarrow> get_tenant_by_scope_key k db0 = Some t1 \<Longrightarrow> row_id t1 \<noteq> row_id (ri_tenant ri)"
    and "members t' db = members t' db0 @ (if t' = row_id (ri_tenant ri)
        \<and> get_user (row_id (ri_tenant ri)) (tp_entra_object_id (si_principal s)) db0 = None then [oi_user (si_ids s)] else [])"
    and "is_administrator now t' db0 v \<Longrightarrow> is_administrator now t' db v"
    and "is_administrator now t' db v \<Longrightarrow> is_administrator now t' db0 v
      \<or> t' = row_id (ri_tenant ri) \<and> v = row_id (ri_user ri) \<and> onboard_role c n = ''TenantAdministrator''"
    and "onboard_role c n = ''TenantAdministrator'' \<Longrightarrow> get_user (row_id (ri_tenant ri)) (tp_entra_object_id (si_principal s)) db0 = None \<Longrightarrow>
      is_administrator now (row_id (ri_tenant ri)) db (oi_user (si_ids s))"
    and "oid \<noteq> tp_entra_object_id (si_principal s) \<Longrightarrow> get_user t' oid db = get_user t' oid db0"
proof -
  obtain t inserts db1 where t: "sign_in_tenant s db0 = (t, inserts, db1)" "c \<longrightarrow> inserts"
    and I: "onboard_into (si_ids s) (si_clock s) (si_principal s) (si_refresh_token s) (si_scopes s) (si_authority s) t c n db1 = Inr (ri, db)"
    using rest by (rule sign_in_rest_Inr)
  note T = sign_in_tenant_facts [OF t(1)]
  obtain rows where db1: "db1 = db0\<lparr>tenants := rows\<rparr>" using T(1) by blast
  have ok1: "identity_ok db1" "primary_keys db1" using T(11,12) ok fresh by simp_all
  have refs1: "identity_refs db1" using ok(3) T(9) by (fastforce simp: identity_refs_def db1)
  have fresh1: "oi_role (si_ids s) \<notin> row_id ` set (roles db1)" "oi_user (si_ids s) \<notin> row_id ` set (users db1)"
    using fresh by (simp_all add: ids_unused_def db1)
  note F = onboard_into_facts [OF I ok1(1) fresh1(1)] and A = into_administrators [OF I ok1(1) fresh1(1)]
  have ri: "ri_tenant ri = t" by (rule F(5))
  have key: "get_tenant_by_scope_key x db = get_tenant_by_scope_key x db1" for x
    using F(4) by (simp add: get_tenant_by_scope_key_def)
  have same: "members x db1 = members x db0" "is_administrator now x db1 = is_administrator now x db0" for x now
    by (simp_all add: members_def db1 is_administrator_iff fun_eq_iff)
  show "identity_ok db" by (rule F(1))
  show "primary_keys db" by (rule onboard_into_ids [OF I ok1(2) fresh1(2) ok1(1) fresh1(1)])
  show "identity_refs db" by (rule into_refs [OF I ok1(1) fresh1(1) refs1 T(2)])
  show "get_tenant_by_scope_key (sign_in_key s) db = Some (ri_tenant ri)" using T(4) by (simp add: key ri)
  show "get_tenant_by_scope_key (sign_in_key s) db0 = Some t0 \<Longrightarrow> \<not> c \<and> row_id (ri_tenant ri) = row_id t0"
    using T(5,7) t(2) by (auto simp: ri)
  show "members (row_id (ri_tenant ri)) db0 = []" if "get_tenant_by_scope_key (sign_in_key s) db0 = None"
  proof -
    have "tenant_id u \<noteq> row_id t" if "u \<in> set (users db0)" for u
      using that T(6) [OF \<open>get_tenant_by_scope_key (sign_in_key s) db0 = None\<close>] fresh ok(3)
      unfolding ids_unused_def identity_refs_def by metis
    then show ?thesis by (simp add: ri members_def filter_empty_conv)
  qed
  show other: "get_tenant_by_scope_key k db = get_tenant_by_scope_key k db0" if "k \<noteq> sign_in_key s"
    using T(8) [OF that] by (simp add: key)
  show "row_id t1 \<noteq> row_id (ri_tenant ri)"
    if k: "k \<noteq> sign_in_key s" and t1: "get_tenant_by_scope_key k db0 = Some t1"
  proof
    assume "row_id t1 = row_id (ri_tenant ri)"
    moreover have "t1 \<in> set (tenants db1) \<and> tn_identity_scope_key t1 = k"
      using scope_key_in [of k db1 t1] T(8) [OF k] t1 by simp
    ultimately have "t1 = t" using row_id_inj [of "tenants db1" t1 t] ok1(2) T(2) by (simp add: primary_keys_def ri)
    with k T(3) \<open>t1 \<in> _ \<and> _\<close> show False by simp
  qed
  have get_user: "get_user x y db1 = get_user x y db0" for x y by (simp add: get_user_def db1)
  note U = into_users [OF I ok1(1) fresh1(1)]
  show "members t' db = members t' db0 @ (if t' = row_id (ri_tenant ri)
      \<and> get_user (row_id (ri_tenant ri)) (tp_entra_object_id (si_principal s)) db0 = None then [oi_user (si_ids s)] else [])"
    using U(1) unfolding ri same get_user .
  show "oid \<noteq> tp_entra_object_id (si_principal s) \<Longrightarrow> get_user t' oid db = get_user t' oid db0"
    using U(3) unfolding get_user .
  show "is_administrator now t' db0 v \<Longrightarrow> is_administrator now t' db v"
    using A(1) unfolding same .
  show "is_administrator now t' db v \<Longrightarrow> is_administrator now t' db0 v
      \<or> t' = row_id (ri_tenant ri) \<and> v = row_id (ri_user ri) \<and> onboard_role c n = ''TenantAdministrator''"
    using A(2) unfolding same ri .
  assume role: "onboard_role c n = ''TenantAdministrator''"
    and "get_user (row_id (ri_tenant ri)) (tp_entra_object_id (si_principal s)) db0 = None"
  then have new: "row_id (ri_user ri) = oi_user (si_ids s)" using U(2) by (simp add: ri get_user)
  have "\<forall>a \<in> set (user_roles db1). ur_user_id a \<noteq> row_id (ri_user ri)"
    using refs1 fresh1(2) unfolding new identity_refs_def by force
  then show "is_administrator now (row_id (ri_tenant ri)) db (oi_user (si_ids s))"
    unfolding ri new [symmetric] by (rule A(3) [OF role])
qed

lemma sign_in_leads:
  assumes rest: "sign_in_rest s c n db0 = Inr (ri, db)" and fresh: "ids_unused (si_ids s) db0"
    and ok: "identity_ok db0" "primary_keys db0" "identity_refs db0" "led k db0"
    and counted: "sign_in_key s = k \<longrightarrow> c \<or> n \<noteq> 0 \<and> get_tenant_by_scope_key k db0 \<noteq> None"
  shows "led k db"
proof (cases "get_tenant_by_scope_key k db0")
  case None
  note C = sign_in_completes [OF rest fresh ok(1-3)]
  show ?thesis
  proof (cases "sign_in_key s = k")
    case True
    let ?t = "row_id (ri_tenant ri)"
    have role: "onboard_role c n = ''TenantAdministrator''" using counted True None by (simp add: onboard_role_def)
    have "members ?t db0 = []" using C(6) None True by simp
    then have new: "get_user ?t (tp_entra_object_id (si_principal s)) db0 = None"
      using get_user_member by (cases "get_user ?t (tp_entra_object_id (si_principal s)) db0") fastforce+
    with \<open>members ?t db0 = []\<close> have m: "members ?t db = [oi_user (si_ids s)]" using C(9) [of ?t] by simp
    have "administrators now ?t db = [oi_user (si_ids s)]" for now
      using C(12) [OF role new] by (simp add: administrators_def m)
    then show ?thesis using C(4) True m(1) by (simp add: led_def)
  next
    case False
    then show ?thesis using C(7) [of k] None by (simp add: led_def)
  qed
next
  case (Some t0)
  note C = sign_in_completes [OF rest fresh ok(1-3)]
  let ?t = "row_id t0"
  have no_admin: "is_administrator now ?t db v \<longleftrightarrow> is_administrator now ?t db0 v" for now v
  proof (cases "sign_in_key s = k")
    case True
    then have "onboard_role c n = ''Reader''" using C(5) Some counted by (simp add: onboard_role_def)
    then show ?thesis using C(10,11) [of now ?t v] by auto
  next
    case False
    then have "?t \<noteq> row_id (ri_tenant ri)" using C(8) [of k] Some by simp
    then show ?thesis using C(10,11) [of now ?t v] by auto
  qed
  obtain t where t: "get_tenant_by_scope_key k db = Some t" "row_id t = ?t"
    using C(4,5,7) Some by (cases "sign_in_key s = k") auto
  obtain new where new: "members ?t db = members ?t db0 @ new" "set new \<subseteq> {oi_user (si_ids s)}"
    using C(9) [of ?t] by (auto split: if_splits)
  show ?thesis
  proof (rule led_grows [OF ok(4) Some t])
    show "members (row_id t) db = members (row_id t) db0 @ new" using new(1) t(2) by simp
    show "is_administrator now (row_id t) db v \<longleftrightarrow> is_administrator now (row_id t) db0 v" for now v
      using no_admin t(2) by simp
    show "\<not> is_administrator now (row_id t) db0 v" if "v \<in> set new" for now v
    proof
      assume "is_administrator now (row_id t) db0 v"
      from administrator_is_member [OF ok(3) this] have "v \<in> row_id ` set (users db0)" by (auto simp: members_def)
      moreover have "v = oi_user (si_ids s)" using that new(2) by auto
      ultimately show False using fresh by (simp add: ids_unused_def)
    qed
  qed
qed

lemma sign_ins_ok_complete:
  assumes st: "sign_ins_ok k st" and this_one: "sg_open st i = Some (s, Counted c n)"
    and fresh: "ids_unused (si_ids s) (sg_db st)" and rest: "sign_in_rest s c n (sg_db st) = Inr (ri, db)"
  shows "sign_ins_ok k (sign_in_end i s (Inr ri) db st)"
proof -
  have ok: "identity_ok (sg_db st)" "primary_keys (sg_db st)" "identity_refs (sg_db st)" "led k (sg_db st)"
    using st by (simp_all add: sign_ins_ok_def)
  note C = sign_in_completes [OF rest fresh ok(1-3)]
  have counted: "sign_in_key s' = k \<longrightarrow> c' \<or> n' \<noteq> 0 \<and> get_tenant_by_scope_key k (sg_db st) \<noteq> None"
    if "sg_open st j = Some (s', Counted c' n')" for j s' c' n'
    using st that unfolding sign_ins_ok_def by blast
  have "led k db" by (rule sign_in_leads [OF rest fresh ok counted [OF this_one]])
  moreover have "get_tenant_by_scope_key k db \<noteq> None" if "get_tenant_by_scope_key k (sg_db st) \<noteq> None"
    using that C(4,7) by (cases "sign_in_key s = k") auto
  moreover have "sg_open st j = Some (s', Counted c' n')"
    if "sg_open (sign_in_end i s (Inr ri) db st) j = Some (s', Counted c' n')" for j s' c' n'
    using that by (simp add: sign_in_end_def split: if_splits)
  moreover have "sg_db (sign_in_end i s (Inr ri) db st) = db" by (simp add: sign_in_end_def)
  ultimately show ?thesis
    unfolding sign_ins_ok_def using C(1-3) counted by metis
qed

lemma sign_ins_ok_step: "sign_in_step st st' \<Longrightarrow> sign_ins_ok k st \<Longrightarrow> sign_ins_ok k st'"
proof (induction rule: sign_in_step.induct)
  case (enter st i s)
  then show ?case by (auto simp: sign_ins_ok_def split: if_splits)
qed (auto intro: sign_ins_ok_count sign_ins_ok_complete sign_ins_ok_close sign_ins_ok_bearer)

lemma sign_ins_ok_reachable:
  assumes "sign_in_step\<^sup>*\<^sup>* (sign_ins_start db) st" "identity_ok db" "primary_keys db" "identity_refs db"
    "get_tenant_by_scope_key k db = None"
  shows "sign_ins_ok k st"
  using assms by (induction rule: rtranclp_induct) (auto intro: sign_ins_ok_start sign_ins_ok_step)

section \<open>Runs\<close>

lemma sign_in_undisturbed:
  assumes "sg_open st i = None" "sg_done st i = None" "ids_unused (si_ids s) (sg_db st)"
    and on: "onboard_oauth_user (si_ids s) (si_clock s) (si_principal s) (si_display_name s) (si_refresh_token s)
      (si_scopes s) (si_authority s) (sg_db st) = Inr (ri, db)"
  shows "sign_in_step\<^sup>*\<^sup>* st (sign_in_end i s (Inr ri) db st)"
proof -
  obtain c n where cn: "sign_in_count s (sg_db st) = (c, n)" by fastforce
  then have rest: "sign_in_rest s c n (sg_db st) = Inr (ri, db)" using sign_in_alone [of s "sg_db st"] on by simp
  let ?s1 = "st\<lparr>sg_open := (sg_open st)(i \<mapsto> (s, Entered))\<rparr>"
  let ?s2 = "st\<lparr>sg_open := (sg_open st)(i \<mapsto> (s, Counted c n))\<rparr>"
  have "sign_in_step st ?s1" using assms(1,2) by (rule sign_in_step.enter)
  moreover have "sign_in_step ?s1 ?s2" using sign_in_step.count [of ?s1 i s c n] cn by simp
  moreover have "sign_in_step ?s2 (sign_in_end i s (Inr ri) db st)"
    using sign_in_step.complete [of ?s2 i s c n ri db] assms(3) rest by (simp add: sign_in_end_def)
  ultimately show ?thesis by (meson converse_rtranclp_into_rtranclp r_into_rtranclp)
qed

lemma sign_in_rest_returns:
  assumes "as_opt_text (tp_principal_name (si_principal s)) = Inr x" "get_tenant_by_scope_key (sign_in_key s) db = Some t"
  shows "\<exists>ri db'. sign_in_rest s False n db = Inr (ri, db')"
proof -
  obtain t' c db1 where "sign_in_tenant s db = (t', c, db1)" by (rule prod_cases3)
  then show ?thesis
    using assms(1) by (simp add: sign_in_rest_def onboard_into_def principal_user_def Let_def split: prod.splits)
qed

lemma sign_in_count_existing:
  assumes "get_tenant_by_scope_key (sign_in_key s) db = Some t"
  shows "sign_in_count s db = (False, length (members (row_id t) db))"
proof -
  obtain t' c db1 where t': "sign_in_tenant s db = (t', c, db1)" by (rule prod_cases3)
  note T = sign_in_tenant_facts [OF t']
  have "users db1 = users db" using T(1) by auto
  then have "count_users (row_id t') db1 = length (members (row_id t) db)"
    using T(7) [OF assms] by (simp add: count_users_def members_def)
  moreover have "\<not> c" using T(5) assms by simp
  ultimately show ?thesis by (simp add: sign_in_count_def t')
qed

lemma ids_unused_after:
  assumes "sign_in_rest s c n db = Inr (ri, db')" "ids_unused (si_ids s) db" "identity_ok db" "primary_keys db" "identity_refs db"
    and "get_tenant_by_scope_key (sign_in_key s) db = Some t" "ids_unused ids db"
    and "oi_user ids \<noteq> oi_user (si_ids s)" "oi_role ids \<noteq> oi_role (si_ids s)"
  shows "ids_unused ids db'"
proof -
  obtain t' inserts db1 where t': "sign_in_tenant s db = (t', inserts, db1)"
    and I: "onboard_into (si_ids s) (si_clock s) (si_principal s) (si_refresh_token s) (si_scopes s) (si_authority s) t' c n db1 = Inr (ri, db')"
    using assms(1) by (rule sign_in_rest_Inr)
  obtain a u db2 r db3 db4 db5 k where e: "principal_user (oi_user (si_ids s)) (si_clock s) (row_id t') (si_principal s) = Inr a"
      "synchronize_user a db1 = (u, db2)"
      "get_or_create_role \<lparr>ra_id = oi_role (si_ids s), ra_clock = si_clock s, ra_tenant_id = row_id t',
         ra_name = onboard_role c n, ra_description = role_description (onboard_role c n)\<rparr> db2 = (r, db3)"
      "roles db' = roles db3"
    using I
    by (rule onboard_into_steps) (auto simp: grant_permissions_def assign_role_def upsert_oauth_connection_def split: prod.splits)
  note T = sign_in_tenant_facts [OF t'] and R = get_or_create_role_facts [OF e(3)] and C = sign_in_completes [OF assms(1-5)]
  have same: "roles db2 = roles db" using T(1) synchronize_user_facts(1) [OF e(2)] by auto
  have "oi_role ids \<notin> row_id ` set (roles db')"
    using R(6,7) assms(7,9) by (fastforce simp: same e(4) ids_unused_def)
  moreover have "row_id ` set (tenants db') = row_id ` set (tenants db)"
  proof -
    have "tenants db' = tenants db1"
      using onboard_into_facts(4) [OF I] T(1,11) assms(2,3) by (auto simp: ids_unused_def)
    then show ?thesis using T(10) [OF assms(6)] by (metis list.set_map)
  qed
  moreover have "oi_user ids \<notin> row_id ` set (users db')"
  proof
    assume "oi_user ids \<in> row_id ` set (users db')"
    then obtain v where "v \<in> set (users db')" "row_id v = oi_user ids" by auto
    then have "oi_user ids \<in> set (members (tenant_id v) db')" by (force simp: members_def)
    then have "oi_user ids \<in> set (members (tenant_id v) db)" using C(9) [of "tenant_id v"] assms(8) by (auto split: if_splits)
    with assms(7) show False by (auto simp: members_def ids_unused_def)
  qed
  ultimately show ?thesis using assms(7) by (simp add: ids_unused_def)
qed

section \<open>Properties\<close>

text \<open>C8: The first user who signs in from a new tenant becomes its administrator, and stays the only
  one: in every state that sign-ins and bearer requests reach from tables without the
  tenant, however they overlap and fail, a tenant that is there has a user, and its
  administrators are the user who came first and no other.\<close>

theorem first_user_leads_new_tenant:
  assumes "sign_in_step\<^sup>*\<^sup>* (sign_ins_start db) st" "identity_ok db" "primary_keys db" "identity_refs db"
    and "get_tenant_by_scope_key k db = None" "get_tenant_by_scope_key k (sg_db st) = Some t"
  shows "members (row_id t) (sg_db st) \<noteq> []
    \<and> administrators now (row_id t) (sg_db st) = [hd (members (row_id t) (sg_db st))]"
proof -
  have "sign_ins_ok k st" using assms(1-5) by (rule sign_ins_ok_reachable)
  with assms(6) show ?thesis by (simp add: sign_ins_ok_def led_def)
qed

text \<open>Two users of one organization, one after the other.\<close>

definition sample_sign_in :: "uuid \<Rightarrow> sign_in" where
  "sample_sign_in n = \<lparr>si_ids = sample_ids n, si_clock = sample_clock, si_principal = sample_principal 3 n,
     si_display_name = None, si_refresh_token = ''tok'', si_scopes = [], si_authority = ''common''\<rparr>"

lemma sample_sign_in_returns:
  "\<exists>ri db'. onboard_oauth_user (si_ids (sample_sign_in n)) (si_clock (sample_sign_in n)) (si_principal (sample_sign_in n))
     (si_display_name (sample_sign_in n)) (si_refresh_token (sample_sign_in n)) (si_scopes (sample_sign_in n))
     (si_authority (sample_sign_in n)) db = Inr (ri, db')"
  using sample_onboard_returns by (simp add: sample_sign_in_def)

lemma empty_identity_keys: "primary_keys empty_identity" "identity_refs empty_identity" "ids_unused ids empty_identity"
    "get_tenant_by_scope_key k empty_identity = None"
  by (simp_all add: empty_identity_def primary_keys_def identity_refs_def ids_unused_def get_tenant_by_scope_key_def)

lemma first_user_leads_new_tenant_witness:
  "\<exists>st t. sign_in_step\<^sup>*\<^sup>* (sign_ins_start empty_identity) st
     \<and> get_tenant_by_scope_key (sign_in_key (sample_sign_in 5)) (sg_db st) = Some t
     \<and> members (row_id t) (sg_db st) = [5] \<and> administrators 0 (row_id t) (sg_db st) = [5]"
proof -
  let ?s = "sample_sign_in 5" and ?start = "sign_ins_start empty_identity"
  obtain ri db where on: "onboard_oauth_user (si_ids ?s) (si_clock ?s) (si_principal ?s) (si_display_name ?s)
      (si_refresh_token ?s) (si_scopes ?s) (si_authority ?s) empty_identity = Inr (ri, db)"
    using sample_sign_in_returns by blast
  obtain c n where "sign_in_count ?s empty_identity = (c, n)" by fastforce
  then have rest: "sign_in_rest ?s c n empty_identity = Inr (ri, db)" using sign_in_alone [of ?s empty_identity] on by simp
  note C = sign_in_completes [OF rest empty_identity_keys(3) empty_identity_ok empty_identity_keys(1,2)]
  let ?st = "sign_in_end 0 ?s (Inr ri) db ?start"
  have reach: "sign_in_step\<^sup>*\<^sup>* ?start ?st"
    by (rule sign_in_undisturbed) (simp_all add: sign_ins_start_def empty_identity_keys on)
  have db: "sg_db ?st = db" by (simp add: sign_in_end_def)
  have t: "get_tenant_by_scope_key (sign_in_key ?s) (sg_db ?st) = Some (ri_tenant ri)" using C(4) by (simp add: db)
  have "oi_user (si_ids ?s) = 5" by (simp add: sample_sign_in_def sample_ids_def)
  then have "members (row_id (ri_tenant ri)) db = [5]"
    using C(9) [of "row_id (ri_tenant ri)"] by (simp add: empty_identity_def members_def get_user_def)
  then have m: "members (row_id (ri_tenant ri)) (sg_db ?st) = [5]" unfolding db .
  from first_user_leads_new_tenant [OF reach empty_identity_ok empty_identity_keys(1,2,4) t, where now = 0] m
  have "administrators 0 (row_id (ri_tenant ri)) (sg_db ?st) = [5]" by simp
  with reach t m show ?thesis by blast
qed

text \<open>A tenant that is there before its users (the start-up makes one of \<open>bootstrap_tenant_id\<close>).\<close>

lemma no_administrator_yet:
  "identity_refs db \<Longrightarrow> members t db = [] \<Longrightarrow> \<not> is_administrator now t db v"
  using administrator_is_member by fastforce

lemma members_none: "members t db = [] \<Longrightarrow> get_user t oid db = None"
  using get_user_member by (cases "get_user t oid db") fastforce+

lemma overlapping_administrators:
  assumes ok: "identity_ok db" "primary_keys db" "identity_refs db"
    and t: "get_tenant_by_scope_key k db = Some t" "members (row_id t) db = []"
    and keys: "sign_in_key s1 = k" "sign_in_key s2 = k"
    and two: "tp_entra_object_id (si_principal s1) \<noteq> tp_entra_object_id (si_principal s2)"
    and names: "as_opt_text (tp_principal_name (si_principal s1)) = Inr x1" "as_opt_text (tp_principal_name (si_principal s2)) = Inr x2"
    and fresh: "ids_unused (si_ids s1) db" "ids_unused (si_ids s2) db"
      "oi_user (si_ids s2) \<noteq> oi_user (si_ids s1)" "oi_role (si_ids s2) \<noteq> oi_role (si_ids s1)"
  shows "\<exists>st. sign_in_step\<^sup>*\<^sup>* (sign_ins_start db) st
    \<and> (\<forall>now. administrators now (row_id t) (sg_db st) = [oi_user (si_ids s1), oi_user (si_ids s2)])"
proof -
  obtain ri1 db1 where r1: "sign_in_rest s1 False 0 db = Inr (ri1, db1)"
    using sign_in_rest_returns [OF names(1)] t(1) keys(1) by blast
  note C1 = sign_in_completes [OF r1 fresh(1) ok]
  have "get_tenant_by_scope_key (sign_in_key s2) db1 = Some (ri_tenant ri1)" using C1(4) keys by simp
  then obtain ri2 db2 where r2: "sign_in_rest s2 False 0 db1 = Inr (ri2, db2)"
    using sign_in_rest_returns [OF names(2)] by blast
  have f2: "ids_unused (si_ids s2) db1" using ids_unused_after [OF r1 fresh(1) ok _ fresh(2-4)] t(1) keys(1) by simp
  note C2 = sign_in_completes [OF r2 f2 C1(1-3)]
  have ids: "row_id (ri_tenant ri1) = row_id t" "row_id (ri_tenant ri2) = row_id t"
    using C1(4) C1(5) [of t] C2(5) [of "ri_tenant ri1"] t(1) keys by simp_all
  have new: "get_user (row_id t) oid db = None" for oid
    using t(2) by (rule members_none)
  have new2: "get_user (row_id t) (tp_entra_object_id (si_principal s2)) db1 = None" using C1(13) two new by simp
  have role: "onboard_role False 0 = ''TenantAdministrator''" by (simp add: onboard_role_def)
  have "members (row_id t) db2 = [oi_user (si_ids s1), oi_user (si_ids s2)]"
    using C1(9) [of "row_id t"] C2(9) [of "row_id t"] new new2 t(2) by (simp add: ids)
  moreover have "is_administrator now (row_id t) db2 (oi_user (si_ids s1))" for now
    using C2(10) [OF C1(12) [OF role, of now]] new by (simp add: ids)
  moreover have "is_administrator now (row_id t) db2 (oi_user (si_ids s2))" for now
    using C2(12) [OF role] new2 by (simp add: ids)
  ultimately have admins: "\<forall>now. administrators now (row_id t) db2 = [oi_user (si_ids s1), oi_user (si_ids s2)]"
    by (simp add: administrators_def)
  define a0 where "a0 = sign_ins_start db"
  define a1 where "a1 = a0\<lparr>sg_open := (sg_open a0)(0 \<mapsto> (s1, Entered))\<rparr>"
  define a2 where "a2 = a1\<lparr>sg_open := (sg_open a1)(1 \<mapsto> (s2, Entered))\<rparr>"
  define a3 where "a3 = a2\<lparr>sg_open := (sg_open a2)(0 \<mapsto> (s1, Counted False 0))\<rparr>"
  define a4 where "a4 = a3\<lparr>sg_open := (sg_open a3)(1 \<mapsto> (s2, Counted False 0))\<rparr>"
  define a5 where "a5 = sign_in_end 0 s1 (Inr ri1) db1 a4"
  define a6 where "a6 = sign_in_end 1 s2 (Inr ri2) db2 a5"
  note states = a0_def a1_def a2_def a3_def a4_def a5_def a6_def sign_ins_start_def sign_in_end_def
  have c: "sign_in_count s1 db = (False, 0)" "sign_in_count s2 db = (False, 0)"
    using sign_in_count_existing [of s1 db t] sign_in_count_existing [of s2 db t] t keys by simp_all
  have e: "sign_in_step a0 a1" "sign_in_step a1 a2"
    unfolding a1_def a2_def by (rule sign_in_step.enter; simp add: states)+
  have "sign_in_step a2 a3" unfolding a3_def by (rule sign_in_step.count) (simp_all add: states c)
  moreover have "sign_in_step a3 a4" unfolding a4_def by (rule sign_in_step.count) (simp_all add: states c)
  moreover have "sign_in_step a4 a5" unfolding a5_def
    by (rule sign_in_step.complete [where created = False and n = 0]) (simp_all add: states r1 fresh)
  moreover have "sign_in_step a5 a6" unfolding a6_def
    by (rule sign_in_step.complete [where created = False and n = 0]) (simp_all add: states r2 f2)
  ultimately have "sign_in_step\<^sup>*\<^sup>* a0 a6"
    using e by (meson converse_rtranclp_into_rtranclp rtranclp.rtrancl_refl)
  moreover have "sg_db a6 = db2" by (simp add: states)
  ultimately show ?thesis using admins unfolding a0_def by auto
qed

text \<open>A request with a bearer token makes a user without a role.\<close>

lemma resolve_returns:
  fixes p :: token_principal
  assumes "get_tenant_by_scope_key (identity_scope_key (tp_entra_tenant_id p) (tp_entra_object_id p)) db = Some t"
    and "tn_status t = ''active''" "as_opt_text (tp_principal_name p) = Inr x"
    and "get_user (row_id t) (tp_entra_object_id p) db = None"
  obtains a u ri db' where "resolve_and_sync new_id clk p db = Inr (ri, db')" "synchronize_user a db = (u, db')"
    "ua_tenant_id a = row_id t" "ua_entra_object_id a = tp_entra_object_id p" "ua_id a = new_id" "row_id u = new_id"
proof -
  let ?a = "\<lparr>ua_id = new_id, ua_clock = clk, ua_tenant_id = row_id t, ua_entra_object_id = tp_entra_object_id p,
    ua_display_name = tp_display_name p, ua_principal_name = x\<rparr>"
  obtain u db' where u: "synchronize_user ?a db = (u, db')" by fastforce
  have "us_is_active u" "row_id u = new_id" using synchronize_user_facts(6) [OF u] assms(4) by simp_all
  with assms u have "resolve_and_sync new_id clk p db = Inr (resolved (py_now clk) t u db', db')"
    by (simp add: resolve_and_sync_def principal_user_def)
  then show ?thesis
    using u \<open>row_id u = new_id\<close> that [of "resolved (py_now clk) t u db'" db' ?a u] by simp
qed

lemma bearer_first:
  fixes p :: token_principal
  assumes ok: "identity_ok db" "primary_keys db" "identity_refs db"
    and t: "get_tenant_by_scope_key k db = Some t" "members (row_id t) db = []" "tn_status t = ''active''"
    and keys: "sign_in_key s = k" "identity_scope_key (tp_entra_tenant_id p) (tp_entra_object_id p) = k"
    and names: "as_opt_text (tp_principal_name (si_principal s)) = Inr x" "as_opt_text (tp_principal_name p) = Inr y"
    and fresh: "ids_unused (si_ids s) db" "new_id \<notin> row_id ` set (users db)" "oi_user (si_ids s) \<noteq> new_id"
  shows "\<exists>st. sign_in_step\<^sup>*\<^sup>* (sign_ins_start db) st \<and> (\<exists>ri. sg_done st 0 = Some (s, Inr ri))
    \<and> (\<forall>now. administrators now (row_id t) (sg_db st) = [])"
proof -
  obtain a u ri0 db1 where b: "resolve_and_sync new_id clk p db = Inr (ri0, db1)" "synchronize_user a db = (u, db1)"
      "ua_tenant_id a = row_id t" "ua_entra_object_id a = tp_entra_object_id p" "ua_id a = new_id" "row_id u = new_id"
    using resolve_returns [of p db t y new_id clk] t keys(2) names(2) members_none [OF t(2)] by metis
  obtain rows where db1: "db1 = db\<lparr>users := rows\<rparr>" using synchronize_user_facts(1) [OF b(2)] by blast
  have m1: "members t' db1 = members t' db @ (if t' = row_id t then [new_id] else [])" for t'
    using synchronize_members [OF b(2)] members_none [OF t(2)] by (simp add: b)
  have ok1: "identity_ok db1" "primary_keys db1" "identity_refs db1"
    using synchronize_user_facts(8) [OF b(2)] synchronize_user_ids [OF b(2)] synchronize_refs [OF b(2)] ok fresh(2) b
      scope_key_in [OF t(1)] by simp_all
  have t1: "get_tenant_by_scope_key (sign_in_key s) db1 = Some t" using t(1) keys by (simp add: db1 get_tenant_by_scope_key_def)
  have "oi_user (si_ids s) \<notin> row_id ` set (users db1)"
  proof
    assume "oi_user (si_ids s) \<in> row_id ` set (users db1)"
    then obtain v where "v \<in> set (users db1)" "row_id v = oi_user (si_ids s)" by auto
    then have "oi_user (si_ids s) \<in> set (members (tenant_id v) db1)" by (force simp: members_def)
    then have "oi_user (si_ids s) \<in> set (members (tenant_id v) db)" using m1 [of "tenant_id v"] fresh(3) by (auto split: if_splits)
    with fresh(1) show False by (auto simp: members_def ids_unused_def)
  qed
  then have f1: "ids_unused (si_ids s) db1" using fresh(1) by (simp add: ids_unused_def db1)
  have count: "sign_in_count s db1 = (False, 1)" using sign_in_count_existing [OF t1] m1 [of "row_id t"] t(2) by simp
  obtain ri db2 where r: "sign_in_rest s False 1 db1 = Inr (ri, db2)" using sign_in_rest_returns [OF names(1) t1] by blast
  note C = sign_in_completes [OF r f1 ok1]
  have "\<not> is_administrator now (row_id t) db2 v" for now v
    using C(11) [of now "row_id t" v] no_administrator_yet [OF ok(3) t(2), of now v]
    by (auto simp: db1 is_administrator_iff onboard_role_def)
  then have admins: "\<forall>now. administrators now (row_id t) db2 = []" by (simp add: administrators_def)
  define b0 where "b0 = (sign_ins_start db)\<lparr>sg_db := db1\<rparr>"
  have "sign_in_step (sign_ins_start db) b0"
    unfolding b0_def by (rule sign_in_step.bearer [where new_id = new_id and clk = clk and p = p and ri = ri0])
      (use fresh(2) b(1) in \<open>simp_all add: sign_ins_start_def\<close>)
  moreover have "sign_in_step\<^sup>*\<^sup>* b0 (sign_in_end 0 s (Inr ri) db2 b0)"
    using sign_in_alone [of s db1] count r f1 by (intro sign_in_undisturbed) (simp_all add: b0_def sign_ins_start_def)
  ultimately have "sign_in_step\<^sup>*\<^sup>* (sign_ins_start db) (sign_in_end 0 s (Inr ri) db2 b0)"
    by (rule converse_rtranclp_into_rtranclp)
  then show ?thesis using admins by (intro exI [of _ "sign_in_end 0 s (Inr ri) db2 b0"]) (auto simp: sign_in_end_def)
qed

text \<open>C36: In a tenant that is there before its users this is not so. If two of them sign in at the same
  time, both count no user and both become administrators; and if the first request of the
  tenant carries a bearer token, its user is counted, so that the first sign-in after it
  makes a reader and the tenant has no administrator.\<close>

theorem administrators_of_prepared_tenant:
  assumes "identity_ok db" "primary_keys db" "identity_refs db"
    and "get_tenant_by_scope_key k db = Some t" "members (row_id t) db = []" "tn_status t = ''active''"
    and "sign_in_key s1 = k" "sign_in_key s2 = k"
    and "tp_entra_object_id (si_principal s1) \<noteq> tp_entra_object_id (si_principal s2)"
    and "as_opt_text (tp_principal_name (si_principal s1)) = Inr x1" "as_opt_text (tp_principal_name (si_principal s2)) = Inr x2"
    and "ids_unused (si_ids s1) db" "ids_unused (si_ids s2) db"
    and "oi_user (si_ids s2) \<noteq> oi_user (si_ids s1)" "oi_role (si_ids s2) \<noteq> oi_role (si_ids s1)"
  shows "(\<exists>st. sign_in_step\<^sup>*\<^sup>* (sign_ins_start db) st
      \<and> (\<forall>now. administrators now (row_id t) (sg_db st) = [oi_user (si_ids s1), oi_user (si_ids s2)]))
    \<and> (\<exists>st ri. sign_in_step\<^sup>*\<^sup>* (sign_ins_start db) st \<and> sg_done st 0 = Some (s1, Inr ri)
      \<and> (\<forall>now. administrators now (row_id t) (sg_db st) = []))"
proof (rule conjI)
  show "\<exists>st. sign_in_step\<^sup>*\<^sup>* (sign_ins_start db) st
      \<and> (\<forall>now. administrators now (row_id t) (sg_db st) = [oi_user (si_ids s1), oi_user (si_ids s2)])"
    by (rule overlapping_administrators [OF assms(1-5,7-15)])
  have "identity_scope_key (tp_entra_tenant_id (si_principal s2)) (tp_entra_object_id (si_principal s2)) = k"
    using assms(8) by (simp add: sign_in_key_def)
  moreover have "oi_user (si_ids s2) \<notin> row_id ` set (users db)" using assms(13) by (simp add: ids_unused_def)
  ultimately show "\<exists>st ri. sign_in_step\<^sup>*\<^sup>* (sign_ins_start db) st \<and> sg_done st 0 = Some (s1, Inr ri)
      \<and> (\<forall>now. administrators now (row_id t) (sg_db st) = [])"
    using bearer_first [OF assms(1-7) _ assms(10,11,12), of "oi_user (si_ids s2)"] assms(14) by metis
qed

text \<open>The tenant of \<open>bootstrap_tenant_id\<close>, without \<open>bootstrap_admin_object_id\<close>.\<close>

definition prepared_identity :: identity_db where
  "prepared_identity = empty_identity\<lparr>tenants :=
     [bootstrap_tenant_row 9 sample_clock default_settings 3 (identity_scope_key 3 0)]\<rparr>"

lemma administrators_of_prepared_tenant_witness:
  "\<exists>st. sign_in_step\<^sup>*\<^sup>* (sign_ins_start prepared_identity) st \<and> administrators 0 9 (sg_db st) = [5, 6]"
proof -
  let ?t = "bootstrap_tenant_row 9 sample_clock default_settings 3 (identity_scope_key 3 0)"
  have "\<not> is_personal_account 3" by (simp add: is_personal_account_def MICROSOFT_CONSUMER_TENANT_ID_def)
  then have keys: "sign_in_key (sample_sign_in n) = identity_scope_key 3 0" for n
    by (simp add: sign_in_key_def sample_sign_in_def sample_principal_def identity_scope_key_eq)
  have ok: "identity_ok prepared_identity" "primary_keys prepared_identity" "identity_refs prepared_identity"
    by (simp_all add: prepared_identity_def empty_identity_def identity_ok_def primary_keys_def identity_refs_def)
  have t: "get_tenant_by_scope_key (identity_scope_key 3 0) prepared_identity = Some ?t" "members (row_id ?t) prepared_identity = []"
      "tn_status ?t = ''active''" "row_id ?t = 9"
    by (simp_all add: prepared_identity_def empty_identity_def get_tenant_by_scope_key_def members_def bootstrap_tenant_row_def)
  have fresh: "ids_unused (si_ids (sample_sign_in n)) prepared_identity" if "n \<noteq> 9" for n
    using that by (simp add: ids_unused_def prepared_identity_def empty_identity_def sample_sign_in_def sample_ids_def bootstrap_tenant_row_def)
  have users: "oi_user (si_ids (sample_sign_in n)) = n" "oi_role (si_ids (sample_sign_in n)) = n"
      "tp_entra_object_id (si_principal (sample_sign_in n)) = n"
      "as_opt_text (tp_principal_name (si_principal (sample_sign_in n))) = Inr (Some ''ada@example.com'')" for n
    by (simp_all add: sample_sign_in_def sample_ids_def sample_principal_def as_opt_text_def)
  have "\<exists>st. sign_in_step\<^sup>*\<^sup>* (sign_ins_start prepared_identity) st
      \<and> (\<forall>now. administrators now (row_id ?t) (sg_db st) = [oi_user (si_ids (sample_sign_in 5)), oi_user (si_ids (sample_sign_in 6))])"
    by (rule conjunct1 [OF administrators_of_prepared_tenant [OF ok t(1-3) keys keys _ users(4) users(4) fresh fresh]])
      (simp_all add: users)
  then show ?thesis by (auto simp: t(4) users)
qed

end
