(* ===== verification/SchemaRules.thy ===== *)
theory SchemaRules
  imports Services WorkerLoop Administrators
begin

text \<open>
  The CHECK constraints, enumerations and foreign keys of \<open>database/schema.sql\<close>, and that every
  row the services write satisfies them, so that the database refuses none of it on their
  account. (Its unique keys are the invariants of the components.) A predicate of each schema
  reads the declarations of its tables; the locale \<open>keeper\<close> carries a predicate that the handlers
  of a table of routes keep over to every request of the service.
\<close>

section \<open>The declarations\<close>

subsection \<open>Inventory\<close>

definition sync_modes :: "string list" where
  "sync_modes = [''full'', ''incremental'', ''resource'']"

definition resource_fits :: "subscription list \<Rightarrow> resource \<Rightarrow> bool" where
  "resource_fits subs r \<longleftrightarrow> rs_subscription_id r \<in> row_id ` set subs \<and> rs_state r \<in> set resource_states
     \<and> rs_normalized_resource_id r = lower (rs_normalized_resource_id r)"

definition group_fits :: "subscription list \<Rightarrow> resource_group \<Rightarrow> bool" where
  "group_fits subs g \<longleftrightarrow> rg_subscription_id g \<in> row_id ` set subs"

definition job_fits :: "sync_job \<Rightarrow> bool" where
  "job_fits j \<longleftrightarrow> jb_mode j \<in> set sync_modes"

definition inventory_fits :: "inventory_db \<Rightarrow> bool" where
  "inventory_fits db \<longleftrightarrow> (\<forall>r \<in> set (resources db). resource_fits (subscriptions db) r)
     \<and> (\<forall>g \<in> set (resource_groups db). group_fits (subscriptions db) g) \<and> (\<forall>j \<in> set (sync_jobs db). job_fits j)"

subsection \<open>Relationships\<close>

text \<open>A confidence is held in thousandths, as \<open>numeric(4,3)\<close> does.\<close>

definition dependency_strengths :: "string list" where
  "dependency_strengths = [''hard'', ''soft'', ''association'']"

definition edge_fits :: "relationship \<Rightarrow> bool" where
  "edge_fits e \<longleftrightarrow> re_source_resource_id e \<noteq> re_target_resource_id e \<and> 0 \<le> re_confidence e \<and> re_confidence e \<le> 1000
     \<and> re_dependency_strength e \<in> set dependency_strengths"

definition relationship_fits :: "relationship_db \<Rightarrow> bool" where
  "relationship_fits db \<longleftrightarrow> (\<forall>e \<in> set (edges db). edge_fits e)"

subsection \<open>Change intelligence and operations\<close>

definition assessment_states :: "string list" where
  "assessment_states = [''draft'', ''assessing'', ''assessed'', ''failed'', ''cancelled'', ''expired'']"

definition risk_levels :: "string list" where
  "risk_levels = [''low'', ''medium'', ''high'']"

definition assessment_fits :: "change_assessment \<Rightarrow> bool" where
  "assessment_fits a \<longleftrightarrow> ca_status a \<in> set assessment_states
     \<and> (case ca_risk_score a of None \<Rightarrow> True | Some n \<Rightarrow> 0 \<le> n \<and> n \<le> 100)
     \<and> (case ca_risk_level a of None \<Rightarrow> True | Some l \<Rightarrow> l \<in> set risk_levels)"

definition finding_fits :: "change_assessment list \<Rightarrow> assessment_finding \<Rightarrow> bool" where
  "finding_fits rows f \<longleftrightarrow> (tenant_id f, af_assessment_id f) \<in> (\<lambda>a. (tenant_id a, row_id a)) ` set rows
     \<and> af_severity f \<in> set risk_levels"

definition intelligence_fits :: "intelligence_db \<Rightarrow> bool" where
  "intelligence_fits db \<longleftrightarrow> (\<forall>a \<in> set (assessments db). assessment_fits a)
     \<and> (\<forall>f \<in> set (assessment_findings db). finding_fits (assessments db) f)"

definition operation_states :: "string list" where
  "operation_states = [''draft'', ''awaiting_approval'', ''ready'', ''queued'', ''running'', ''succeeded'', ''failed'',
     ''cancelled'', ''rejected'', ''compensating'', ''compensated'']"

definition operations_fit :: "operations_db \<Rightarrow> bool" where
  "operations_fit db \<longleftrightarrow> (\<forall>op \<in> set (operations db). op_status op \<in> set operation_states)"

subsection \<open>Identity\<close>

text \<open>\<open>length(trim(display_name)) > 0\<close>; \<open>trim\<close> takes the spaces off and nothing else.\<close>

definition nonblank :: "string \<Rightarrow> bool" where
  "nonblank s \<longleftrightarrow> list_ex (\<lambda>c. c \<noteq> CHR '' '') s"

definition tenant_states :: "string list" where
  "tenant_states = [''pending_consent'', ''active'', ''suspended'', ''offboarding'', ''offboarded'']"

definition tenant_fits :: "tenant \<Rightarrow> bool" where
  "tenant_fits t \<longleftrightarrow> nonblank (tn_display_name t) \<and> tn_account_type t \<in> {''organization'', ''personal''}
     \<and> tn_status t \<in> set tenant_states"

text \<open>The foreign keys, besides those of the users and of the assigned users (\<open>identity_refs\<close>).\<close>

definition identity_fits :: "identity_db \<Rightarrow> bool" where
  "identity_fits db \<longleftrightarrow> (\<forall>t \<in> set (tenants db). tenant_fits t) \<and> identity_refs db
     \<and> (\<forall>r \<in> set (roles db). tenant_id r \<in> row_id ` set (tenants db))
     \<and> (\<forall>g \<in> set (role_permissions db). rp_role_id g \<in> row_id ` set (roles db)
          \<and> rp_permission_id g \<in> row_id ` set (permissions db))
     \<and> (\<forall>a \<in> set (user_roles db). ur_tenant_id a \<in> row_id ` set (tenants db) \<and> ur_role_id a \<in> row_id ` set (roles db))
     \<and> (\<forall>c \<in> set (oauth_connections db). tenant_id c \<in> row_id ` set (tenants db)
          \<and> oc_user_id c \<in> row_id ` set (users db))"

section \<open>Handlers that keep a predicate\<close>

definition kept :: "('s \<Rightarrow> bool) \<Rightarrow> 'a \<times> 's \<Rightarrow> bool" where
  "kept ok rs \<longleftrightarrow> ok (snd rs)"

named_theorems keeps "handlers that keep a predicate of the tables"

lemma kept_simps [simp]: "kept ok (x, s) \<longleftrightarrow> ok s"
  by (simp add: kept_def)

lemma kept_split: "kept ok rs \<Longrightarrow> rs = (x, s) \<Longrightarrow> ok s"
  by (simp add: kept_def)

lemma transaction_keeps [keeps]:
  "ok db \<Longrightarrow> (\<And>x db'. f db = Inr (x, db') \<Longrightarrow> ok db') \<Longrightarrow> kept ok (transaction fault f db)"
  by (auto simp: transaction_def split: sum.split option.split)

lemma unit_of_work_keeps [keeps]:
  "ok db \<Longrightarrow> (\<And>x db'. f db = Inr (x, db') \<Longrightarrow> ok db') \<Longrightarrow> kept ok (unit_of_work fault t a (on_tables f) db)"
  unfolding unit_of_work_transaction by (rule transaction_keeps)

lemma signed_in_keeps [keeps]:
  "ok s \<Longrightarrow> (\<And>actor. kept ok (run actor s)) \<Longrightarrow> kept ok (signed_in fw client cfg run req cid s)"
  by (simp add: signed_in_def split: sum.split)

lemma permitted_keeps [keeps]:
  assumes "ok s" "\<And>actor. kept ok (run actor s)"
  shows "kept ok (permitted fw client cfg p run req cid s)"
  unfolding permitted_def
proof (rule signed_in_keeps)
  show "kept ok (case require_permission p actor of Inl e \<Rightarrow> (Inl e, s) | Inr actor \<Rightarrow> run actor s)" for actor
    using assms by (cases "require_permission p actor") simp_all
qed (rule assms)

lemma parsed_keeps [keeps]: "ok s \<Longrightarrow> (\<And>x. kept ok (run x s)) \<Longrightarrow> kept ok (parsed m run s)"
  by (simp add: parsed_def split: option.split)

lemma with_body_keeps [keeps]: "ok s \<Longrightarrow> kept ok (run req cid s) \<Longrightarrow> kept ok (with_body fw run req cid s)"
  by (simp add: with_body_def)

lemma reply_keeps [keeps]: "kept ok rs \<Longrightarrow> kept ok (reply st f rs)"
  by (cases rs) (simp add: reply_def)

lemma reading_keeps [keeps]: "ok s \<Longrightarrow> kept ok (reading fault actor f s)"
  unfolding reading_def by (rule unit_of_work_keeps) (auto simp: bindr_Inr_iff)

locale keeper =
  fixes fw :: framework and cfg :: settings and table :: "('g, 's) route list" and ok :: "'s \<Rightarrow> bool"
  assumes run_keeps: "r \<in> set table \<Longrightarrow> ok s \<Longrightarrow> kept ok (rt_run r params req cid s)"
begin

lemma serve_keeps: "ok s \<Longrightarrow> ok (snd (serve fw table req cid s))"
proof (cases "find (matching fw req) table")
  case (Some r)
  assume "ok s"
  moreover have "r \<in> set table" using find_Some_in [OF Some] by simp
  ultimately have "kept ok (rt_run r (the (fw_match fw (rt_method r) (rt_path r) req)) req cid s)" by (intro run_keeps)
  then show ?thesis by (simp add: serve_def Some kept_def split: prod.split) (metis snd_conv)
qed (simp add: serve_def)

lemma app_keeps: "ok s \<Longrightarrow> ok (snd (create_app bracket_ok cfg ping fresh elapsed (serve fw table) req s))"
proof -
  assume s: "ok s"
  obtain x s' where app: "create_app bracket_ok cfg ping fresh elapsed (serve fw table) req s = (x, s')" by (rule prod.exhaust)
  then have "ok s'"
  proof (cases rule: app_cases)
    case rejected
    with s show ?thesis by simp
  next
    case (routed y)
    then show ?thesis
      using app_routes_health [of cfg ping "serve fw table" req "correlation_id_of fresh req" s] s serve_keeps [OF s]
      by (metis snd_conv)
  qed
  with app show ?thesis by simp
qed

end

section \<open>Inventory\<close>

lemma resource_fits_more: "resource_fits subs r \<Longrightarrow> row_id ` set subs \<subseteq> row_id ` set subs' \<Longrightarrow> resource_fits subs' r"
  by (auto simp: resource_fits_def)

lemma group_fits_more: "group_fits subs g \<Longrightarrow> row_id ` set subs \<subseteq> row_id ` set subs' \<Longrightarrow> group_fits subs' g"
  by (auto simp: group_fits_def)

lemma inventory_fits_more:
  assumes "inventory_fits db" "row_id ` set (subscriptions db) \<subseteq> row_id ` set subs"
  shows "inventory_fits (db\<lparr>subscriptions := subs\<rparr>)"
  using assms by (auto simp: inventory_fits_def intro: resource_fits_more group_fits_more)

lemma upsert_subscription_fits:
  assumes "upsert_subscription a db = (x, db')"
  shows "inventory_fits db \<Longrightarrow> inventory_fits db'" "row_id ` set (subscriptions db) \<subseteq> row_id ` set (subscriptions db')"
    "x \<in> set (subscriptions db')"
proof -
  have kept: "map row_id (upd_first P (refresh_subscription a) xs) = map row_id xs" for P xs
    by (rule map_upd_first) (simp add: refresh_subscription_def)
  then have "set (map row_id (subscriptions db)) \<subseteq> set (map row_id (subscription_table.put a (subscriptions db)))"
    by (auto simp: upsert_def split: option.splits simp del: set_map)
  then show sub: "row_id ` set (subscriptions db) \<subseteq> row_id ` set (subscriptions db')"
    unfolding upsert_subscription_rows(1) [OF assms] by simp
  show "inventory_fits db \<Longrightarrow> inventory_fits db'"
    using sub unfolding upsert_subscription_rows(1) [OF assms] by (intro inventory_fits_more) simp_all
  show "x \<in> set (subscriptions db')" by (rule upsert_subscription_rows(4) [OF assms])
qed

lemma create_sync_job_fits:
  assumes "create_sync_job a db = (j, db')" "inventory_fits db" "ja_mode a \<in> set sync_modes"
  shows "inventory_fits db'"
proof -
  obtain c rows where g: "get_or_put (\<lambda>j. job_key j = (ja_tenant_id a, ja_idempotency_key a)) (new_job a) (\<lambda>j. j)
      (sync_jobs db) = (j, c, rows)" and db': "db' = db\<lparr>sync_jobs := rows\<rparr>"
    using assms(1) by (auto simp: create_sync_job_def split: prod.splits)
  have "\<forall>x \<in> set rows. x = new_job a \<or> x \<in> set (sync_jobs db)"
    using g by (auto simp: get_or_put_def split: option.splits)
  then show ?thesis using assms(2,3) by (auto simp: db' inventory_fits_def job_fits_def new_job_def)
qed

lemma request_sync_fits:
  assumes "request_sync env actor q db = Inr (j, db')" "inventory_fits db" "sync_request_valid q"
  shows "inventory_fits db'"
proof -
  obtain db1 where job: "create_sync_job (job_args_of env actor q) db = (j, db1)"
      and db': "db' = enqueue_audit (sy_outbox_id env) (py_now (sy_clock env)) (sync_event env actor q j) db1"
    using assms(1) by (auto simp: request_sync_def Let_def split: if_splits prod.splits)
  have "ja_mode (job_args_of env actor q) \<in> set sync_modes"
    using assms(3) by (auto simp: sync_request_valid_def job_args_of_def sync_modes_def)
  from create_sync_job_fits [OF job assms(2) this] show ?thesis by (simp add: db' inventory_fits_def enqueue_audit_def)
qed

lemma create_sync_job_endpoint_fits [keeps]:
  assumes "inventory_fits db"
  shows "kept inventory_fits (create_sync_job_endpoint env actor q db)"
proof (cases "bindr (require_permission ''inventory.sync.execute'' actor) (\<lambda>actor.
    bindr (guardr (sync_request_valid q) request_validation) (\<lambda>_. Inr actor))")
  case (Inl e)
  then show ?thesis using assms by (simp add: create_sync_job_endpoint_def)
next
  case (Inr a)
  then have valid: "sync_request_valid q" by (auto simp: bindr_Inr_iff guardr_Inr_iff)
  let ?run = "unit_of_work (sy_commit env) (ac_tenant_id a) (ac_actor_id a) (on_tables (request_sync env a q)) db"
  have "kept inventory_fits ?run"
    by (rule unit_of_work_keeps, rule assms, rule request_sync_fits [OF _ assms valid])
  then show ?thesis by (cases ?run) (auto simp: create_sync_job_endpoint_def Inr split: sum.split)
qed

lemma register_all_fits:
  "register_all new_id clk t n as db = (xs, db') \<Longrightarrow> inventory_fits db \<Longrightarrow> inventory_fits db'"
proof (induction as arbitrary: n db xs)
  case (Cons a as)
  then show ?case by (auto simp: Let_def split: prod.splits dest: upsert_subscription_fits(1))
qed simp

lemma discover_subscriptions_fits [keeps]:
  assumes "inventory_fits db"
  shows "kept inventory_fits (discover_subscriptions new_id clk fault listed actor db)"
proof (cases "bindr (require_permission ''inventory.sync.execute'' actor) (\<lambda>_. list_azure_subscriptions listed)")
  case (Inr found)
  have "kept inventory_fits (unit_of_work fault (ac_tenant_id actor) (ac_actor_id actor)
      (on_tables (\<lambda>db. (let (rows, db) = register_all new_id clk (ac_tenant_id actor) 0 found db
         in Inr (map subscription_response rows, db)))) db)"
    by (rule unit_of_work_keeps, rule assms) (auto split: prod.splits intro: register_all_fits [OF _ assms])
  then show ?thesis unfolding discover_subscriptions_def Inr by simp
qed (simp add: discover_subscriptions_def assms)

interpretation inventory_keeper: keeper fw cfg "inventory_routes fw client cfg call" inventory_fits for fw client cfg call
proof
  fix r :: "(guard, inventory_db) route" and req cid s params
  assume "r \<in> set (inventory_routes fw client cfg call)" and ok: "inventory_fits s"
  then show "kept inventory_fits (rt_run r params req cid s)"
    by (auto simp: inventory_routes_def inventory_route_defs intro!: keeps)
qed

subsection \<open>The worker\<close>

lemma update_job_fits:
  "inventory_fits db \<Longrightarrow> (\<And>j. jb_mode (f j) = jb_mode j) \<Longrightarrow> inventory_fits (update_job i f db)"
  by (fastforce simp: inventory_fits_def update_job_def job_fits_def dest: in_set_upd_first)

lemma upsert_group_fits:
  "inventory_fits db \<Longrightarrow> ga_subscription_id a \<in> row_id ` set (subscriptions db) \<Longrightarrow> inventory_fits (upsert_group a db)"
  by (auto simp: inventory_fits_def upsert_group_def group_fits_def new_group_def refresh_group_def Let_def dest!: in_set_upsert)

lemma put_resource_fits:
  assumes put: "put_resource a db = ((r, changed), db')" and ok: "inventory_fits db"
    and sub: "xa_subscription_id a \<in> row_id ` set (subscriptions db)"
    and norm: "rv_normalized_resource_id (xa_values a) = lower (rv_azure_resource_id (xa_values a))"
  shows "inventory_fits db'"
proof -
  obtain b where b: "db' = upsert_group b (db\<lparr>resources := resource_table.put a (resources db)\<rparr>)"
      "ga_subscription_id b = xa_subscription_id a"
    using put by (auto simp: put_resource_def Let_def split: prod.splits dest!: get_or_put_upsert)
  have fields: "rs_subscription_id (new_resource a) = xa_subscription_id a" "rs_state (new_resource a) = ''active''"
      "rs_normalized_resource_id (new_resource a) = lower (rv_azure_resource_id (xa_values a))"
      "rs_subscription_id (refresh_resource a x) = rs_subscription_id x" "rs_state (refresh_resource a x) = ''active''"
      "rs_normalized_resource_id (refresh_resource a x) = lower (rv_azure_resource_id (xa_values a))" for x
    by (simp_all add: new_resource_def refresh_resource_def Let_def norm)
  have old: "resource_fits (subscriptions db) x" if "x \<in> set (resources db)" for x
    using ok that by (simp add: inventory_fits_def)
  have "resource_fits (subscriptions db) x" if "x \<in> set (resource_table.put a (resources db))" for x
    using in_set_upsert [OF that] sub old by (auto simp: resource_fits_def fields resource_states_def)
  then have "inventory_fits (db\<lparr>resources := resource_table.put a (resources db)\<rparr>)"
    using ok by (simp add: inventory_fits_def)
  then show ?thesis unfolding b(1) using sub b(2) by (intro upsert_group_fits) simp_all
qed

definition registered :: "(uuid \<rightharpoonup> subscription) \<Rightarrow> inventory_db \<Rightarrow> bool" where
  "registered subs db \<longleftrightarrow> row_id ` ran subs \<subseteq> row_id ` set (subscriptions db)"

lemma store_resources_fits:
  assumes "store_resources env t subs n items db = Inr ((changed, ps), db')" "inventory_fits db" "registered subs db"
  shows "inventory_fits db'"
  using assms
proof (induction items arbitrary: n db changed ps)
  case (Cons item items)
  then obtain sub r was db1 c qs where sub: "subscription_of subs item = Inr sub"
    and up: "upsert_resource (wk_resource_id env n) (wk_group_id env n) (wk_resource_clock env n) t sub item db = Inr ((r, was), db1)"
    and rest: "store_resources env t subs (Suc n) items db1 = Inr ((c, qs), db')"
    by (auto simp: result_iff)
  obtain v where v: "resource_values_of (py_now (wk_resource_clock env n)) item = Inr v"
    and put: "put_resource \<lparr>xa_id = wk_resource_id env n, xa_group_id = wk_group_id env n, xa_clock = wk_resource_clock env n,
        xa_tenant_id = t, xa_subscription_id = row_id sub, xa_values = v\<rparr> db = ((r, was), db1)"
    using up by (auto simp: upsert_resource_def result_iff)
  have "sub \<in> ran subs" using sub by (auto simp: subscription_of_def result_iff ran_def of_option_def split: option.splits)
  then have "row_id sub \<in> row_id ` set (subscriptions db)" using Cons.prems(3) by (auto simp: registered_def)
  then have "inventory_fits db1"
    using put_resource_fits [OF put Cons.prems(2)] resource_values_normal [OF v] by simp
  moreover have "registered subs db1" using put_resource_rows(5) [OF put] Cons.prems(3) by (simp add: registered_def)
  ultimately show ?case using Cons.IH [OF rest] by blast
qed simp

lemma register_scope_fits:
  assumes "register_scope new_id clk t available n us subs db = Inr (subs', db')" "inventory_fits db" "registered subs db"
  shows "inventory_fits db' \<and> registered subs' db'"
  using assms
proof (induction us arbitrary: n subs db)
  case (Cons u us)
  then obtain source where src: "available u = Some source" by (auto split: option.splits)
  define a where "a = \<lparr>sa_id = new_id n, sa_clock = clk, sa_tenant_id = t,
      sa_azure_subscription_id = az_subscription_id source, sa_display_name = az_display_name source, sa_state = az_state source\<rparr>"
  obtain x db1 where up: "upsert_subscription a db = (x, db1)" by force
  note u = upsert_subscription_fits [OF up]
  have "register_scope new_id clk t available (Suc n) us (subs(u \<mapsto> x)) db1 = Inr (subs', db')"
    using Cons.prems(1) src up by (simp add: a_def)
  moreover have "registered (subs(u \<mapsto> x)) db1"
    using Cons.prems(3) u(2,3) by (auto simp: registered_def ran_def split: if_splits)
  ultimately show ?case using Cons.IH u(1) Cons.prems(2) by blast
qed simp

lemma register_job_scope_fits:
  assumes "register_job_scope env job db = (r, db')" "inventory_fits db"
  shows "inventory_fits db' \<and> (case r of Inl _ \<Rightarrow> True | Inr (ids, subs) \<Rightarrow> registered subs db')"
proof (cases r)
  case (Inl e)
  then have "db' = db" using assms(1) by (auto simp: register_job_scope_def dest: transaction_Inl split: sum.splits)
  then show ?thesis using assms(2) Inl by simp
next
  case (Inr y)
  then obtain new_id clk t available ids subs where "register_scope new_id clk t available 0 ids (\<lambda>_. None) db = Inr (subs, db')" "y = (ids, subs)"
    using assms(1) by (auto simp: register_job_scope_def transaction_Inr result_iff split: sum.splits)
  then show ?thesis using register_scope_fits [of new_id clk t available 0 ids "\<lambda>_. None" db subs db'] assms(2) Inr
    by (simp add: registered_def)
qed

lemma run_job_fits:
  assumes "run_job pages env post cfg job (db, s) = Some (r, db', s')" "inventory_fits db"
  shows "inventory_fits db'"
proof -
  obtain reg db1 where reg: "register_job_scope env job db = (reg, db1)" by force
  note fits = register_job_scope_fits [OF reg assms(2)]
  show ?thesis
  proof (cases reg)
    case (Inl e)
    with assms reg fits show ?thesis by (auto simp: run_job_def)
  next
    case (Inr y)
    then obtain ids subs where y: "reg = Inr (ids, subs)" by (cases y) simp
    then obtain q where q: "query_resources pages (wk_graph env) ids = Some q"
      using assms(1) reg by (cases "query_resources pages (wk_graph env) ids") (simp_all add: run_job_def)
    show ?thesis
    proof (cases q)
      case (Inl e)
      with assms reg y q fits show ?thesis by (auto simp: run_job_def)
    next
      case (Inr rows)
      obtain st db2 where st: "store_job_resources env job subs rows db1 = (st, db2)" by force
      note store = store_job_resources_frame [OF st]
      show ?thesis
      proof (cases st)
        case (Inl e)
        with assms reg y q Inr st store fits show ?thesis by (auto simp: run_job_def)
      next
        case Inr': (Inr ps)
        have "db' = db2" using assms(1) reg y q Inr st Inr' by (auto simp: run_job_def split: prod.splits)
        moreover obtain changed db3 where c: "store_resources env (tenant_id job) subs 0 rows db1 = Inr ((changed, ps), db3)"
            "db2 = update_job (row_id job) (complete_job (wk_complete_time env) (length rows) changed) db3"
          using store Inr' by auto
        moreover have "inventory_fits db3" by (rule store_resources_fits [OF c(1)]) (use fits y in simp_all)
        ultimately show ?thesis by (simp add: update_job_fits complete_job_def)
      qed
    qed
  qed
qed

lemma run_once_fits:
  assumes run: "run_once pages env post cfg (db, s) = Some (r, db', s')" and ok: "inventory_fits db"
  shows "inventory_fits db'"
proof -
  obtain j rows where claim: "claim_job (wk_locked env) (wk_claim_time env) (sync_jobs db) = (j, rows)" by force
  have "map jb_mode rows = map jb_mode (sync_jobs db)"
    using claim by (auto simp: claim_job_def claim_row_def map_upd_first start_job_def split: option.splits)
  then have "set (map jb_mode rows) = set (map jb_mode (sync_jobs db))" by (rule arg_cong)
  moreover have "set (map jb_mode (sync_jobs db)) \<subseteq> set sync_modes" using ok by (auto simp: inventory_fits_def job_fits_def)
  ultimately have "set (map jb_mode rows) \<subseteq> set sync_modes" by simp
  then have "\<forall>j \<in> set rows. job_fits j" by (auto simp: job_fits_def)
  then have claimed: "inventory_fits (db\<lparr>sync_jobs := rows\<rparr>)" using ok by (simp add: inventory_fits_def)
  have fail: "inventory_fits (update_job i (fail_job now e) db1)" if "inventory_fits db1" for i now e db1
    using that by (rule update_job_fits) (simp add: fail_job_def)
  show ?thesis
  proof (cases "wk_claim_commit env")
    case (Some e)
    with run claim ok show ?thesis by (simp add: run_once_def transaction_def)
  next
    case commit: None
    show ?thesis
    proof (cases j)
      case None
      with run claim commit claimed show ?thesis by (auto simp: run_once_def transaction_def)
    next
      case (Some job)
      obtain x db1 s1 where job: "run_job pages env post cfg job (db\<lparr>sync_jobs := rows\<rparr>, s) = Some (x, db1, s1)"
        using run claim commit Some by (auto simp: run_once_def transaction_def split: option.splits)
      note db1 = run_job_fits [OF job claimed]
      show ?thesis
        using run claim commit Some job db1 fail [OF db1]
        by (cases x; cases "wk_fail_commit env") (auto simp: run_once_def transaction_def)
    qed
  qed
qed

section \<open>Relationships\<close>

definition candidate_fits :: "edge_candidate \<Rightarrow> bool" where
  "candidate_fits c \<longleftrightarrow> 0 \<le> cd_confidence c \<and> cd_confidence c \<le> 1000 \<and> cd_dependency_strength c \<in> set dependency_strengths"

text \<open>What the constraints of an edge read, which no later operation changes.\<close>

lemma edge_fits_changes [simp]:
  "edge_fits (e\<lparr>re_is_active := b\<rparr>) = edge_fits e" "edge_fits (observe_edge clk c e) = edge_fits e"
  "edge_fits (flushed now x e) = edge_fits (if e = x then x else e)"
  by (simp_all add: edge_fits_def observe_edge_def flushed_def)

lemma rebuild_loop_fits:
  assumes "rebuild_loop new_id clk t source ex known current n cs rows = (changed, rows')"
    and "\<forall>e \<in> set rows. edge_fits e" "\<forall>c \<in> set cs. candidate_fits c"
  shows "\<forall>e \<in> set rows'. edge_fits e"
  using assms
proof (induction cs arbitrary: n rows changed)
  case (Cons c cs)
  let ?loop = "rebuild_loop new_id clk t source ex known current (Suc n) cs"
  have more: "\<forall>e \<in> set rows'. edge_fits e" if "?loop rows1 = (changed1, rows')" "\<forall>e \<in> set rows1. edge_fits e" for rows1 changed1
    using Cons.IH [OF that] Cons.prems(3) by simp
  show ?case
  proof (cases "find (\<lambda>x. tenant_id x = t \<and> nd_normalized_resource_id x = cd_target_resource_id c) known")
    case None
    then show ?thesis using Cons.prems by (intro more [of rows changed]) simp_all
  next
    case target: (Some target)
    show ?thesis
    proof (cases "nd_inventory_resource_id target = nd_inventory_resource_id source")
      case True
      then show ?thesis using Cons.prems target by (intro more [of rows changed]) simp_all
    next
      case False
      show ?thesis
      proof (cases "find (\<lambda>e. re_target_resource_id e = nd_inventory_resource_id target
            \<and> re_relationship_type e = cd_relationship_type c) current")
        case None
        obtain changed1 where "?loop (rows @ [new_edge (new_id n) clk t source ex c target]) = (changed1, rows')"
          using Cons.prems target False None by (auto split: prod.splits)
        from this have "\<forall>e \<in> set (rows @ [new_edge (new_id n) clk t source ex c target]). edge_fits e \<Longrightarrow> ?thesis"
          by (rule more)
        moreover have "edge_fits (new_edge (new_id n) clk t source ex c target)"
          using False Cons.prems(3) by (simp add: edge_fits_def new_edge_def candidate_fits_def)
        ultimately show ?thesis using Cons.prems(2) by simp
      next
        case (Some e)
        have "?loop (upd_first (\<lambda>x. row_id x = row_id e) (observe_edge clk c) rows) = (changed, rows')"
          using Cons.prems target False Some by simp
        moreover have "\<forall>x \<in> set (upd_first (\<lambda>x. row_id x = row_id e) (observe_edge clk c) rows). edge_fits x"
          using Cons.prems(2) by (auto dest!: in_set_upd_first)
        ultimately show ?thesis by (rule more)
      qed
    qed
  qed
qed simp

lemma rebuild_edges_fits:
  assumes "rebuild_edges plan new_id clk t source ex cs db = (changed, db')" "relationship_fits db" "\<forall>c \<in> set cs. candidate_fits c"
  shows "relationship_fits db'"
proof -
  obtain current inactive rows where loop: "rebuild_loop new_id clk t source ex (nodes db) current 0 cs inactive = (changed, rows)"
      and inactive: "inactive = map (\<lambda>e. if written_by t (nd_inventory_resource_id source) (ex_name ex) e
        then e\<lparr>re_is_active := False\<rparr> else e) (edges db)"
      and db': "db' = db\<lparr>edges := flush_edges (tx_now clk) (edges db) rows\<rparr>"
    using assms(1) unfolding rebuild_edges_def Let_def by (auto split: prod.splits)
  have "\<forall>e \<in> set rows. edge_fits e"
    by (rule rebuild_loop_fits [OF loop _ assms(3)]) (use assms(2) in \<open>auto simp: inactive relationship_fits_def\<close>)
  moreover have "edge_fits (case find (\<lambda>x. row_id x = row_id e) old of None \<Rightarrow> e | Some x \<Rightarrow> flushed now x e) = edge_fits e" for e old now
    by (simp split: option.split)
  ultimately show ?thesis by (simp add: db' relationship_fits_def flush_edges_def)
qed

lemma references_fit: "\<forall>c \<in> set (extract_references d). candidate_fits c"
proof
  fix c assume "c \<in> set (extract_references d)"
  from extract_candidates(3) [OF this] obtain k p where "c = reference_candidate k p" by blast
  then show "candidate_fits c" by (simp add: candidate_fits_def reference_candidate_def dependency_strengths_def)
qed

lemma run_extractors_fits:
  "run_extractors plan new_id clk t n DEFAULT_EXTRACTORS db = (changed, db') \<Longrightarrow> relationship_fits db \<Longrightarrow> relationship_fits db'"
  using rebuild_edges_fits [OF _ _ references_fit]
  by (auto simp: DEFAULT_EXTRACTORS_def arm_reference_def Let_def split: if_splits prod.splits)

lemma rebuild_nodes_fits:
  "rebuild_nodes plan new_id clk t ns db = (changed, db') \<Longrightarrow> relationship_fits db \<Longrightarrow> relationship_fits db'"
proof (induction ns arbitrary: db changed)
  case (Cons n ns)
  then show ?case by (auto simp: Let_def split: prod.splits dest: run_extractors_fits)
qed simp

lemma project_and_extract_fits:
  assumes "project_and_extract plan i new_id clk e db = Inr (changed, db')" "relationship_fits db"
  shows "relationship_fits db'"
proof -
  obtain n db1 where up: "upsert_node i (tx_now clk) e db = Inr (n, db1)"
      and run: "run_extractors plan new_id clk (pe_tenant_id e) n DEFAULT_EXTRACTORS db1 = (changed, db')"
    using assms(1) by (auto simp: project_and_extract_def result_iff)
  have "edges db1 = edges db" using up by (auto simp: upsert_node_def Let_def split: prod.splits if_splits)
  then show ?thesis using run_extractors_fits [OF run] assms(2) by (simp add: relationship_fits_def)
qed

lemma relationship_endpoints_fit [keeps]:
  assumes "relationship_fits db"
  shows "kept relationship_fits (graph_endpoint genv actor q db)"
    "kept relationship_fits (project_resource_endpoint env cfg token e db)"
    "kept relationship_fits (rebuild_relationships_endpoint env cfg token t db)"
proof -
  have "kept relationship_fits (unit_of_work (gv_commit genv) (ac_tenant_id a) (ac_actor_id a)
      (on_tables (\<lambda>db. let r = graph (gv_plan genv) (gv_node_plan genv) (ac_tenant_id a) q db
         in Inr (r, enqueue_audit (gv_outbox_id genv) (py_now (gv_clock genv)) (graph_event genv a q r) db))) db)" for a
    by (rule unit_of_work_keeps, rule assms) (use assms in \<open>auto simp: Let_def relationship_fits_def enqueue_audit_def\<close>)
  then show "kept relationship_fits (graph_endpoint genv actor q db)"
    using assms by (simp add: graph_endpoint_def split: sum.split)
  have "kept relationship_fits (unit_of_work (db_fault (pv_commit env)) (pe_tenant_id e) (pe_inventory_resource_id e)
      (on_tables (\<lambda>db. bindr (project_and_extract (pv_plan env) (pv_node_id env) (pv_edge_id env 0) (pv_clock env) e db)
         (\<lambda>(_, db). Inr ((), db)))) db)"
    by (rule unit_of_work_keeps, rule assms) (auto simp: bindr_Inr_iff intro: project_and_extract_fits [OF _ assms])
  then show "kept relationship_fits (project_resource_endpoint env cfg token e db)"
    using assms by (simp add: project_resource_endpoint_def split: sum.split)
  have "kept relationship_fits (unit_of_work (db_fault (pv_commit env)) t t
      (on_tables (\<lambda>db. Inr ((), snd (rebuild_all (pv_node_plan env) (pv_plan env) (pv_edge_id env) (pv_clock env) t db)))) db)"
    by (rule unit_of_work_keeps, rule assms)
      (auto simp: rebuild_all_def intro: rebuild_nodes_fits [OF prod.collapse [symmetric] assms])
  then show "kept relationship_fits (rebuild_relationships_endpoint env cfg token t db)"
    using assms by (simp add: rebuild_relationships_endpoint_def split: sum.split)
qed

interpretation relationship_keeper: keeper fw cfg "relationship_routes fw client cfg call" relationship_fits for fw client cfg call
proof
  fix r :: "(guard, relationship_db) route" and req cid s params
  assume "r \<in> set (relationship_routes fw client cfg call)" and ok: "relationship_fits s"
  then show "kept relationship_fits (rt_run r params req cid s)"
    by (auto simp: relationship_routes_def relationship_route_defs intro!: keeps)
qed

section \<open>Change intelligence and operations\<close>

lemma create_assessment_fits [keeps]:
  assumes "intelligence_fits db"
  shows "kept intelligence_fits (create_assessment sha env actor q db)"
proof -
  have "kept intelligence_fits (unit_of_work (as_commit env) (ac_tenant_id a) (ac_actor_id a)
      (on_tables (\<lambda>db. Inr (record_assessment sha env a q db))) db)" for a
    by (rule unit_of_work_keeps, rule assms)
      (use assms in \<open>auto simp: record_assessment_def Let_def intelligence_fits_def finding_fits_def enqueue_audit_def
        assessment_fits_def new_assessment_def assessment_states_def\<close>)
  then show ?thesis using assms by (simp add: create_assessment_def split: sum.split)
qed

interpretation intelligence_keeper: keeper fw cfg "intelligence_routes sha fw client cfg call" intelligence_fits
  for fw client cfg call sha
proof
  fix r :: "(guard, intelligence_db) route" and req cid s params
  assume "r \<in> set (intelligence_routes sha fw client cfg call)" and ok: "intelligence_fits s"
  then show "kept intelligence_fits (rt_run r params req cid s)"
    by (auto simp: intelligence_routes_def intelligence_route_defs intro!: keeps)
qed

lemma create_operation_fits [keeps]:
  assumes "operations_fit db"
  shows "kept operations_fit (create_operation env actor key q db)"
proof -
  have "kept operations_fit (unit_of_work (oe_commit env) (ac_tenant_id actor) (ac_actor_id actor)
      (on_tables (\<lambda>db. Inr (record_operation env actor key action q db))) db)" for action
    by (rule unit_of_work_keeps, rule assms)
      (use assms in \<open>auto simp: record_operation_def Let_def operations_fit_def enqueue_audit_def new_operation_def
        operation_states_def split: option.splits\<close>)
  then show ?thesis using assms by (simp add: create_operation_def split: sum.split)
qed

interpretation operations_keeper: keeper fw cfg "operations_routes fw client cfg call" operations_fit for fw client cfg call
proof
  fix r :: "(guard, operations_db) route" and req cid s params
  assume "r \<in> set (operations_routes fw client cfg call)" and ok: "operations_fit s"
  then show "kept operations_fit (rt_run r params req cid s)"
    by (auto simp: operations_routes_def operations_route_defs intro!: keeps)
qed

section \<open>Identity\<close>

lemma put_row_ids:
  assumes "get_or_put P new upd rows = (r, c, rows')" "\<And>x. row_id (upd x) = row_id x"
  shows "row_id ` set rows \<subseteq> row_id ` set rows'"
proof -
  have "map row_id (upd_first P upd rows) = map row_id rows" using assms(2) by (simp add: map_upd_first)
  then have "set (map row_id rows) \<subseteq> set (map row_id rows')"
    using assms(1) by (auto simp: get_or_put_def split: option.splits simp del: set_map)
  then show ?thesis by simp
qed

lemma put_row_in:
  assumes "get_or_put P new upd rows = (r, c, rows')" "x \<in> set rows'"
  shows "x \<in> set rows \<or> x = new \<or> (\<exists>y \<in> set rows. P y \<and> x = upd y)"
  using in_set_upsert [of x P new upd rows] get_or_put_upsert [OF assms(1)] assms(2) by simp

text \<open>More rows of a table leave the references to it in place.\<close>

lemma identity_fits_tenants:
  assumes "identity_fits db" "row_id ` set (tenants db) \<subseteq> row_id ` set rows" "\<forall>t \<in> set rows. tenant_fits t"
  shows "identity_fits (db\<lparr>tenants := rows\<rparr>)"
  using assms unfolding identity_fits_def identity_refs_def by (simp add: subset_iff)

lemma identity_fits_users:
  assumes "identity_fits db" "identity_refs (db\<lparr>users := rows\<rparr>)" "row_id ` set (users db) \<subseteq> row_id ` set rows"
  shows "identity_fits (db\<lparr>users := rows\<rparr>)"
  using assms unfolding identity_fits_def by (simp add: subset_iff)

lemma identity_fits_roles:
  assumes "identity_fits db" "set (roles db) \<subseteq> set rows" "\<forall>r \<in> set rows. tenant_id r \<in> row_id ` set (tenants db)"
  shows "identity_fits (db\<lparr>roles := rows\<rparr>)"
proof -
  have "row_id ` set (roles db) \<subseteq> row_id ` set rows" using assms(2) by (rule image_mono)
  then show ?thesis using assms(1,3) unfolding identity_fits_def identity_refs_def by (simp add: subset_iff)
qed

lemma nonblank_uuid: "nonblank (uuid_str u)"
proof -
  have "uuid_str u \<noteq> []" by (metis length_uuid_str list.size(3) zero_neq_numeral)
  then obtain x where x: "x \<in> set (uuid_str u)" by (meson list.set_sel(1))
  then have "x \<noteq> CHR '' ''" using uuid_str_code [of x u] by auto
  with x show ?thesis by (auto simp: nonblank_def list_ex_iff)
qed

lemma put_only_row: "get_or_put P new upd rows = (r, c, rows') \<Longrightarrow> set rows' \<subseteq> insert r (set rows)"
proof -
  have "set (upd_first P upd xs) \<subseteq> insert (upd x) (set xs)" if "find P xs = Some x" for xs x
    using that by (induction xs) (auto split: if_splits)
  then show "get_or_put P new upd rows = (r, c, rows') \<Longrightarrow> set rows' \<subseteq> insert r (set rows)"
    by (auto simp: get_or_put_def split: option.splits)
qed

lemma get_or_create_tenant_fits:
  assumes "get_or_create_tenant a db = (t, c, db')" "identity_fits db" "nonblank (tn_display_name t)"
    and "ta_account_type a \<in> {''organization'', ''personal''}"
  shows "identity_fits db'"
proof -
  obtain rows where g: "get_or_put (\<lambda>t. tn_identity_scope_key t = ta_scope_key a) (new_tenant a) (rename_tenant a)
      (tenants db) = (t, c, rows)" and db': "db' = db\<lparr>tenants := rows\<rparr>"
    using assms(1) by (auto simp: get_or_create_tenant_def split: prod.splits)
  have fields: "tn_account_type (rename_tenant a x) = tn_account_type x" "tn_status (rename_tenant a x) = tn_status x"
      "tn_account_type (new_tenant a) = ta_account_type a" "tn_status (new_tenant a) = ''active''" for x
    by (simp_all add: rename_tenant_def new_tenant_def)
  have old: "tn_account_type x \<in> {''organization'', ''personal''} \<and> tn_status x \<in> set tenant_states" if "x \<in> set (tenants db)" for x
    using assms(2) that by (simp add: identity_fits_def tenant_fits_def)
  have "tn_account_type t \<in> {''organization'', ''personal''} \<and> tn_status t \<in> set tenant_states"
  proof (cases "find (\<lambda>t. tn_identity_scope_key t = ta_scope_key a) (tenants db)")
    case None
    with g have "t = new_tenant a" by (simp add: get_or_put_def)
    then show ?thesis using assms(4) by (simp only: fields) (simp add: tenant_states_def)
  next
    case (Some x)
    with g have "t = rename_tenant a x" by (simp add: get_or_put_def)
    moreover have "x \<in> set (tenants db)" using find_Some_in [OF Some] by simp
    ultimately show ?thesis using old by (simp only: fields)
  qed
  then have "tenant_fits t" using assms(3) by (simp add: tenant_fits_def)
  then have "\<forall>x \<in> set rows. tenant_fits x" using put_only_row [OF g] assms(2) unfolding identity_fits_def by blast
  moreover have "row_id ` set (tenants db) \<subseteq> row_id ` set rows" by (rule put_row_ids [OF g]) (simp add: rename_tenant_def)
  ultimately show ?thesis unfolding db' using assms(2) by (intro identity_fits_tenants)
qed

text \<open>The display name that an onboarding of the login gives its tenant.\<close>

lemma onboard_tenant_name:
  assumes "get_or_create_tenant (onboard_tenant_args ids clk p None) db = (t, c, db')" "identity_fits db"
  shows "nonblank (tn_display_name t) \<longleftrightarrow>
    \<not> (is_personal_account (tp_entra_tenant_id p) \<and> tp_display_name p \<noteq> [] \<and> \<not> nonblank (tp_display_name p))"
proof -
  let ?a = "onboard_tenant_args ids clk p None"
  have name: "ta_display_name ?a = (if is_personal_account (tp_entra_tenant_id p) then Some (tp_display_name p) else None)"
    by (simp add: onboard_tenant_args_def present_def Let_def)
  have g: "t = (case find (\<lambda>t. tn_identity_scope_key t = ta_scope_key ?a) (tenants db) of
      None \<Rightarrow> new_tenant ?a | Some x \<Rightarrow> rename_tenant ?a x)"
    using assms(1) by (auto simp: get_or_create_tenant_def get_or_put_def Let_def split: option.splits)
  show ?thesis
  proof (cases "find (\<lambda>t. tn_identity_scope_key t = ta_scope_key ?a) (tenants db)")
    case None
    with g have t: "t = new_tenant ?a" by simp
    show ?thesis by (simp add: t new_tenant_def name present_def nonblank_uuid)
  next
    case (Some x)
    with g have t: "t = rename_tenant ?a x" by simp
    have "x \<in> set (tenants db)" using find_Some_in [OF Some] by simp
    then have "nonblank (tn_display_name x)" using assms(2) by (simp add: identity_fits_def tenant_fits_def)
    then show ?thesis by (auto simp: t rename_tenant_def name present_def)
  qed
qed

lemma synchronize_user_fits:
  assumes "synchronize_user a db = (u, db')" "identity_fits db" "ua_tenant_id a \<in> row_id ` set (tenants db)"
  shows "identity_fits db'"
proof -
  obtain rows where db': "db' = db\<lparr>users := rows\<rparr>" using synchronize_user_facts(1) [OF assms(1)] by blast
  have "identity_refs db'" using synchronize_refs [OF assms(1) _ assms(3)] assms(2) by (simp add: identity_fits_def)
  moreover have "row_id ` set (users db) \<subseteq> row_id ` set rows"
  proof
    fix i assume "i \<in> row_id ` set (users db)"
    then obtain x where "x \<in> set (users db)" "i = row_id x" by blast
    moreover from synchronize_row_ids [OF assms(1) this(1)] obtain y where "y \<in> set rows" "row_id y = row_id x"
      by (auto simp: db')
    ultimately show "i \<in> row_id ` set rows" by (metis image_eqI)
  qed
  ultimately show ?thesis unfolding db' using assms(2) by (intro identity_fits_users)
qed

lemma get_or_create_role_fits:
  assumes "get_or_create_role a db = (r, db')" "identity_fits db" "ra_tenant_id a \<in> row_id ` set (tenants db)"
  shows "identity_fits db'" "r \<in> set (roles db')"
proof -
  note R = get_or_create_role_facts [OF assms(1)]
  obtain rows where db': "db' = db\<lparr>roles := rows\<rparr>" using R(1) by blast
  have "\<forall>x \<in> set rows. tenant_id x \<in> row_id ` set (tenants db)"
    using R(3,6) assms(2,3) unfolding identity_fits_def db' by auto
  then show "identity_fits db'" unfolding db' using assms(2) R(5) db' by (intro identity_fits_roles) simp_all
  show "r \<in> set (roles db')" by (rule R(2))
qed

lemma grant_permissions_fits:
  assumes "identity_fits db" "r \<in> set (roles db)"
  shows "identity_fits (grant_permissions r names db)"
proof -
  obtain rows where db': "grant_permissions r names db = db\<lparr>role_permissions := rows\<rparr>"
    using grant_permissions_facts(1) by blast
  have "set rows = set (role_permissions db) \<union>
      {\<lparr>rp_role_id = row_id r, rp_permission_id = row_id p\<rparr> | p. p \<in> set (permissions db) \<and> pm_name p \<in> names}"
    using grant_permissions_facts(2) [of r names db] by (simp add: db')
  then have "\<forall>g \<in> set rows. rp_role_id g \<in> row_id ` set (roles db) \<and> rp_permission_id g \<in> row_id ` set (permissions db)"
    using assms by (auto simp: identity_fits_def)
  then show ?thesis using assms(1) by (simp add: db' identity_fits_def identity_refs_def)
qed

lemma assign_role_fits:
  assumes "identity_fits db" "t \<in> row_id ` set (tenants db)" "r \<in> row_id ` set (roles db)"
    and "\<exists>v \<in> set (users db). row_id v = u \<and> tenant_id v = t"
  shows "identity_fits (assign_role now t u r db)"
proof -
  obtain rows where db': "assign_role now t u r db = db\<lparr>user_roles := rows\<rparr>" using assign_role_facts(1) by blast
  have rows: "set rows \<subseteq> insert (new_assignment now t u r) (set (user_roles db))"
    using assign_role_facts(2) [of now t u r db] by (simp add: db')
  have new: "ur_tenant_id (new_assignment now t u r) = t" "ur_user_id (new_assignment now t u r) = u"
      "ur_role_id (new_assignment now t u r) = r" by (simp_all add: new_assignment_def)
  have "(ur_tenant_id a \<in> row_id ` set (tenants db) \<and> ur_role_id a \<in> row_id ` set (roles db))
      \<and> (\<exists>v \<in> set (users db). row_id v = ur_user_id a \<and> tenant_id v = ur_tenant_id a)" if "a \<in> set rows" for a
  proof (cases "a = new_assignment now t u r")
    case True
    then show ?thesis using assms(2-4) by (simp add: new)
  next
    case False
    then have "a \<in> set (user_roles db)" using that rows by blast
    then show ?thesis using assms(1) unfolding identity_fits_def identity_refs_def by blast
  qed
  then show ?thesis using assms(1) by (simp add: db' identity_fits_def identity_refs_def)
qed

lemma upsert_oauth_connection_fits:
  assumes "upsert_oauth_connection a db = (c, db')" "identity_fits db"
    and "ca_tenant_id a \<in> row_id ` set (tenants db)" "ca_user_id a \<in> row_id ` set (users db)"
  shows "identity_fits db'"
proof -
  obtain b rows where g: "get_or_put (\<lambda>c. connection_key c = (ca_tenant_id a, ca_user_id a, ''microsoft''))
      (new_connection a) (refresh_connection a) (oauth_connections db) = (c, b, rows)"
      and db': "db' = db\<lparr>oauth_connections := rows\<rparr>"
    using assms(1) by (auto simp: upsert_oauth_connection_def split: prod.splits)
  have fields: "tenant_id (new_connection a) = ca_tenant_id a" "oc_user_id (new_connection a) = ca_user_id a"
      "tenant_id (refresh_connection a x) = tenant_id x" "oc_user_id (refresh_connection a x) = oc_user_id x" for x
    by (simp_all add: new_connection_def refresh_connection_def)
  have "tenant_id x \<in> row_id ` set (tenants db) \<and> oc_user_id x \<in> row_id ` set (users db)" if "x \<in> set rows" for x
    using put_row_in [OF g that]
  proof (elim disjE bexE conjE)
    assume "x \<in> set (oauth_connections db)"
    with assms(2) show ?thesis by (simp add: identity_fits_def)
  next
    fix y assume "y \<in> set (oauth_connections db)" "x = refresh_connection a y"
    with assms(2) show ?thesis by (simp add: identity_fits_def fields)
  qed (use assms(3,4) in \<open>simp add: fields\<close>)
  then show ?thesis using assms(2) by (simp add: db' identity_fits_def identity_refs_def)
qed

lemma onboard_into_fits:
  assumes on: "onboard_into ids clk p tok scopes auth t created n db1 = Inr (ri, db)"
    and ok: "identity_fits db1" and t: "t \<in> set (tenants db1)"
  shows "identity_fits db"
proof -
  obtain a u db2 r db3 db4 db5 c where
    s: "principal_user (oi_user ids) clk (row_id t) p = Inr a"
      "synchronize_user a db1 = (u, db2)"
      "get_or_create_role \<lparr>ra_id = oi_role ids, ra_clock = clk, ra_tenant_id = row_id t,
         ra_name = onboard_role created n, ra_description = role_description (onboard_role created n)\<rparr> db2 = (r, db3)"
      "db4 = grant_permissions r (if onboard_role created n = ''TenantAdministrator''
         then admin_permissions else reader_permissions) db3"
      "db5 = assign_role (tx_now clk) (row_id t) (row_id u) (row_id r) db4"
      "upsert_oauth_connection \<lparr>ca_id = oi_connection ids, ca_clock = clk, ca_tenant_id = row_id t,
         ca_user_id = row_id u, ca_encrypted_refresh_token = tok, ca_scopes = scopes,
         ca_token_authority = auth\<rparr> db5 = (c, db)"
    using on by (rule onboard_into_steps)
  have a: "ua_tenant_id a = row_id t" using s(1) by (auto simp: principal_user_def result_iff)
  note U = synchronize_user_facts [OF s(2)] and R = get_or_create_role_facts [OF s(3)]
  obtain rows2 rows3 rows4 rows5 where
    e: "db2 = db1\<lparr>users := rows2\<rparr>" "db3 = db2\<lparr>roles := rows3\<rparr>"
      "db4 = db3\<lparr>role_permissions := rows4\<rparr>" "db5 = db4\<lparr>user_roles := rows5\<rparr>"
    using U(1) R(1) grant_permissions_facts(1) assign_role_facts(1) s(4,5) by metis
  have here: "row_id t \<in> row_id ` set (tenants db1)" using t by simp
  have "identity_fits db2" using synchronize_user_fits [OF s(2) ok] here a by simp
  then have "identity_fits db3" "r \<in> set (roles db3)" using get_or_create_role_fits [OF s(3)] here by (simp_all add: e)
  then have "identity_fits db4" unfolding s(4) by (rule grant_permissions_fits)
  moreover have "row_id t \<in> row_id ` set (tenants db4)" "row_id r \<in> row_id ` set (roles db4)"
      "\<exists>v \<in> set (users db4). row_id v = row_id u \<and> tenant_id v = row_id t"
    using here \<open>r \<in> set (roles db3)\<close> U(2,3) a by (auto simp: e)
  ultimately have "identity_fits db5" unfolding s(5) by (rule assign_role_fits)
  then show ?thesis
    using upsert_oauth_connection_fits [OF s(6)] here U(2) by (simp add: e)
qed

lemma onboard_fits:
  assumes on: "onboard_oauth_user ids clk p None tok scopes auth db0 = Inr (ri, db)" and ok: "identity_fits db0"
  shows "identity_fits db \<longleftrightarrow>
    \<not> (is_personal_account (tp_entra_tenant_id p) \<and> tp_display_name p \<noteq> [] \<and> \<not> nonblank (tp_display_name p))"
proof -
  obtain t created db1 where T0: "get_or_create_tenant (onboard_tenant_args ids clk p None) db0 = (t, created, db1)"
    and I: "onboard_into ids clk p tok scopes auth t created (count_users (row_id t) db0) db1 = Inr (ri, db)"
    using on by (rule onboard_oauth_user_into)
  note name = onboard_tenant_name [OF T0 ok] and T = get_or_create_tenant_facts [OF T0]
  have account: "ta_account_type (onboard_tenant_args ids clk p None) \<in> {''organization'', ''personal''}"
    by (simp add: onboard_tenant_args_def Let_def)
  have tenants: "tenants db = tenants db1"
    using I
    by (rule onboard_into_steps)
      (auto simp: synchronize_user_def get_or_create_role_def grant_permissions_def assign_role_def upsert_oauth_connection_def
        split: prod.splits)
  show ?thesis
  proof
    assume "identity_fits db"
    then have "nonblank (tn_display_name t)" using T(2) tenants by (simp add: identity_fits_def tenant_fits_def)
    with name show "\<not> (is_personal_account (tp_entra_tenant_id p) \<and> tp_display_name p \<noteq> [] \<and> \<not> nonblank (tp_display_name p))" by simp
  next
    assume "\<not> (is_personal_account (tp_entra_tenant_id p) \<and> tp_display_name p \<noteq> [] \<and> \<not> nonblank (tp_display_name p))"
    with name have "nonblank (tn_display_name t)" by simp
    then have "identity_fits db1" by (rule get_or_create_tenant_fits [OF T0 ok _ account])
    then show "identity_fits db" by (rule onboard_into_fits [OF I _ T(2)])
  qed
qed

lemma resolve_and_sync_fits:
  assumes "resolve_and_sync new_id clk p db = Inr (ri, db')" "identity_fits db"
  shows "identity_fits db'"
proof -
  obtain t a u where s: "get_tenant_by_scope_key (identity_scope_key (tp_entra_tenant_id p) (tp_entra_object_id p)) db = Some t"
      "principal_user new_id clk (row_id t) p = Inr a" "synchronize_user a db = (u, db')"
    using assms(1) by (rule resolve_and_sync_Inr)
  have "ua_tenant_id a = row_id t" using s(2) by (auto simp: principal_user_def result_iff)
  then show ?thesis using synchronize_user_fits [OF s(3) assms(2)] scope_key_in [OF s(1)] by simp
qed

text \<open>The start-up, whose tenant has the configured name.\<close>

lemma seed_permission_ids: "row_id ` set rows \<subseteq> row_id ` set (seed_permission new_id now nd rows)"
  by (auto simp: seed_permission_def upsert_def split: option.split)

lemma seed_permissions_fits:
  assumes "identity_fits db"
  shows "identity_fits (seed_permissions new_id now db)"
proof -
  have "row_id ` set rows \<subseteq> row_id ` set (fold (seed_permission new_id now) nds rows)" for nds rows
    by (induction nds arbitrary: rows) (simp, simp, meson order_trans seed_permission_ids)
  then have "row_id ` set (permissions db) \<subseteq> row_id ` set (fold (seed_permission new_id now) PERMISSIONS (permissions db))" .
  then show ?thesis
    using assms unfolding identity_fits_def identity_refs_def seed_permissions_def by (simp add: subset_iff)
qed

lemma bootstrap_admin_fits:
  assumes "bootstrap_admin ids clk cfg t r db = Inr db'" "identity_fits db" "t \<in> set (tenants db)" "r \<in> set (roles db)"
  shows "identity_fits db'"
proof (cases "present (bootstrap_admin_object_id cfg)")
  case False
  with assms show ?thesis by (simp add: bootstrap_admin_def)
next
  case True
  then obtain oid where oid: "uuid_parse (the (bootstrap_admin_object_id cfg)) = Inr oid"
    using assms(1) by (auto simp: bootstrap_admin_def result_iff)
  obtain u c rows where g: "get_or_put (\<lambda>u. user_key u = (row_id t, oid))
      (bootstrap_user_row (oi_user ids) clk cfg (row_id t) oid) (\<lambda>u. u) (users db) = (u, c, rows)"
    by (rule prod_cases3)
  have db': "db' = assign_role (tx_now clk) (row_id t) (row_id u) (row_id r) (db\<lparr>users := rows\<rparr>)"
    using assms(1) True oid g by (simp add: bootstrap_admin_def)
  have u: "u \<in> set rows" "tenant_id u = row_id t"
    using g by (auto simp: get_or_put_def bootstrap_user_row_def split: option.splits dest: find_Some_in)
  have rows: "set rows \<subseteq> insert u (set (users db))" "set (users db) \<subseteq> set rows"
    using g by (auto simp: get_or_put_def split: option.splits)
  have "identity_refs (db\<lparr>users := rows\<rparr>)"
    using assms(2,3) rows u(2) unfolding identity_fits_def identity_refs_def by (simp add: subset_iff) blast
  then have "identity_fits (db\<lparr>users := rows\<rparr>)"
    using assms(2) image_mono [OF rows(2), of row_id] by (intro identity_fits_users)
  then show ?thesis unfolding db' using assms(3,4) u by (intro assign_role_fits) auto
qed

lemma bootstrap_identity_fits:
  assumes "bootstrap_identity new_permission_id ids clk cfg db0 = Inr (x, db)" "identity_fits db0"
    and "nonblank (bootstrap_tenant_name cfg)"
  shows "identity_fits db"
proof (cases "present (bootstrap_tenant_id cfg)")
  case False
  with assms(1) have "db = seed_permissions new_permission_id (tx_now clk) db0"
    by (simp add: bootstrap_identity_def)
  with assms(2) show ?thesis by (simp add: seed_permissions_fits)
next
  case True
  let ?db1 = "seed_permissions new_permission_id (tx_now clk) db0"
  have ok1: "identity_fits ?db1" using assms(2) by (rule seed_permissions_fits)
  from True assms(1) obtain entra where entra: "uuid_parse (the (bootstrap_tenant_id cfg)) = Inr entra"
    by (cases "uuid_parse (the (bootstrap_tenant_id cfg))") (auto simp: bootstrap_identity_def Let_def)
  obtain t c rows where t: "get_or_put (\<lambda>t. tn_identity_scope_key t = identity_scope_key entra 0)
      (bootstrap_tenant_row (oi_tenant ids) clk cfg entra (identity_scope_key entra 0)) (\<lambda>t. t) (tenants ?db1) = (t, c, rows)"
    by (rule prod_cases3)
  obtain r db2 where r: "get_or_create_role \<lparr>ra_id = oi_role ids, ra_clock = clk, ra_tenant_id = row_id t,
      ra_name = ''TenantAdministrator'', ra_description = role_description ''TenantAdministrator''\<rparr>
      (?db1\<lparr>tenants := rows\<rparr>) = (r, db2)" by fastforce
  have adm: "bootstrap_admin ids clk cfg t r (grant_permissions r (set (map fst PERMISSIONS)) db2) = Inr db"
    using assms(1) True entra t r by (simp add: bootstrap_identity_def Let_def result_iff)
  have "tenant_fits (bootstrap_tenant_row (oi_tenant ids) clk cfg entra key)" for key
    using assms(3) by (simp add: tenant_fits_def bootstrap_tenant_row_def tenant_states_def)
  then have "\<forall>x \<in> set rows. tenant_fits x" using put_row_in [OF t] ok1 unfolding identity_fits_def by blast
  moreover have "row_id ` set (tenants ?db1) \<subseteq> row_id ` set rows" by (rule put_row_ids [OF t]) simp
  ultimately have "identity_fits (?db1\<lparr>tenants := rows\<rparr>)" using ok1 by (intro identity_fits_tenants)
  moreover have tin: "t \<in> set rows" using t by (auto simp: get_or_put_def split: option.splits dest: find_Some_in)
  ultimately have ok2: "identity_fits db2" "r \<in> set (roles db2)"
    using get_or_create_role_fits [OF r] by simp_all
  have "tenants db2 = rows" using get_or_create_role_facts(1) [OF r] by auto
  moreover have "tenants (grant_permissions r names db2) = tenants db2" "roles (grant_permissions r names db2) = roles db2" for names
    by (simp_all add: grant_permissions_def)
  ultimately show ?thesis
    using bootstrap_admin_fits [OF adm grant_permissions_fits [OF ok2]] tin ok2(2) by simp
qed

section \<open>Properties\<close>

text \<open>C23: The services never write a row that the schema refuses: whatever request reaches the inventory,
  relationship, intelligence or operations service, and whatever the worker is answered, their
  tables keep the CHECK constraints, enumerations and foreign keys of \<open>database/schema.sql\<close>: no
  resource without its subscription or with an id in capitals, no edge from a resource to
  itself or with a confidence beyond one, no mode, state or level outside its enumeration.\<close>

theorem services_fit_schema:
  assumes "inventory_fits vdb" "relationship_fits rdb" "intelligence_fits ndb" "operations_fit odb"
  shows "inventory_fits (snd (create_app bracket_ok cfg ping fresh elapsed (serve fw (inventory_routes fw client cfg vc)) req vdb))
    \<and> relationship_fits (snd (create_app bracket_ok cfg ping fresh elapsed (serve fw (relationship_routes fw client cfg rc)) req rdb))
    \<and> intelligence_fits (snd (create_app bracket_ok cfg ping fresh elapsed (serve fw (intelligence_routes sha fw client cfg nc)) req ndb))
    \<and> operations_fit (snd (create_app bracket_ok cfg ping fresh elapsed (serve fw (operations_routes fw client cfg oc)) req odb))
    \<and> (\<forall>r vdb' s'. run_once pages env post cfg (vdb, s) = Some (r, vdb', s') \<longrightarrow> inventory_fits vdb')"
  by (intro conjI allI impI inventory_keeper.app_keeps relationship_keeper.app_keeps intelligence_keeper.app_keeps
      operations_keeper.app_keeps assms) (erule run_once_fits, rule assms(1))

text \<open>Tables with a queued job, an edge, an assessment and an operation.\<close>

definition drafted_assessment :: intelligence_db where
  "drafted_assessment = \<lparr>outbox = [], assessments = [new_assessment (\<lambda>s. s) sample_assessment_env (sample_actor 2 {}) (sample_assessment [])],
     assessment_findings = []\<rparr>"

lemma sample_rows_fit:
  "inventory_fits one_job" "relationship_fits sample_links" "intelligence_fits drafted_assessment"
  by (simp_all add: inventory_fits_def one_job_def empty_inventory_def job_fits_def sample_job_def new_job_def sync_modes_def
      relationship_fits_def edge_fits_def sample_link_simps dependency_strengths_def
      intelligence_fits_def drafted_assessment_def assessment_fits_def new_assessment_def assessment_states_def)

lemma services_fit_schema_witness:
  "sync_jobs one_job \<noteq> [] \<and> edges sample_links \<noteq> [] \<and> assessments drafted_assessment \<noteq> []
   \<and> (\<forall>fw client cfg call req. inventory_fits (snd (create_app (\<lambda>_. True) cfg None 1 [] (serve fw
        (inventory_routes fw client cfg call)) req one_job)))
   \<and> (\<forall>fw client cfg call req. relationship_fits (snd (create_app (\<lambda>_. True) cfg None 1 [] (serve fw
        (relationship_routes fw client cfg call)) req sample_links)))
   \<and> (\<forall>fw client cfg call req. intelligence_fits (snd (create_app (\<lambda>_. True) cfg None 1 [] (serve fw
        (intelligence_routes (\<lambda>s. s) fw client cfg call)) req drafted_assessment)))"
proof -
  have "operations_fit no_operations" by (simp add: operations_fit_def no_operations_def)
  note fits = services_fit_schema [OF sample_rows_fit this]
  show ?thesis
    by (intro conjI allI fits [THEN conjunct1] fits [THEN conjunct2, THEN conjunct1]
        fits [THEN conjunct2, THEN conjunct2, THEN conjunct1])
      (simp_all add: one_job_def sample_links_def drafted_assessment_def Let_def)
qed

text \<open>C24: A sign-in writes rows that the schema accepts except for one: a personal account whose display
  name is blank but not empty gives its tenant that name, which the constraint on the name
  refuses. Everything else of a sign-in fits, with the references between tenants, users,
  roles, permissions and connections; so does a request with a bearer token, and a start-up
  whose configured tenant has a name.\<close>

theorem sign_in_rows_fit_schema:
  assumes "identity_fits db0"
  shows "(\<forall>ri db. onboard_oauth_user ids clk p None tok scopes auth db0 = Inr (ri, db) \<longrightarrow>
      (identity_fits db \<longleftrightarrow>
        \<not> (is_personal_account (tp_entra_tenant_id p) \<and> tp_display_name p \<noteq> [] \<and> \<not> nonblank (tp_display_name p))))
    \<and> (\<forall>ri db. resolve_and_sync new_id clk p db0 = Inr (ri, db) \<longrightarrow> identity_fits db)
    \<and> (\<forall>x db. bootstrap_identity new_permission_id ids clk cfg db0 = Inr (x, db)
        \<and> nonblank (bootstrap_tenant_name cfg) \<longrightarrow> identity_fits db)"
  using onboard_fits [OF _ assms] resolve_and_sync_fits [OF _ assms] bootstrap_identity_fits [OF _ assms] by metis

definition blank_principal :: token_principal where
  "blank_principal = (sample_principal MICROSOFT_CONSUMER_TENANT_ID 4)\<lparr>tp_display_name := '' ''\<rparr>"

lemma sign_in_rows_fit_schema_witness:
  "(\<exists>ri db. onboard_oauth_user (sample_ids 1) sample_clock (sample_principal 3 4) None ''tok'' [] ''common'' empty_identity
       = Inr (ri, db) \<and> identity_fits db)
   \<and> (\<exists>ri db. onboard_oauth_user (sample_ids 1) sample_clock blank_principal None ''tok'' [] ''common'' empty_identity
       = Inr (ri, db) \<and> \<not> identity_fits db)"
proof -
  have "identity_fits empty_identity" by (simp add: identity_fits_def identity_refs_def empty_identity_def)
  note fits = sign_in_rows_fit_schema [OF this]
  obtain ri db where on: "onboard_oauth_user (sample_ids 1) sample_clock (sample_principal 3 4) None ''tok'' [] ''common''
      empty_identity = Inr (ri, db)"
    using sample_onboard_returns by blast
  with fits have "identity_fits db \<longleftrightarrow> \<not> (is_personal_account (tp_entra_tenant_id (sample_principal 3 4))
      \<and> tp_display_name (sample_principal 3 4) \<noteq> [] \<and> \<not> nonblank (tp_display_name (sample_principal 3 4)))" by blast
  then have "identity_fits db" by (simp add: sample_principal_def nonblank_def)
  moreover have "as_opt_text (tp_principal_name blank_principal) = Inr (Some ''ada@example.com'')"
    by (simp add: blank_principal_def sample_principal_def as_opt_text_def)
  from onboard_returns [OF this] obtain ri2 blank where on2: "onboard_oauth_user (sample_ids 1) sample_clock blank_principal
      None ''tok'' [] ''common'' empty_identity = Inr (ri2, blank)" by blast
  moreover from on2 fits have "identity_fits blank \<longleftrightarrow> \<not> (is_personal_account (tp_entra_tenant_id blank_principal)
      \<and> tp_display_name blank_principal \<noteq> [] \<and> \<not> nonblank (tp_display_name blank_principal))" by blast
  then have "\<not> identity_fits blank"
    by (simp add: blank_principal_def sample_principal_def is_personal_account_def nonblank_def)
  ultimately show ?thesis using on by blast
qed

end
