(* ===== verification/Lifecycle.thy ===== *)
theory Lifecycle
  imports IdentityMain
begin

text \<open>
  What surrounds the requests: the clients that the login recorder opens and closes
  (\<open>storage.py\<close>), the end of the identity service (\<open>lifespan\<close> of its \<open>main.py\<close>), and the URL of
  the database on its way through the configuration of the migrations (\<open>env.py\<close>).
\<close>

section \<open>The clients of the login recorder\<close>

text \<open>
  A client is a handle; \<open>opened\<close> holds the handles that are open, the newest first. The
  constructors of the Azure SDK return the handles of the arguments.
\<close>

record 'h recorder_clients =
  rk_credential :: "'h option"
  rk_owns_credential :: bool
  rk_service_client :: "'h option"

definition open_recorder :: "'h \<Rightarrow> 'h \<Rightarrow> 'h option \<Rightarrow> bool \<Rightarrow> 'h list \<Rightarrow> 'h recorder_clients \<times> 'h list" where
  "open_recorder new_credential new_service credential container_given opened =
     (let r = \<lparr>rk_credential = credential, rk_owns_credential = (credential = None), rk_service_client = None\<rparr>
      in if container_given then (r, opened)
         else let (c, opened) = (case credential of Some c \<Rightarrow> (c, opened) | None \<Rightarrow> (new_credential, new_credential # opened))
              in (r\<lparr>rk_credential := Some c, rk_service_client := Some new_service\<rparr>, new_service # opened))"

definition close_handle :: "exn option \<Rightarrow> 'h option \<Rightarrow> 'h list \<Rightarrow> unit result \<times> 'h list" where
  "close_handle fault h opened =
     (case (h, fault) of
        (None, _) \<Rightarrow> (Inr (), opened)
      | (Some h, Some e) \<Rightarrow> (Inl e, opened)
      | (Some h, None) \<Rightarrow> (Inr (), remove1 h opened))"

text \<open>The recorder of the identity service, which has one when an account is configured.\<close>

definition login_blob_recorder ::
  "'h \<Rightarrow> 'h \<Rightarrow> settings \<Rightarrow> 'h list \<Rightarrow> 'h recorder_clients option \<times> 'h list" where
  "login_blob_recorder new_credential new_service cfg opened =
     (if login_blob_account_url cfg = None then (None, opened)
      else map_prod Some id (open_recorder new_credential new_service None False opened))"

text \<open>A failure to close the service client leaves the credential open.\<close>

definition close_recorder ::
  "exn option \<Rightarrow> exn option \<Rightarrow> 'h recorder_clients \<Rightarrow> 'h list \<Rightarrow> unit result \<times> 'h list" where
  "close_recorder service_fault credential_fault r opened =
     (case close_handle service_fault (rk_service_client r) opened of
        (Inl e, opened) \<Rightarrow> (Inl e, opened)
      | (Inr _, opened) \<Rightarrow> close_handle credential_fault (if rk_owns_credential r then rk_credential r else None) opened)"

text \<open>The end of the service: the recorder, if there is one, and then the engine.\<close>

definition lifespan_end ::
  "exn option \<Rightarrow> exn option \<Rightarrow> exn option \<Rightarrow> 'h recorder_clients option \<Rightarrow> 'h \<Rightarrow> 'h list \<Rightarrow> unit result \<times> 'h list" where
  "lifespan_end service_fault credential_fault engine_fault recorder engine opened =
     (case (case recorder of None \<Rightarrow> (Inr (), opened) | Some r \<Rightarrow> close_recorder service_fault credential_fault r opened) of
        (Inl e, opened) \<Rightarrow> (Inl e, opened)
      | (Inr _, opened) \<Rightarrow> close_handle engine_fault (Some engine) opened)"

text \<open>The recorder closes what it opened, and a credential or a container that it was given never.\<close>

lemma recorder_closes_its_own:
  assumes "open_recorder new_credential new_service credential container_given opened = (r, opened')"
  shows "close_recorder None None r opened' = (Inr (), opened)"
  using assms by (auto simp: open_recorder_def close_recorder_def close_handle_def Let_def split: if_splits option.splits)

lemma lifespan_closes_all:
  assumes "login_blob_recorder new_credential new_service cfg (engine # opened) = (recorder, opened')"
  shows "lifespan_end None None None recorder engine opened' = (Inr (), opened)"
proof (cases "login_blob_account_url cfg")
  case None
  with assms show ?thesis by (auto simp: login_blob_recorder_def lifespan_end_def close_handle_def)
next
  case (Some url)
  obtain r rest where "open_recorder new_credential new_service None False (engine # opened) = (r, rest)" by force
  with recorder_closes_its_own [OF this] assms Some show ?thesis
    by (auto simp: login_blob_recorder_def lifespan_end_def close_handle_def)
qed

lemma failed_close_keeps_engine:
  assumes "rk_service_client r \<noteq> None"
  shows "lifespan_end (Some e) credential_fault engine_fault (Some r) engine opened = (Inl e, opened)"
  using assms by (auto simp: lifespan_end_def close_recorder_def close_handle_def)

section \<open>The URL of the migrations\<close>

text \<open>
  The basic interpolation of \<open>configparser\<close>: a reference is \<open>%(name)s\<close>, a percent sign is
  written twice. \<open>option_reference\<close> matches a reference at the beginning of a text.
\<close>

definition option_reference :: "string \<Rightarrow> (string \<times> string) option" where
  "option_reference s =
     (let name = takeWhile (\<lambda>c. c \<noteq> CHR '')'') (drop 2 s); rest = dropWhile (\<lambda>c. c \<noteq> CHR '')'') (drop 2 s)
      in if starts_with ''%('' s \<and> name \<noteq> [] \<and> starts_with '')s'' rest then Some (name, drop 2 rest) else None)"

lemma option_reference_shorter: "option_reference s = Some (name, rest) \<Longrightarrow> length rest < length s"
  using length_dropWhile_le [of "\<lambda>c. c \<noteq> CHR '')''" "drop 2 s"]
  by (cases s) (auto simp: option_reference_def starts_with_def Let_def split: if_splits)

function drop_references :: "string \<Rightarrow> string" where
  "drop_references s =
     (case s of [] \<Rightarrow> []
      | c # cs \<Rightarrow> (case option_reference s of Some (name, rest) \<Rightarrow> drop_references rest | None \<Rightarrow> c # drop_references cs))"
  by pat_completeness auto
termination by (relation "measure length") (auto dest: option_reference_shorter)

declare drop_references.simps [simp del]

text \<open>\<open>set_main_option\<close> refuses a text with a percent sign that is neither doubled nor of a reference.\<close>

definition set_option :: "string \<Rightarrow> string result" where
  "set_option v =
     (if CHR ''%'' \<in> set (drop_references (py_replace ''%%'' [] v))
      then Inl (Exn ''ValueError'' ''invalid interpolation syntax'') else Inr v)"

text \<open>\<open>get_main_option\<close>, with the levels of references left; \<open>vars\<close> are the other options of the section.\<close>

function get_option :: "(string \<rightharpoonup> string) \<Rightarrow> nat \<Rightarrow> string \<Rightarrow> string result" where
  "get_option vars depth s =
     (case s of [] \<Rightarrow> Inr []
      | c # cs \<Rightarrow>
         if c \<noteq> CHR ''%'' then map_sum id ((#) c) (get_option vars depth cs)
         else if starts_with ''%'' cs then map_sum id ((#) c) (get_option vars depth (drop 1 cs))
         else case option_reference s of
           None \<Rightarrow> Inl (Exn ''InterpolationSyntaxError'' s)
         | Some (name, rest) \<Rightarrow>
            (case vars (lower name) of
               None \<Rightarrow> Inl (Exn ''InterpolationMissingOptionError'' name)
             | Some v \<Rightarrow>
                bindr (if CHR ''%'' \<notin> set v then Inr v
                       else case depth of 0 \<Rightarrow> Inl (Exn ''InterpolationDepthError'' v) | Suc d \<Rightarrow> get_option vars d v) (\<lambda>x.
                map_sum id ((@) x) (get_option vars depth rest))))"
  by pat_completeness auto
termination
  by (relation "measures [\<lambda>(vars, depth, s). depth, \<lambda>(vars, depth, s). length s]") (auto dest: option_reference_shorter)

declare get_option.simps [simp del]

definition migration_url :: "(string \<rightharpoonup> string) \<Rightarrow> settings \<Rightarrow> string result" where
  "migration_url vars cfg =
     bindr (set_option (py_replace ''%'' ''%%'' (database_url cfg))) (\<lambda>v. get_option vars 9 v)"

lemma escape_Cons: "py_replace ''%'' ''%%'' (c # s) = (if c = CHR ''%'' then ''%%'' else [c]) @ py_replace ''%'' ''%%'' s"
  by (simp add: starts_with_def)

lemma escaped_doubled: "py_replace ''%%'' [] (py_replace ''%'' ''%%'' s) = filter (\<lambda>c. c \<noteq> CHR ''%'') s"
  by (induction s) (simp_all add: escape_Cons starts_with_def del: py_replace.simps(2), simp_all add: starts_with_def)

lemma drop_references_plain: "CHR ''%'' \<notin> set s \<Longrightarrow> drop_references s = s"
proof (induction s)
  case (Cons c s)
  then have "option_reference (c # s) = None" by (auto simp: option_reference_def starts_with_def Let_def)
  with Cons show ?case by (subst drop_references.simps) simp
qed (subst drop_references.simps, simp)

lemma get_escaped: "get_option vars depth (py_replace ''%'' ''%%'' s) = Inr s"
proof (induction s)
  case Nil
  show ?case by (subst get_option.simps) simp
next
  case (Cons c s)
  then show ?case
    unfolding escape_Cons by (subst get_option.simps) (simp add: starts_with_def)
qed

text \<open>
  The migrations connect to the very URL of the settings, whatever characters its password has:
  the doubled percent signs pass the check of the configuration and are read back as they were.
\<close>

theorem migration_url_roundtrip: "migration_url vars cfg = Inr (database_url cfg)"
  by (simp add: migration_url_def set_option_def escaped_doubled drop_references_plain get_escaped)

text \<open>Without the doubling an encoded character of the password is refused.\<close>

lemma undoubled_refused: "set_option ''p%40'' = Inl (Exn ''ValueError'' ''invalid interpolation syntax'')"
  by code_simp

end
