(* ===== verification/WebClient.thy ===== *)
theory WebClient
  imports SchemaRules Platform
begin

text \<open>
  What the web client (\<open>src/apps/web/src\<close>, TypeScript) relies on of the answers of the services. Its
  pages cast what they fetch to the types declared at the top of each page, which nothing checks
  when the client runs; here the types are values, \<open>has_type\<close> decides whether a JSON value is of
  a type, and the answers of the Python endpoints are compared with them. The client and the
  services are written apart, in two languages: no definition is shared between the two sides.
\<close>

section \<open>Types of TypeScript\<close>

text \<open>
  A field of an object has a name, whether it is optional (\<open>?\<close>), and a type. Fields that the type
  does not name are allowed, as structural typing does. Under strict null checks an optional
  field may be absent, but not \<open>null\<close>; with \<open>nullable\<close> it may be \<open>null\<close> too, which is all that
  code that only tests such a field for truth, or displays it, needs.
\<close>

datatype ts_type =
    Ts_string
  | Ts_boolean
  | Ts_array ts_type
  | Ts_object "(string \<times> bool \<times> ts_type) list"

fun has_type :: "bool \<Rightarrow> ts_type \<Rightarrow> json \<Rightarrow> bool"
  and has_fields :: "bool \<Rightarrow> (string \<times> bool \<times> ts_type) list \<Rightarrow> dict \<Rightarrow> bool" where
  "has_type nullable Ts_string v = (case v of JStr _ \<Rightarrow> True | JUuid _ \<Rightarrow> True | _ \<Rightarrow> False)"
| "has_type nullable Ts_boolean v = (case v of JBool _ \<Rightarrow> True | _ \<Rightarrow> False)"
| "has_type nullable (Ts_array t) v = (case v of JList xs \<Rightarrow> list_all (has_type nullable t) xs | _ \<Rightarrow> False)"
| "has_type nullable (Ts_object fs) v = (case v of JDict d \<Rightarrow> has_fields nullable fs d | _ \<Rightarrow> False)"
| "has_fields nullable [] d = True"
| "has_fields nullable ((k, optional, t) # fs) d =
     ((case map_of d k of
         None \<Rightarrow> optional
       | Some v \<Rightarrow> nullable \<and> optional \<and> v = JNull \<or> has_type nullable t v)
      \<and> has_fields nullable fs d)"


section \<open>The types of the pages\<close>













section \<open>Answers\<close>

lemma optional_text [simp]:
  "nullable \<and> opt_str x = JNull \<or> (case opt_str x of JStr _ \<Rightarrow> True | JUuid _ \<Rightarrow> True | _ \<Rightarrow> False) \<longleftrightarrow> nullable \<or> x \<noteq> None"
  "nullable \<and> opt_time y = JNull \<or> (case opt_time y of JStr _ \<Rightarrow> True | JUuid _ \<Rightarrow> True | _ \<Rightarrow> False) \<longleftrightarrow> nullable \<or> y \<noteq> None"
  by (cases x; cases y; simp add: opt_str_def opt_time_def)+

lemma texts_type [simp]: "list_all (has_type nullable Ts_string) (map JStr xs)"
  by (simp add: list_all_iff)










section \<open>The moment of the last synchronization\<close>

text \<open>
  The page of resources shows for each subscription when it was last synchronized. A predicate of
  the tables that no operation of the inventory service leaves: nobody sets that moment.
\<close>

definition unsynced :: "inventory_db \<Rightarrow> bool" where
  "unsynced db \<longleftrightarrow> (\<forall>s \<in> set (subscriptions db). sb_last_sync_at s = None)"

lemma unsynced_cong: "subscriptions db' = subscriptions db \<Longrightarrow> unsynced db \<Longrightarrow> unsynced db'"
  by (simp add: unsynced_def)

lemma upsert_subscription_unsynced:
  assumes "upsert_subscription a db = (x, db')" "unsynced db"
  shows "unsynced db'"
proof -
  have "sb_last_sync_at s = None" if "s \<in> set (subscription_table.put a (subscriptions db))" for s
    using in_set_upsert [OF that] assms(2) by (auto simp: unsynced_def new_subscription_def refresh_subscription_def)
  then show ?thesis by (simp add: unsynced_def upsert_subscription_rows(1) [OF assms(1)])
qed

lemma register_all_unsynced:
  "register_all new_id clk t n as db = (xs, db') \<Longrightarrow> unsynced db \<Longrightarrow> unsynced db'"
proof (induction as arbitrary: n db xs)
  case (Cons a as)
  then show ?case by (auto simp: Let_def split: prod.splits dest: upsert_subscription_unsynced)
qed simp

lemma discover_subscriptions_unsynced [keeps]:
  assumes "unsynced db"
  shows "kept unsynced (discover_subscriptions new_id clk fault listed actor db)"
proof (cases "bindr (require_permission ''inventory.sync.execute'' actor) (\<lambda>_. list_azure_subscriptions listed)")
  case (Inr found)
  have "kept unsynced (unit_of_work fault (ac_tenant_id actor) (ac_actor_id actor)
      (on_tables (\<lambda>db. (let (rows, db) = register_all new_id clk (ac_tenant_id actor) 0 found db
         in Inr (map subscription_response rows, db)))) db)"
    by (rule unit_of_work_keeps, rule assms) (auto split: prod.splits intro: register_all_unsynced [OF _ assms])
  then show ?thesis unfolding discover_subscriptions_def Inr by simp
qed (simp add: discover_subscriptions_def assms)

lemma create_sync_job_endpoint_unsynced [keeps]:
  assumes "unsynced db"
  shows "kept unsynced (create_sync_job_endpoint env actor q db)"
proof -
  have "unsynced db'" if "request_sync env actor q db = Inr (j, db')" for j db'
    by (rule unsynced_cong [OF _ assms])
      (use that in \<open>auto simp: request_sync_def create_sync_job_def enqueue_audit_def Let_def split: if_splits prod.splits\<close>)
  then have "kept unsynced (unit_of_work (sy_commit env) (ac_tenant_id actor) (ac_actor_id actor) (on_tables (request_sync env actor q)) db)"
    by (intro unit_of_work_keeps) (use assms in auto)
  with assms show ?thesis
    by (auto simp: create_sync_job_endpoint_def kept_def require_permission_def guardr_def split: sum.splits prod.splits)
qed

interpretation synchronization_keeper: keeper fw cfg "inventory_routes fw client cfg call" unsynced for fw client cfg call
proof
  fix r :: "(guard, inventory_db) route" and req cid s params
  assume "r \<in> set (inventory_routes fw client cfg call)" and ok: "unsynced s"
  then show "kept unsynced (rt_run r params req cid s)"
    by (auto simp: inventory_routes_def inventory_route_defs intro!: keeps)
qed

lemma register_scope_unsynced:
  "register_scope new_id clk t available n us subs db = Inr (subs', db') \<Longrightarrow> unsynced db \<Longrightarrow> unsynced db'"
proof (induction us arbitrary: n subs db)
  case (Cons u us)
  then show ?case by (auto simp: Let_def split: option.splits prod.splits dest: upsert_subscription_unsynced)
qed simp

lemma register_job_scope_unsynced:
  assumes "register_job_scope env job db = (r, db')" "unsynced db"
  shows "unsynced db'"
  using assms
  by (auto simp: register_job_scope_def transaction_def bindr_Inr_iff split: sum.splits option.splits prod.splits
      dest: register_scope_unsynced)

lemma run_job_unsynced:
  assumes "run_job pages env post cfg job (db, s) = Some (r, db', s')" "unsynced db"
  shows "unsynced db'"
proof -
  have store: "subscriptions db2 = subscriptions db1" if "store_job_resources env job subs rows db1 = (x, db2)" for subs rows db1 x db2
    using store_job_resources_frame [OF that] store_resources_frame
    by (cases x) (fastforce simp: update_job_def)+
  show ?thesis
    using assms register_job_scope_unsynced [of env job db]
    by (auto simp: run_job_def Let_def split: prod.splits sum.splits option.splits dest: store intro: unsynced_cong)
qed

lemma run_once_unsynced:
  assumes "run_once pages env post cfg (db, s) = Some (r, db', s')" "unsynced db"
  shows "unsynced db'"
  using assms
  by (auto simp: run_once_def transaction_def Let_def update_job_def split: prod.splits sum.splits option.splits
      dest!: run_job_unsynced intro: unsynced_cong)

section \<open>Refresh\<close>

text \<open>The button asks for a synchronization of every subscription that the page lists, in one request.\<close>

definition refresh_request :: "subscription list \<Rightarrow> string \<Rightarrow> sync_request" where
  "refresh_request subs key = \<lparr>sq_subscription_ids = map sb_azure_subscription_id subs, sq_mode = ''incremental'',
     sq_idempotency_key = key\<rparr>"

section \<open>Properties\<close>


text \<open>A reader of a tenant with one resource and one subscription, for the witnesses.\<close>

definition page_reader :: actor_context where
  "page_reader = sample_actor 2 {''inventory.resources.read'', ''inventory.sync.execute'', ''audit.read'', ''relationships.read''}"

definition sample_inventory :: inventory_db where
  "sample_inventory = empty_inventory\<lparr>resources := [sample_resource 1 ''/A''], subscriptions := [sample_subscription 7]\<rparr>"




text \<open>No subscription ever shows when it was last synchronized: whatever requests reach the service and
  whatever runs the worker completes, the moment stays unset, and what the page gets for each
  subscription is null, which it displays as not synchronized.\<close>

theorem subscriptions_never_synchronized:
  assumes "unsynced db"
  shows "unsynced (snd (create_app bracket_ok cfg ping fresh elapsed (serve fw (inventory_routes fw client cfg call)) req db))
    \<and> (\<forall>r db' s'. run_once pages env post cfg (db, s) = Some (r, db', s') \<longrightarrow> unsynced db')
    \<and> (\<forall>x \<in> set (list_subscriptions plan t db). \<exists>d. subscription_response x = JDict d \<and> map_of d ''last_sync_at'' = Some JNull)"
proof (intro conjI synchronization_keeper.app_keeps assms allI impI ballI)
  show "unsynced db'" if "run_once pages env post cfg (db, s) = Some (r, db', s')" for r db' s'
    using that assms by (rule run_once_unsynced)
  show "\<exists>d. subscription_response x = JDict d \<and> map_of d ''last_sync_at'' = Some JNull" if "x \<in> set (list_subscriptions plan t db)" for x
    using that assms by (auto simp: unsynced_def list_subscriptions_def subscription_response_def opt_time_def)
qed

lemma subscriptions_never_synchronized_witness:
  "unsynced empty_inventory \<and> unsynced sample_inventory
   \<and> (\<forall>r db' s'. run_once 1 (sample_worker [sample_azure]) (\<lambda>_ _ _ s. (Inr 200, s)) default_settings (one_job, ()) = Some (r, db', s')
        \<longrightarrow> unsynced db')"
proof (intro conjI)
  have "unsynced one_job" by (simp add: unsynced_def one_job_def empty_inventory_def)
  then show "\<forall>r db' s'. run_once 1 (sample_worker [sample_azure]) (\<lambda>_ _ _ s. (Inr 200, s)) default_settings (one_job, ()) = Some (r, db', s')
        \<longrightarrow> unsynced db'" by (rule subscriptions_never_synchronized [THEN conjunct2, THEN conjunct1])
qed (simp_all add: unsynced_def sample_inventory_def empty_inventory_def sample_subscription_def new_subscription_def)

text \<open>The button fails for a tenant of more than one hundred subscriptions: the request names all of them,
  and the service validates at most one hundred; from one to one hundred, the job is created.\<close>

theorem refresh_accepted_up_to_hundred:
  assumes "''inventory.sync.execute'' \<in> ac_permissions actor" "sy_commit env = None"
    and "8 \<le> length key" "length key \<le> 255" "list_subscriptions plan (ac_tenant_id actor) db \<noteq> []"
  shows "(\<exists>v. fst (create_sync_job_endpoint env actor (refresh_request (list_subscriptions plan (ac_tenant_id actor) db) key) db) = Inr v)
    \<longleftrightarrow> length (list_subscriptions plan (ac_tenant_id actor) db) \<le> 100"
proof -
  let ?subs = "list_subscriptions plan (ac_tenant_id actor) db" and ?q = "refresh_request (list_subscriptions plan (ac_tenant_id actor) db) key"
  have "set ?subs = set (list_subscriptions (\<lambda>_. 0) (ac_tenant_id actor) db)" by (simp add: list_subscriptions_def)
  then have "filter (\<lambda>u. u \<notin> set (map sb_azure_subscription_id (list_subscriptions (\<lambda>_. 0) (ac_tenant_id actor) db)))
      (sq_subscription_ids ?q) = []"
    by (auto simp: refresh_request_def filter_empty_conv)
  then have "\<exists>j db'. request_sync env actor ?q db = Inr (j, db')"
    by (simp add: request_sync_def Let_def split: prod.split)
  moreover have "sync_request_valid ?q \<longleftrightarrow> length ?subs \<le> 100"
    using assms(3-5) by (auto simp: sync_request_valid_def refresh_request_def Suc_le_eq)
  ultimately show ?thesis
    using assms(1,2) by (auto simp: create_sync_job_endpoint_def require_permission_def guardr_def unit_of_work_transaction
        transaction_def split: prod.splits)
qed

lemma refresh_accepted_up_to_hundred_witness:
  "\<exists>v. fst (create_sync_job_endpoint \<lparr>sy_job_id = 1, sy_event_id = 2, sy_outbox_id = 3, sy_clock = instant 0, sy_commit = None\<rparr>
     page_reader (refresh_request (list_subscriptions (\<lambda>_. 0) 2 sample_inventory) ''12345678'') sample_inventory) = Inr v"
proof -
  have "list_subscriptions (\<lambda>_. 0) 2 sample_inventory = [sample_subscription 7]"
    by (simp add: list_subscriptions_def scan_rows_def sample_inventory_def empty_inventory_def sample_subscription_def new_subscription_def)
  then show ?thesis
    using refresh_accepted_up_to_hundred [of page_reader
        "\<lparr>sy_job_id = 1, sy_event_id = 2, sy_outbox_id = 3, sy_clock = instant 0, sy_commit = None\<rparr>" "''12345678''" "\<lambda>_. 0" sample_inventory]
    by (simp add: page_reader_def sample_actor_def)
qed

end
