(* ===== verification/Spec2Isabelle.thy ===== *)
theory Spec2Isabelle
  imports Platform RowSecurity WorkerLoop GraphSync RelationshipRuns Intelligence Creation Migrations SchemaRules Lifecycle WebClient
begin

text \<open>
  Key Vault Sentinel: the Python services of the platform (\<open>apps/*-service\<close>) and their shared
  package (\<open>packages/python/sentinel_common\<close>), as a shallow embedding with theorems on each
  component and on their composition.

  \<^bold>\<open>The program.\<close> Six FastAPI services share a database server, each with tables of its own,
  and a package. A request passes the correlation and CSRF middleware (\<open>http.py\<close>), is resolved
  to an actor by the identity service's profile (\<open>auth.py\<close>), is checked for a permission, and
  runs its handler in a unit of work (\<open>db.py\<close>) that commits everything or nothing. Handlers put
  an audit event into the \<open>outbox\<close> table of the same transaction (\<open>audit.py\<close>); relays
  (\<open>outbox_worker.py\<close>) deliver the events to the audit service, which chains them by hashes.
  The identity service signs users in with Microsoft; the inventory service stores what its
  worker reads from Azure and posts it to the relationship service, which extracts the graph of
  references; change intelligence and operations record assessments and operations.

  \<^bold>\<open>The theories\<close>, in the order of the imports:
  \<^item> \<open>Prelude\<close>: UUIDs (128-bit words), timestamps (microseconds), JSON values, exceptions and
    results, the base rows of the tables (\<open>models.py\<close>), lists of rows. \<open>PyStr\<close>, \<open>Json\<close>, \<open>Clock\<close>:
    Python's strings, UUIDs, \<open>json.dumps\<close>, \<open>==\<close>, \<open>isoformat\<close>; the canonical JSON text is proved
    injective up to the order of keys.
  \<^item> \<open>Tables\<close>: selection, claim of a row, insert-or-update, tenant queries. Each is a locale
    (\<open>job_queue\<close>, \<open>keyed_upsert\<close>, \<open>tenant_query\<close>) that the components interpret. \<open>Db\<close>: the unit of
    work. \<open>SqlTables\<close>, \<open>Migrations\<close>: tables, constraints and the statements of the schema language;
    the three Alembic revisions and \<open>env.py\<close>, up and down. \<open>Config\<close>: settings and the ambient actor.
  \<^item> \<open>Http\<close>, \<open>Auth\<close>, \<open>Session\<close>: middleware; tokens, profiles and permissions; accounts, session
    cookies, Microsoft endpoints, secrets.
  \<^item> \<open>Outbox\<close>: events, the outbox and the relay, once as the loop that the code has and once as
    a step relation of any number of relays and producers; the loop refines the relation. The
    locale \<open>delivery\<close> states what a target must promise. \<open>AuditLog\<close>: the audit service, which
    interprets \<open>delivery\<close>.
  \<^item> \<open>Identity\<close>, \<open>IdentityMain\<close>: tenants, users, roles, sign-in and onboarding; the endpoints and
    login documents. \<open>Administrators\<close>: a step relation of overlapping sign-ins, and who becomes
    administrator. \<open>Lifecycle\<close>: the clients that the identity service opens and closes, and the
    database URL of the migrations.
  \<^item> \<open>Cursor\<close>, \<open>Inventory\<close>, \<open>InventoryWorker\<close>: page cursors; tables, queries, endpoints, jobs;
    the Azure clients and one run of the worker. \<open>WorkerLoop\<close>: its loop. \<open>RowSecurity\<close>: the policy of
    \<open>schema.sql\<close> on the resources, and what it does to a transaction.
  \<^item> \<open>Relationship\<close>, \<open>RelationshipGraph\<close>, \<open>RelationshipRuns\<close>, \<open>GraphSync\<close>: extraction and
    projection; the search for a dependency graph and the endpoints; the states that requests
    reach; the service as the target of the inventory worker.
  \<^item> \<open>Intelligence\<close>, \<open>Operations\<close>: assessments with their digests and the risk engine; the action
    catalog and the operations, none of which is ever executed.
  \<^item> \<open>Creation\<close>: a step relation of overlapping requests that create a row under a key; the locale
    \<open>creation\<close> is interpreted for synchronization jobs and for operations. \<open>Schemas\<close>: the response
    models of the services.
  \<^item> \<open>SchemaRules\<close>: the CHECK constraints, enumerations and foreign keys of \<open>schema.sql\<close>; the locale
    \<open>keeper\<close> carries what the handlers keep to the requests, and is interpreted for four services.
    \<open>WebClient\<close>: the TypeScript types that the pages of the web client (\<open>apps/web\<close>) give to the
    answers, and its requests.
  \<^item> \<open>Routing\<close>, \<open>Services\<close>, \<open>IdentityRoutes\<close>, \<open>Platform\<close>: the decorators and dependencies. A service
    is a table of routes behind the middleware; the locales \<open>guarded\<close> and \<open>gateway\<close> state what a
    table keeps, and are interpreted for the six services. In \<open>Platform\<close> the identity service is
    the profile client of the others.

  \<^bold>\<open>Correspondence.\<close> A table is a list of records, in the order of insertion; a class is a record;
  a function or method is a definition of the same name, where Isabelle allows it. A handler
  takes the database and returns its answer, or the exception it raises, and the new database.
  What the outside decides is an argument: ids of new rows, clocks (\<open>tx_now\<close>, the start of the
  transaction, and \<open>py_now\<close>), the outcome of commits, and the order in which PostgreSQL returns
  rows that no \<open>ORDER BY\<close> orders (a \<open>plan\<close>). Code that is not in the repository is a parameter:
  PyJWT (\<open>jwt_lib\<close>, \<open>session_jwt\<close>), Fernet (\<open>fernet_lib\<close>), pydantic's readers of texts
  (\<open>pydantic_lib\<close>), SHA-256 (\<open>sha\<close>), FastAPI's matching of routes and reading of requests (\<open>framework\<close>), HTTP clients (\<open>http_get\<close>, \<open>http_post\<close>, \<open>form_post\<close>), the Azure
  SDK. What is assumed of one is a hypothesis of the theorem that needs it.

  \<^bold>\<open>What is shown.\<close> End to end: an outbox row marked as published has its event in the audit log,
  and after a successful synchronization the graph has a node for every resource of Azure.
  Audit: ingestion is idempotent; the log of a tenant is a hash chain when transactions do not
  overlap, whose newest hash pins down what was written, and forks when they do. A refused event
  is retried after growing delays and given up after twenty. Identity: tokens, the OAuth callback,
  sessions and onboarding admit nobody they should not and keep tenants apart; a session cookie
  resolves to the person whom the ID token named; the first user of
  a new tenant, and no other, becomes its administrator however sign-ins overlap, which fails
  where the tenant was there before. Inventory: pages are
  complete, jobs run once and end completed or failed with the error of their run, requests are
  idempotent, resources are stored once. Graph: the
  references extracted are exactly those in the properties, the active edges exactly the
  references, the answer exactly the reachable part unless truncated, and within its limits.
  Operations: creation is idempotent, also when requests overlap, and nothing is ever executed.
  The services change their state, or answer with success, only for requests that the identity
  service vouches for or that carry the internal token, and their guards open exactly for these.
  The answers of the endpoints have the types that the web client declares for them, but for
  nulls in optional fields. Row-level security confines a unit of work
  to its tenant, and the worker, which sets no tenant, can store nothing unless its role bypasses
  it. The migration to scope keys keeps every organization reachable, and its downgrade can be
  undone exactly when no two tenants share an Entra tenant. The worker empties its queue. No
  service writes a row that the constraints of the schema refuse, but for the tenant of a
  personal account with a blank name.

  \<^bold>\<open>Loops.\<close> \<open>visit\<close> of the extraction ends by the size of the value, the loops over rows are structural. The search goes over
  \<open>max_depth\<close> levels. \<open>query_pages\<close>, \<open>follow_pages\<close> and \<open>run_once\<close> take a number of pages as fuel,
  return \<open>None\<close> when it runs out, and are proved to return with as many as the service has pages,
  or one more than there are rows. \<open>relay_run\<close> and \<open>worker_main\<close>, whose loops never end in the code,
  take the list of their turns, of any length.

  \<^bold>\<open>Not modelled.\<close> What is left of the Python code is without behaviour of its own or hands over to
  a library: imports, the creation of engines, session factories and clients from the settings,
  logging set-up and the logging publisher (unused), the CORS middleware, the \<open>Protocol\<close> classes
  without implementation (executors), the text of the Resource Graph query, the offline mode of
  \<open>env.py\<close>, which prints SQL. Of \<open>schema.sql\<close> the tables that no service writes, indexes, grants
  and roles; the widths of text columns, and that the driver sends a column of the models'
  \<open>String\<close> type to an enumeration. Transactions overlap in the relay, the audit log, the creation
  of jobs and operations and in sign-ins; elsewhere each runs alone, with any failure of its
  commit. Characters above code point 255; manifests, Terraform, and of the
  web client everything but the types of answers and the parameters of requests. Alembic's own
  table of revisions; the offset of an event time that is not in UTC.
\<close>

section \<open>Properties that span components\<close>

text \<open>C1: What a service says it has published, the audit service has stored: in every state that any
  number of producers, relays and other clients can reach, whatever crashes, lost answers and
  expired leases, the event of each outbox row marked as published is in the audit log under
  its tenant and id.\<close>

theorem published_events_are_stored:
  assumes "(relay_step px (audit_post px sha cfg env) cfg)\<^sup>*\<^sup>* (relay_start s) st"
    and "\<And>u. px_uuid px (uuid_str u) = Some u"
    and "row \<in> set (rs_rows st)" "ob_status row = ''published''"
  shows "\<exists>e. load_event px 0 0 (ob_payload row) = Inr e
    \<and> (\<exists>r \<in> set (audit_logs (fst (rs_target st))). tenant_id r = ev_tenant_id e \<and> al_event_id r = ev_id e)"
proof -
  have "holds_payload px (rs_target st) (ob_payload row)"
    using audit_delivery.reachable_delivered [OF assms(1)] assms(3,4) by (auto simp: audit_delivery.delivered_def)
  moreover have "reads_uuids px" using assms(2) by (simp add: reads_uuids_def)
  ultimately show ?thesis by (auto simp: holds_payload_def stores_event_def)
qed

definition sample_ingest_env :: ingest_env where
  "sample_ingest_env = \<lparr>ie_row_id = 1, ie_activity_id = 2, ie_clock = instant 5, ie_commit = None, ie_fresh = 0, ie_lost = False\<rparr>"

lemma published_events_are_stored_witness:
  "\<exists>st row. (relay_step sync_px (audit_post sync_px (\<lambda>s. s) sync_settings (\<lambda>_. sample_ingest_env)) sync_settings)\<^sup>*\<^sup>*
        (relay_start (empty_audit, 0)) st
     \<and> row \<in> set (rs_rows st) \<and> ob_status row = ''published'' \<and> audit_logs (fst (rs_target st)) \<noteq> []"
proof -
  let ?post = "audit_post sync_px (\<lambda>s. s) sync_settings (\<lambda>_. sample_ingest_env)"
  let ?step = "relay_step sync_px ?post sync_settings"
  let ?row = "outbox_record 1 0 (sample_event 9)"
  let ?m = "mark_publishing 5 ?row"
  have reads: "reads_event sync_px (sample_event 9)" by (simp add: reads_event_def sample_event_def sync_px_def)
  have load: "load_event sync_px f n (JDict (dump_event (sample_event 9))) = Inr (sample_event 9)" for f n
    using load_dump_event [OF reads] by (simp add: json_event_def sample_event_def)
  obtain db1 u where "ingest_event (\<lambda>s. s) sync_settings sample_ingest_env (Some ''token'') (sample_event 9) empty_audit
      = (Inr u, db1)"
    by (auto simp: ingest_event_def internal_guard_def sync_settings_def present_def unit_of_work_transaction
        transaction_def db_fault_def sample_ingest_env_def ingest_def append_record_def find_event_def empty_audit_def
        activity_user_def sample_event_def Let_def)
  then have "relay_publish sync_px ?post sync_settings ?m (empty_audit, 0) = (Inr (), (db1, Suc 0))"
    by (simp add: relay_publish_def mark_publishing_def outbox_record_def load http_publish_def audit_post_def
        sample_ingest_env_def sync_settings_def opt_header_def raise_for_status_def success_status_def Let_def)
  moreover have "claim_outbox {} 5 [?row] = (Some ?m, [?m])"
    by (simp add: claim_outbox_def claim_row_def select_first_def outbox_claimable_def outbox_record_def)
  ultimately obtain row where run: "relay_run sync_px ?post sync_settings [sample_turn 5] ([?row], (empty_audit, 0))
      = ([Delivered], [row], (db1, Suc 0))" and row: "ob_status row = ''published''"
    by (simp add: relay_iteration_def sample_turn_def transaction_def settle_published_def assigned_def mark_publishing_def)
  let ?st = "relay_at [row] {} (db1, Suc 0)"
  have "?step (relay_start (empty_audit, 0)) (relay_at [?row] {} (empty_audit, 0))"
    using relay_step.enqueue [of 1 "relay_start (empty_audit, 0)" sync_px ?post sync_settings 0 "sample_event 9"]
    by (simp add: relay_start_def)
  then have reach: "?step\<^sup>*\<^sup>* (relay_start (empty_audit, 0)) ?st"
    using relay_run_steps [OF run] by (rule converse_rtranclp_into_rtranclp)
  have "px_uuid sync_px (uuid_str u) = Some u" for u by (simp add: sync_px_def)
  from published_events_are_stored [OF reach this] row have "audit_logs (fst (rs_target ?st)) \<noteq> []" by auto
  then show ?thesis using reach row by (intro exI [of _ ?st] exI [of _ row]) simp
qed

end
